(* ===== verification/Prelude.thy ===== *)
theory Prelude
  imports Complex_Main "HOL-Library.Word"
begin

text \<open>
  What every component of the development shares.

  \<^item> \<open>app_error\<close> and \<open>result\<close>: the error classes of \<^verbatim>\<open>src/src/utils/response.ts\<close>
    as values; a handler that throws returns \<open>Inl\<close>, and because a thrown error rolls the
    transaction back the caller keeps the old state.  Message texts are not modelled, the
    HTTP status and the machine-readable code are.
  \<^item> The part of JavaScript the code relies on: \<open>Math.round\<close>, \<open>toFixed(2)\<close>,
    \<open>Number(string)\<close>, \<open>parseInt(s, 10)\<close> and \<open>split\<close>.  Numbers that the code
    computes with fractions (hours, money, percentages) are exact rationals; counts, minutes,
    milliseconds and day numbers are integers.  The rounding of binary floating point is not
    modelled.
  \<^item> Prisma's table operations on lists of rows, and the effects a handler leaves behind
    (notifications, audit rows, organisation events).
  \<^item> The locale \<open>single_shot\<close>: the contract of a conditional update
    (\<open>updateMany ... where status = 'pending'\<close>) that several workflows rely on.
\<close>

named_theorems handler_simps \<open>definitions of the request handlers, unfolded in case analyses\<close>
named_theorems js_simps \<open>definitions of the JavaScript number and string helpers\<close>

type_synonym id = string
type_synonym instant = int
type_synonym day = int

subsection \<open>Errors\<close>

datatype app_error =
    AppError (statusCode: int) (errCode: string)
  | PlainError

type_synonym 'a result = "app_error + 'a"

definition NotFoundError :: app_error where
  "NotFoundError = AppError 404 ''NOT_FOUND''"

definition UnauthorizedError :: app_error where
  "UnauthorizedError = AppError 401 ''UNAUTHORIZED''"

definition ForbiddenError :: app_error where
  "ForbiddenError = AppError 403 ''FORBIDDEN''"

definition ValidationError :: app_error where
  "ValidationError = AppError 422 ''VALIDATION_ERROR''"

definition ConflictError :: app_error where
  "ConflictError = AppError 409 ''CONFLICT''"

definition bind_result :: "'a result \<Rightarrow> ('a \<Rightarrow> 'b result) \<Rightarrow> 'b result" where
  "bind_result r f = (case r of Inl e \<Rightarrow> Inl e | Inr x \<Rightarrow> f x)"

definition require :: "bool \<Rightarrow> app_error \<Rightarrow> 'a result \<Rightarrow> 'a result" where
  "require ok e k = (if ok then k else Inl e)"

subsection \<open>JavaScript numbers and strings\<close>

definition js_round :: "rat \<Rightarrow> int" where
  "js_round x = \<lfloor>x + 1 / 2\<rfloor>"

definition round2 :: "rat \<Rightarrow> rat" where
  "round2 x = of_int (js_round (x * 100)) / 100"

definition toFixed2 :: "rat \<Rightarrow> rat" where
  "toFixed2 x = (if x < 0 then - round2 (- x) else round2 x)"

text \<open>\<open>calcHoursWorked\<close> of \<^verbatim>\<open>src/src/utils/auth.ts\<close>: the hours between two instants in milliseconds.\<close>

definition calcHoursWorked :: "int \<Rightarrow> int \<Rightarrow> rat" where
  "calcHoursWorked checkIn checkOut = round2 (of_int (checkOut - checkIn) / 3600000)"

definition is_digit :: "char \<Rightarrow> bool" where
  "is_digit c \<longleftrightarrow> 48 \<le> (of_char c :: nat) \<and> (of_char c :: nat) \<le> 57"

definition is_upper :: "char \<Rightarrow> bool" where
  "is_upper c \<longleftrightarrow> 65 \<le> (of_char c :: nat) \<and> (of_char c :: nat) \<le> 90"

definition is_lower :: "char \<Rightarrow> bool" where
  "is_lower c \<longleftrightarrow> 97 \<le> (of_char c :: nat) \<and> (of_char c :: nat) \<le> 122"

definition is_space :: "char \<Rightarrow> bool" where
  "is_space c \<longleftrightarrow> (of_char c :: nat) \<in> {9, 10, 11, 12, 13, 32}"

definition trim :: "string \<Rightarrow> string" where
  "trim s = rev (dropWhile is_space (rev (dropWhile is_space s)))"

definition dec_value :: "string \<Rightarrow> nat" where
  "dec_value = foldl (\<lambda>a c. 10 * a + (of_char c - 48)) 0"

fun split_on :: "char \<Rightarrow> string \<Rightarrow> string list" where
  "split_on c [] = [[]]"
| "split_on c (x # xs) =
     (if x = c then [] # split_on c xs
      else case split_on c xs of [] \<Rightarrow> [[x]] | y # ys \<Rightarrow> (x # y) # ys)"

definition nth_opt :: "'a list \<Rightarrow> nat \<Rightarrow> 'a option" where
  "nth_opt xs i = (if i < length xs then Some (xs ! i) else None)"

definition split_sign :: "string \<Rightarrow> bool \<times> string" where
  "split_sign s =
     (case s of [] \<Rightarrow> (False, [])
      | c # r \<Rightarrow> if c = CHR ''-'' then (True, r) else if c = CHR ''+'' then (False, r) else (False, s))"

text \<open>\<open>Number(s)\<close> for a string: decimal literals with an optional fraction and exponent,
  surrounding white space allowed, the empty string is 0; \<open>None\<close> is \<open>NaN\<close>.  The
  literals \<open>Infinity\<close>, \<open>0x..\<close>, \<open>0o..\<close>, \<open>0b..\<close> are read as \<open>NaN\<close>: no
  input the code accepts contains them.\<close>

definition exponent_of :: "string \<Rightarrow> rat option" where
  "exponent_of r =
     (case r of [] \<Rightarrow> Some 1
      | c # t \<Rightarrow>
          if c = CHR ''e'' \<or> c = CHR ''E'' then
            (case split_sign t of (neg, ds) \<Rightarrow>
               if ds \<noteq> [] \<and> list_all is_digit ds
               then Some (if neg then 1 / 10 ^ dec_value ds else 10 ^ dec_value ds)
               else None)
          else None)"

definition js_number :: "string \<Rightarrow> rat option" where
  "js_number s =
     (let t = trim s in
      if t = [] then Some 0
      else case split_sign t of (neg, u) \<Rightarrow>
        (let ip = takeWhile is_digit u;
             r1 = dropWhile is_digit u;
             dot = (r1 \<noteq> [] \<and> hd r1 = CHR ''.'');
             fp = (if dot then takeWhile is_digit (tl r1) else []);
             r2 = (if dot then dropWhile is_digit (tl r1) else r1)
         in if ip = [] \<and> fp = [] then None
            else case exponent_of r2 of None \<Rightarrow> None
              | Some e \<Rightarrow>
                  (let v = (of_nat (dec_value ip) + of_nat (dec_value fp) / 10 ^ length fp) * e
                   in Some (if neg then - v else v))))"

definition js_parse_int :: "string \<Rightarrow> int option" where
  "js_parse_int s =
     (case split_sign (dropWhile is_space s) of (neg, u) \<Rightarrow>
        (let ds = takeWhile is_digit u
         in if ds = [] then None
            else Some (if neg then - int (dec_value ds) else int (dec_value ds))))"

text \<open>\<open>x || 0\<close> on the result of \<open>Number\<close>, and \<open>x ?? d\<close> on a nullable value.\<close>

definition or_zero :: "rat option \<Rightarrow> rat" where
  "or_zero x = (case x of None \<Rightarrow> 0 | Some v \<Rightarrow> v)"

definition coalesce :: "'a option \<Rightarrow> 'a \<Rightarrow> 'a" where
  "coalesce x d = (case x of None \<Rightarrow> d | Some v \<Rightarrow> v)"

definition coalesce_opt :: "'a option \<Rightarrow> 'a option \<Rightarrow> 'a option" where
  "coalesce_opt x y = (case x of None \<Rightarrow> y | Some v \<Rightarrow> Some v)"

definition coalesce_str :: "string option \<Rightarrow> string \<Rightarrow> string" where
  "coalesce_str x d = (case x of None \<Rightarrow> d | Some v \<Rightarrow> if v = [] then d else v)"

subsection \<open>Fields of a request body\<close>

text \<open>A field whose type or presence the code tests: absent, \<open>null\<close>, of another type or unreadable, or a value.\<close>

datatype 'a field = Absent | Null | Bad | Given 'a

subsection \<open>Tables and effects\<close>

definition update_where :: "('a \<Rightarrow> bool) \<Rightarrow> ('a \<Rightarrow> 'a) \<Rightarrow> 'a list \<Rightarrow> 'a list" where
  "update_where p f xs = map (\<lambda>x. if p x then f x else x) xs"

definition count_where :: "('a \<Rightarrow> bool) \<Rightarrow> 'a list \<Rightarrow> nat" where
  "count_where p xs = length (filter p xs)"

definition find_first :: "('a \<Rightarrow> bool) \<Rightarrow> 'a list \<Rightarrow> 'a option" where
  "find_first p xs = find p xs"

definition find_asc :: "('a \<Rightarrow> 'b::linorder) \<Rightarrow> ('a \<Rightarrow> bool) \<Rightarrow> 'a list \<Rightarrow> 'a option" where
  "find_asc k p xs = (case sort_key k (filter p xs) of [] \<Rightarrow> None | x # _ \<Rightarrow> Some x)"

definition find_desc :: "('a \<Rightarrow> int) \<Rightarrow> ('a \<Rightarrow> bool) \<Rightarrow> 'a list \<Rightarrow> 'a option" where
  "find_desc k p xs = find_asc (\<lambda>x. - k x) p xs"

text \<open>A \<open>Map\<close> of running totals: \<open>m.set(k, (m.get(k) ?? 0) + v)\<close>, keys in the order of their first use.\<close>

fun add_total :: "'k \<Rightarrow> 'v::plus \<Rightarrow> ('k \<times> 'v) list \<Rightarrow> ('k \<times> 'v) list" where
  "add_total k v [] = [(k, v)]"
| "add_total k v ((l, w) # xs) = (if k = l then (l, w + v) # xs else (l, w) # add_total k v xs)"

datatype effect =
    Notify (nUser: id) (nType: string) (nAction: id)
  | Audit (aAction: string) (aEntity: id)
  | OrgEvent string

subsection \<open>Lemmas on the helpers\<close>

lemma bind_result_Inr [simp]: "bind_result (Inr x) f = f x"
  by (simp add: bind_result_def)

lemma bind_result_Inl [simp]: "bind_result (Inl e) f = Inl e"
  by (simp add: bind_result_def)

lemma bind_result_eq_Inr [simp]:
  "bind_result r f = Inr y \<longleftrightarrow> (\<exists>x. r = Inr x \<and> f x = Inr y)"
  by (cases r) auto

lemma require_eq_Inr [simp]: "require ok e k = Inr y \<longleftrightarrow> ok \<and> k = Inr y"
  by (simp add: require_def)

lemma require_True [simp]: "require True e k = k"
  by (simp add: require_def)

lemma require_False [simp]: "require False e k = Inl e"
  by (simp add: require_def)

lemma coalesce_simps [simp]: "coalesce None d = d" "coalesce (Some v) d = v"
  by (simp_all add: coalesce_def)

lemma coalesce_opt_simps [simp]: "coalesce_opt None y = y" "coalesce_opt (Some v) y = Some v"
  by (simp_all add: coalesce_opt_def)

lemma or_zero_simps [simp]: "or_zero None = 0" "or_zero (Some v) = v"
  by (simp_all add: or_zero_def)

lemma js_round_of_int [simp]: "js_round (of_int n) = n"
proof -
  have "\<lfloor>(of_int n + 1 / 2 :: rat)\<rfloor> = n" by (rule floor_unique) auto
  then show ?thesis by (simp add: js_round_def)
qed

lemma js_round_mono: "x \<le> y \<Longrightarrow> js_round x \<le> js_round y"
  by (simp add: js_round_def floor_mono)

lemma js_round_nonneg: "0 \<le> x \<Longrightarrow> 0 \<le> js_round x"
  by (simp add: js_round_def)

lemma js_round_bounds: "x - 1 / 2 < of_int (js_round x)" "of_int (js_round x) \<le> x + 1 / 2"
proof -
  have "x + 1 / 2 < of_int (\<lfloor>x + 1 / 2\<rfloor>) + 1" by linarith
  then show "x - 1 / 2 < of_int (js_round x)" by (simp add: js_round_def)
  show "of_int (js_round x) \<le> x + 1 / 2" by (simp add: js_round_def)
qed

lemma round2_mono: "x \<le> y \<Longrightarrow> round2 x \<le> round2 y"
  unfolding round2_def by (intro divide_right_mono) (simp_all add: js_round_mono)

lemma round2_nonneg: "0 \<le> x \<Longrightarrow> 0 \<le> round2 x"
  by (simp add: round2_def js_round_nonneg)

lemma round2_bounds: "x - 1 / 200 < round2 x" "round2 x \<le> x + 1 / 200"
  using js_round_bounds[of "x * 100"] by (simp_all add: round2_def field_simps)

lemma round2_cents [simp]: "round2 (of_int n / 100) = of_int n / 100"
  by (simp add: round2_def)

lemma round2_zero [simp]: "round2 0 = 0"
  using round2_cents[of 0] by simp

lemma round2_idem [simp]: "round2 (round2 x) = round2 x"
  by (simp add: round2_def[of x])

lemma toFixed2_cents [simp]: "toFixed2 (of_int n / 100) = of_int n / 100"
proof -
  have "round2 (of_int (- n) / 100) = of_int (- n) / 100" by (rule round2_cents)
  then show ?thesis unfolding toFixed2_def by (simp del: round2_cents add: round2_cents[of n])
qed

lemma of_char_digit: "n < 10 \<Longrightarrow> (of_char (char_of (48 + n :: nat)) :: nat) = 48 + n"
  by (simp add: of_char_of)

lemma is_digit_not: "is_digit c \<Longrightarrow> \<not> is_space c" "is_digit c \<Longrightarrow> c \<noteq> CHR ''-''" "is_digit c \<Longrightarrow> c \<noteq> CHR ''+''"
  by (auto simp: is_digit_def is_space_def)

lemma dropWhile_none: "\<forall>c\<in>set xs. \<not> p c \<Longrightarrow> dropWhile p xs = xs"
  by (cases xs) auto

lemma trim_digits: "list_all is_digit s \<Longrightarrow> trim s = s"
  unfolding trim_def
  by (subst dropWhile_none, simp add: list_all_iff is_digit_not)
    (subst dropWhile_none, auto simp: list_all_iff is_digit_not)

lemma split_sign_digits: "list_all is_digit s \<Longrightarrow> split_sign s = (False, s)"
  by (cases s) (auto simp: split_sign_def is_digit_not)

lemma js_number_digits:
  assumes "list_all is_digit s" "s \<noteq> []"
  shows "js_number s = Some (of_nat (dec_value s))"
proof -
  have t: "takeWhile is_digit s = s" "dropWhile is_digit s = []"
    using assms by (simp_all add: takeWhile_eq_all_conv dropWhile_eq_Nil_conv list_all_iff)
  show ?thesis
    using assms
    by (simp add: js_number_def trim_digits split_sign_digits t Let_def exponent_of_def)
      (simp add: dec_value_def t)
qed

lemma length_update_where [simp]: "length (update_where p f xs) = length xs"
  by (simp add: update_where_def)

lemma update_where_simps [simp]:
  "update_where p f [] = []"
  "update_where p f (x # xs) = (if p x then f x else x) # update_where p f xs"
  by (simp_all add: update_where_def)

lemma count_where_zero: "count_where p xs = 0 \<longleftrightarrow> (\<forall>x\<in>set xs. \<not> p x)"
  by (simp add: count_where_def filter_empty_conv)

lemma set_update_where: "set (update_where p f xs) = f ` {x \<in> set xs. p x} \<union> {x \<in> set xs. \<not> p x}"
  by (induction xs) auto

lemma update_where_row: "x \<in> set xs \<Longrightarrow> (if p x then f x else x) \<in> set (update_where p f xs)"
  by (simp add: update_where_def)

lemma update_where_E: "y \<in> set (update_where p f xs) \<Longrightarrow> \<exists>x\<in>set xs. y = (if p x then f x else x)"
  unfolding update_where_def set_map by (elim imageE) blast

lemma find_first_Some: "find_first p xs = Some x \<Longrightarrow> x \<in> set xs \<and> p x"
  by (auto simp: find_first_def find_Some_iff)

lemma find_first_None: "find_first p xs = None \<longleftrightarrow> (\<forall>x\<in>set xs. \<not> p x)"
  by (auto simp: find_first_def find_None_iff)

lemma find_first_simps [simp]:
  "find_first p [] = None"
  "find_first p (x # xs) = (if p x then Some x else find_first p xs)"
  by (simp_all add: find_first_def)

lemma find_asc_Some:
  assumes "find_asc k p xs = Some x"
  shows "x \<in> set xs" and "p x" and "\<And>y. y \<in> set xs \<Longrightarrow> p y \<Longrightarrow> k x \<le> k y"
proof -
  obtain ys where ys: "sort_key k (filter p xs) = x # ys"
    using assms by (auto simp: find_asc_def split: list.splits)
  have "set (x # ys) = set (filter p xs)" by (metis ys set_sort)
  moreover have "sorted (map k (x # ys))" by (metis ys sorted_sort_key)
  ultimately show "x \<in> set xs" "p x" "\<And>y. y \<in> set xs \<Longrightarrow> p y \<Longrightarrow> k x \<le> k y"
    by (auto simp: set_eq_iff)
qed

lemma find_asc_None: "find_asc k p xs = None \<longleftrightarrow> (\<forall>x\<in>set xs. \<not> p x)"
proof -
  have "sort_key k (filter p xs) = [] \<longleftrightarrow> filter p xs = []"
    by (metis length_0_conv length_sort)
  then show ?thesis by (auto simp: find_asc_def filter_empty_conv split: list.splits)
qed

lemma find_desc_Some:
  assumes "find_desc k p xs = Some x"
  shows "x \<in> set xs" and "p x" and "\<And>y. y \<in> set xs \<Longrightarrow> p y \<Longrightarrow> k y \<le> k x"
  using find_asc_Some[of "\<lambda>x. - k x" p xs x] assms by (auto simp: find_desc_def)

lemma find_desc_None: "find_desc k p xs = None \<longleftrightarrow> (\<forall>x\<in>set xs. \<not> p x)"
  by (simp add: find_desc_def find_asc_None)

lemmas result_splits = sum.splits option.splits if_splits prod.splits

subsection \<open>Conditional updates that succeed at most once\<close>

text \<open>A run of attempts against a changing state: a failed attempt leaves the state as it
  was, a successful one replaces it.  The first component counts the successes.\<close>

fun attempts :: "('a \<Rightarrow> 's \<Rightarrow> 'e + 's) \<Rightarrow> 'a list \<Rightarrow> 's \<Rightarrow> nat \<times> 's" where
  "attempts act [] s = (0, s)"
| "attempts act (a # as) s =
     (case act a s of
        Inl e \<Rightarrow> attempts act as s
      | Inr s' \<Rightarrow> (case attempts act as s' of (n, t) \<Rightarrow> (Suc n, t)))"

lemma attempts_invariant:
  assumes "\<And>a s s'. P s \<Longrightarrow> act a s = Inr s' \<Longrightarrow> P s'" and "P s"
  shows "P (snd (attempts act as s))"
  using assms(2)
proof (induction as arbitrary: s)
  case (Cons a as)
  show ?case
  proof (cases "act a s")
    case (Inl e)
    then show ?thesis using Cons by simp
  next
    case (Inr s')
    then have "P (snd (attempts act as s'))" using Cons.IH assms(1)[OF Cons.prems] by blast
    then show ?thesis using Inr by (cases "attempts act as s'") simp
  qed
qed simp

locale single_shot =
  fixes act :: "'a \<Rightarrow> 's \<Rightarrow> 'e + 's"
    and available :: "'s \<Rightarrow> bool"
  assumes consumes: "act a s = Inr s' \<Longrightarrow> available s \<and> \<not> available s'"
begin

lemma blocked: "\<not> available s \<Longrightarrow> \<exists>e. act a s = Inl e"
  using consumes by (cases "act a s") auto

lemma blocked_attempts: "\<not> available s \<Longrightarrow> attempts act as s = (0, s)"
proof (induction as)
  case Nil
  show ?case by simp
next
  case (Cons a as)
  obtain e where "act a s = Inl e" using blocked[OF Cons.prems] by blast
  with Cons show ?case by simp
qed

lemma at_most_one: "fst (attempts act as s) \<le> 1"
proof (induction as arbitrary: s)
  case Nil
  show ?case by simp
next
  case (Cons a as)
  show ?case
  proof (cases "act a s")
    case (Inl e)
    with Cons show ?thesis by simp
  next
    case (Inr s')
    then have "\<not> available s'" using consumes by blast
    then have "attempts act as s' = (0, s')" by (rule blocked_attempts)
    with Inr show ?thesis by simp
  qed
qed

lemma second_fails: "act a s = Inr s' \<Longrightarrow> \<exists>e. act b s' = Inl e"
  using consumes blocked by blast

end

end
