(* ===== verification/Calendar.thy ===== *)
theory Calendar
  imports Prelude
begin

text \<open>
  The Gregorian calendar behind JavaScript's \<open>Date\<close>: instants are milliseconds since the
  epoch, date-only values (Prisma \<open>@db.Date\<close> columns and \<open>YYYY-MM-DD\<close> keys) are day
  numbers since 1970-01-01.  A \<open>YYYY-MM-DD\<close> string and its day number determine each
  other and are ordered alike for the years 0 to 9999, so keys are day numbers throughout.
  \<open>yearOf\<close>, \<open>monthOf\<close>, \<open>dayOf\<close> and \<open>weekdayOf\<close> are \<open>getUTCFullYear\<close>,
  \<open>getUTCMonth() + 1\<close>, \<open>getUTCDate\<close> and \<open>getUTCDay\<close>; \<open>utc_day\<close> is
  \<open>Date.UTC\<close> with its overflow of months and days.  The lemmas show that the two directions
  are inverse to each other.
\<close>

definition day_ms :: int where
  "day_ms = 86400000"

definition leap :: "int \<Rightarrow> bool" where
  "leap y \<longleftrightarrow> y mod 4 = 0 \<and> (y mod 100 \<noteq> 0 \<or> y mod 400 = 0)"

definition days_before_year :: "int \<Rightarrow> int" where
  "days_before_year y = 365 * (y - 1970) + (y - 1) div 4 - (y - 1) div 100 + (y - 1) div 400 - 477"

definition month_start :: "bool \<Rightarrow> int \<Rightarrow> int" where
  "month_start l m =
     (if m \<le> 1 then 0 else if m = 2 then 31 else
       (if l then 1 else 0) +
       (if m = 3 then 59 else if m = 4 then 90 else if m = 5 then 120 else if m = 6 then 151
        else if m = 7 then 181 else if m = 8 then 212 else if m = 9 then 243
        else if m = 10 then 273 else if m = 11 then 304 else if m = 12 then 334 else 365))"

definition month_length :: "bool \<Rightarrow> int \<Rightarrow> int" where
  "month_length l m = month_start l (m + 1) - month_start l m"

definition month_of_doy :: "bool \<Rightarrow> int \<Rightarrow> int" where
  "month_of_doy l d =
     (let k = (if l then 1 else 0) in
      if d < 31 then 1 else if d < 59 + k then 2 else if d < 90 + k then 3
      else if d < 120 + k then 4 else if d < 151 + k then 5 else if d < 181 + k then 6
      else if d < 212 + k then 7 else if d < 243 + k then 8 else if d < 273 + k then 9
      else if d < 304 + k then 10 else if d < 334 + k then 11 else 12)"

definition civil_day :: "int \<Rightarrow> int \<Rightarrow> int \<Rightarrow> day" where
  "civil_day y m d = days_before_year y + month_start (leap y) m + d - 1"

definition utc_day :: "int \<Rightarrow> int \<Rightarrow> int \<Rightarrow> day" where
  "utc_day y m0 d = civil_day (y + m0 div 12) (m0 mod 12 + 1) d"

definition yearOf :: "day \<Rightarrow> int" where
  "yearOf n =
     (let y = 1970 + (400 * n) div 146097
      in if n < days_before_year y then y - 1
         else if days_before_year (y + 1) \<le> n then y + 1 else y)"

definition monthOf :: "day \<Rightarrow> int" where
  "monthOf n = month_of_doy (leap (yearOf n)) (n - days_before_year (yearOf n))"

definition dayOf :: "day \<Rightarrow> int" where
  "dayOf n = n - civil_day (yearOf n) (monthOf n) 1 + 1"

definition weekdayOf :: "day \<Rightarrow> int" where
  "weekdayOf n = (n + 4) mod 7"

definition day_of_instant :: "instant \<Rightarrow> day" where
  "day_of_instant t = t div day_ms"

definition minute_of_day :: "instant \<Rightarrow> int" where
  "minute_of_day t = (t mod day_ms) div 60000"

subsection \<open>Years\<close>

lemma div_pred: "0 < k \<Longrightarrow> y div k = (y - 1) div k + (if y mod k = 0 then 1 else 0)" for k y :: int
proof -
  assume k: "0 < k"
  have y: "y = k * (y div k) + y mod k" by simp
  have r: "0 \<le> y mod k" "y mod k < k" using k by simp_all
  show ?thesis
  proof (cases "y mod k = 0")
    case True
    have "(y - 1) div k = y div k - 1"
      by (rule int_div_pos_eq[where r = "k - 1"]) (use y True k in \<open>auto simp: algebra_simps\<close>)
    with True show ?thesis by simp
  next
    case False
    have "(y - 1) div k = y div k"
      by (rule int_div_pos_eq[where r = "y mod k - 1"]) (use y False r in \<open>auto simp: algebra_simps\<close>)
    with False show ?thesis by simp
  qed
qed

lemma div_bracket: "0 < k \<Longrightarrow> k * (x div k) \<le> x \<and> x < k * (x div k) + k" for k x :: int
  using pos_mod_bound[of k x] pos_mod_sign[of k x] mult_div_mod_eq[of k x] by linarith

lemma mod_chain: "y mod 400 = 0 \<Longrightarrow> y mod 100 = 0" "y mod 100 = 0 \<Longrightarrow> y mod 4 = 0" for y :: int
proof -
  have "(100::int) dvd 400" "(4::int) dvd 100" by simp_all
  then show "y mod 400 = 0 \<Longrightarrow> y mod 100 = 0" "y mod 100 = 0 \<Longrightarrow> y mod 4 = 0"
    using dvd_trans by (metis dvd_eq_mod_eq_0)+
qed

definition leap_days :: "int \<Rightarrow> int" where
  "leap_days y = y div 4 - y div 100 + y div 400"

lemma leap_count:
  assumes "C \<Longrightarrow> B" "B \<Longrightarrow> A"
  shows "p + (if A then 1 else 0) - (q + (if B then 1 else 0)) + (t + (if C then 1 else 0)) =
    p - q + t + (if A \<and> (\<not> B \<or> C) then 1 else (0::int))"
  using assms by (cases A; cases B; cases C) simp_all

lemma leap_days_pred: "leap_days y = leap_days (y - 1) + (if leap y then 1 else 0)"
proof -
  have a: "y div 4 = (y - 1) div 4 + (if y mod 4 = 0 then 1 else 0)"
    and b: "y div 100 = (y - 1) div 100 + (if y mod 100 = 0 then 1 else 0)"
    and c: "y div 400 = (y - 1) div 400 + (if y mod 400 = 0 then 1 else 0)"
    by (rule div_pred; simp)+
  show ?thesis
    by (simp only: leap_days_def leap_def a b c) (rule leap_count; rule mod_chain)
qed

lemma days_before_year_leap_days: "days_before_year y = 365 * (y - 1970) + leap_days (y - 1) - 477"
  by (simp only: days_before_year_def leap_days_def algebra_simps)

lemma days_before_year_Suc:
  "days_before_year (y + 1) = days_before_year y + (if leap y then 366 else 365)"
  using leap_days_pred[of y] by (simp add: days_before_year_leap_days)

lemma days_before_year_mono: "y \<le> z \<Longrightarrow> days_before_year y \<le> days_before_year z"
proof (induction z rule: int_ge_induct)
  case base
  show ?case by simp
next
  case (step z)
  then show ?case using days_before_year_Suc[of z] by (simp split: if_splits)
qed

lemma days_before_year_aux:
  fixes a b c y :: int
  assumes "4 * a \<le> y - 1" "y - 1 < 4 * a + 4" "100 * b \<le> y - 1" "y - 1 < 100 * b + 100"
    "400 * c \<le> y - 1" "y - 1 < 400 * c + 400"
  shows "146097 * (y - 1970) - 506 \<le> 400 * (365 * (y - 1970) + a - b + c - 477)"
    and "400 * (365 * (y - 1970) + a - b + c - 477) \<le> 146097 * (y - 1970) + 589"
  using assms by simp_all

lemma days_before_year_bounds:
  "146097 * (y - 1970) - 506 \<le> 400 * days_before_year y"
  "400 * days_before_year y \<le> 146097 * (y - 1970) + 589"
  unfolding days_before_year_def
  by (rule days_before_year_aux; (rule div_bracket[THEN conjunct1] div_bracket[THEN conjunct2]); simp)+

lemma yearOf_spec: "days_before_year (yearOf n) \<le> n" "n < days_before_year (yearOf n + 1)"
proof -
  define y where "y = 1970 + (400 * n) div 146097"
  have e: "146097 * (y - 1970) \<le> 400 * n" "400 * n < 146097 * (y - 1970) + 146097"
    using div_bracket[of 146097 "400 * n", OF zero_less_numeral] by (simp_all only: y_def add_diff_cancel_left' simp_thms)
  have lo: "days_before_year (y - 1) \<le> n"
    using e days_before_year_bounds(2)[of "y - 1"] by simp
  have hi: "n < days_before_year (y + 1 + 1)"
    using e days_before_year_bounds(1)[of "y + 1 + 1"] by simp
  show "days_before_year (yearOf n) \<le> n" "n < days_before_year (yearOf n + 1)"
    using lo hi by (auto simp: yearOf_def y_def[symmetric] Let_def)
qed

lemma yearOf_unique:
  assumes "days_before_year y \<le> n" "n < days_before_year (y + 1)"
  shows "yearOf n = y"
proof (rule ccontr)
  assume "yearOf n \<noteq> y"
  then consider "yearOf n + 1 \<le> y" | "y + 1 \<le> yearOf n" by linarith
  then show False
    using yearOf_spec[of n] assms days_before_year_mono by cases force+
qed

subsection \<open>Months and days\<close>

lemma month_of_doy_bounds:
  assumes "0 \<le> d" "d < (if l then 366 else 365)"
  shows "1 \<le> month_of_doy l d" "month_of_doy l d \<le> 12"
    "month_start l (month_of_doy l d) \<le> d" "d < month_start l (month_of_doy l d + 1)"
proof -
  define k where "k = (if l then 1 else (0::int))"
  have k: "0 \<le> k" "k \<le> 1" by (simp_all add: k_def)
  show "1 \<le> month_of_doy l d" "month_of_doy l d \<le> 12"
    by (simp_all add: month_of_doy_def Let_def)
  consider "d < 31" | "31 \<le> d" "d < 59 + k" | "59 + k \<le> d" "d < 90 + k"
    | "90 + k \<le> d" "d < 120 + k" | "120 + k \<le> d" "d < 151 + k" | "151 + k \<le> d" "d < 181 + k"
    | "181 + k \<le> d" "d < 212 + k" | "212 + k \<le> d" "d < 243 + k" | "243 + k \<le> d" "d < 273 + k"
    | "273 + k \<le> d" "d < 304 + k" | "304 + k \<le> d" "d < 334 + k" | "334 + k \<le> d"
    by (meson not_le)
  then have "month_start l (month_of_doy l d) \<le> d \<and> d < month_start l (month_of_doy l d + 1)"
    using assms k unfolding month_of_doy_def k_def[symmetric] Let_def month_start_def
    by cases (simp_all add: k_def split: if_splits)
  then show "month_start l (month_of_doy l d) \<le> d" "d < month_start l (month_of_doy l d + 1)"
    by blast+
qed

lemma month_cases:
  "1 \<le> m \<Longrightarrow> m \<le> 12 \<Longrightarrow>
   m = 1 \<or> m = 2 \<or> m = 3 \<or> m = 4 \<or> m = 5 \<or> m = 6 \<or> m = 7 \<or> m = 8 \<or> m = 9 \<or> m = 10 \<or> m = 11 \<or> m = 12"
  for m :: int by arith

lemma month_of_doy_start:
  assumes "1 \<le> m" "m \<le> 12" "0 \<le> e" "e < month_length l m"
  shows "month_of_doy l (month_start l m + e) = m"
  using month_cases[OF assms(1,2)] assms(3,4)
  by (elim disjE) (auto simp: month_of_doy_def month_start_def month_length_def Let_def)

lemma month_length_bounds: "1 \<le> m \<Longrightarrow> m \<le> 12 \<Longrightarrow> 28 \<le> month_length l m \<and> month_length l m \<le> 31"
  by (drule (1) month_cases, elim disjE) (auto simp: month_start_def month_length_def)

lemma month_start_nonneg: "0 \<le> month_start l m"
  by (simp add: month_start_def)

lemma month_start_end:
  "1 \<le> m \<Longrightarrow> m \<le> 12 \<Longrightarrow> month_start l m + month_length l m \<le> (if l then 366 else 365)"
  by (drule (1) month_cases, elim disjE) (auto simp: month_start_def month_length_def)

lemma doy_bounds:
  "0 \<le> n - days_before_year (yearOf n)"
  "n - days_before_year (yearOf n) < (if leap (yearOf n) then 366 else 365)"
  using yearOf_spec[of n] days_before_year_Suc[of "yearOf n"] by simp_all

lemma monthOf_bounds: "1 \<le> monthOf n" "monthOf n \<le> 12"
  unfolding monthOf_def using month_of_doy_bounds(1,2)[OF doy_bounds] by blast+

theorem civil_roundtrip: "civil_day (yearOf n) (monthOf n) (dayOf n) = n"
  by (simp add: dayOf_def civil_day_def)

lemma dayOf_bounds: "1 \<le> dayOf n" "dayOf n \<le> month_length (leap (yearOf n)) (monthOf n)"
  using month_of_doy_bounds(3,4)[OF doy_bounds[of n]]
  by (auto simp: dayOf_def civil_day_def monthOf_def month_length_def)

lemma civil_day_fields:
  assumes "1 \<le> m" "m \<le> 12" "1 \<le> d" "d \<le> month_length (leap y) m"
  shows "yearOf (civil_day y m d) = y" "monthOf (civil_day y m d) = m" "dayOf (civil_day y m d) = d"
proof -
  have "days_before_year y \<le> civil_day y m d" "civil_day y m d < days_before_year (y + 1)"
    using assms month_start_end[of m "leap y"] month_start_nonneg[of "leap y" m]
    by (auto simp: civil_day_def days_before_year_Suc)
  then show Y: "yearOf (civil_day y m d) = y" by (rule yearOf_unique)
  show M: "monthOf (civil_day y m d) = m"
    using assms month_of_doy_start[of m "d - 1" "leap y"]
    unfolding monthOf_def Y by (simp add: civil_day_def algebra_simps)
  show "dayOf (civil_day y m d) = d"
    by (simp add: dayOf_def Y M) (simp add: civil_day_def)
qed

lemma civil_day_inj_fields:
  "yearOf a = yearOf b \<Longrightarrow> monthOf a = monthOf b \<Longrightarrow> dayOf a = dayOf b \<Longrightarrow> a = b"
  by (metis civil_roundtrip)

text \<open>A day beyond the end of its month (29 February in a common year) rolls over into the
  next month.\<close>

lemma civil_day_rollover:
  assumes "1 \<le> m" "m \<le> 12" "month_length (leap y) m < d" "d \<le> 31"
  shows "monthOf (civil_day y m d) \<noteq> m"
proof -
  have "m \<noteq> 12" using assms by (auto simp: month_length_def month_start_def)
  then have m: "m < 12" using assms by linarith
  let ?e = "d - month_length (leap y) m"
  have e: "civil_day y m d = civil_day y (m + 1) ?e"
    by (simp add: civil_day_def month_length_def)
  have l: "28 \<le> month_length (leap y) m" "28 \<le> month_length (leap y) (m + 1)"
    using assms m month_length_bounds[of m] month_length_bounds[of "m + 1"] by auto
  have "1 \<le> ?e" "?e \<le> month_length (leap y) (m + 1)" using assms l by linarith+
  then have "monthOf (civil_day y (m + 1) ?e) = m + 1"
    using assms m by (intro civil_day_fields(2)) auto
  then show ?thesis using e by simp
qed

lemma yearOf_mono: "a \<le> b \<Longrightarrow> yearOf a \<le> yearOf b"
proof (rule ccontr)
  assume "a \<le> b" "\<not> yearOf a \<le> yearOf b"
  then show False
    using yearOf_spec[of a] yearOf_spec[of b] days_before_year_mono[of "yearOf b + 1" "yearOf a"]
    by linarith
qed

lemma weekdayOf_range: "0 \<le> weekdayOf n \<and> weekdayOf n \<le> 6"
  using pos_mod_bound[of 7 "n + 4"] by (simp add: weekdayOf_def)

lemma minute_of_day_range: "0 \<le> minute_of_day t \<and> minute_of_day t < 1440"
proof -
  have r: "0 \<le> t mod day_ms" "t mod day_ms < day_ms" by (simp_all add: day_ms_def)
  then have "60000 * minute_of_day t \<le> t mod day_ms" "0 \<le> minute_of_day t"
    using div_bracket[of 60000 "t mod day_ms"] by (auto simp: minute_of_day_def)
  then show ?thesis using r by (simp add: day_ms_def)
qed

subsection \<open>Date keys\<close>

text \<open>\<open>iso_date\<close> is \<open>toISOString().slice(0, 10)\<close> of a UTC midnight in the years 0 to 9999,
  \<open>parse_iso_date\<close> the check \<open>/^\d{4}-\d{2}-\d{2}$/\<close> followed by \<open>new Date\<close> and the
  comparison with the input that rejects days such as 30 February.\<close>

definition pad2 :: "nat \<Rightarrow> string" where
  "pad2 n = [char_of (48 + n div 10), char_of (48 + n mod 10)]"

definition iso_date :: "day \<Rightarrow> string" where
  "iso_date n =
     pad2 (nat (yearOf n) div 100) @ pad2 (nat (yearOf n) mod 100) @ CHR ''-'' #
     pad2 (nat (monthOf n)) @ CHR ''-'' # pad2 (nat (dayOf n))"

definition parse_iso_date :: "string \<Rightarrow> day option" where
  "parse_iso_date s =
     (case s of [y1, y2, y3, y4, h1, m1, m2, h2, d1, d2] \<Rightarrow>
        if list_all is_digit [y1, y2, y3, y4, m1, m2, d1, d2] \<and> h1 = CHR ''-'' \<and> h2 = CHR ''-''
        then (let y = int (dec_value [y1, y2, y3, y4]); m = int (dec_value [m1, m2]);
                  d = int (dec_value [d1, d2])
              in if 1 \<le> m \<and> m \<le> 12 \<and> 1 \<le> d \<and> d \<le> month_length (leap y) m
                 then Some (civil_day y m d) else None)
        else None
      | _ \<Rightarrow> None)"

lemma pad2_digits: "n < 100 \<Longrightarrow> list_all is_digit (pad2 n)"
proof -
  assume "n < 100"
  then have "n div 10 < 10" "n mod 10 < 10" by auto
  then show ?thesis by (simp add: pad2_def is_digit_def of_char_digit)
qed

lemma pad2_value: "n < 100 \<Longrightarrow> foldl (\<lambda>a c. 10 * a + (of_char c - 48)) k (pad2 n) = 100 * k + n"
proof -
  assume "n < 100"
  then have "n div 10 < 10" "n mod 10 < 10" by auto
  then have "foldl (\<lambda>a c. 10 * a + (of_char c - 48)) k (pad2 n) = 10 * (10 * k + n div 10) + n mod 10"
    by (simp add: pad2_def of_char_digit)
  then show ?thesis by simp
qed

lemma pad2_length: "length (pad2 n) = 2"
  by (simp add: pad2_def)

lemma parse_iso_shape:
  assumes "length a = 2" "length b = 2" "length c = 2" "length d = 2"
    and "list_all is_digit a" "list_all is_digit b" "list_all is_digit c" "list_all is_digit d"
    and "int (dec_value (a @ b)) = y" "int (dec_value c) = m" "int (dec_value d) = k"
    and "1 \<le> m" "m \<le> 12" "1 \<le> k" "k \<le> month_length (leap y) m"
  shows "parse_iso_date (a @ b @ CHR ''-'' # c @ CHR ''-'' # d) = Some (civil_day y m k)"
proof -
  obtain a1 a2 b1 b2 c1 c2 d1 d2
    where "a = [a1, a2]" "b = [b1, b2]" "c = [c1, c2]" "d = [d1, d2]"
    using assms(1-4) by (auto simp: length_Suc_conv numeral_2_eq_2)
  with assms show ?thesis by (simp add: parse_iso_date_def Let_def)
qed

lemma iso_roundtrip:
  assumes "0 \<le> yearOf n" "yearOf n \<le> 9999"
  shows "parse_iso_date (iso_date n) = Some n"
proof -
  have m: "1 \<le> monthOf n" "monthOf n \<le> 12" by (rule monthOf_bounds)+
  have d: "1 \<le> dayOf n" "dayOf n \<le> month_length (leap (yearOf n)) (monthOf n)" by (rule dayOf_bounds)+
  have d31: "dayOf n \<le> 31"
    using d month_length_bounds[OF m, of "leap (yearOf n)"] by linarith
  have small: "nat (yearOf n) div 100 < 100" "nat (yearOf n) mod 100 < 100" "nat (monthOf n) < 100" "nat (dayOf n) < 100"
    using assms m d31 by (auto simp: nat_less_iff less_mult_imp_div_less)
  have y: "int (dec_value (pad2 (nat (yearOf n) div 100) @ pad2 (nat (yearOf n) mod 100))) = yearOf n"
    using assms small by (simp add: dec_value_def pad2_value)
  have md: "int (dec_value (pad2 (nat (monthOf n)))) = monthOf n" "int (dec_value (pad2 (nat (dayOf n)))) = dayOf n"
    using m d small by (simp_all add: dec_value_def pad2_value)
  show ?thesis
    unfolding iso_date_def
    using parse_iso_shape[OF pad2_length pad2_length pad2_length pad2_length
        pad2_digits[OF small(1)] pad2_digits[OF small(2)] pad2_digits[OF small(3)] pad2_digits[OF small(4)]
        y md m d]
    by (simp add: civil_roundtrip)
qed

lemma iso_date_length: "length (iso_date n) = 10"
  by (simp add: iso_date_def pad2_length)

lemma parse_iso_date_valid:
  assumes "parse_iso_date s = Some n"
  shows "0 \<le> yearOf n \<and> length s = 10"
proof -
  obtain y m d where "n = civil_day (int y) m d" "1 \<le> m" "m \<le> 12" "1 \<le> d"
      "d \<le> month_length (leap (int y)) m" "length s = 10"
    using assms by (auto simp: parse_iso_date_def Let_def split: list.splits if_splits)
  then show ?thesis by (simp add: civil_day_fields)
qed

end
