(* ===== verification/ShiftTime.thy ===== *)
theory ShiftTime
  imports Calendar
begin

text \<open>
  The time-zone aware shift helpers of \<^verbatim>\<open>src/src/utils/shift.ts\<close>, the local week of
  \<^verbatim>\<open>src/src/utils/localWeek.ts\<close> and the offline event clock of
  \<^verbatim>\<open>src/src/utils/offlineAttendanceEvent.ts\<close>.

  The package \<open>date-fns-tz\<close> is a parameter: \<open>tzdb\<close> holds \<open>toZonedTime\<close> (an
  instant to the wall clock of a zone, both in milliseconds) and \<open>fromZonedTime\<close> (the other
  way round).  Wall-clock strings \<open>HH:MM\<close> are parsed as the code parses them.
\<close>

record tzdb =
  toZonedTime :: "instant \<Rightarrow> string \<Rightarrow> int"
  fromZonedTime :: "int \<Rightarrow> string \<Rightarrow> instant"

record shift_like =
  start_time :: string
  end_time :: string
  late_tolerance_mins :: "int option"
  early_checkout_tolerance_mins :: "int option"
  auto_checkout :: bool
  auto_checkout_buffer_mins :: "int option"

definition zone :: "string option \<Rightarrow> string" where
  "zone timezone = coalesce_str timezone ''UTC''"

definition hhmmToMins :: "string \<Rightarrow> rat" where
  "hhmmToMins hhmm =
     (let parts = map js_number (split_on (CHR '':'') (if hhmm = [] then ''0:0'' else hhmm));
          h = coalesce (nth_opt parts 0) None;
          m = coalesce (nth_opt parts 1) None
      in or_zero h * 60 + or_zero m)"

definition minutesOfDayInTz :: "tzdb \<Rightarrow> instant \<Rightarrow> string option \<Rightarrow> rat" where
  "minutesOfDayInTz tz t timezone = of_int (minute_of_day (toZonedTime tz t (zone timezone)))"

definition nowInTz :: "tzdb \<Rightarrow> string option \<Rightarrow> instant \<Rightarrow> int" where
  "nowInTz tz timezone t = toZonedTime tz t (zone timezone)"

definition localDateStr :: "tzdb \<Rightarrow> instant \<Rightarrow> string option \<Rightarrow> int \<times> int \<times> int" where
  "localDateStr tz t timezone =
     (let z = day_of_instant (toZonedTime tz t (zone timezone)) in (yearOf z, monthOf z, dayOf z))"

definition dateOnlyInTz :: "tzdb \<Rightarrow> instant \<Rightarrow> string option \<Rightarrow> day" where
  "dateOnlyInTz tz t timezone =
     (case localDateStr tz t timezone of (y, m, d) \<Rightarrow> civil_day y m d)"

text \<open>\<open>scheduledInstant\<close> hands \<open>YYYY-MM-DDTHH:MM:00\<close> to \<open>fromZonedTime\<close>; the wall
  time is the minutes of the padded string after midnight of the day.\<close>

definition scheduledInstant :: "tzdb \<Rightarrow> day \<Rightarrow> string \<Rightarrow> string option \<Rightarrow> instant" where
  "scheduledInstant tz dateStr hhmm timezone =
     (let padded = (if length hhmm = 4 then CHR ''0'' # hhmm else hhmm)
      in fromZonedTime tz (dateStr * day_ms + \<lfloor>hhmmToMins padded * 60000\<rfloor>) (zone timezone))"

definition scheduledWindow :: "tzdb \<Rightarrow> shift_like \<Rightarrow> string option \<Rightarrow> instant \<Rightarrow> instant \<times> instant" where
  "scheduledWindow tz shift timezone t =
     (let dateStr = dateOnlyInTz tz t timezone;
          start = scheduledInstant tz dateStr (start_time shift) timezone;
          end = scheduledInstant tz dateStr (end_time shift) timezone
      in (start, if hhmmToMins (end_time shift) \<le> hhmmToMins (start_time shift)
                 then end + 24 * 60 * 60 * 1000 else end))"

definition lateThresholdFor :: "int option option \<Rightarrow> int option option \<Rightarrow> int" where
  "lateThresholdFor shift org =
     coalesce (coalesce_opt (coalesce shift None) (coalesce org None)) 15"

definition overnight_wrap :: "rat \<Rightarrow> rat" where
  "overnight_wrap d0 =
     (let d1 = (if d0 < - 720 then d0 + 1440 else d0) in if d1 > 720 then d1 - 1440 else d1)"

definition lateMinutes :: "tzdb \<Rightarrow> instant \<Rightarrow> shift_like option \<Rightarrow> string option \<Rightarrow> rat" where
  "lateMinutes tz checkInAt shift timezone =
     (case shift of None \<Rightarrow> 0
      | Some s \<Rightarrow>
          (let start = hhmmToMins (start_time s);
               actual = minutesOfDayInTz tz checkInAt timezone
           in max 0 (overnight_wrap (actual - start))))"

definition earlyOutMinutes :: "tzdb \<Rightarrow> instant \<Rightarrow> shift_like option \<Rightarrow> string option \<Rightarrow> rat" where
  "earlyOutMinutes tz checkOutAt shift timezone =
     (case shift of None \<Rightarrow> 0
      | Some s \<Rightarrow>
          (let end = hhmmToMins (end_time s);
               actual = minutesOfDayInTz tz checkOutAt timezone
           in max 0 (overnight_wrap (end - actual))))"

definition adherenceScore :: "rat \<Rightarrow> rat \<Rightarrow> shift_like option \<Rightarrow> int option" where
  "adherenceScore lateMins earlyMins shift =
     (case shift of None \<Rightarrow> None
      | Some _ \<Rightarrow>
          (let score = 100 - min 50 lateMins - min 50 earlyMins
           in Some (max 0 (min 100 (js_round score)))))"

definition shiftAutoCheckoutDue :: "tzdb \<Rightarrow> shift_like option \<Rightarrow> string option \<Rightarrow> instant \<Rightarrow> bool" where
  "shiftAutoCheckoutDue tz shift timezone now =
     (case shift of None \<Rightarrow> False
      | Some s \<Rightarrow>
          if \<not> auto_checkout s then False
          else (let end = hhmmToMins (end_time s);
                    buffer = of_int (coalesce (auto_checkout_buffer_mins s) 30);
                    nowMins = minutesOfDayInTz tz now timezone;
                    diff = overnight_wrap (nowMins - (end + buffer))
                in diff \<ge> 0 \<and> diff < 120))"

subsection \<open>Local weeks\<close>

record local_week =
  startDate :: day
  endDate :: day
  startInstant :: instant
  endInstant :: instant

text \<open>\<open>zone_ok\<close> says whether \<open>fromZonedTime\<close> knows the zone (for an unknown zone it
  returns an invalid date, which the code turns into a validation error).\<close>

definition localWeekRange :: "tzdb \<Rightarrow> (string \<Rightarrow> bool) \<Rightarrow> string \<Rightarrow> string \<Rightarrow> local_week result" where
  "localWeekRange tz zone_ok text timezone =
     (let dateText = (if length text \<ge> 10 then take 10 text else text) in
      case parse_iso_date dateText of None \<Rightarrow> Inl ValidationError
      | Some sd \<Rightarrow>
          if weekdayOf sd \<noteq> 1 then Inl ValidationError
          else (let ed = sd + 7; z = (if timezone = [] then ''UTC'' else timezone)
                in if zone_ok z
                   then Inr \<lparr>startDate = sd, endDate = ed,
                             startInstant = fromZonedTime tz (sd * day_ms) z,
                             endInstant = fromZonedTime tz (ed * day_ms) z\<rparr>
                   else Inl ValidationError))"

definition currentLocalWeekStart :: "tzdb \<Rightarrow> instant \<Rightarrow> string \<Rightarrow> day" where
  "currentLocalWeekStart tz now timezone =
     (let today = dateOnlyInTz tz now (Some timezone)
      in today - ((weekdayOf today + 6) mod 7))"

subsection \<open>The clock of an offline event\<close>

record offline_event =
  offline :: bool
  idempotency_key :: string
  client_event_at :: "instant option option"
  attendance_clock_anchor :: string
  device_uptime_ms :: "int option"
  server_anchor_uptime_ms :: "int option"
  clock_epoch :: string
  server_anchor_epoch :: string

record resolved_event =
  eventAt :: instant
  requiresReview :: bool
  anchorAt :: "instant option"

text \<open>\<^verbatim>\<open>src/src/utils/attendanceClock.ts\<close>: a clock anchor is \<open>payload.signature\<close>.
  The HMAC and the encoding of the claims (JSON in base64url) are parameters; \<open>decode\<close> yields
  \<open>None\<close> for a payload that does not parse, and a server time of \<open>None\<close> for one that is not a
  date.\<close>

record clock_claims =
  an_user_id :: id
  an_org_id :: id
  an_server_time :: "instant option"
  an_nonce :: string

record clock_crypto =
  cc_signature :: "string \<Rightarrow> string"
  cc_encode :: "clock_claims \<Rightarrow> string"
  cc_decode :: "string \<Rightarrow> clock_claims option"

definition issueAttendanceClockAnchor :: "clock_crypto \<Rightarrow> id \<Rightarrow> id \<Rightarrow> instant \<Rightarrow> string \<Rightarrow> string" where
  "issueAttendanceClockAnchor k userId orgId now uuid =
     (let payload = cc_encode k \<lparr>an_user_id = userId, an_org_id = orgId, an_server_time = Some now, an_nonce = uuid\<rparr>
      in payload @ CHR ''.'' # cc_signature k payload)"

definition verifyAttendanceClockAnchor :: "clock_crypto \<Rightarrow> string \<Rightarrow> id \<Rightarrow> id \<Rightarrow> instant result" where
  "verifyAttendanceClockAnchor k token userId orgId =
     (let parts = split_on (CHR ''.'') token;
          payload = coalesce (nth_opt parts 0) [];
          provided = coalesce (nth_opt parts 1) []
      in if payload = [] \<or> provided = [] then Inl (AppError 409 ''OFFLINE_CHECKIN_REVIEW'')
         else if cc_signature k payload \<noteq> provided then Inl (AppError 409 ''OFFLINE_CHECKIN_REVIEW'')
         else case cc_decode k payload of
           None \<Rightarrow> Inl (AppError 409 ''OFFLINE_CHECKIN_REVIEW'')
         | Some anchor \<Rightarrow>
             if an_user_id anchor \<noteq> userId \<or> an_org_id anchor \<noteq> orgId
             then Inl (AppError 409 ''OFFLINE_CHECKIN_REVIEW'')
             else case an_server_time anchor of
               None \<Rightarrow> Inl (AppError 409 ''OFFLINE_CHECKIN_REVIEW'')
             | Some t \<Rightarrow> Inr t)"

text \<open>\<open>client_event_at\<close> is \<open>None\<close> when the field is missing and \<open>Some None\<close> when it is not
  a date.\<close>

definition resolveAttendanceEventTime ::
    "clock_crypto \<Rightarrow> offline_event \<Rightarrow> id \<Rightarrow> id \<Rightarrow> instant \<Rightarrow> resolved_event result" where
  "resolveAttendanceEventTime k input userId orgId receivedAt =
     (if \<not> offline input then Inr \<lparr>eventAt = receivedAt, requiresReview = False, anchorAt = None\<rparr>
      else case (client_event_at input, device_uptime_ms input, server_anchor_uptime_ms input) of
        (Some client, Some up, Some anchor_up) \<Rightarrow>
          if idempotency_key input = [] \<or> attendance_clock_anchor input = [] \<or>
             clock_epoch input = [] \<or> server_anchor_epoch input = []
          then Inl (AppError 409 ''OFFLINE_EVENT_REVIEW'')
          else (case client of None \<Rightarrow> Inl (AppError 400 ''INVALID_OFFLINE_EVENT_TIME'')
            | Some clientEventAt \<Rightarrow>
                bind_result (verifyAttendanceClockAnchor k (attendance_clock_anchor input) userId orgId) (\<lambda>anchor.
                  let elapsedMs = up - anchor_up;
                      anchorAgeMs = receivedAt - anchor;
                      monotonicValid = (clock_epoch input = server_anchor_epoch input \<and>
                        elapsedMs \<ge> 0 \<and> elapsedMs \<le> 12 * 60 * 60000 \<and>
                        anchorAgeMs \<ge> 0 \<and> anchorAgeMs \<le> 12 * 60 * 60000)
                  in if \<not> monotonicValid
                     then Inr \<lparr>eventAt = receivedAt, requiresReview = True, anchorAt = Some anchor\<rparr>
                     else (let ev = anchor + elapsedMs
                           in if ev > receivedAt + 2 * 60000
                              then Inl (AppError 409 ''OFFLINE_EVENT_REVIEW'')
                              else Inr \<lparr>eventAt = ev,
                                requiresReview = (\<bar>ev - clientEventAt\<bar> > 2 * 60000 \<or>
                                  receivedAt - ev > 10 * 60000 \<or> anchorAgeMs > 10 * 60000),
                                anchorAt = Some anchor\<rparr>)))
      | _ \<Rightarrow> Inl (AppError 409 ''OFFLINE_EVENT_REVIEW''))"

subsection \<open>Lemmas\<close>

lemma overnight_wrap_range:
  "- 2160 \<le> x \<Longrightarrow> x \<le> 2160 \<Longrightarrow> - 720 \<le> overnight_wrap x \<and> overnight_wrap x \<le> 720"
  by (auto simp: overnight_wrap_def Let_def)

lemma overnight_wrap_small: "- 720 \<le> x \<Longrightarrow> x \<le> 720 \<Longrightarrow> overnight_wrap x = x"
  by (simp add: overnight_wrap_def)

lemma minutesOfDayInTz_range: "0 \<le> minutesOfDayInTz tz t z" "minutesOfDayInTz tz t z \<le> 1439"
proof -
  define m where "m = minute_of_day (toZonedTime tz t (zone z))"
  have "0 \<le> m" "m \<le> 1439"
    using minute_of_day_range[of "toZonedTime tz t (zone z)"] by (auto simp: m_def)
  then show "0 \<le> minutesOfDayInTz tz t z" "minutesOfDayInTz tz t z \<le> 1439"
    by (simp_all add: minutesOfDayInTz_def m_def[symmetric])
qed

lemma dateOnlyInTz_eq: "dateOnlyInTz tz t z = day_of_instant (toZonedTime tz t (zone z))"
  by (simp add: dateOnlyInTz_def localDateStr_def civil_roundtrip Let_def)

lemma split_on_no_sep: "c \<notin> set a \<Longrightarrow> split_on c a = [a]"
  by (induction a) auto

lemma split_on_append: "c \<notin> set a \<Longrightarrow> split_on c (a @ c # b) = a # split_on c b"
  by (induction a) auto

lemma pad2_number: "n < 100 \<Longrightarrow> js_number (pad2 n) = Some (of_nat n) \<and> CHR '':'' \<notin> set (pad2 n)"
proof -
  assume n: "n < 100"
  have "dec_value (pad2 n) = n" using n pad2_value[of n 0] by (simp add: dec_value_def)
  moreover have "CHR '':'' \<notin> set (pad2 n)"
    using pad2_digits[OF n] by (auto simp: list_all_iff is_digit_def)
  moreover have "pad2 n \<noteq> []" by (simp add: pad2_def)
  ultimately show ?thesis using pad2_digits[OF n] by (simp add: js_number_digits)
qed

text \<open>Printing a time of day as \<open>HH:MM\<close> and reading it back gives the minutes since midnight.\<close>

lemma hhmm_roundtrip:
  assumes "h < 24" "m < 60"
  shows "hhmmToMins (pad2 h @ CHR '':'' # pad2 m) = of_nat (60 * h + m)"
proof -
  have h: "js_number (pad2 h) = Some (of_nat h)" "CHR '':'' \<notin> set (pad2 h)"
    and m: "js_number (pad2 m) = Some (of_nat m)" "CHR '':'' \<notin> set (pad2 m)"
    using assms pad2_number[of h] pad2_number[of m] by auto
  then show ?thesis
    by (simp add: hhmmToMins_def split_on_append split_on_no_sep nth_opt_def)
qed

lemma mod_1440_cases:
  fixes d :: int
  assumes "- 1440 < d" "d < 1440"
  shows "d mod 1440 = (if d < 0 then d + 1440 else d)"
proof (cases "d < 0")
  case True
  then have "(d + 1440) mod 1440 = d + 1440" using assms by (intro mod_pos_pos_trivial) auto
  with True show ?thesis by simp
next
  case False
  then show ?thesis using assms by (simp add: mod_pos_pos_trivial)
qed

lemma of_int_if: "(if b then of_int x else of_int y) = (of_int (if b then x else y) :: rat)"
  by simp

lemma overnight_wrap_of_int:
  "overnight_wrap (of_int d) =
     of_int (let e = (if d < - 720 then d + 1440 else d) in if e > 720 then e - 1440 else e)"
proof -
  have a: "(of_int d :: rat) < - 720 \<longleftrightarrow> d < - 720"
    by (metis of_int_less_iff of_int_minus of_int_numeral)
  have b: "(720 :: rat) < of_int e \<longleftrightarrow> 720 < e" for e
    by (metis of_int_less_iff of_int_numeral)
  show ?thesis
    using b[of d] b[of "d + 1440"] by (simp add: overnight_wrap_def Let_def a)
qed

text \<open>For a shift that starts at minute \<open>k\<close> of the day, the late
  minutes are the distance from the start forward to the check-in on the 24-hour circle when that
  distance is less than twelve hours, and 0 when it is more than twelve hours (the employee is
  early).  Overnight shifts need no special case.\<close>

theorem lateMinutes_circular:
  assumes "hhmmToMins (start_time s) = of_int k" "0 \<le> k" "k < 1440"
    and "d = (minute_of_day (toZonedTime tz t (zone z)) - k) mod 1440" "d \<noteq> 720"
  shows "lateMinutes tz t (Some s) z = (if d < 720 then of_int d else 0)"
proof -
  define m where "m = minute_of_day (toZonedTime tz t (zone z))"
  have m: "0 \<le> m" "m < 1440" using minute_of_day_range[of "toZonedTime tz t (zone z)"] by (auto simp: m_def)
  have d: "d = (if m - k < 0 then m - k + 1440 else m - k)"
    using assms m mod_1440_cases[of "m - k"] by (simp add: m_def)
  have "lateMinutes tz t (Some s) z = max 0 (overnight_wrap (of_int (m - k)))"
    using assms(1) by (simp add: lateMinutes_def minutesOfDayInTz_def m_def)
  also have "\<dots> = (if d < 720 then of_int d else 0)"
    unfolding overnight_wrap_of_int using d m assms by (auto simp: Let_def max_def split: if_splits)
  finally show ?thesis .
qed

theorem lateMinutes_circular_witness:
  "let tz = \<lparr>toZonedTime = (\<lambda>t z. t), fromZonedTime = (\<lambda>w z. w)\<rparr>;
       s = \<lparr>start_time = ''23:50'', end_time = ''07:00'', late_tolerance_mins = None,
             early_checkout_tolerance_mins = None, auto_checkout = False,
             auto_checkout_buffer_mins = None\<rparr>
   in lateMinutes tz 600000 (Some s) None = 20"
proof -
  have p: "pad2 23 @ CHR '':'' # pad2 50 = ''23:50''" by code_simp
  have "hhmmToMins ''23:50'' = of_int 1430"
    using hhmm_roundtrip[of 23 50] unfolding p by simp
  then show ?thesis
    using lateMinutes_circular[of "\<lparr>start_time = ''23:50'', end_time = ''07:00'',
        late_tolerance_mins = None, early_checkout_tolerance_mins = None, auto_checkout = False,
        auto_checkout_buffer_mins = None\<rparr>" 1430 20
      "\<lparr>toZonedTime = (\<lambda>t z. t), fromZonedTime = (\<lambda>w z. w)\<rparr>" 600000 None]
    by (simp add: minute_of_day_def day_ms_def)
qed

text \<open>In a zone with a fixed offset from UTC the scheduled window
  of a shift begins before it ends and is at most 24 hours long, for day shifts and overnight
  shifts alike.\<close>

theorem scheduledWindow_spans:
  assumes offset: "\<And>w. fromZonedTime tz w (zone z) = w - off"
    and times: "length (start_time s) = 5" "length (end_time s) = 5"
      "hhmmToMins (start_time s) = of_int a" "0 \<le> a" "a < 1440"
      "hhmmToMins (end_time s) = of_int b" "0 \<le> b" "b < 1440"
    and window: "scheduledWindow tz s z t = (st, en)"
  shows "st < en \<and> en \<le> st + day_ms"
proof -
  have f: "\<lfloor>(of_int k * 60000 :: rat)\<rfloor> = k * 60000" for k
    by (metis floor_of_int of_int_mult of_int_numeral)
  have "st = dateOnlyInTz tz t z * day_ms + a * 60000 - off"
    and "en = dateOnlyInTz tz t z * day_ms + b * 60000 - off + (if b \<le> a then 86400000 else 0)"
    using window times
    by (auto simp: scheduledWindow_def scheduledInstant_def offset f Let_def split: if_splits)
  then show ?thesis using times by (auto simp: day_ms_def)
qed

theorem scheduledWindow_spans_witness:
  "let tz = \<lparr>toZonedTime = (\<lambda>t z. t + 18000000), fromZonedTime = (\<lambda>w z. w - 18000000)\<rparr>;
       s = \<lparr>start_time = ''23:50'', end_time = ''09:30'', late_tolerance_mins = None,
             early_checkout_tolerance_mins = None, auto_checkout = False,
             auto_checkout_buffer_mins = None\<rparr>
   in fst (scheduledWindow tz s (Some ''Asia/Karachi'') 0) <
      snd (scheduledWindow tz s (Some ''Asia/Karachi'') 0)"
proof -
  have p: "pad2 23 @ CHR '':'' # pad2 50 = ''23:50''" "pad2 9 @ CHR '':'' # pad2 30 = ''09:30''"
    by code_simp+
  have "hhmmToMins ''23:50'' = of_int 1430" "hhmmToMins ''09:30'' = of_int 570"
    using hhmm_roundtrip[of 23 50] hhmm_roundtrip[of 9 30] unfolding p by simp_all
  then show ?thesis
    using scheduledWindow_spans[of "\<lparr>toZonedTime = (\<lambda>t z. t + 18000000), fromZonedTime = (\<lambda>w z. w - 18000000)\<rparr>"
        "Some ''Asia/Karachi''" 18000000 "\<lparr>start_time = ''23:50'', end_time = ''09:30'',
        late_tolerance_mins = None, early_checkout_tolerance_mins = None, auto_checkout = False,
        auto_checkout_buffer_mins = None\<rparr>" 1430 570 0, OF _ _ _ _ _ _ _ _ _ surjective_pairing]
    by simp
qed

lemma currentLocalWeekStart_bounds:
  "let w = currentLocalWeekStart tz now z; today = dateOnlyInTz tz now (Some z)
   in weekdayOf w = 1 \<and> w \<le> today \<and> today < w + 7"
proof -
  define n where "n = dateOnlyInTz tz now (Some z)"
  have "(n - ((n + 4) mod 7 + 6) mod 7 + 4) mod 7 = 1" by presburger
  moreover have "0 \<le> ((n + 4) mod 7 + 6) mod 7" "((n + 4) mod 7 + 6) mod 7 < 7" by simp_all
  ultimately show ?thesis
    by (simp add: currentLocalWeekStart_def weekdayOf_def n_def Let_def)
qed

text \<open>The week start the code computes for "now", printed with
  \<open>toISOString()\<close> as the time-tracking routes do, is accepted by \<open>localWeekRange\<close> whenever the
  zone is known: it is a Monday, and today's local date lies in the week it opens.\<close>

theorem current_week_accepted:
  assumes "zone_ok z" "z \<noteq> []"
    and "0 \<le> yearOf (currentLocalWeekStart tz now z)" "yearOf (currentLocalWeekStart tz now z) \<le> 9999"
  shows "\<exists>w. localWeekRange tz zone_ok (iso_date (currentLocalWeekStart tz now z) @ rest) z = Inr w \<and>
    startDate w \<le> dateOnlyInTz tz now (Some z) \<and> dateOnlyInTz tz now (Some z) < endDate w \<and>
    weekdayOf (startDate w) = 1"
  using currentLocalWeekStart_bounds[of tz now z] assms
  by (simp add: localWeekRange_def Let_def iso_date_length iso_roundtrip)

theorem current_week_accepted_witness:
  "let tz = \<lparr>toZonedTime = (\<lambda>t z. t), fromZonedTime = (\<lambda>w z. w)\<rparr>
   in \<exists>w. localWeekRange tz (\<lambda>z. z = ''UTC'')
        (iso_date (currentLocalWeekStart tz 1735689600000 ''UTC'') @ ''T00:00:00.000Z'') ''UTC'' = Inr w"
proof -
  let ?tz = "\<lparr>toZonedTime = (\<lambda>t z. t), fromZonedTime = (\<lambda>w z. w)\<rparr>"
  have "yearOf (currentLocalWeekStart ?tz 1735689600000 ''UTC'') = 2024" by code_simp
  then show ?thesis
    using current_week_accepted[of "\<lambda>z. z = ''UTC''" "''UTC''" ?tz 1735689600000 "''T00:00:00.000Z''"]
    by (auto simp: Let_def)
qed

lemma verify_anchor_sound:
  assumes "verifyAttendanceClockAnchor k token u g = Inr a"
  shows "\<exists>payload c. split_on (CHR ''.'') token ! 0 = payload \<and>
    split_on (CHR ''.'') token ! 1 = cc_signature k payload \<and>
    cc_decode k payload = Some c \<and> an_user_id c = u \<and> an_org_id c = g \<and> an_server_time c = Some a"
  using assms
  by (auto simp: verifyAttendanceClockAnchor_def Let_def nth_opt_def split: if_splits option.splits)

text \<open>C40: whatever the device claims, an accepted offline event is dated at
  most two minutes after it was received; it escapes review only if its anchor carries the
  server's signature over claims of the same user and organisation, the event lies after the
  anchor's server time, within ten minutes before reception and within two minutes of the
  client's own timestamp, and the anchor is at most ten minutes old.\<close>

theorem offline_time_bounded:
  assumes "resolveAttendanceEventTime k input u g receivedAt = Inr r"
  shows "eventAt r \<le> receivedAt + 120000 \<and>
    (offline input \<longrightarrow> \<not> requiresReview r \<longrightarrow>
      (\<exists>payload c a t. split_on (CHR ''.'') (attendance_clock_anchor input) ! 0 = payload \<and>
        split_on (CHR ''.'') (attendance_clock_anchor input) ! 1 = cc_signature k payload \<and>
        cc_decode k payload = Some c \<and> an_user_id c = u \<and> an_org_id c = g \<and> an_server_time c = Some a \<and>
        anchorAt r = Some a \<and> client_event_at input = Some (Some t) \<and>
        a \<le> eventAt r \<and> \<bar>eventAt r - t\<bar> \<le> 120000 \<and>
        receivedAt - eventAt r \<le> 600000 \<and> receivedAt - a \<le> 600000))"
proof -
  have 1: "eventAt r \<le> receivedAt + 120000"
    using assms by (auto simp: resolveAttendanceEventTime_def Let_def split: if_splits option.splits)
  have "\<exists>a t. verifyAttendanceClockAnchor k (attendance_clock_anchor input) u g = Inr a \<and>
      anchorAt r = Some a \<and> client_event_at input = Some (Some t) \<and>
      a \<le> eventAt r \<and> \<bar>eventAt r - t\<bar> \<le> 120000 \<and>
      receivedAt - eventAt r \<le> 600000 \<and> receivedAt - a \<le> 600000"
    if "offline input" "\<not> requiresReview r"
    using assms that
    by (auto simp: resolveAttendanceEventTime_def Let_def split: if_splits option.splits)
  with 1 show ?thesis using verify_anchor_sound by meson
qed

theorem offline_time_bounded_witness:
  "let i = \<lparr>offline = True, idempotency_key = ''k1'', client_event_at = Some (Some 1060000),
     attendance_clock_anchor = ''p.s'', device_uptime_ms = Some 560000,
     server_anchor_uptime_ms = Some 500000, clock_epoch = ''b1'', server_anchor_epoch = ''b1''\<rparr>;
     k = \<lparr>cc_signature = (\<lambda>p. ''s''), cc_encode = (\<lambda>c. ''p''), cc_decode = (\<lambda>p. Some \<lparr>an_user_id = ''u'', an_org_id = ''g'',
       an_server_time = Some 1000000, an_nonce = ''n''\<rparr>)\<rparr>
   in \<exists>r. resolveAttendanceEventTime k i ''u'' ''g'' 1070000 = Inr r \<and> eventAt r \<le> 1190000"
  using offline_time_bounded[of "\<lparr>cc_signature = (\<lambda>p. ''s''), cc_encode = (\<lambda>c. ''p''), cc_decode = (\<lambda>p. Some \<lparr>an_user_id = ''u'', an_org_id = ''g'',
       an_server_time = Some 1000000, an_nonce = ''n''\<rparr>)\<rparr>" "\<lparr>offline = True, idempotency_key = ''k1'',
     client_event_at = Some (Some 1060000), attendance_clock_anchor = ''p.s'', device_uptime_ms = Some 560000,
     server_anchor_uptime_ms = Some 500000, clock_epoch = ''b1'', server_anchor_epoch = ''b1''\<rparr>" "''u''" "''g''" 1070000
     "\<lparr>eventAt = 1060000, requiresReview = False, anchorAt = Some 1000000\<rparr>"]
  by (simp add: resolveAttendanceEventTime_def verifyAttendanceClockAnchor_def nth_opt_def)

end
