(* ===== verification/PayrollMath.thy ===== *)
theory PayrollMath
  imports Calendar "HOL-Library.Product_Lexorder" "HOL-Library.Multiset"
begin

text \<open>
  The payroll arithmetic: \<^verbatim>\<open>src/src/utils/payroll.ts\<close> (recalculation, the fingerprint of the
  inputs, the computation of a period), \<^verbatim>\<open>src/src/services/statutoryPayroll.ts\<close> (progressive tax
  and contributions) and \<^verbatim>\<open>src/src/schemas/statutory-payroll.ts\<close> (the validation of a statutory
  parameter set).  Amounts are exact rationals; a column read through \<open>Number(x)\<close> is an
  \<open>option\<close>, with \<open>None\<close> for a missing value.  SHA-256 is the parameter \<open>sha256\<close>, applied to
  the canonical record that the code serialises.
\<close>

subsection \<open>Recalculation\<close>

record payroll_figures =
  fg_regular_hours :: rat
  fg_overtime_hours :: rat
  fg_hourly_rate :: rat
  fg_unpaid_deduction :: rat
  fg_manual_adjustment :: rat
  fg_base_pay :: "rat option"
  fg_overtime_pay :: "rat option"

record payroll_totals =
  gross_pay :: rat
  tax_deduction :: rat
  pension_deduction :: rat
  net_pay :: rat

definition recalcPayrollTotals :: "payroll_figures \<Rightarrow> rat \<Rightarrow> rat \<Rightarrow> payroll_totals" where
  "recalcPayrollTotals figures taxRatePct pensionRatePct =
     (let grossPay = max 0
            (coalesce (fg_base_pay figures) (fg_regular_hours figures * fg_hourly_rate figures) +
             coalesce (fg_overtime_pay figures)
               (fg_overtime_hours figures * fg_hourly_rate figures * (3 / 2)) -
             fg_unpaid_deduction figures +
             fg_manual_adjustment figures);
          taxRate = taxRatePct / 100;
          pensionRate = pensionRatePct / 100;
          taxDeduction = grossPay * taxRate;
          pensionDeduction = grossPay * pensionRate
      in \<lparr>gross_pay = grossPay, tax_deduction = taxDeduction,
          pension_deduction = pensionDeduction,
          net_pay = max 0 (grossPay - taxDeduction - pensionDeduction)\<rparr>)"

subsection \<open>The computation of a period\<close>

definition DEFAULT_OVERTIME_MULTIPLIER :: rat where
  "DEFAULT_OVERTIME_MULTIPLIER = 3 / 2"

datatype pay_basis = Hourly | Daily | Monthly

record period_attendance =
  pa_net_hours_worked :: "rat option"
  pa_hours_worked :: "rat option"
  pa_overtime_hours :: "rat option"
  pa_overtime_multiplier :: "rat option"

record period_inputs =
  pi_attendance :: "period_attendance list"
  pi_unpaid_leave_days :: rat
  pi_hourly_rate :: rat
  pi_pay_basis :: "pay_basis option"
  pi_pay_rate_amount :: "rat option"
  pi_monthly_pay_divisor :: "rat option"

record period_totals = payroll_totals +
  regular_hours :: rat
  overtime_hours :: rat
  base_pay :: rat
  overtime_pay :: rat
  unpaid_deduction :: rat
  manual_adjustment :: rat

text \<open>\<open>Number(x) || d\<close>: a missing value and 0 both give \<open>d\<close>.\<close>

definition or_default :: "rat option \<Rightarrow> rat \<Rightarrow> rat" where
  "or_default x d = (case x of None \<Rightarrow> d | Some v \<Rightarrow> if v = 0 then d else v)"

definition js_trunc :: "rat \<Rightarrow> rat" where
  "js_trunc x = of_int (if x < 0 then \<lceil>x\<rceil> else \<lfloor>x\<rfloor>)"

definition row_net_hours :: "period_attendance \<Rightarrow> rat" where
  "row_net_hours row = or_zero (coalesce_opt (pa_net_hours_worked row) (pa_hours_worked row))"

definition row_overtime :: "period_attendance \<Rightarrow> rat" where
  "row_overtime row = or_zero (pa_overtime_hours row)"

definition row_multiplier :: "period_attendance \<Rightarrow> rat" where
  "row_multiplier row = or_default (pa_overtime_multiplier row) DEFAULT_OVERTIME_MULTIPLIER"

definition period_row :: "rat \<Rightarrow> period_attendance \<Rightarrow> rat \<times> rat \<times> rat \<Rightarrow> rat \<times> rat \<times> rat" where
  "period_row rate row acc =
     (case acc of (regularHours, overtimeHours, overtimePay) \<Rightarrow>
        (let ot = row_overtime row
         in if ot > 0
            then (regularHours + row_net_hours row, overtimeHours + ot,
                  overtimePay + ot * rate * row_multiplier row)
            else (regularHours + row_net_hours row, overtimeHours, overtimePay)))"

definition computePeriodPayroll :: "period_inputs \<Rightarrow> rat \<Rightarrow> rat \<Rightarrow> rat \<Rightarrow> period_totals" where
  "computePeriodPayroll inputs manual taxRatePct pensionRatePct =
     (let basis = coalesce (pi_pay_basis inputs) Hourly;
          amount = coalesce (pi_pay_rate_amount inputs) (pi_hourly_rate inputs);
          divisor = max 1 (js_trunc (or_default (pi_monthly_pay_divisor inputs) 26));
          rate = (case basis of Hourly \<Rightarrow> amount | Daily \<Rightarrow> amount / 8 | Monthly \<Rightarrow> amount / divisor / 8);
          (regularHours, overtimeHours, overtimePay) = fold (period_row rate) (pi_attendance inputs) (0, 0, 0);
          dayEquivalents = regularHours / 8;
          basePay = (case basis of Monthly \<Rightarrow> amount | Daily \<Rightarrow> dayEquivalents * amount
                     | Hourly \<Rightarrow> regularHours * rate);
          dailyRate = (case basis of Daily \<Rightarrow> amount | Monthly \<Rightarrow> amount / divisor | Hourly \<Rightarrow> rate * 8);
          unpaidDeduction = pi_unpaid_leave_days inputs * dailyRate;
          grossPay = max 0 (basePay + overtimePay - unpaidDeduction + manual);
          taxDeduction = grossPay * (taxRatePct / 100);
          pensionDeduction = grossPay * (pensionRatePct / 100)
      in \<lparr>gross_pay = grossPay, tax_deduction = taxDeduction, pension_deduction = pensionDeduction,
          net_pay = max 0 (grossPay - taxDeduction - pensionDeduction),
          regular_hours = regularHours, overtime_hours = overtimeHours, base_pay = basePay,
          overtime_pay = overtimePay, unpaid_deduction = unpaidDeduction,
          manual_adjustment = manual\<rparr>)"

subsection \<open>The fingerprint of the inputs\<close>

record hash_inputs = period_inputs +
  hi_tax_rate :: rat
  hi_pension_rate :: rat
  hi_statutory_parameter_set_id :: "id option"
  hi_pay_rate_id :: "id option"

record canonical_inputs =
  ci_attendance :: "(rat \<times> rat \<times> rat) list"
  ci_unpaid_leave_days :: rat
  ci_hourly_rate :: rat
  ci_tax_rate :: rat
  ci_pension_rate :: rat
  ci_statutory_parameter_set_id :: "id option"
  ci_pay_rate_id :: "id option"
  ci_pay_basis :: pay_basis
  ci_pay_rate_amount :: rat
  ci_monthly_pay_divisor :: rat

definition canonical_row :: "period_attendance \<Rightarrow> rat \<times> rat \<times> rat" where
  "canonical_row row = (row_net_hours row, row_overtime row, row_multiplier row)"

definition canonical :: "hash_inputs \<Rightarrow> canonical_inputs" where
  "canonical input =
     \<lparr>ci_attendance = sort (map canonical_row (pi_attendance input)),
      ci_unpaid_leave_days = pi_unpaid_leave_days input,
      ci_hourly_rate = pi_hourly_rate input,
      ci_tax_rate = hi_tax_rate input, ci_pension_rate = hi_pension_rate input,
      ci_statutory_parameter_set_id = hi_statutory_parameter_set_id input,
      ci_pay_rate_id = hi_pay_rate_id input,
      ci_pay_basis = coalesce (pi_pay_basis input) Hourly,
      ci_pay_rate_amount = coalesce (pi_pay_rate_amount input) (pi_hourly_rate input),
      ci_monthly_pay_divisor = or_default (pi_monthly_pay_divisor input) 26\<rparr>"

definition payrollInputsHash :: "(canonical_inputs \<Rightarrow> string) \<Rightarrow> hash_inputs \<Rightarrow> string" where
  "payrollInputsHash sha256 input = sha256 (canonical input)"

subsection \<open>Statutory parameter sets\<close>

record tax_slab =
  lower_bound :: rat
  upper_bound :: "rat option"
  base_tax :: rat
  marginal_rate_pct :: rat

record contribution =
  ct_key :: string
  ct_label :: string
  employee_rate_pct :: rat
  employer_rate_pct :: rat
  wage_base_cap_monthly :: "rat option"

record statutory_parameters =
  sp_country_code :: string
  sp_effective_from :: day
  sp_effective_to :: "day option"
  sp_source_reference :: string
  sp_annual_tax_slabs :: "tax_slab list"
  sp_contributions :: "contribution list"

definition slab_fields_ok :: "tax_slab \<Rightarrow> bool" where
  "slab_fields_ok s \<longleftrightarrow>
     0 \<le> lower_bound s \<and> (case upper_bound s of None \<Rightarrow> True | Some u \<Rightarrow> 0 < u) \<and>
     0 \<le> base_tax s \<and> 0 \<le> marginal_rate_pct s \<and> marginal_rate_pct s \<le> 100"

definition contribution_fields_ok :: "contribution \<Rightarrow> bool" where
  "contribution_fields_ok c \<longleftrightarrow>
     (case ct_key c of [] \<Rightarrow> False
      | h # t \<Rightarrow> is_lower h \<and> list_all (\<lambda>x. is_lower x \<or> is_digit x \<or> x = CHR ''_'') t \<and>
          1 \<le> length t \<and> length t \<le> 39) \<and>
     1 \<le> length (trim (ct_label c)) \<and> length (trim (ct_label c)) \<le> 80 \<and>
     0 \<le> employee_rate_pct c \<and> employee_rate_pct c \<le> 100 \<and>
     0 \<le> employer_rate_pct c \<and> employer_rate_pct c \<le> 100 \<and>
     (case wage_base_cap_monthly c of None \<Rightarrow> True | Some cap \<Rightarrow> 0 < cap)"

text \<open>The loop over the slabs: the last one and only the last one has no upper bound, every
  upper bound exceeds its lower bound, and consecutive bands touch.\<close>

fun slabs_contiguous :: "tax_slab list \<Rightarrow> bool" where
  "slabs_contiguous [] = True"
| "slabs_contiguous [s] = (upper_bound s = None)"
| "slabs_contiguous (s # t # rest) =
     ((case upper_bound s of None \<Rightarrow> False
       | Some u \<Rightarrow> lower_bound s < u \<and> u = lower_bound t) \<and> slabs_contiguous (t # rest))"

definition statutoryParameterSetSchema :: "statutory_parameters \<Rightarrow> bool" where
  "statutoryParameterSetSchema v \<longleftrightarrow>
     length (sp_country_code v) = 2 \<and> list_all is_upper (sp_country_code v) \<and>
     8 \<le> length (trim (sp_source_reference v)) \<and> length (trim (sp_source_reference v)) \<le> 2000 \<and>
     list_all slab_fields_ok (sp_annual_tax_slabs v) \<and> length (sp_annual_tax_slabs v) \<le> 100 \<and>
     list_all contribution_fields_ok (sp_contributions v) \<and> length (sp_contributions v) \<le> 30 \<and>
     (case sp_effective_to v of None \<Rightarrow> True | Some e \<Rightarrow> sp_effective_from v \<le> e) \<and>
     distinct (map ct_key (sp_contributions v)) \<and>
     (case sp_annual_tax_slabs v of [] \<Rightarrow> True | s # _ \<Rightarrow> lower_bound s = 0) \<and>
     slabs_contiguous (sp_annual_tax_slabs v)"

subsection \<open>Statutory deductions\<close>

definition slab_matches :: "rat \<Rightarrow> tax_slab \<Rightarrow> bool" where
  "slab_matches income row \<longleftrightarrow>
     income \<ge> lower_bound row \<and> (case upper_bound row of None \<Rightarrow> True | Some u \<Rightarrow> income < u)"

definition calculateAnnualProgressiveTax :: "rat \<Rightarrow> tax_slab list \<Rightarrow> rat" where
  "calculateAnnualProgressiveTax annualTaxableIncome slabs =
     (let income = max 0 annualTaxableIncome
      in case find_first (slab_matches income) slabs of
           None \<Rightarrow> 0
         | Some slab \<Rightarrow>
             round2 (base_tax slab + max 0 (income - lower_bound slab) * marginal_rate_pct slab / 100))"

record statutory_set =
  ss_id :: id
  ss_org_id :: id
  ss_status :: string
  ss_params :: statutory_parameters
  ss_created_by :: id
  ss_activated_by :: "id option"
  ss_created_at :: instant

record line_item =
  li_key :: string
  li_label :: string
  li_amount :: rat

record statutory_result =
  sr_setId :: id
  sr_countryCode :: string
  sr_taxCalculationMethod :: string
  sr_taxDeduction :: "rat option"
  sr_employeeDeductions :: "line_item list"
  sr_employerContributions :: "line_item list"

text \<open>The columns of the payroll records of the same user and year that the projection reads.\<close>

record prior_pay =
  pp_user_id :: id
  pp_org_id :: id
  pp_period_year :: int
  pp_period_month :: int
  pp_status :: string
  pp_gross_pay :: rat
  pp_tax_deduction :: rat

definition set_in_force :: "id \<Rightarrow> string \<Rightarrow> day \<Rightarrow> statutory_set \<Rightarrow> bool" where
  "set_in_force orgId country periodEnd s \<longleftrightarrow>
     ss_org_id s = orgId \<and> sp_country_code (ss_params s) = country \<and> ss_status s = ''active'' \<and>
     sp_effective_from (ss_params s) \<le> periodEnd \<and>
     (case sp_effective_to (ss_params s) of None \<Rightarrow> True | Some e \<Rightarrow> periodEnd \<le> e)"

definition contribution_base :: "rat \<Rightarrow> contribution \<Rightarrow> rat" where
  "contribution_base grossPay c =
     max 0 (case wage_base_cap_monthly c of None \<Rightarrow> grossPay | Some cap \<Rightarrow> min grossPay cap)"

definition contribution_items :: "(contribution \<Rightarrow> rat) \<Rightarrow> rat \<Rightarrow> contribution list \<Rightarrow> line_item list" where
  "contribution_items pct grossPay cs =
     filter (\<lambda>i. li_amount i \<noteq> 0)
       (map (\<lambda>c. \<lparr>li_key = ct_key c, li_label = ct_label c,
                   li_amount = round2 (contribution_base grossPay c * pct c / 100)\<rparr>) cs)"

definition projected_tax :: "tax_slab list \<Rightarrow> int \<Rightarrow> rat \<Rightarrow> rat \<Rightarrow> rat \<Rightarrow> rat" where
  "projected_tax slabs month priorTaxableGross priorTaxWithheld grossPay =
     (let monthsRemaining = of_int (13 - month);
          annualTax = calculateAnnualProgressiveTax (priorTaxableGross + max 0 grossPay * monthsRemaining) slabs
      in round2 (max 0 ((annualTax - priorTaxWithheld) / monthsRemaining)))"

definition calculateStatutoryPayroll ::
    "string option \<Rightarrow> statutory_set list \<Rightarrow> prior_pay list \<Rightarrow> id \<Rightarrow> id \<Rightarrow> int \<Rightarrow> int \<Rightarrow> rat \<Rightarrow>
     statutory_result option result" where
  "calculateStatutoryPayroll org_country sets records orgId userId year month grossPay =
     (let periodEnd = utc_day year month 0 in
      case org_country of None \<Rightarrow> Inr None
      | Some country \<Rightarrow>
        if country = [] then Inr None
        else case find_asc (\<lambda>s. (- sp_effective_from (ss_params s), - ss_created_at s))
                 (set_in_force orgId country periodEnd) sets of
          None \<Rightarrow> Inr None
        | Some st \<Rightarrow>
          if \<not> statutoryParameterSetSchema (ss_params st) then Inl PlainError
          else
           (let previous = filter (\<lambda>r. pp_org_id r = orgId \<and> pp_user_id r = userId \<and>
                   pp_period_year r = year \<and> pp_period_month r < month \<and> pp_status r \<noteq> ''recalled'') records;
                priorTaxableGross = sum_list (map pp_gross_pay previous);
                priorTaxWithheld = sum_list (map pp_tax_deduction previous);
                slabs = sp_annual_tax_slabs (ss_params st);
                hasSlabs = (slabs \<noteq> [])
            in Inr (Some
                 \<lparr>sr_setId = ss_id st,
                  sr_countryCode = sp_country_code (ss_params st),
                  sr_taxCalculationMethod = (if hasSlabs then ''projected_annual'' else ''flat_percent''),
                  sr_taxDeduction = (if hasSlabs
                    then Some (projected_tax slabs month priorTaxableGross priorTaxWithheld grossPay)
                    else None),
                  sr_employeeDeductions =
                    contribution_items employee_rate_pct grossPay (sp_contributions (ss_params st)),
                  sr_employerContributions =
                    contribution_items employer_rate_pct grossPay (sp_contributions (ss_params st))\<rparr>)))"

record 'a statutory_applied =
  sa_totals :: 'a
  sa_statutory_parameter_set_id :: "id option"
  sa_tax_calculation_method :: string
  sa_employee_statutory_deductions :: "line_item list"
  sa_employer_statutory_contributions :: "line_item list"

definition apply_statutory ::
    "statutory_result option \<Rightarrow> 'a payroll_totals_scheme \<Rightarrow> 'a payroll_totals_scheme statutory_applied" where
  "apply_statutory statutory totals =
     (case statutory of
        None \<Rightarrow> \<lparr>sa_totals = totals, sa_statutory_parameter_set_id = None,
                  sa_tax_calculation_method = ''flat_percent'', sa_employee_statutory_deductions = [],
                  sa_employer_statutory_contributions = []\<rparr>
      | Some s \<Rightarrow>
          (let employeeContributionTotal = sum_list (map li_amount (sr_employeeDeductions s));
               taxDeduction = coalesce (sr_taxDeduction s) (tax_deduction totals)
           in \<lparr>sa_totals = totals\<lparr>tax_deduction := taxDeduction,
                 net_pay := max 0 (round2 (gross_pay totals - taxDeduction -
                   pension_deduction totals - employeeContributionTotal))\<rparr>,
               sa_statutory_parameter_set_id = Some (sr_setId s),
               sa_tax_calculation_method = sr_taxCalculationMethod s,
               sa_employee_statutory_deductions = sr_employeeDeductions s,
               sa_employer_statutory_contributions = sr_employerContributions s\<rparr>))"

definition applyStatutoryPayroll ::
    "string option \<Rightarrow> statutory_set list \<Rightarrow> prior_pay list \<Rightarrow> id \<Rightarrow> id \<Rightarrow> int \<Rightarrow> int \<Rightarrow>
     'a payroll_totals_scheme \<Rightarrow> 'a payroll_totals_scheme statutory_applied result" where
  "applyStatutoryPayroll org_country sets records orgId userId year month totals =
     bind_result (calculateStatutoryPayroll org_country sets records orgId userId year month (gross_pay totals))
       (\<lambda>statutory. Inr (apply_statutory statutory totals))"

subsection \<open>Lemmas\<close>

text \<open>The accumulator of the attendance loop as three sums over the canonical rows.\<close>

definition paid_overtime :: "rat \<times> rat \<times> rat \<Rightarrow> rat" where
  "paid_overtime r = (case r of (n, ot, m) \<Rightarrow> if ot > 0 then ot else 0)"

definition overtime_value :: "rat \<Rightarrow> rat \<times> rat \<times> rat \<Rightarrow> rat" where
  "overtime_value rate r = (case r of (n, ot, m) \<Rightarrow> if ot > 0 then ot * rate * m else 0)"

lemma period_fold:
  "fold (period_row rate) rows (a, b, c) =
     (a + sum_list (map fst (map canonical_row rows)),
      b + sum_list (map paid_overtime (map canonical_row rows)),
      c + sum_list (map (overtime_value rate) (map canonical_row rows)))"
  by (induction rows arbitrary: a b c)
    (auto simp: period_row_def canonical_row_def paid_overtime_def overtime_value_def Let_def)

lemma sum_list_sort: "sum_list (map f (sort xs)) = sum_list (map f xs)" for f :: "'a::linorder \<Rightarrow> rat"
  by (metis mset_map mset_sort sum_mset_sum_list)

lemma period_fold_sorted:
  "fold (period_row rate) rows (0, 0, 0) =
     (sum_list (map fst (sort (map canonical_row rows))),
      sum_list (map paid_overtime (sort (map canonical_row rows))),
      sum_list (map (overtime_value rate) (sort (map canonical_row rows))))"
  by (simp add: period_fold sum_list_sort del: map_map)

lemma round2_le: "x \<le> of_int n / 100 \<Longrightarrow> round2 x \<le> of_int n / 100"
  using round2_mono[of x "of_int n / 100"] by simp

text \<open>Recalculating a generated record from the figures it stores, as
  the adjustment and reimbursement routes do, gives exactly the gross, tax, pension and net pay
  of the original computation, so the two pipelines cannot drift apart.\<close>

theorem payroll_recalc_agrees:
  "let t = computePeriodPayroll inputs manual taxPct pensionPct
   in recalcPayrollTotals
        \<lparr>fg_regular_hours = regular_hours t, fg_overtime_hours = overtime_hours t,
         fg_hourly_rate = rate, fg_unpaid_deduction = unpaid_deduction t,
         fg_manual_adjustment = manual_adjustment t, fg_base_pay = Some (base_pay t),
         fg_overtime_pay = Some (overtime_pay t)\<rparr> taxPct pensionPct = payroll_totals.truncate t"
  by (simp add: computePeriodPayroll_def recalcPayrollTotals_def period_fold Let_def
      payroll_totals.defs)

text \<open>With non-negative tax and pension percentages that add up to at most
  100, gross pay is never negative, and net pay lies between 0 and gross pay and is exactly gross
  pay minus the two deductions.\<close>

theorem payroll_net_bounds:
  assumes "0 \<le> taxPct" "0 \<le> pensionPct" "taxPct + pensionPct \<le> 100"
  shows "let t = recalcPayrollTotals figures taxPct pensionPct
    in 0 \<le> net_pay t \<and> net_pay t \<le> gross_pay t \<and>
       net_pay t = gross_pay t - tax_deduction t - pension_deduction t"
proof -
  define g where "g = gross_pay (recalcPayrollTotals figures taxPct pensionPct)"
  have g: "0 \<le> g" by (simp add: g_def recalcPayrollTotals_def Let_def)
  have "g * (taxPct / 100) + g * (pensionPct / 100) = g * ((taxPct + pensionPct) / 100)"
    by (simp add: field_simps)
  moreover have "g * ((taxPct + pensionPct) / 100) \<le> g * 1"
    using g assms by (intro mult_left_mono) auto
  ultimately have le: "g * (taxPct / 100) + g * (pensionPct / 100) \<le> g" by simp
  moreover have "0 \<le> g * (taxPct / 100)" "0 \<le> g * (pensionPct / 100)" using g assms by simp_all
  moreover have "tax_deduction (recalcPayrollTotals figures taxPct pensionPct) = g * (taxPct / 100)"
    "pension_deduction (recalcPayrollTotals figures taxPct pensionPct) = g * (pensionPct / 100)"
    "net_pay (recalcPayrollTotals figures taxPct pensionPct) = max 0 (g - g * (taxPct / 100) - g * (pensionPct / 100))"
    by (simp_all add: g_def recalcPayrollTotals_def Let_def)
  ultimately show ?thesis by (simp add: g_def[symmetric] Let_def max_def)
qed

theorem payroll_net_bounds_witness:
  "net_pay (recalcPayrollTotals \<lparr>fg_regular_hours = 160, fg_overtime_hours = 10, fg_hourly_rate = 20,
     fg_unpaid_deduction = 0, fg_manual_adjustment = 50, fg_base_pay = None, fg_overtime_pay = None\<rparr> 10 5)
   \<le> 3550"
  using payroll_net_bounds[of 10 5 "\<lparr>fg_regular_hours = 160, fg_overtime_hours = 10, fg_hourly_rate = 20,
     fg_unpaid_deduction = 0, fg_manual_adjustment = 50, fg_base_pay = None, fg_overtime_pay = None\<rparr>"]
  by (simp add: recalcPayrollTotals_def)

lemma canonical_eqD:
  assumes "canonical a = canonical b"
  shows "sort (map canonical_row (pi_attendance a)) = sort (map canonical_row (pi_attendance b))"
    and "pi_unpaid_leave_days a = pi_unpaid_leave_days b"
    and "coalesce (pi_pay_basis a) Hourly = coalesce (pi_pay_basis b) Hourly"
    and "coalesce (pi_pay_rate_amount a) (pi_hourly_rate a) = coalesce (pi_pay_rate_amount b) (pi_hourly_rate b)"
    and "or_default (pi_monthly_pay_divisor a) 26 = or_default (pi_monthly_pay_divisor b) 26"
    and "hi_tax_rate a = hi_tax_rate b" "hi_pension_rate a = hi_pension_rate b"
    and "hi_statutory_parameter_set_id a = hi_statutory_parameter_set_id b"
    and "hi_pay_rate_id a = hi_pay_rate_id b"
  using arg_cong[OF assms, of ci_attendance] arg_cong[OF assms, of ci_unpaid_leave_days]
    arg_cong[OF assms, of ci_pay_basis] arg_cong[OF assms, of ci_pay_rate_amount]
    arg_cong[OF assms, of ci_monthly_pay_divisor] arg_cong[OF assms, of ci_tax_rate]
    arg_cong[OF assms, of ci_pension_rate] arg_cong[OF assms, of ci_statutory_parameter_set_id]
    arg_cong[OF assms, of ci_pay_rate_id]
  unfolding canonical_def canonical_inputs.simps by blast+

lemma canonical_determines:
  assumes "canonical a = canonical b"
  shows "computePeriodPayroll (period_inputs.truncate a) manual t p =
    computePeriodPayroll (period_inputs.truncate b) manual t p"
  unfolding computePeriodPayroll_def period_inputs.defs period_inputs.simps period_fold_sorted
    canonical_eqD[OF assms] by (rule refl)

lemma canonical_permuted:
  assumes "mset (pi_attendance a) = mset rows"
  shows "canonical (a\<lparr>pi_attendance := rows\<rparr>) = canonical a"
proof -
  have "mset (map canonical_row rows) = mset (map canonical_row (pi_attendance a))"
    using assms by simp
  then have "sort (map canonical_row rows) = sort (map canonical_row (pi_attendance a))"
    by (metis mset_sort properties_for_sort sorted_sort)
  then show ?thesis by (simp add: canonical_def)
qed

text \<open>The fingerprint does not depend on the order in which the database
  returns the attendance rows, and, unless SHA-256 collides on them, two drafts with equal
  fingerprints have equal payroll figures for every manual adjustment, the same tax and pension
  rates, statutory set and pay rate.\<close>

theorem payroll_hash_faithful:
  assumes "sha256 (canonical a) = sha256 (canonical b) \<Longrightarrow> canonical a = canonical b"
  shows "(mset (pi_attendance a) = mset rows \<longrightarrow>
      payrollInputsHash sha256 (a\<lparr>pi_attendance := rows\<rparr>) = payrollInputsHash sha256 a) \<and>
    (payrollInputsHash sha256 a = payrollInputsHash sha256 b \<longrightarrow>
      (\<forall>manual t p. computePeriodPayroll (period_inputs.truncate a) manual t p =
        computePeriodPayroll (period_inputs.truncate b) manual t p) \<and>
      hi_tax_rate a = hi_tax_rate b \<and> hi_pension_rate a = hi_pension_rate b \<and>
      hi_statutory_parameter_set_id a = hi_statutory_parameter_set_id b \<and>
      hi_pay_rate_id a = hi_pay_rate_id b)"
  unfolding payrollInputsHash_def
  using assms canonical_permuted[of a rows] canonical_determines[of a b] canonical_eqD(6-9)[of a b]
  by metis

definition hash_example :: "period_attendance list \<Rightarrow> hash_inputs" where
  "hash_example rows = \<lparr>pi_attendance = rows, pi_unpaid_leave_days = 1, pi_hourly_rate = 20,
     pi_pay_basis = None, pi_pay_rate_amount = None, pi_monthly_pay_divisor = None,
     hi_tax_rate = 10, hi_pension_rate = 5, hi_statutory_parameter_set_id = None, hi_pay_rate_id = None\<rparr>"

definition row_example :: "rat \<Rightarrow> rat \<Rightarrow> period_attendance" where
  "row_example h ot = \<lparr>pa_net_hours_worked = Some h, pa_hours_worked = None,
     pa_overtime_hours = Some ot, pa_overtime_multiplier = None\<rparr>"

theorem payroll_hash_faithful_witness:
  "computePeriodPayroll (period_inputs.truncate (hash_example [row_example 8 1, row_example 7 0])) 30 10 5 =
   computePeriodPayroll (period_inputs.truncate (hash_example [row_example 7 0, row_example 8 1])) 30 10 5"
proof -
  let ?a = "hash_example [row_example 8 1, row_example 7 0]"
  let ?b = "hash_example [row_example 7 0, row_example 8 1]"
  have "canonical ?a = canonical ?b"
    by (simp add: canonical_def hash_example_def canonical_row_def row_example_def row_net_hours_def
        row_overtime_def)
  then show ?thesis
    using payroll_hash_faithful[of "\<lambda>c. ''h''" ?a ?b] by (simp add: payrollInputsHash_def)
qed

subsection \<open>Tax slabs\<close>

lemma slabs_above:
  assumes "slabs_contiguous (s # rest)" "income < lower_bound s" "r \<in> set (s # rest)"
  shows "\<not> slab_matches income r"
  using assms
proof (induction "s # rest" arbitrary: s rest rule: slabs_contiguous.induct)
  case (2 s)
  then show ?case by (simp add: slab_matches_def)
next
  case (3 s t rest)
  from 3(2) obtain u where u: "upper_bound s = Some u" "lower_bound s < u" "u = lower_bound t"
    and rest: "slabs_contiguous (t # rest)" by (auto split: option.splits)
  show ?case
  proof (cases "r = s")
    case True
    then show ?thesis using 3 by (simp add: slab_matches_def)
  next
    case False
    then show ?thesis using 3(1)[OF rest] u 3(3,4) by auto
  qed
qed

lemma slabs_cover:
  assumes "slabs_contiguous slabs" "slabs \<noteq> []" "lower_bound (hd slabs) \<le> income"
  shows "\<exists>i. i < length slabs \<and> slab_matches income (slabs ! i) \<and>
    (\<forall>j < length slabs. slab_matches income (slabs ! j) \<longrightarrow> j = i)"
  using assms
proof (induction slabs rule: slabs_contiguous.induct)
  case (2 s)
  then show ?case by (simp add: slab_matches_def)
next
  case (3 s t rest)
  from 3(2) obtain u where u: "upper_bound s = Some u" "lower_bound s < u" "u = lower_bound t"
    and rest: "slabs_contiguous (t # rest)" by (auto split: option.splits)
  show ?case
  proof (cases "income < u")
    case True
    then have "\<forall>r \<in> set (t # rest). \<not> slab_matches income r"
      using slabs_above[OF rest] u by blast
    then have none: "\<not> slab_matches income ((t # rest) ! k)" if "k < length (t # rest)" for k
      using that nth_mem by blast
    have "j = 0" if "j < length (s # t # rest)" "slab_matches income ((s # t # rest) ! j)" for j
      using none[of "j - 1"] that by (cases j) auto
    moreover have "slab_matches income s" using True u 3(4) by (simp add: slab_matches_def)
    ultimately show ?thesis by (intro exI[of _ 0]) auto
  next
    case False
    then have "lower_bound (hd (t # rest)) \<le> income" using u by simp
    then obtain i where i: "i < length (t # rest)" "slab_matches income ((t # rest) ! i)"
        "\<forall>j < length (t # rest). slab_matches income ((t # rest) ! j) \<longrightarrow> j = i"
      using 3(1)[OF rest] by blast
    have no: "\<not> slab_matches income s" using False u by (simp add: slab_matches_def)
    have uniq: "j = Suc i" if "j < length (s # t # rest)" "slab_matches income ((s # t # rest) ! j)" for j
      using that no i(3)[rule_format, of "j - 1"] by (cases j) simp_all
    have "Suc i < length (s # t # rest)" "slab_matches income ((s # t # rest) ! Suc i)"
      using i(1,2) by simp_all
    then show ?thesis using uniq by blast
  qed
qed simp

lemma find_first_unique:
  assumes "i < length xs" "p (xs ! i)" "\<forall>j < length xs. p (xs ! j) \<longrightarrow> j = i"
  shows "find_first p xs = Some (xs ! i)"
proof -
  have "\<not> p (xs ! j)" if "j < i" for j
    using assms that by (metis less_irrefl order.strict_trans)
  with assms show ?thesis unfolding find_first_def find_Some_iff by blast
qed

text \<open>When a parameter set passes the schema and has tax bands, exactly one
  band applies to every annual income, and the tax is that band's base tax plus its marginal rate
  on the income above the band's lower bound, rounded to cents; no income falls between bands.\<close>

theorem statutory_tax_slab:
  assumes "statutoryParameterSetSchema v" "sp_annual_tax_slabs v = slabs" "slabs \<noteq> []" "0 \<le> income"
  shows "\<exists>!i. i < length slabs \<and> slab_matches income (slabs ! i) \<and>
    calculateAnnualProgressiveTax income slabs =
      round2 (base_tax (slabs ! i) +
        (income - lower_bound (slabs ! i)) * marginal_rate_pct (slabs ! i) / 100)"
proof -
  have c: "slabs_contiguous slabs" "case slabs of [] \<Rightarrow> True | s # _ \<Rightarrow> lower_bound s = 0"
    using assms(1) unfolding statutoryParameterSetSchema_def assms(2) by blast+
  then have low: "lower_bound (hd slabs) \<le> income" using assms(3,4) by (cases slabs) simp_all
  obtain i where i: "i < length slabs" "slab_matches income (slabs ! i)"
      "\<forall>j < length slabs. slab_matches income (slabs ! j) \<longrightarrow> j = i"
    using slabs_cover[OF c(1) assms(3) low] by blast
  have "calculateAnnualProgressiveTax income slabs =
      round2 (base_tax (slabs ! i) + (income - lower_bound (slabs ! i)) * marginal_rate_pct (slabs ! i) / 100)"
    using i(2) assms(4) unfolding calculateAnnualProgressiveTax_def Let_def max_absorb2[OF assms(4)]
      find_first_unique[OF i] by (simp add: slab_matches_def max_absorb2)
  with i show ?thesis by (intro ex1I[of _ i]) blast+
qed

definition example_slabs :: "tax_slab list" where
  "example_slabs =
     [\<lparr>lower_bound = 0, upper_bound = Some 600000, base_tax = 0, marginal_rate_pct = 0\<rparr>,
      \<lparr>lower_bound = 600000, upper_bound = Some 1200000, base_tax = 0, marginal_rate_pct = 5\<rparr>,
      \<lparr>lower_bound = 1200000, upper_bound = None, base_tax = 30000, marginal_rate_pct = 15\<rparr>]"

definition example_set :: statutory_parameters where
  "example_set = \<lparr>sp_country_code = ''PK'', sp_effective_from = 20000, sp_effective_to = None,
     sp_source_reference = ''Finance Act'', sp_annual_tax_slabs = example_slabs,
     sp_contributions = [\<lparr>ct_key = ''eobi'', ct_label = ''EOBI'', employee_rate_pct = 1, employer_rate_pct = 5,
       wage_base_cap_monthly = Some 37000\<rparr>]\<rparr>"

lemma example_set_valid: "statutoryParameterSetSchema example_set"
  by code_simp

theorem statutory_tax_slab_witness:
  "\<exists>i. i < length example_slabs \<and> slab_matches 1000000 (example_slabs ! i)"
  using statutory_tax_slab[OF example_set_valid, of example_slabs 1000000]
  by (auto simp: example_set_def example_slabs_def)

text \<open>The projected withholding is self-correcting: in December, when the
  tax withheld so far is in whole cents and does not exceed the annual tax, the deduction is
  exactly the annual tax on the year's actual gross pay minus what was withheld before.\<close>

theorem december_tax_settles:
  assumes "priorTax = of_int c / 100"
    and "priorTax \<le> calculateAnnualProgressiveTax (priorGross + max 0 grossPay) slabs"
  shows "priorTax + projected_tax slabs 12 priorGross priorTax grossPay =
    calculateAnnualProgressiveTax (priorGross + max 0 grossPay) slabs"
proof -
  define T where "T = calculateAnnualProgressiveTax (priorGross + max 0 grossPay) slabs"
  have "\<exists>k. T = of_int k / 100"
    unfolding T_def calculateAnnualProgressiveTax_def Let_def
    by (auto simp: round2_def split: option.splits intro: exI[of _ 0])
  then obtain k where "T = of_int k / 100" by blast
  then have "T - priorTax = of_int (k - c) / 100" using assms by (simp add: diff_divide_distrib)
  then have "round2 (T - priorTax) = T - priorTax" by (metis round2_cents)
  then show ?thesis using assms(2)
    by (simp add: projected_tax_def T_def[symmetric] Let_def max_absorb2)
qed

theorem december_tax_settles_witness:
  "20000 + projected_tax example_slabs 12 1100000 20000 100000 = 30000"
proof -
  have "calculateAnnualProgressiveTax 1200000 example_slabs = 30000"
    by (simp add: calculateAnnualProgressiveTax_def example_slabs_def slab_matches_def Let_def)
      (use round2_cents[of 3000000] in simp)
  then show ?thesis using december_tax_settles[of 20000 2000000 1100000 100000 example_slabs] by simp
qed

subsection \<open>Contributions\<close>

lemma contribution_item_bounds:
  assumes "i \<in> set (contribution_items pct g cs)" "\<forall>c\<in>set cs. 0 \<le> pct c"
  shows "0 < li_amount i"
proof -
  obtain c where c: "c \<in> set cs" "li_amount i = round2 (contribution_base g c * pct c / 100)" "li_amount i \<noteq> 0"
    using assms(1) by (auto simp: contribution_items_def)
  then have "0 \<le> li_amount i" using assms(2) by (auto simp: contribution_base_def intro!: round2_nonneg)
  with c show ?thesis by simp
qed

text \<open>After the statutory rules are applied, a positive net pay in whole
  cents accounts for every deduction: gross pay equals net pay plus tax, pension and the sum of
  the itemised employee contributions, and each listed contribution is positive.\<close>

theorem statutory_net_accounts:
  assumes "applyStatutoryPayroll country sets records org user y m totals = Inr r"
    and "sa_statutory_parameter_set_id r = Some sid" "0 < net_pay (sa_totals r)"
    and "gross_pay totals - tax_deduction (sa_totals r) - pension_deduction totals -
      sum_list (map li_amount (sa_employee_statutory_deductions r)) = of_int c / 100"
  shows "gross_pay (sa_totals r) = net_pay (sa_totals r) + tax_deduction (sa_totals r) +
      pension_deduction (sa_totals r) + sum_list (map li_amount (sa_employee_statutory_deductions r)) \<and>
    (\<forall>i \<in> set (sa_employee_statutory_deductions r). 0 < li_amount i)"
proof -
  obtain s where s: "calculateStatutoryPayroll country sets records org user y m (gross_pay totals) = Inr (Some s)"
    and r: "r = apply_statutory (Some s) totals"
    using assms(1,2) by (auto simp: applyStatutoryPayroll_def apply_statutory_def split: option.splits)
  obtain v where v: "statutoryParameterSetSchema v"
      "sr_employeeDeductions s = contribution_items employee_rate_pct (gross_pay totals) (sp_contributions v)"
    using s by (auto simp: calculateStatutoryPayroll_def Let_def split: option.splits if_splits)
  have "\<forall>c\<in>set (sp_contributions v). 0 \<le> employee_rate_pct c"
    using v(1) by (auto simp: statutoryParameterSetSchema_def contribution_fields_ok_def list_all_iff)
  then have "\<forall>i \<in> set (sr_employeeDeductions s). 0 < li_amount i"
    using contribution_item_bounds v(2) by metis
  moreover have "net_pay (sa_totals r) = max 0 (round2 (gross_pay totals - tax_deduction (sa_totals r) -
      pension_deduction totals - sum_list (map li_amount (sa_employee_statutory_deductions r))))"
    by (simp add: r apply_statutory_def Let_def)
  then have "net_pay (sa_totals r) = max 0 (of_int c / 100)" unfolding assms(4) by simp
  then have "net_pay (sa_totals r) = of_int c / 100" using assms(3) by (simp add: max_def split: if_splits)
  ultimately show ?thesis
    using assms(4) by (simp add: r apply_statutory_def Let_def)
qed

definition example_active :: statutory_set where
  "example_active = \<lparr>ss_id = ''S1'', ss_org_id = ''o'', ss_status = ''active'', ss_params = example_set,
     ss_created_by = ''a'', ss_activated_by = Some ''b'', ss_created_at = 0\<rparr>"

definition example_totals :: payroll_totals where
  "example_totals = \<lparr>gross_pay = 700000, tax_deduction = 0, pension_deduction = 35000, net_pay = 665000\<rparr>"

definition example_applied :: "payroll_totals statutory_applied" where
  "example_applied = \<lparr>sa_totals = \<lparr>gross_pay = 700000, tax_deduction = 5000, pension_deduction = 35000, net_pay = 659630\<rparr>,
     sa_statutory_parameter_set_id = Some ''S1'', sa_tax_calculation_method = ''projected_annual'',
     sa_employee_statutory_deductions = [\<lparr>li_key = ''eobi'', li_label = ''EOBI'', li_amount = 370\<rparr>],
     sa_employer_statutory_contributions = [\<lparr>li_key = ''eobi'', li_label = ''EOBI'', li_amount = 1850\<rparr>]\<rparr>"

lemma example_applied_eq:
  "applyStatutoryPayroll (Some ''PK'') [example_active] [] ''o'' ''u'' 2025 12 example_totals = Inr example_applied"
  by code_simp

theorem statutory_net_accounts_witness:
  "gross_pay (sa_totals example_applied) = net_pay (sa_totals example_applied) +
     tax_deduction (sa_totals example_applied) + pension_deduction (sa_totals example_applied) + 370"
  using statutory_net_accounts[OF example_applied_eq, of "''S1''" 65963000]
  by (simp add: example_applied_def example_totals_def)

end
