(* ===== verification/PayRates.thy ===== *)
theory PayRates
  imports PayrollMath
begin

text \<open>
  Effective-dated registers: the pay rates of an employee (\<^verbatim>\<open>src/src/services/payRates.ts\<close>) and
  the activation of statutory parameter sets (\<^verbatim>\<open>src/src/routes/payroll.ts\<close>, lines 104 to 166).
  Both close the row in force when a newer one takes over.  The locale \<open>dated_register\<close> is their
  common contract: every operation keeps the register well formed, and a well-formed register has
  at most one row in force per key and day.  Both registers are shown to satisfy it.
\<close>

locale dated_register =
  fixes reg_ok :: "'t \<Rightarrow> bool"
    and act :: "'a \<Rightarrow> 't \<Rightarrow> 'e + 't"
    and in_force :: "'k \<Rightarrow> day \<Rightarrow> 't \<Rightarrow> 'r set"
  assumes keeps: "reg_ok t \<Longrightarrow> act a t = Inr t' \<Longrightarrow> reg_ok t'"
    and unique: "reg_ok t \<Longrightarrow> r \<in> in_force k d t \<Longrightarrow> s \<in> in_force k d t \<Longrightarrow> r = s"
begin

lemma attempts_ok: "reg_ok t \<Longrightarrow> reg_ok (snd (attempts act as t))"
  by (rule attempts_invariant[where P = reg_ok]) (rule keeps)

lemma never_ambiguous:
  assumes "reg_ok t" "r \<in> in_force k d (snd (attempts act as t))" "s \<in> in_force k d (snd (attempts act as t))"
  shows "r = s"
  using unique[OF attempts_ok[OF assms(1)] assms(2,3)] .

end

subsection \<open>Pay rates\<close>

record pay_rate =
  rt_id :: id
  rt_org_id :: id
  rt_user_id :: id
  rt_amount :: rat
  rt_basis :: pay_basis
  rt_currency :: string
  rt_effective_from :: day
  rt_effective_to :: "day option"
  rt_source :: string
  rt_created_by :: id

definition previousDay :: "day \<Rightarrow> day" where
  "previousDay value = utc_day (yearOf value) (monthOf value - 1) (dayOf value - 1)"

record rate_input =
  ri_newId :: id
  ri_userId :: id
  ri_amount :: rat
  ri_basis :: pay_basis
  ri_currency :: string
  ri_effectiveFrom :: day
  ri_actorId :: id

definition covers_day :: "day \<Rightarrow> day option \<Rightarrow> day \<Rightarrow> bool" where
  "covers_day f t d \<longleftrightarrow> f \<le> d \<and> (case t of None \<Rightarrow> True | Some e \<Rightarrow> d \<le> e)"

text \<open>The two unique constraints of the table: the primary key and \<open>(user_id, effective_from)\<close>.\<close>

definition payRate_create :: "pay_rate \<Rightarrow> pay_rate list \<Rightarrow> (pay_rate \<times> pay_rate list) result" where
  "payRate_create row rates =
     (if \<exists>r\<in>set rates. rt_id r = rt_id row \<or>
          (rt_user_id r = rt_user_id row \<and> rt_effective_from r = rt_effective_from row)
      then Inl PlainError else Inr (row, row # rates))"

definition setEffectivePayRate :: "rate_input \<Rightarrow> id \<Rightarrow> pay_rate list \<Rightarrow> (pay_rate \<times> pay_rate list) result" where
  "setEffectivePayRate input orgId rates =
     (let userId = ri_userId input;
          effectiveFrom = ri_effectiveFrom input;
          sameDay = find_first (\<lambda>r. rt_user_id r = userId \<and> rt_effective_from r = effectiveFrom) rates;
          following = find_asc rt_effective_from
            (\<lambda>r. rt_org_id r = orgId \<and> rt_user_id r = userId \<and> effectiveFrom < rt_effective_from r) rates;
          effectiveTo = map_option (\<lambda>f. previousDay (rt_effective_from f)) following
      in case sameDay of
           Some same \<Rightarrow>
             (let upd = (\<lambda>r. r\<lparr>rt_amount := ri_amount input, rt_basis := ri_basis input,
                     rt_currency := ri_currency input, rt_effective_to := effectiveTo,
                     rt_source := ''manual'', rt_created_by := ri_actorId input\<rparr>)
              in Inr (upd same, update_where (\<lambda>r. rt_id r = rt_id same) upd rates))
         | None \<Rightarrow>
             (let previous = find_desc rt_effective_from
                    (\<lambda>r. rt_org_id r = orgId \<and> rt_user_id r = userId \<and>
                      rt_effective_from r < effectiveFrom \<and>
                      (case rt_effective_to r of None \<Rightarrow> True | Some e \<Rightarrow> effectiveFrom \<le> e)) rates;
                  row = \<lparr>rt_id = ri_newId input, rt_org_id = orgId, rt_user_id = userId,
                     rt_amount = ri_amount input, rt_basis = ri_basis input,
                     rt_currency = ri_currency input, rt_effective_from = effectiveFrom,
                     rt_effective_to = effectiveTo, rt_source = ''manual'',
                     rt_created_by = ri_actorId input\<rparr>
              in case previous of
                   None \<Rightarrow> payRate_create row rates
                 | Some p \<Rightarrow>
                     (let closeOn = previousDay effectiveFrom
                      in if closeOn < rt_effective_from p then Inl PlainError
                         else payRate_create row
                           (update_where (\<lambda>r. rt_id r = rt_id p) (\<lambda>r. r\<lparr>rt_effective_to := Some closeOn\<rparr>) rates))))"

definition rate_in_force :: "id \<Rightarrow> id \<Rightarrow> day \<Rightarrow> pay_rate \<Rightarrow> bool" where
  "rate_in_force orgId userId d r \<longleftrightarrow>
     rt_org_id r = orgId \<and> rt_user_id r = userId \<and> covers_day (rt_effective_from r) (rt_effective_to r) d"

definition getEffectiveHourlyRate ::
    "id \<Rightarrow> id \<Rightarrow> day \<Rightarrow> rat \<Rightarrow> pay_rate list \<Rightarrow> rat \<times> id option \<times> string option" where
  "getEffectiveHourlyRate orgId userId d fallback rates =
     (case find_desc rt_effective_from (rate_in_force orgId userId d) rates of
        None \<Rightarrow> (fallback, None, None)
      | Some r \<Rightarrow> (rt_amount r, Some (rt_id r), Some (rt_currency r)))"

text \<open>Well-formed timelines.  Every employee belongs to one organisation, \<open>home\<close>.\<close>

definition ranges_disjoint :: "pay_rate \<Rightarrow> pay_rate \<Rightarrow> bool" where
  "ranges_disjoint r s \<longleftrightarrow>
     (case rt_effective_to r of None \<Rightarrow> False | Some e \<Rightarrow> e < rt_effective_from s) \<or>
     (case rt_effective_to s of None \<Rightarrow> False | Some e \<Rightarrow> e < rt_effective_from r)"

definition timeline :: "(id \<Rightarrow> id) \<Rightarrow> pay_rate list \<Rightarrow> bool" where
  "timeline home rates \<longleftrightarrow>
     distinct (map rt_id rates) \<and>
     (\<forall>r\<in>set rates. rt_org_id r = home (rt_user_id r) \<and>
        (case rt_effective_to r of None \<Rightarrow> True | Some e \<Rightarrow> rt_effective_from r \<le> e)) \<and>
     (\<forall>r\<in>set rates. \<forall>s\<in>set rates. rt_id r \<noteq> rt_id s \<longrightarrow> rt_user_id r = rt_user_id s \<longrightarrow> ranges_disjoint r s)"

definition set_rate :: "(id \<Rightarrow> id) \<Rightarrow> rate_input \<Rightarrow> pay_rate list \<Rightarrow> app_error + pay_rate list" where
  "set_rate home input rates =
     bind_result (setEffectivePayRate input (home (ri_userId input)) rates) (\<lambda>(r, rates'). Inr rates')"

lemma previousDay_eq [simp]: "previousDay d = d - 1"
proof -
  have m: "1 \<le> monthOf d" "monthOf d \<le> 12" by (rule monthOf_bounds)+
  have "(monthOf d - 1) div 12 = 0" "(monthOf d - 1) mod 12 = monthOf d - 1"
    using m by (simp_all add: div_pos_pos_trivial mod_pos_pos_trivial)
  then have "previousDay d = civil_day (yearOf d) (monthOf d) (dayOf d - 1)"
    by (simp add: previousDay_def utc_day_def)
  also have "\<dots> = civil_day (yearOf d) (monthOf d) (dayOf d) - 1" by (simp add: civil_day_def)
  finally show ?thesis by (simp add: civil_roundtrip)
qed

lemma timeline_disjoint:
  "timeline home rates \<Longrightarrow> r \<in> set rates \<Longrightarrow> s \<in> set rates \<Longrightarrow> rt_id r \<noteq> rt_id s \<Longrightarrow>
     rt_user_id r = rt_user_id s \<Longrightarrow> ranges_disjoint r s"
  by (simp add: timeline_def)

lemma timeline_same_id:
  "timeline home rates \<Longrightarrow> r \<in> set rates \<Longrightarrow> s \<in> set rates \<Longrightarrow> rt_id r = rt_id s \<Longrightarrow> r = s"
  by (auto simp: timeline_def distinct_map inj_on_def)

lemma timeline_covers_unique:
  assumes "timeline home rates" "rate_in_force g u d r" "rate_in_force g u d s" "r \<in> set rates" "s \<in> set rates"
  shows "r = s"
proof (rule ccontr)
  assume "r \<noteq> s"
  then have "rt_id r \<noteq> rt_id s" using timeline_same_id assms by blast
  then have "ranges_disjoint r s" using timeline_disjoint assms by (simp add: rate_in_force_def)
  then show False using assms(2,3)
    by (auto simp: ranges_disjoint_def rate_in_force_def covers_day_def split: option.splits)
qed

text \<open>A row that starts before \<open>e\<close> and a row that starts at \<open>e\<close>: the earlier one has ended.\<close>

lemma earlier_ended:
  assumes "timeline home rates" "r \<in> set rates" "s \<in> set rates" "rt_user_id r = rt_user_id s"
    and "rt_effective_from r < rt_effective_from s"
  shows "\<exists>x. rt_effective_to r = Some x \<and> x < rt_effective_from s"
proof -
  have "rt_id r \<noteq> rt_id s" using timeline_same_id[OF assms(1-3)] assms(5) by auto
  then have "ranges_disjoint r s" using timeline_disjoint assms by blast
  moreover have "rt_effective_to s = Some y \<Longrightarrow> rt_effective_from s \<le> y" for y
    using assms(1,3) by (auto simp: timeline_def)
  ultimately show ?thesis using assms(5) by (force simp: ranges_disjoint_def split: option.splits)
qed

lemma ranges_disjoint_sym: "ranges_disjoint r s \<Longrightarrow> ranges_disjoint s r"
  by (auto simp: ranges_disjoint_def)

lemma timeline_replace:
  assumes t: "timeline home rates" and s: "s \<in> set rates"
    and f: "rt_id (f s) = rt_id s" "rt_user_id (f s) = rt_user_id s" "rt_org_id (f s) = rt_org_id s"
    and valid: "case rt_effective_to (f s) of None \<Rightarrow> True | Some e \<Rightarrow> rt_effective_from (f s) \<le> e"
    and disj: "\<And>r. r \<in> set rates \<Longrightarrow> rt_id r \<noteq> rt_id s \<Longrightarrow> rt_user_id r = rt_user_id s \<Longrightarrow> ranges_disjoint r (f s)"
  shows "timeline home (update_where (\<lambda>r. rt_id r = rt_id s) f rates)"
proof -
  have only: "{r \<in> set rates. rt_id r = rt_id s} = {s}" using timeline_same_id[OF t _ s] s by auto
  have rows: "set (update_where (\<lambda>r. rt_id r = rt_id s) f rates) = insert (f s) {r \<in> set rates. rt_id r \<noteq> rt_id s}"
    by (simp add: set_update_where only)
  have "map rt_id (update_where (\<lambda>r. rt_id r = rt_id s) f rates) = map rt_id rates"
    using timeline_same_id[OF t _ s] f(1) by (auto simp: update_where_def)
  then have ids: "distinct (map rt_id (update_where (\<lambda>r. rt_id r = rt_id s) f rates))"
    using t by (simp add: timeline_def)
  have "\<forall>r\<in>insert (f s) {r \<in> set rates. rt_id r \<noteq> rt_id s}. rt_org_id r = home (rt_user_id r) \<and>
      (case rt_effective_to r of None \<Rightarrow> True | Some e \<Rightarrow> rt_effective_from r \<le> e)"
    using t s f valid by (auto simp: timeline_def)
  moreover have "\<forall>r\<in>insert (f s) {r \<in> set rates. rt_id r \<noteq> rt_id s}. \<forall>q\<in>insert (f s) {r \<in> set rates. rt_id r \<noteq> rt_id s}.
      rt_id r \<noteq> rt_id q \<longrightarrow> rt_user_id r = rt_user_id q \<longrightarrow> ranges_disjoint r q"
    using disj timeline_disjoint[OF t] f ranges_disjoint_sym by auto
  ultimately show ?thesis using ids unfolding timeline_def rows by blast
qed

lemma timeline_insert:
  assumes "timeline home rates" "payRate_create row rates = Inr (r', rates')" "rt_org_id row = home (rt_user_id row)"
    and "case rt_effective_to row of None \<Rightarrow> True | Some e \<Rightarrow> rt_effective_from row \<le> e"
    and "\<And>r. r \<in> set rates \<Longrightarrow> rt_user_id r = rt_user_id row \<Longrightarrow> ranges_disjoint r row"
  shows "timeline home rates'"
proof -
  have no: "\<not> (\<exists>r\<in>set rates. rt_id r = rt_id row \<or>
      (rt_user_id r = rt_user_id row \<and> rt_effective_from r = rt_effective_from row))"
    using assms(2) unfolding payRate_create_def by (metis sum.distinct(1))
  with assms(2) have r: "rates' = row # rates" unfolding payRate_create_def by auto
  from no have "rt_id row \<notin> set (map rt_id rates)" by force
  moreover have "ranges_disjoint row q" if "q \<in> set rates" "rt_user_id q = rt_user_id row" for q
    using assms(5)[OF that] by (rule ranges_disjoint_sym)
  ultimately show ?thesis
    using assms(1,3-5) by (simp add: timeline_def r)
qed

text \<open>The end of the new range: it stops the day before the next rate of the employee begins.\<close>

definition next_end :: "(id \<Rightarrow> id) \<Rightarrow> id \<Rightarrow> day \<Rightarrow> pay_rate list \<Rightarrow> day option" where
  "next_end home u e rates =
     map_option (\<lambda>f. previousDay (rt_effective_from f))
       (find_asc rt_effective_from
         (\<lambda>r. rt_org_id r = home u \<and> rt_user_id r = u \<and> e < rt_effective_from r) rates)"

lemma next_end_valid: "case next_end home u e rates of None \<Rightarrow> True | Some x \<Rightarrow> e \<le> x"
proof (cases "find_asc rt_effective_from
    (\<lambda>r. rt_org_id r = home u \<and> rt_user_id r = u \<and> e < rt_effective_from r) rates")
  case None
  then show ?thesis by (simp add: next_end_def)
next
  case (Some f)
  then have "e < rt_effective_from f" using find_asc_Some(2)[OF Some] by simp
  then show ?thesis by (simp add: next_end_def Some)
qed

lemma next_end_before:
  assumes "timeline home rates" "r \<in> set rates" "rt_user_id r = u" "e < rt_effective_from r"
  shows "\<exists>x. next_end home u e rates = Some x \<and> x < rt_effective_from r"
proof -
  let ?p = "\<lambda>r. rt_org_id r = home u \<and> rt_user_id r = u \<and> e < rt_effective_from r"
  have p: "?p r" using assms by (auto simp: timeline_def)
  obtain f where f: "find_asc rt_effective_from ?p rates = Some f"
    using find_asc_None[of rt_effective_from ?p rates] p assms(2) by fastforce
  have "rt_effective_from f \<le> rt_effective_from r" using find_asc_Some(3)[OF f assms(2) p] .
  then show ?thesis by (simp add: next_end_def f)
qed

text \<open>A range \<open>[e, next_end]\<close> is disjoint from every other row that has ended before \<open>e\<close> or begins
  after it.\<close>

lemma new_range_disjoint:
  assumes "timeline home rates" "r \<in> set rates" "rt_user_id r = u" "rt_effective_from r \<noteq> e"
    and "rt_effective_from r < e \<Longrightarrow> \<exists>x. rt_effective_to r = Some x \<and> x < e"
    and "rt_effective_from q = e" "rt_effective_to q = next_end home u e rates"
  shows "ranges_disjoint r q"
proof (cases "rt_effective_from r < e")
  case True
  then show ?thesis using assms by (auto simp: ranges_disjoint_def)
next
  case False
  then obtain x where "next_end home u e rates = Some x" "x < rt_effective_from r"
    using next_end_before[OF assms(1-3), of e] assms(4) by auto
  then show ?thesis using assms(7) by (simp add: ranges_disjoint_def)
qed

lemma same_start_same_row:
  assumes "timeline home rates" "r \<in> set rates" "s \<in> set rates" "rt_user_id r = rt_user_id s"
    and "rt_effective_from r = rt_effective_from s"
  shows "rt_id r = rt_id s"
proof (rule ccontr)
  assume "rt_id r \<noteq> rt_id s"
  then have "ranges_disjoint r s" using timeline_disjoint assms by blast
  then show False using assms by (auto simp: ranges_disjoint_def timeline_def split: option.splits)
qed

lemma setEffectivePayRate_timeline:
  assumes t: "timeline home rates"
    and "setEffectivePayRate input (home (ri_userId input)) rates = Inr (row, rates')"
  shows "timeline home rates'"
proof -
  let ?u = "ri_userId input" and ?e = "ri_effectiveFrom input"
  let ?T = "next_end home ?u ?e rates"
  let ?same = "find_first (\<lambda>r. rt_user_id r = ?u \<and> rt_effective_from r = ?e) rates"
  let ?prev = "find_desc rt_effective_from (\<lambda>r. rt_org_id r = home ?u \<and> rt_user_id r = ?u \<and>
     rt_effective_from r < ?e \<and> (case rt_effective_to r of None \<Rightarrow> True | Some e \<Rightarrow> ?e \<le> e)) rates"
  let ?new = "\<lparr>rt_id = ri_newId input, rt_org_id = home ?u, rt_user_id = ?u, rt_amount = ri_amount input,
     rt_basis = ri_basis input, rt_currency = ri_currency input, rt_effective_from = ?e,
     rt_effective_to = ?T, rt_source = ''manual'', rt_created_by = ri_actorId input\<rparr>"
  note step = assms(2)[unfolded setEffectivePayRate_def Let_def, folded next_end_def]
  show ?thesis
  proof (cases ?same)
    case (Some s)
    let ?upd = "\<lambda>r. r\<lparr>rt_amount := ri_amount input, rt_basis := ri_basis input,
      rt_currency := ri_currency input, rt_effective_to := ?T, rt_source := ''manual'', rt_created_by := ri_actorId input\<rparr>"
    have s: "s \<in> set rates" "rt_user_id s = ?u" "rt_effective_from s = ?e" using find_first_Some[OF Some] by auto
    have "ranges_disjoint r (?upd s)" if "r \<in> set rates" "rt_id r \<noteq> rt_id s" "rt_user_id r = rt_user_id s" for r
      using new_range_disjoint[OF t that(1), of ?u ?e "?upd s"] earlier_ended[OF t that(1) s(1) that(3)]
        same_start_same_row[OF t that(1) s(1) that(3)] that s by auto
    then have "timeline home (update_where (\<lambda>r. rt_id r = rt_id s) ?upd rates)"
      using next_end_valid[of ?e home ?u rates] s
      by (intro timeline_replace[OF t s(1)]) (auto split: option.splits)
    then show ?thesis using step Some by simp
  next
    case None
    then have no_same: "rt_effective_from r \<noteq> ?e" if "r \<in> set rates" "rt_user_id r = ?u" for r
      using that by (auto simp: find_first_None)
    show ?thesis
    proof (cases ?prev)
      case None
      then have ended: "\<exists>x. rt_effective_to r = Some x \<and> x < ?e"
        if "r \<in> set rates" "rt_user_id r = ?u" "rt_effective_from r < ?e" for r
        using that t by (auto simp: find_desc_None timeline_def split: option.splits)
      have "payRate_create ?new rates = Inr (row, rates')" using step \<open>?same = None\<close> None by simp
      then show ?thesis
        using next_end_valid[of ?e home ?u rates] new_range_disjoint[OF t _ _ no_same ended]
        by (intro timeline_insert[OF t, of ?new row rates']) (auto split: option.splits)
    next
      case (Some q)
      let ?close = "\<lambda>r. r\<lparr>rt_effective_to := Some (?e - 1)\<rparr>"
      let ?rates = "update_where (\<lambda>r. rt_id r = rt_id q) ?close rates"
      have q: "q \<in> set rates" "rt_user_id q = ?u" "rt_effective_from q < ?e" "rate_in_force (home ?u) ?u ?e q"
        using find_desc_Some(1,2)[OF Some] by (auto simp: rate_in_force_def covers_day_def)
      have ended: "\<exists>x. rt_effective_to r = Some x \<and> x < ?e"
        if "r \<in> set rates" "rt_id r \<noteq> rt_id q" "rt_user_id r = ?u" "rt_effective_from r < ?e" for r
      proof (rule ccontr)
        assume "\<not> ?thesis"
        then have "rate_in_force (home ?u) ?u ?e r"
          using that t by (auto simp: rate_in_force_def covers_day_def timeline_def not_less split: option.splits)
        then show False using timeline_covers_unique[OF t _ q(4) that(1) q(1)] that(2) by blast
      qed
      have "ranges_disjoint r (?close q)" if "r \<in> set rates" "rt_id r \<noteq> rt_id q" "rt_user_id r = rt_user_id q" for r
        using timeline_disjoint[OF t that(1) q(1) that(2,3)] q(4)
        by (auto simp: ranges_disjoint_def rate_in_force_def covers_day_def split: option.splits)
      then have t2: "timeline home ?rates" using q by (intro timeline_replace[OF t q(1)]) auto
      have "payRate_create ?new ?rates = Inr (row, rates')"
        using step \<open>?same = None\<close> Some q(3) by (simp split: if_splits)
      moreover have "ranges_disjoint r ?new" if "r \<in> set ?rates" "rt_user_id r = ?u" for r
      proof (cases "\<exists>r0\<in>set rates. rt_id r0 = rt_id q \<and> r = ?close r0")
        case True
        then show ?thesis by (auto simp: ranges_disjoint_def)
      next
        case False
        then have r: "r \<in> set rates" "rt_id r \<noteq> rt_id q" using that(1) by (auto simp: set_update_where)
        then show ?thesis
          using new_range_disjoint[OF t r(1) that(2) no_same[OF r(1) that(2)] ended[OF r that(2)], of ?new] by simp
      qed
      ultimately show ?thesis
        using next_end_valid[of ?e home ?u rates]
        by (intro timeline_insert[OF t2, of ?new row rates']) (auto split: option.splits)
    qed
  qed
qed

lemma set_rate_timeline: "timeline home t \<Longrightarrow> set_rate home a t = Inr t' \<Longrightarrow> timeline home t'"
  using setEffectivePayRate_timeline by (auto simp: set_rate_def)

interpretation rates: dated_register "timeline home" "set_rate home"
    "\<lambda>u d t. {r \<in> set t. rate_in_force (home u) u d r}" for home
  by unfold_locales (auto intro: set_rate_timeline dest: timeline_covers_unique)

text \<open>C7: however pay rates are set, with whatever dates and in whatever order,
  no employee ever has two rates in force on the same day.\<close>

theorem pay_rate_timeline:
  assumes "timeline home rates"
    and "r \<in> set (snd (attempts (set_rate home) inputs rates))" "rate_in_force (home u) u d r"
    and "s \<in> set (snd (attempts (set_rate home) inputs rates))" "rate_in_force (home u) u d s"
  shows "r = s"
  using rates.never_ambiguous[OF assms(1), of r inputs u d s] assms by simp

definition rate_example :: "id \<Rightarrow> day \<Rightarrow> rat \<Rightarrow> rate_input" where
  "rate_example i d a = \<lparr>ri_newId = i, ri_userId = ''u'', ri_amount = a, ri_basis = Monthly,
     ri_currency = ''PKR'', ri_effectiveFrom = d, ri_actorId = ''hr''\<rparr>"

definition rates_example :: "pay_rate list" where
  "rates_example = snd (attempts (set_rate (\<lambda>_. ''o''))
     [rate_example ''r1'' 20089 100000, rate_example ''r2'' 20148 120000, rate_example ''r3'' 20120 110000] [])"

theorem pay_rate_timeline_witness:
  "length rates_example = 3 \<and> rate_in_force ''o'' ''u'' 20130 (hd rates_example) \<and>
   list_all (\<lambda>s. rate_in_force ''o'' ''u'' 20130 s = (s = hd rates_example)) rates_example"
proof -
  have e: "length rates_example = 3" "rate_in_force ''o'' ''u'' 20130 (hd rates_example)" by code_simp+
  then have "hd rates_example \<in> set rates_example" by (intro hd_in_set) auto
  moreover have "timeline (\<lambda>_. ''o'') []" by (simp add: timeline_def)
  ultimately have "s = hd rates_example" if "s \<in> set rates_example" "rate_in_force ''o'' ''u'' 20130 s" for s
    using pay_rate_timeline[of "\<lambda>_. ''o''" "[]" s "[rate_example ''r1'' 20089 100000,
        rate_example ''r2'' 20148 120000, rate_example ''r3'' 20120 110000]" "''u''" 20130 "hd rates_example"]
      e that unfolding rates_example_def by blast
  with e show ?thesis unfolding list_all_iff by blast
qed

lemma setEffectivePayRate_succeeds:
  assumes "timeline home rates" "\<forall>r\<in>set rates. rt_id r \<noteq> ri_newId input"
  shows "\<exists>row rates'. setEffectivePayRate input (home (ri_userId input)) rates = Inr (row, rates') \<and>
    row \<in> set rates' \<and> rt_effective_from row = ri_effectiveFrom input \<and> rt_user_id row = ri_userId input \<and>
    rt_amount row = ri_amount input \<and>
    rate_in_force (home (ri_userId input)) (ri_userId input) (ri_effectiveFrom input) row"
proof -
  let ?u = "ri_userId input" and ?e = "ri_effectiveFrom input"
  let ?same = "find_first (\<lambda>r. rt_user_id r = ?u \<and> rt_effective_from r = ?e) rates"
  note cov = next_end_valid[of ?e home ?u rates]
  show ?thesis
  proof (cases ?same)
    case (Some s)
    then have "s \<in> set rates" "rt_user_id s = ?u" "rt_effective_from s = ?e" "rt_org_id s = home ?u"
      using find_first_Some[OF Some] assms(1) by (auto simp: timeline_def)
    then show ?thesis
      using Some cov unfolding setEffectivePayRate_def Let_def next_end_def[symmetric]
      by (auto simp: set_update_where rate_in_force_def covers_day_def split: option.splits)
  next
    case None
    then have no: "\<forall>r\<in>set rates. \<not> (rt_user_id r = ?u \<and> rt_effective_from r = ?e)"
      by (simp add: find_first_None)
    let ?prev = "find_desc rt_effective_from (\<lambda>r. rt_org_id r = home ?u \<and> rt_user_id r = ?u \<and>
       rt_effective_from r < ?e \<and> (case rt_effective_to r of None \<Rightarrow> True | Some e \<Rightarrow> ?e \<le> e)) rates"
    show ?thesis
    proof (cases ?prev)
      case None
      then show ?thesis
        using \<open>?same = None\<close> no cov assms(2)
        unfolding setEffectivePayRate_def Let_def next_end_def[symmetric] payRate_create_def
        by (auto simp: rate_in_force_def covers_day_def split: option.splits)
    next
      case (Some q)
      then have "rt_effective_from q < ?e" using find_desc_Some(2)[OF Some] by simp
      then show ?thesis
        using \<open>?same = None\<close> Some no cov assms(2)
        unfolding setEffectivePayRate_def Let_def next_end_def[symmetric] payRate_create_def
        by (auto simp: rate_in_force_def covers_day_def set_update_where split: option.splits)
    qed
  qed
qed

text \<open>Setting a rate succeeds whenever the new row's id is fresh (the guard
  against overlapping ranges never fires on a well-formed timeline), and the rate that was set is
  the one that \<open>getEffectiveHourlyRate\<close> finds on the day it takes effect.\<close>

theorem pay_rate_takes_effect:
  assumes "timeline home rates" "\<forall>r\<in>set rates. rt_id r \<noteq> ri_newId input"
  shows "\<exists>row rates'. setEffectivePayRate input (home (ri_userId input)) rates = Inr (row, rates') \<and>
    rt_amount row = ri_amount input \<and>
    getEffectiveHourlyRate (home (ri_userId input)) (ri_userId input) (ri_effectiveFrom input) fallback rates' =
      (ri_amount input, Some (rt_id row), Some (rt_currency row))"
proof -
  let ?u = "ri_userId input" and ?e = "ri_effectiveFrom input"
  obtain row rates' where r: "setEffectivePayRate input (home ?u) rates = Inr (row, rates')"
      "row \<in> set rates'" "rt_amount row = ri_amount input" "rate_in_force (home ?u) ?u ?e row"
    using setEffectivePayRate_succeeds[OF assms] by blast
  have t: "timeline home rates'" using setEffectivePayRate_timeline[OF assms(1) r(1)] .
  obtain q where q: "find_desc rt_effective_from (rate_in_force (home ?u) ?u ?e) rates' = Some q"
    using find_desc_None[of rt_effective_from "rate_in_force (home ?u) ?u ?e" rates'] r by fastforce
  then have "q = row"
    using timeline_covers_unique[OF t _ r(4) _ r(2)] find_desc_Some(1,2)[OF q] by blast
  then show ?thesis using r q by (auto simp: getEffectiveHourlyRate_def)
qed

theorem pay_rate_takes_effect_witness:
  "\<exists>row rates'. setEffectivePayRate (rate_example ''r4'' 20200 130000) ''o'' rates_example = Inr (row, rates') \<and>
     rt_amount row = 130000"
proof -
  have "timeline (\<lambda>_. ''o'') rates_example" by code_simp
  moreover have "\<forall>r\<in>set rates_example. rt_id r \<noteq> ri_newId (rate_example ''r4'' 20200 130000)" by code_simp
  ultimately show ?thesis
    using pay_rate_takes_effect[of "\<lambda>_. ''o''" rates_example "rate_example ''r4'' 20200 130000" 0]
    by (auto simp: rate_example_def)
qed

subsection \<open>Statutory parameter sets\<close>

text \<open>\<open>POST /payroll/statutory-parameter-sets\<close>: the body has passed the schema.\<close>

definition createStatutorySet ::
    "id \<Rightarrow> instant \<Rightarrow> id \<Rightarrow> id \<Rightarrow> statutory_parameters \<Rightarrow> statutory_set list \<Rightarrow> (statutory_set \<times> statutory_set list) result" where
  "createStatutorySet newId now actor orgId value sets =
     (if \<not> statutoryParameterSetSchema value then Inl ValidationError
      else if \<exists>s\<in>set sets. ss_id s = newId then Inl PlainError
      else (let row = \<lparr>ss_id = newId, ss_org_id = orgId, ss_status = ''draft'', ss_params = value,
                       ss_created_by = actor, ss_activated_by = None, ss_created_at = now\<rparr>
            in Inr (row, row # sets)))"

definition ends_before :: "day option \<Rightarrow> day \<Rightarrow> bool" where
  "ends_before e d \<longleftrightarrow> (case e of None \<Rightarrow> False | Some x \<Rightarrow> x < d)"

lemma ends_before_simps [simp]: "\<not> ends_before None d" "ends_before (Some x) d \<longleftrightarrow> x < d"
  by (simp_all add: ends_before_def)

abbreviation ss_from :: "statutory_set \<Rightarrow> day" where
  "ss_from s \<equiv> sp_effective_from (ss_params s)"

abbreviation ss_to :: "statutory_set \<Rightarrow> day option" where
  "ss_to s \<equiv> sp_effective_to (ss_params s)"

definition close_set :: "day \<Rightarrow> statutory_set \<Rightarrow> statutory_set" where
  "close_set d s = s\<lparr>ss_params := (ss_params s)\<lparr>sp_effective_to := Some d\<rparr>\<rparr>"

fun close_overlapping :: "statutory_set \<Rightarrow> statutory_set list \<Rightarrow> statutory_set list \<Rightarrow> statutory_set list result" where
  "close_overlapping new [] sets = Inr sets"
| "close_overlapping new (active # rest) sets =
     (if ends_before (ss_to new) (ss_from active) \<or> ends_before (ss_to active) (ss_from new)
      then close_overlapping new rest sets
      else if ss_from active \<ge> ss_from new then Inl (AppError 409 ''STATUTORY_SET_OVERLAP'')
      else (let closeOldOn = ss_from new - 1
            in if closeOldOn < ss_from active then Inl (AppError 409 ''STATUTORY_SET_OVERLAP'')
               else close_overlapping new rest
                 (update_where (\<lambda>s. ss_id s = ss_id active) (close_set closeOldOn) sets)))"

definition activation_candidate :: "id \<Rightarrow> id \<Rightarrow> id \<Rightarrow> statutory_set list \<Rightarrow> statutory_set result" where
  "activation_candidate actor orgId setId sets =
     (case find_first (\<lambda>s. ss_id s = setId \<and> ss_org_id s = orgId) sets of
        None \<Rightarrow> Inl NotFoundError
      | Some st \<Rightarrow>
          if ss_status st \<noteq> ''draft'' then Inl (AppError 409 ''STATUTORY_SET_NOT_DRAFT'')
          else if ss_created_by st = actor then Inl (AppError 403 ''MAKER_CHECKER_REQUIRED'')
          else Inr st)"

definition commit_activation :: "id \<Rightarrow> statutory_set \<Rightarrow> statutory_set list \<Rightarrow> statutory_set list result" where
  "commit_activation actor st sets =
     bind_result
       (close_overlapping st
         (filter (\<lambda>s. ss_org_id s = ss_org_id st \<and>
            sp_country_code (ss_params s) = sp_country_code (ss_params st) \<and>
            ss_status s = ''active'' \<and> ss_id s \<noteq> ss_id st) sets) sets)
       (\<lambda>sets1. Inr (update_where (\<lambda>s. ss_id s = ss_id st)
          (\<lambda>s. s\<lparr>ss_status := ''active'', ss_activated_by := Some actor\<rparr>) sets1))"

definition activateStatutorySet :: "id \<Rightarrow> id \<Rightarrow> id \<Rightarrow> statutory_set list \<Rightarrow> (statutory_set \<times> statutory_set list) result" where
  "activateStatutorySet actor orgId setId sets =
     bind_result (activation_candidate actor orgId setId sets) (\<lambda>st.
       bind_result (commit_activation actor st sets) (\<lambda>sets'. Inr (st, sets')))"

lemmas activation_defs = activateStatutorySet_def activation_candidate_def commit_activation_def

datatype set_action =
    CreateSet (sa_id: id) instant (sa_actor: id) (sa_org: id) statutory_parameters
  | ActivateSet (sa_actor: id) (sa_org: id) (sa_id: id)

fun set_act :: "set_action \<Rightarrow> statutory_set list \<Rightarrow> app_error + statutory_set list" where
  "set_act (CreateSet i now actor org v) sets =
     bind_result (createStatutorySet i now actor org v sets) (\<lambda>(r, t). Inr t)"
| "set_act (ActivateSet actor org i) sets =
     bind_result (activateStatutorySet actor org i sets) (\<lambda>(r, t). Inr t)"

text \<open>Two active sets of one organisation and country never overlap, every range is non-empty, and
  an active set was activated by somebody other than its author.\<close>

definition same_regime :: "statutory_set \<Rightarrow> statutory_set \<Rightarrow> bool" where
  "same_regime r s \<longleftrightarrow> ss_org_id r = ss_org_id s \<and>
     sp_country_code (ss_params r) = sp_country_code (ss_params s) \<and>
     ss_status r = ''active'' \<and> ss_status s = ''active''"

definition sets_apart :: "statutory_set \<Rightarrow> statutory_set \<Rightarrow> bool" where
  "sets_apart r s \<longleftrightarrow> ends_before (ss_to r) (ss_from s) \<or> ends_before (ss_to s) (ss_from r)"

definition sets_ok :: "statutory_set list \<Rightarrow> bool" where
  "sets_ok sets \<longleftrightarrow>
     distinct (map ss_id sets) \<and>
     (\<forall>s\<in>set sets. \<not> ends_before (ss_to s) (ss_from s) \<and>
        (ss_status s = ''active'' \<longrightarrow> ss_activated_by s \<noteq> None \<and> ss_activated_by s \<noteq> Some (ss_created_by s))) \<and>
     (\<forall>r\<in>set sets. \<forall>s\<in>set sets. ss_id r \<noteq> ss_id s \<longrightarrow> same_regime r s \<longrightarrow> sets_apart r s)"

lemma close_overlapping_result:
  assumes "close_overlapping new as sets = Inr sets'"
  shows "sets' = map (\<lambda>s. if \<exists>a\<in>set as. ss_id a = ss_id s \<and> \<not> sets_apart new a
      then close_set (ss_from new - 1) s else s) sets \<and>
    (\<forall>a\<in>set as. \<not> sets_apart new a \<longrightarrow> ss_from a < ss_from new)"
  using assms
proof (induction as arbitrary: sets)
  case (Cons a as)
  show ?case
  proof (cases "sets_apart new a")
    case True
    then show ?thesis using Cons by (auto simp: sets_apart_def split: if_splits)
  next
    case False
    then have lt: "ss_from a < ss_from new"
      and rec: "close_overlapping new as (update_where (\<lambda>s. ss_id s = ss_id a) (close_set (ss_from new - 1)) sets) = Inr sets'"
      using Cons.prems by (auto simp: sets_apart_def Let_def split: if_splits)
    show ?thesis
      using Cons.IH[OF rec] lt False by (auto simp: update_where_def close_set_def)
  qed
qed simp

text \<open>What an activation does to one row: the activated set changes status, an overlapping set of the
  same regime is closed on the day before, everything else stays.\<close>

definition activated_row :: "id \<Rightarrow> statutory_set \<Rightarrow> statutory_set \<Rightarrow> statutory_set" where
  "activated_row actor st s =
     (if ss_id s = ss_id st then s\<lparr>ss_status := ''active'', ss_activated_by := Some actor\<rparr>
      else if same_regime (st\<lparr>ss_status := ''active''\<rparr>) s \<and> \<not> sets_apart st s
      then close_set (ss_from st - 1) s else s)"

lemma activate_rows:
  assumes "sets_ok sets" "activateStatutorySet actor org i sets = Inr (st, sets')"
  shows "st \<in> set sets \<and> ss_created_by st \<noteq> actor \<and> ss_id st = i \<and> sets' = map (activated_row actor st) sets \<and>
    (\<forall>a\<in>set sets. ss_id a \<noteq> ss_id st \<longrightarrow> same_regime (st\<lparr>ss_status := ''active''\<rparr>) a \<longrightarrow>
      \<not> sets_apart st a \<longrightarrow> ss_from a < ss_from st)"
proof -
  let ?as = "filter (\<lambda>s. ss_org_id s = ss_org_id st \<and>
     sp_country_code (ss_params s) = sp_country_code (ss_params st) \<and> ss_status s = ''active'' \<and> ss_id s \<noteq> ss_id st) sets"
  have st: "st \<in> set sets" "ss_id st = i"
    using assms(2) by (auto simp: activation_defs split: option.splits if_splits dest: find_first_Some)
  obtain sets1 where s1: "close_overlapping st ?as sets = Inr sets1" and ne: "ss_created_by st \<noteq> actor"
    and s': "sets' = update_where (\<lambda>s. ss_id s = ss_id st) (\<lambda>s. s\<lparr>ss_status := ''active'', ss_activated_by := Some actor\<rparr>) sets1"
    using assms(2) by (auto simp: activation_defs split: option.splits if_splits)
  note r = close_overlapping_result[OF s1]
  have inj: "inj_on ss_id (set sets)" using assms(1) by (simp add: sets_ok_def distinct_map)
  have in_as: "a \<in> set ?as \<longleftrightarrow> a \<in> set sets \<and> same_regime (st\<lparr>ss_status := ''active''\<rparr>) a \<and> ss_id a \<noteq> ss_id st" for a
    by (auto simp: same_regime_def)
  have hit: "(\<exists>a\<in>set ?as. ss_id a = ss_id s \<and> \<not> sets_apart st a) \<longleftrightarrow>
      same_regime (st\<lparr>ss_status := ''active''\<rparr>) s \<and> ss_id s \<noteq> ss_id st \<and> \<not> sets_apart st s" if "s \<in> set sets" for s
  proof -
    have "a = s" if "a \<in> set sets" "ss_id a = ss_id s" for a
      using inj that \<open>s \<in> set sets\<close> by (simp add: inj_onD)
    then show ?thesis unfolding Bex_def in_as using that by blast
  qed
  have "sets' = map (activated_row actor st) sets"
    unfolding s' update_where_def conjunct1[OF r] map_map
    by (rule map_cong[OF refl]) (simp only: hit comp_def, simp add: activated_row_def close_set_def)
  with st ne r show ?thesis unfolding in_as Ball_def by blast
qed

lemma activated_row_fields [simp]:
  "ss_id (activated_row actor st s) = ss_id s" "ss_org_id (activated_row actor st s) = ss_org_id s"
  "sp_country_code (ss_params (activated_row actor st s)) = sp_country_code (ss_params s)"
  "ss_from (activated_row actor st s) = ss_from s" "ss_created_by (activated_row actor st s) = ss_created_by s"
  by (simp_all add: activated_row_def close_set_def)

lemma activated_row_shrinks:
  "ends_before (ss_to s) d \<Longrightarrow> ends_before (ss_to (activated_row actor st s)) d"
  by (auto simp: activated_row_def close_set_def ends_before_def sets_apart_def split: option.splits if_splits)

lemma activate_keeps:
  assumes ok: "sets_ok sets" and act: "activateStatutorySet actor org i sets = Inr (st, sets')"
  shows "sets_ok sets'"
proof -
  let ?g = "activated_row actor st"
  have st: "st \<in> set sets" "ss_created_by st \<noteq> actor" and s': "sets' = map ?g sets"
    and before: "\<And>a. a \<in> set sets \<Longrightarrow> ss_id a \<noteq> ss_id st \<Longrightarrow> same_regime (st\<lparr>ss_status := ''active''\<rparr>) a \<Longrightarrow>
      \<not> sets_apart st a \<Longrightarrow> ss_from a < ss_from st"
    using activate_rows[OF ok act] by blast+
  have inj: "inj_on ss_id (set sets)" using ok by (simp add: sets_ok_def distinct_map)
  have only: "r = st" if "r \<in> set sets" "ss_id r = ss_id st" for r using inj that st(1) by (auto dest: inj_onD)
  have row: "\<not> ends_before (ss_to (?g s)) (ss_from (?g s)) \<and>
      (ss_status (?g s) = ''active'' \<longrightarrow> ss_activated_by (?g s) \<noteq> None \<and> ss_activated_by (?g s) \<noteq> Some (ss_created_by (?g s)))"
    if "s \<in> set sets" for s
    using that ok st only[OF that] before[OF that]
    unfolding sets_ok_def by (auto simp: activated_row_def close_set_def)
  have new: "sets_apart (?g st) (?g s)" if "s \<in> set sets" "ss_id s \<noteq> ss_id st" "same_regime (?g st) (?g s)" for s
  proof (cases "sets_apart st s")
    case True
    then show ?thesis using activated_row_shrinks by (auto simp: sets_apart_def)
  next
    case False
    then have "same_regime (st\<lparr>ss_status := ''active''\<rparr>) s"
      using that by (auto simp: same_regime_def activated_row_def close_set_def split: if_splits)
    then have "?g s = close_set (ss_from st - 1) s" using False that(2) by (simp add: activated_row_def)
    then show ?thesis by (simp add: sets_apart_def close_set_def ends_before_def)
  qed
  have old: "sets_apart (?g r) (?g s)"
    if "r \<in> set sets" "s \<in> set sets" "ss_id r \<noteq> ss_id st" "ss_id s \<noteq> ss_id st" "ss_id r \<noteq> ss_id s" "same_regime (?g r) (?g s)" for r s
  proof -
    have "same_regime r s" using that by (auto simp: same_regime_def activated_row_def close_set_def split: if_splits)
    then have "sets_apart r s" using ok that by (simp add: sets_ok_def)
    then show ?thesis using activated_row_shrinks by (auto simp: sets_apart_def)
  qed
  have pair: "sets_apart (?g r) (?g s)"
    if rs: "r \<in> set sets" "s \<in> set sets" "ss_id r \<noteq> ss_id s" "same_regime (?g r) (?g s)" for r s
  proof -
    consider "r = st" | "s = st" | "ss_id r \<noteq> ss_id st" "ss_id s \<noteq> ss_id st" using only rs by blast
    then show ?thesis
    proof cases
      case 1
      then show ?thesis using new rs by metis
    next
      case 2
      then have "same_regime (?g st) (?g r)" using rs(4) by (simp add: same_regime_def)
      then have "sets_apart (?g st) (?g r)" using new rs 2 by blast
      then show ?thesis using 2 by (auto simp: sets_apart_def)
    next
      case 3
      then show ?thesis using old rs by blast
    qed
  qed
  have "map ss_id (map ?g sets) = map ss_id sets" by simp
  then show ?thesis using ok row pair unfolding s' sets_ok_def by (auto simp: comp_def)
qed

lemma create_keeps:
  assumes "sets_ok sets" "createStatutorySet i now actor org v sets = Inr (row, sets')"
  shows "sets_ok sets'"
  using assms
  by (auto simp: createStatutorySet_def sets_ok_def same_regime_def ends_before_def statutoryParameterSetSchema_def
      Let_def split: if_splits option.splits)

lemma set_act_keeps: "sets_ok t \<Longrightarrow> set_act a t = Inr t' \<Longrightarrow> sets_ok t'"
  by (cases a) (auto intro: activate_keeps create_keeps)

lemma sets_in_force_unique:
  assumes "sets_ok sets" "r \<in> set sets" "s \<in> set sets" "set_in_force org c d r" "set_in_force org c d s"
  shows "r = s"
proof (rule ccontr)
  assume "r \<noteq> s"
  then have "ss_id r \<noteq> ss_id s" using assms by (auto simp: sets_ok_def distinct_map dest: inj_onD)
  moreover have "same_regime r s" using assms by (simp add: same_regime_def set_in_force_def)
  ultimately have "sets_apart r s" using assms by (simp add: sets_ok_def)
  then show False using assms(4,5) by (auto simp: sets_apart_def ends_before_def set_in_force_def split: option.splits)
qed

interpretation regimes: dated_register sets_ok set_act
    "\<lambda>k d t. {s \<in> set t. set_in_force (fst k) (snd k) d s}"
  by unfold_locales (auto intro: set_act_keeps dest: sets_in_force_unique)

text \<open>Whatever sequence of drafts and activations is attempted, at most
  one statutory set of an organisation and country is in force on any day, and every active set
  was activated by somebody other than the person who drafted it.\<close>

theorem statutory_sets_unambiguous:
  assumes "sets_ok sets" "final = snd (attempts set_act actions sets)"
  shows "(\<forall>r\<in>set final. \<forall>s\<in>set final. set_in_force org c d r \<longrightarrow> set_in_force org c d s \<longrightarrow> r = s) \<and>
    (\<forall>s\<in>set final. ss_status s = ''active'' \<longrightarrow> ss_activated_by s \<noteq> Some (ss_created_by s))"
proof -
  have "sets_ok final" using regimes.attempts_ok[OF assms(1)] assms(2) by simp
  then have "ss_activated_by s \<noteq> Some (ss_created_by s)" if "s \<in> set final" "ss_status s = ''active''" for s
    using that by (simp add: sets_ok_def)
  then show ?thesis
    using regimes.never_ambiguous[OF assms(1), of _ actions "(org, c)" d] assms(2) by auto
qed

definition sets_example :: "statutory_set list" where
  "sets_example = snd (attempts set_act
     [CreateSet ''s1'' 1 ''maker'' ''o'' example_set, ActivateSet ''maker'' ''o'' ''s1'', ActivateSet ''checker'' ''o'' ''s1'',
      CreateSet ''s2'' 2 ''maker'' ''o'' (example_set\<lparr>sp_effective_from := 20365\<rparr>), ActivateSet ''checker'' ''o'' ''s2''] [])"

theorem statutory_sets_unambiguous_witness:
  "map (\<lambda>s. (ss_id s, ss_to s)) sets_example = [(''s2'', None), (''s1'', Some 20364)] \<and>
   list_all (\<lambda>s. ss_status s = ''active'' \<and> ss_activated_by s \<noteq> Some (ss_created_by s)) sets_example"
proof -
  have "list_all (\<lambda>s. ss_status s = ''active'') sets_example" by code_simp
  then have a: "\<forall>s\<in>set sets_example. ss_status s = ''active''" by (simp add: list_all_iff)
  have e: "map (\<lambda>s. (ss_id s, ss_to s)) sets_example = [(''s2'', None), (''s1'', Some 20364)]" by code_simp
  have "sets_ok []" by (simp add: sets_ok_def)
  from statutory_sets_unambiguous[OF this sets_example_def] e a show ?thesis unfolding list_all_iff by blast
qed

end
