(* ===== verification/PayrollRun.thy ===== *)
theory PayrollRun
  imports PayRates ShiftTime
begin

text \<open>
  The payroll run of \<^verbatim>\<open>src/src/routes/payroll.ts\<close>: pay-rate changes, activation of statutory
  sets, generation of drafts, adjustment, recall, processing and payslips, and the reimbursement of
  expense claims of \<^verbatim>\<open>src/src/routes/expenses.ts\<close>, over one database state \<open>payroll_db\<close>.

  A handler takes the state and returns it together with its result.  What runs inside
  \<open>$transaction\<close> or is a single write leaves the state unchanged when it throws; the loops of
  \<open>generate\<close> and \<open>process-full\<close> are not transactions and keep the rows already written.
  \<open>NUMERIC(p, 2)\<close> columns round what is stored (\<open>dec2\<close>).  The Redis leases are arguments (granted,
  held by somebody else, or Redis down), the PDF service and fresh ids are parameters, \<open>srv\<close> is the
  offset in milliseconds of the server's own time zone, in which \<open>startOfMonth\<close> and \<open>endOfMonth\<close>
  compute.
\<close>

subsection \<open>State\<close>

record payroll_record =
  pr_id :: id
  pr_user_id :: id
  pr_org_id :: id
  pr_period_month :: int
  pr_period_year :: int
  pr_regular_hours :: rat
  pr_overtime_hours :: rat
  pr_hourly_rate :: rat
  pr_pay_basis :: pay_basis
  pr_pay_rate_amount :: rat
  pr_pay_monthly_divisor :: rat
  pr_base_pay :: rat
  pr_overtime_pay :: rat
  pr_unpaid_deduction :: rat
  pr_manual_adjustment :: rat
  pr_adjustment_reason :: "string option"
  pr_gross_pay :: rat
  pr_tax_deduction :: rat
  pr_pension_deduction :: rat
  pr_net_pay :: rat
  pr_status :: string
  pr_is_incomplete :: bool
  pr_inputs_hash :: "string option"
  pr_inputs_stale :: bool
  pr_statutory_parameter_set_id :: "id option"
  pr_pay_rate_id :: "id option"
  pr_tax_calculation_method :: string
  pr_employee_statutory_deductions :: "line_item list"
  pr_employer_statutory_contributions :: "line_item list"
  pr_payslip_url :: "string option"
  pr_generated_by :: "id option"
  pr_processed_at :: "instant option"
  pr_processed_by :: "id option"

record employee =
  us_id :: id
  us_org_id :: id
  us_is_active :: bool
  us_deleted :: bool
  us_hourly_rate :: rat

record organisation =
  og_id :: id
  og_country_code :: "string option"
  og_currency :: string
  og_timezone :: "string option"
  og_monthly_pay_divisor :: rat
  og_tax_rate :: rat
  og_pension_rate :: rat

record attendance_row =
  ar_user_id :: id
  ar_date :: day
  ar_pay :: period_attendance

record leave_row =
  lr_user_id :: id
  lr_status :: string
  lr_leave_type :: string
  lr_start_date :: day
  lr_end_date :: day
  lr_working_days :: rat

record expense_claim =
  ec_id :: id
  ec_user_id :: id
  ec_org_id :: id
  ec_amount :: rat
  ec_currency :: string
  ec_category :: string
  ec_expense_date :: day
  ec_status :: string
  ec_reviewed_by :: "id option"
  ec_review_note :: "string option"
  ec_reimbursed_in_payroll_id :: "id option"

record payroll_db =
  db_users :: "employee list"
  db_orgs :: "organisation list"
  db_attendance :: "attendance_row list"
  db_leave :: "leave_row list"
  db_rates :: "pay_rate list"
  db_sets :: "statutory_set list"
  db_records :: "payroll_record list"
  db_claims :: "expense_claim list"
  db_log :: "effect list"

datatype lease = Granted | Held | Down

definition acquirePayrollPeriodLease :: "lease \<Rightarrow> unit result" where
  "acquirePayrollPeriodLease l =
     (case l of Granted \<Rightarrow> Inr ()
      | Down \<Rightarrow> Inl (AppError 503 ''PAYROLL_COORDINATION_UNAVAILABLE'')
      | Held \<Rightarrow> Inl (AppError 409 ''PAYROLL_RUN_IN_PROGRESS''))"

definition acquirePayrollConfigurationLease :: "lease \<Rightarrow> unit result" where
  "acquirePayrollConfigurationLease l =
     (case l of Granted \<Rightarrow> Inr ()
      | Down \<Rightarrow> Inl (AppError 503 ''PAYROLL_COORDINATION_UNAVAILABLE'')
      | Held \<Rightarrow> Inl (AppError 409 ''PAYROLL_CONFIGURATION_BUSY''))"

abbreviation dec2 :: "rat \<Rightarrow> rat" where
  "dec2 \<equiv> toFixed2"

definition startOfMonth :: "int \<Rightarrow> int \<Rightarrow> int \<Rightarrow> instant" where
  "startOfMonth srv year month = utc_day year (month - 1) 1 * day_ms - srv"

definition endOfMonth :: "int \<Rightarrow> int \<Rightarrow> int \<Rightarrow> instant" where
  "endOfMonth srv year month = utc_day year month 0 * day_ms + 86399999 - srv"

definition find_org :: "id \<Rightarrow> payroll_db \<Rightarrow> organisation option" where
  "find_org orgId db = find_first (\<lambda>o'. og_id o' = orgId) (db_orgs db)"

definition org_pct :: "(organisation \<Rightarrow> rat) \<Rightarrow> organisation option \<Rightarrow> rat" where
  "org_pct f org = (case org of None \<Rightarrow> 0 | Some o' \<Rightarrow> f o')"

definition org_currency :: "organisation option \<Rightarrow> string" where
  "org_currency org = (case org of None \<Rightarrow> ''USD'' | Some o' \<Rightarrow> if og_currency o' = [] then ''USD'' else og_currency o')"

definition org_divisor :: "organisation option \<Rightarrow> rat" where
  "org_divisor org = max 1 (or_default (map_option og_monthly_pay_divisor org) 26)"

text \<open>The rows and columns \<open>calculateStatutoryPayroll\<close> reads.\<close>

definition prior_of :: "payroll_record \<Rightarrow> prior_pay" where
  "prior_of r = \<lparr>pp_user_id = pr_user_id r, pp_org_id = pr_org_id r, pp_period_year = pr_period_year r,
     pp_period_month = pr_period_month r, pp_status = pr_status r, pp_gross_pay = pr_gross_pay r,
     pp_tax_deduction = pr_tax_deduction r\<rparr>"

definition statutory_for ::
    "payroll_db \<Rightarrow> id \<Rightarrow> id \<Rightarrow> int \<Rightarrow> int \<Rightarrow> 'a payroll_totals_scheme \<Rightarrow> 'a payroll_totals_scheme statutory_applied result" where
  "statutory_for db orgId userId y m totals =
     applyStatutoryPayroll (Option.bind (find_org orgId db) og_country_code) (db_sets db)
       (map prior_of (db_records db)) orgId userId y m totals"

subsection \<open>PUT /payroll/rates/:userId\<close>

record rate_request =
  rq_newId :: id
  rq_amount :: rat
  rq_basis :: pay_basis
  rq_currency :: "string option"
  rq_effective_from :: string

definition equivalent_hourly :: "rat \<Rightarrow> pay_rate \<Rightarrow> rat" where
  "equivalent_hourly divisor r =
     (case rt_basis r of Daily \<Rightarrow> rt_amount r / 8 | Monthly \<Rightarrow> rt_amount r / divisor / 8 | Hourly \<Rightarrow> rt_amount r)"

definition mark_stale :: "(payroll_record \<Rightarrow> bool) \<Rightarrow> payroll_record list \<Rightarrow> payroll_record list" where
  "mark_stale p = update_where (\<lambda>r. pr_status r = ''draft'' \<and> p r) (\<lambda>r. r\<lparr>pr_inputs_stale := True\<rparr>)"

text \<open>The transaction: the rate, the employee's current hourly rate, and the drafts of periods that the
  new range touches.\<close>

definition commit_rate ::
    "tzdb \<Rightarrow> int \<Rightarrow> instant \<Rightarrow> id \<Rightarrow> organisation option \<Rightarrow> rate_input \<Rightarrow> payroll_db \<Rightarrow> payroll_db result" where
  "commit_rate tz srv now orgId org input db =
     bind_result (setEffectivePayRate input orgId (db_rates db)) (\<lambda>(rate, rates').
       let userId = ri_userId input;
           today = dateOnlyInTz tz now (Option.bind org og_timezone);
           users' = (case find_desc rt_effective_from (rate_in_force orgId userId today) rates' of
               None \<Rightarrow> db_users db
             | Some activeRate \<Rightarrow>
                 update_where (\<lambda>u. us_id u = userId)
                   (\<lambda>u. u\<lparr>us_hourly_rate := dec2 (equivalent_hourly (org_divisor org) activeRate)\<rparr>)
                   (db_users db));
           limit = coalesce (rt_effective_to rate) (civil_day 9999 12 31);
           records' = mark_stale (\<lambda>r. pr_org_id r = orgId \<and> pr_user_id r = userId \<and>
               startOfMonth srv (pr_period_year r) (pr_period_month r) \<le> limit * day_ms \<and>
               endOfMonth srv (pr_period_year r) (pr_period_month r) \<ge> ri_effectiveFrom input * day_ms)
             (db_records db)
       in Inr (db\<lparr>db_rates := rates', db_users := users', db_records := records',
                db_log := Audit ''payroll.rate.update'' (rt_id rate) # db_log db\<rparr>))"

definition put_rate ::
    "tzdb \<Rightarrow> int \<Rightarrow> instant \<Rightarrow> lease \<Rightarrow> id \<Rightarrow> id \<Rightarrow> id \<Rightarrow> rate_request \<Rightarrow> payroll_db \<Rightarrow> payroll_db result" where
  "put_rate tz srv now cfg actor orgId userId body db =
     (if find_first (\<lambda>u. us_id u = userId \<and> us_org_id u = orgId \<and> \<not> us_deleted u) (db_users db) = None
      then Inl NotFoundError
      else
        (let org = find_org orgId db;
             currency = coalesce (rq_currency body) (coalesce (map_option og_currency org) ''PKR'')
         in if org \<noteq> None \<and> coalesce (map_option og_currency org) [] \<noteq> [] \<and>
               currency \<noteq> coalesce (map_option og_currency org) []
            then Inl ValidationError
            else case parse_iso_date (rq_effective_from body) of None \<Rightarrow> Inl ValidationError
              | Some effectiveFrom \<Rightarrow>
                if dayOf effectiveFrom \<noteq> 1 then Inl ValidationError
                else bind_result (acquirePayrollConfigurationLease cfg) (\<lambda>_.
                  commit_rate tz srv now orgId org
                    \<lparr>ri_newId = rq_newId body, ri_userId = userId, ri_amount = dec2 (rq_amount body),
                     ri_basis = rq_basis body, ri_currency = currency,
                     ri_effectiveFrom = effectiveFrom, ri_actorId = actor\<rparr> db)))"

subsection \<open>POST /payroll/statutory-parameter-sets/:id/activate\<close>

definition in_effective_range :: "day \<Rightarrow> day option \<Rightarrow> payroll_record \<Rightarrow> bool" where
  "in_effective_range from to r =
     (let fromYear = yearOf from; fromMonth = monthOf from; py = pr_period_year r; pm = pr_period_month r
      in case to of
           None \<Rightarrow> py > fromYear \<or> (py = fromYear \<and> pm \<ge> fromMonth)
         | Some e \<Rightarrow>
             (let throughYear = yearOf e; throughMonth = monthOf e
              in if throughYear = fromYear
                 then py = fromYear \<and> pm \<ge> fromMonth \<and> pm \<le> throughMonth
                 else (py = fromYear \<and> pm \<ge> fromMonth) \<or> (py > fromYear \<and> py < throughYear) \<or>
                      (py = throughYear \<and> pm \<le> throughMonth)))"

definition activate_set :: "lease \<Rightarrow> id \<Rightarrow> id \<Rightarrow> id \<Rightarrow> payroll_db \<Rightarrow> payroll_db result" where
  "activate_set cfg actor orgId setId db =
     bind_result (activation_candidate actor orgId setId (db_sets db)) (\<lambda>st.
       bind_result (acquirePayrollConfigurationLease cfg) (\<lambda>_.
       bind_result (commit_activation actor st (db_sets db)) (\<lambda>sets'.
         Inr (db\<lparr>db_sets := sets',
              db_orgs := update_where (\<lambda>o'. og_id o' = ss_org_id st)
                (\<lambda>o'. o'\<lparr>og_country_code := Some (sp_country_code (ss_params st))\<rparr>) (db_orgs db),
              db_records := mark_stale (\<lambda>r. pr_org_id r = ss_org_id st \<and>
                in_effective_range (ss_from st) (ss_to st) r) (db_records db),
              db_log := Audit ''payroll.statutory.activate'' (ss_id st) # db_log db\<rparr>))))"

subsection \<open>POST /payroll/generate\<close>

text \<open>The rate of the period: the database compares \<open>DATE\<close> columns with the date of the bound, the
  loop afterwards compares instants.\<close>

definition generate_rate :: "int \<Rightarrow> id \<Rightarrow> int \<Rightarrow> int \<Rightarrow> id \<Rightarrow> pay_rate list \<Rightarrow> pay_rate option" where
  "generate_rate srv orgId y m userId rates =
     (let start = startOfMonth srv y m; end = endOfMonth srv y m
      in find_desc rt_effective_from
           (\<lambda>r. rt_org_id r = orgId \<and> rt_user_id r = userId \<and>
              rt_effective_from r \<le> day_of_instant end \<and>
              (case rt_effective_to r of None \<Rightarrow> True | Some e \<Rightarrow> e \<ge> day_of_instant start) \<and>
              rt_effective_from r * day_ms \<le> end \<and>
              (case rt_effective_to r of None \<Rightarrow> True | Some e \<Rightarrow> e * day_ms \<ge> end)) rates)"

definition blank_record :: "id \<Rightarrow> id \<Rightarrow> id \<Rightarrow> int \<Rightarrow> int \<Rightarrow> payroll_record" where
  "blank_record i userId orgId m y =
     \<lparr>pr_id = i, pr_user_id = userId, pr_org_id = orgId, pr_period_month = m, pr_period_year = y,
      pr_regular_hours = 0, pr_overtime_hours = 0, pr_hourly_rate = 0, pr_pay_basis = Hourly,
      pr_pay_rate_amount = 0, pr_pay_monthly_divisor = 26, pr_base_pay = 0, pr_overtime_pay = 0,
      pr_unpaid_deduction = 0, pr_manual_adjustment = 0, pr_adjustment_reason = None,
      pr_gross_pay = 0, pr_tax_deduction = 0, pr_pension_deduction = 0, pr_net_pay = 0,
      pr_status = ''draft'', pr_is_incomplete = False, pr_inputs_hash = None, pr_inputs_stale = False,
      pr_statutory_parameter_set_id = None, pr_pay_rate_id = None, pr_tax_calculation_method = [],
      pr_employee_statutory_deductions = [], pr_employer_statutory_contributions = [],
      pr_payslip_url = None, pr_generated_by = None, pr_processed_at = None, pr_processed_by = None\<rparr>"

abbreviation record_key :: "id \<Rightarrow> int \<Rightarrow> int \<Rightarrow> payroll_record \<Rightarrow> bool" where
  "record_key userId m y r \<equiv> pr_user_id r = userId \<and> pr_period_month r = m \<and> pr_period_year r = y"

definition upsert_record ::
    "(payroll_record \<Rightarrow> payroll_record) \<Rightarrow> payroll_record \<Rightarrow> payroll_record list \<Rightarrow> payroll_record list result" where
  "upsert_record flds fresh records =
     (if \<exists>r\<in>set records. record_key (pr_user_id fresh) (pr_period_month fresh) (pr_period_year fresh) r
      then Inr (update_where (record_key (pr_user_id fresh) (pr_period_month fresh) (pr_period_year fresh)) flds records)
      else if \<exists>r\<in>set records. pr_id r = pr_id fresh then Inl PlainError
      else Inr (flds fresh # records))"

definition generated_fields ::
    "id \<Rightarrow> pay_basis \<Rightarrow> rat \<Rightarrow> rat \<Rightarrow> rat \<Rightarrow> id option \<Rightarrow> string \<Rightarrow> period_totals statutory_applied \<Rightarrow> payroll_record \<Rightarrow> payroll_record" where
  "generated_fields actor payBasis payRateAmount divisor hourlyRate rateId inputsHash st r =
     (let totals = sa_totals st in
      r\<lparr>pr_regular_hours := dec2 (regular_hours totals), pr_overtime_hours := dec2 (overtime_hours totals),
        pr_hourly_rate := dec2 hourlyRate, pr_base_pay := dec2 (base_pay totals),
        pr_pay_basis := payBasis, pr_pay_rate_amount := dec2 payRateAmount, pr_pay_monthly_divisor := divisor,
        pr_overtime_pay := dec2 (overtime_pay totals), pr_unpaid_deduction := dec2 (unpaid_deduction totals),
        pr_gross_pay := dec2 (gross_pay totals), pr_tax_deduction := dec2 (tax_deduction totals),
        pr_pension_deduction := dec2 (pension_deduction totals), pr_net_pay := dec2 (net_pay totals),
        pr_statutory_parameter_set_id := sa_statutory_parameter_set_id st, pr_pay_rate_id := rateId,
        pr_tax_calculation_method := sa_tax_calculation_method st,
        pr_employee_statutory_deductions := sa_employee_statutory_deductions st,
        pr_employer_statutory_contributions := sa_employer_statutory_contributions st,
        pr_is_incomplete := (hourlyRate = 0), pr_inputs_hash := Some inputsHash, pr_inputs_stale := False,
        pr_generated_by := Some actor\<rparr>)"

record gen_env =
  ge_srv :: int
  ge_sha :: "canonical_inputs \<Rightarrow> string"
  ge_uuid :: "id \<Rightarrow> id"
  ge_actor :: id
  ge_org :: id
  ge_month :: int
  ge_year :: int

definition period_inputs_for :: "gen_env \<Rightarrow> organisation option \<Rightarrow> employee \<Rightarrow> payroll_db \<Rightarrow> pay_rate option \<times> hash_inputs" where
  "period_inputs_for e org user db =
     (let y = ge_year e; m = ge_month e;
          startDay = day_of_instant (startOfMonth (ge_srv e) y m);
          endDay = day_of_instant (endOfMonth (ge_srv e) y m);
          payRate = generate_rate (ge_srv e) (ge_org e) y m (us_id user) (db_rates db);
          payBasis = (case payRate of None \<Rightarrow> Hourly | Some r \<Rightarrow> rt_basis r);
          payRateAmount = (case payRate of None \<Rightarrow> us_hourly_rate user | Some r \<Rightarrow> rt_amount r);
          divisor = org_divisor org;
          hourlyRate = (case payBasis of Hourly \<Rightarrow> payRateAmount | Daily \<Rightarrow> payRateAmount / 8
                        | Monthly \<Rightarrow> payRateAmount / divisor / 8);
          attendance = map ar_pay (filter (\<lambda>a. ar_user_id a = us_id user \<and> startDay \<le> ar_date a \<and> ar_date a \<le> endDay)
            (db_attendance db));
          unpaidDays = sum_list (map lr_working_days (filter (\<lambda>l. lr_user_id l = us_id user \<and>
            lr_status l = ''approved'' \<and> lr_leave_type l = ''unpaid'' \<and>
            lr_start_date l \<le> endDay \<and> startDay \<le> lr_end_date l) (db_leave db)))
      in (payRate,
          \<lparr>pi_attendance = attendance, pi_unpaid_leave_days = unpaidDays, pi_hourly_rate = hourlyRate,
           pi_pay_basis = Some payBasis, pi_pay_rate_amount = Some payRateAmount,
           pi_monthly_pay_divisor = Some divisor,
           hi_tax_rate = org_pct og_tax_rate org, hi_pension_rate = org_pct og_pension_rate org,
           hi_statutory_parameter_set_id = None, hi_pay_rate_id = map_option rt_id payRate\<rparr>))"

definition generate_user :: "gen_env \<Rightarrow> organisation option \<Rightarrow> rat \<Rightarrow> employee \<Rightarrow> payroll_db \<Rightarrow> payroll_db result" where
  "generate_user e org manual user db =
     (case period_inputs_for e org user db of (payRate, inputs) \<Rightarrow>
        (let calculated = computePeriodPayroll (period_inputs.truncate inputs) manual
               (hi_tax_rate inputs) (hi_pension_rate inputs)
         in bind_result (statutory_for db (ge_org e) (us_id user) (ge_year e) (ge_month e) calculated) (\<lambda>st.
           let inputsHash = payrollInputsHash (ge_sha e)
                 (inputs\<lparr>hi_statutory_parameter_set_id := sa_statutory_parameter_set_id st\<rparr>);
               flds = generated_fields (ge_actor e) (coalesce (pi_pay_basis inputs) Hourly)
                 (coalesce (pi_pay_rate_amount inputs) 0) (coalesce (pi_monthly_pay_divisor inputs) 26)
                 (pi_hourly_rate inputs) (map_option rt_id payRate) inputsHash st;
               fresh = blank_record (ge_uuid e (us_id user)) (us_id user) (ge_org e) (ge_month e) (ge_year e)
           in bind_result (upsert_record flds fresh (db_records db)) (\<lambda>records. Inr (db\<lparr>db_records := records\<rparr>)))))"

fun generate_loop ::
    "gen_env \<Rightarrow> organisation option \<Rightarrow> id list \<Rightarrow> (id \<Rightarrow> rat) \<Rightarrow> employee list \<Rightarrow> payroll_db \<Rightarrow> app_error option \<times> payroll_db" where
  "generate_loop e org processed manual [] db = (None, db)"
| "generate_loop e org processed manual (user # rest) db =
     (if us_id user \<in> set processed then generate_loop e org processed manual rest db
      else case generate_user e org (manual (us_id user)) user db of
        Inl err \<Rightarrow> (Some err, db)
      | Inr db' \<Rightarrow> generate_loop e org processed manual rest db')"

definition generate :: "lease \<Rightarrow> lease \<Rightarrow> gen_env \<Rightarrow> payroll_db \<Rightarrow> app_error option \<times> payroll_db" where
  "generate per cfg e db =
     (case bind_result (acquirePayrollPeriodLease per) (\<lambda>_. acquirePayrollConfigurationLease cfg) of
        Inl err \<Rightarrow> (Some err, db)
      | Inr _ \<Rightarrow>
          (let users = filter (\<lambda>u. us_org_id u = ge_org e \<and> us_is_active u \<and> \<not> us_deleted u) (db_users db);
               existing = filter (\<lambda>r. pr_org_id r = ge_org e \<and> pr_period_month r = ge_month e \<and>
                 pr_period_year r = ge_year e) (db_records db);
               processed = map pr_user_id (filter (\<lambda>r. pr_status r = ''processed'') existing);
               manual = (\<lambda>u. case find_first (\<lambda>r. pr_user_id r = u) existing of
                   None \<Rightarrow> 0 | Some r \<Rightarrow> pr_manual_adjustment r)
           in generate_loop e (find_org (ge_org e) db) processed manual users db))"

subsection \<open>PUT /payroll/:id/adjust\<close>

datatype adjust_field = RegularHours | OvertimeHours | Adjustments

definition apply_totals :: "'a payroll_totals_scheme statutory_applied \<Rightarrow> payroll_record \<Rightarrow> payroll_record" where
  "apply_totals st r =
     r\<lparr>pr_gross_pay := dec2 (gross_pay (sa_totals st)), pr_tax_deduction := dec2 (tax_deduction (sa_totals st)),
       pr_pension_deduction := dec2 (pension_deduction (sa_totals st)), pr_net_pay := dec2 (net_pay (sa_totals st)),
       pr_statutory_parameter_set_id := sa_statutory_parameter_set_id st,
       pr_tax_calculation_method := sa_tax_calculation_method st,
       pr_employee_statutory_deductions := sa_employee_statutory_deductions st,
       pr_employer_statutory_contributions := sa_employer_statutory_contributions st\<rparr>"

definition adjust ::
    "lease \<Rightarrow> lease \<Rightarrow> id \<Rightarrow> id \<Rightarrow> adjust_field \<Rightarrow> rat \<Rightarrow> string \<Rightarrow> payroll_db \<Rightarrow> payroll_db result" where
  "adjust per cfg orgId recordId field value reason db =
     (if length reason < 10 then Inl ValidationError
      else case find_first (\<lambda>r. pr_id r = recordId \<and> pr_org_id r = orgId) (db_records db) of
        None \<Rightarrow> Inl NotFoundError
      | Some rec \<Rightarrow>
        bind_result (acquirePayrollPeriodLease per) (\<lambda>_.
        bind_result (acquirePayrollConfigurationLease cfg) (\<lambda>_.
          if pr_status rec = ''processed'' then Inl (AppError 400 ''LOCKED'')
          else
           (let org = find_org (pr_org_id rec) db;
                regularHours = (if field = RegularHours then value else pr_regular_hours rec);
                overtimeHours = (if field = OvertimeHours then value else pr_overtime_hours rec);
                hourlyRate = pr_hourly_rate rec;
                adjustedBasePay = (if field = RegularHours
                  then (case pr_pay_basis rec of Hourly \<Rightarrow> regularHours * hourlyRate
                        | Daily \<Rightarrow> regularHours / 8 * pr_pay_rate_amount rec
                        | Monthly \<Rightarrow> pr_base_pay rec)
                  else pr_base_pay rec);
                oldOtHours = pr_overtime_hours rec;
                otMultiplier = (if oldOtHours > 0 \<and> hourlyRate > 0
                  then pr_overtime_pay rec / (oldOtHours * hourlyRate) else 3 / 2);
                adjustedOvertimePay = (if field = OvertimeHours then overtimeHours * hourlyRate * otMultiplier
                  else pr_overtime_pay rec);
                recalculated = recalcPayrollTotals
                  \<lparr>fg_regular_hours = regularHours, fg_overtime_hours = overtimeHours, fg_hourly_rate = hourlyRate,
                   fg_unpaid_deduction = pr_unpaid_deduction rec,
                   fg_manual_adjustment = (if field = Adjustments then value else pr_manual_adjustment rec),
                   fg_base_pay = Some adjustedBasePay, fg_overtime_pay = Some adjustedOvertimePay\<rparr>
                  (org_pct og_tax_rate org) (org_pct og_pension_rate org)
            in bind_result (statutory_for db (pr_org_id rec) (pr_user_id rec) (pr_period_year rec)
                   (pr_period_month rec) recalculated) (\<lambda>st.
                 Inr (db\<lparr>db_records := update_where (\<lambda>r. pr_id r = recordId)
                      (\<lambda>r. (apply_totals st r)
                        \<lparr>pr_adjustment_reason := Some reason,
                         pr_regular_hours := (if field = RegularHours then dec2 value else pr_regular_hours r),
                         pr_overtime_hours := (if field = OvertimeHours then dec2 value else pr_overtime_hours r),
                         pr_manual_adjustment := (if field = Adjustments then dec2 value else pr_manual_adjustment r),
                         pr_base_pay := dec2 adjustedBasePay, pr_overtime_pay := dec2 adjustedOvertimePay\<rparr>)
                      (db_records db),
                    db_log := Audit ''payroll.adjust'' (pr_id rec) # db_log db\<rparr>))))))"

subsection \<open>POST /payroll/:id/recall\<close>

definition recall :: "id \<Rightarrow> id \<Rightarrow> string \<Rightarrow> payroll_db \<Rightarrow> payroll_db result" where
  "recall orgId recordId reason db =
     (case find_first (\<lambda>r. pr_id r = recordId \<and> pr_org_id r = orgId) (db_records db) of
        None \<Rightarrow> Inl NotFoundError
      | Some rec \<Rightarrow>
          if pr_status rec \<noteq> ''processed'' then Inl (AppError 400 ''NOT_PROCESSED'')
          else Inr (db\<lparr>db_records := update_where (\<lambda>r. pr_id r = pr_id rec)
                 (\<lambda>r. r\<lparr>pr_status := ''recalled'', pr_adjustment_reason := Some reason\<rparr>) (db_records db),
               db_log := Audit ''payroll.recall'' (pr_id rec) # db_log db\<rparr>))"

subsection \<open>POST /payroll/process-full\<close>

datatype process_outcome = Processed | PayslipFailed | UpdateFailed

definition finalize_record :: "id \<Rightarrow> id \<Rightarrow> instant \<Rightarrow> string \<Rightarrow> payroll_record \<Rightarrow> payroll_db \<Rightarrow> bool \<times> payroll_db" where
  "finalize_record actor orgId now key rec db =
     (let match = (\<lambda>r. pr_id r = pr_id rec \<and> pr_org_id r = orgId \<and> pr_status r = ''draft'' \<and> \<not> pr_inputs_stale r)
      in if count_where match (db_records db) = 0 then (False, db)
         else (True, db\<lparr>db_records := update_where match
                 (\<lambda>r. r\<lparr>pr_status := ''processed'', pr_processed_at := Some now, pr_processed_by := Some actor,
                        pr_payslip_url := Some key\<rparr>) (db_records db),
               db_log := Notify (pr_user_id rec) ''payslip_ready'' (pr_id rec) # db_log db\<rparr>))"

text \<open>\<open>pdf\<close> is \<open>generatePayslipPDF\<close>: the key of the uploaded payslip, or \<open>None\<close> when it throws.  The
  removal of an orphaned upload concerns the object store only.\<close>

fun process_loop ::
    "(payroll_record \<Rightarrow> string option) \<Rightarrow> id \<Rightarrow> id \<Rightarrow> instant \<Rightarrow> payroll_record list \<Rightarrow> payroll_db \<Rightarrow>
     (id \<times> process_outcome) list \<times> payroll_db" where
  "process_loop pdf actor orgId now [] db = ([], db)"
| "process_loop pdf actor orgId now (rec # rest) db =
     (case pdf rec of
        None \<Rightarrow> (case process_loop pdf actor orgId now rest db of (rs, db') \<Rightarrow> ((pr_id rec, PayslipFailed) # rs, db'))
      | Some key \<Rightarrow>
          (case finalize_record actor orgId now key rec db of
             (done, db1) \<Rightarrow>
               (case process_loop pdf actor orgId now rest db1 of
                  (rs, db') \<Rightarrow> ((pr_id rec, if done then Processed else UpdateFailed) # rs, db'))))"

definition run_status :: "(id \<times> process_outcome) list \<Rightarrow> string" where
  "run_status rs =
     (if \<exists>r\<in>set rs. snd r \<noteq> Processed
      then (if \<exists>r\<in>set rs. snd r = Processed then ''partial'' else ''failed'') else ''completed'')"

definition period_records :: "id \<Rightarrow> int \<Rightarrow> int \<Rightarrow> payroll_db \<Rightarrow> payroll_record list" where
  "period_records orgId m y db =
     filter (\<lambda>r. pr_org_id r = orgId \<and> pr_period_month r = m \<and> pr_period_year r = y) (db_records db)"

text \<open>The guards before the loop, and the records the loop runs over.\<close>

definition process_candidates :: "id \<Rightarrow> id \<Rightarrow> int \<Rightarrow> int \<Rightarrow> payroll_db \<Rightarrow> payroll_record list result" where
  "process_candidates actor orgId m y db =
     (let period = period_records orgId m y db;
          records = filter (\<lambda>r. pr_status r \<noteq> ''processed'') period
      in if count_where pr_is_incomplete period > 0 then Inl (AppError 400 [])
         else if count_where (\<lambda>r. pr_status r = ''draft'' \<and> pr_inputs_stale r) period > 0
         then Inl (AppError 409 ''PAYROLL_INPUTS_STALE'')
         else if count_where (\<lambda>r. pr_generated_by r = Some actor) records > 0
         then Inl (AppError 403 ''PAYROLL_MAKER_CHECKER_REQUIRED'')
         else if records = [] then Inl (AppError 409 ''PAYROLL_NOTHING_TO_PROCESS'')
         else Inr records)"

definition process_full ::
    "lease \<Rightarrow> lease \<Rightarrow> (payroll_record \<Rightarrow> string option) \<Rightarrow> id \<Rightarrow> id \<Rightarrow> int \<Rightarrow> int \<Rightarrow> instant \<Rightarrow> payroll_db \<Rightarrow>
     ((id \<times> process_outcome) list \<times> payroll_db) result" where
  "process_full per cfg pdf actor orgId m y now db =
     bind_result (acquirePayrollPeriodLease per) (\<lambda>_.
     bind_result (acquirePayrollConfigurationLease cfg) (\<lambda>_.
     bind_result (process_candidates actor orgId m y db) (\<lambda>records.
       case process_loop pdf actor orgId now records db of
         (rs, db') \<Rightarrow> Inr (rs, db'\<lparr>db_log := Audit ''payroll.process'' [] # db_log db'\<rparr>))))"

subsection \<open>Payslips\<close>

definition get_payslip :: "id \<Rightarrow> id \<Rightarrow> payroll_db \<Rightarrow> payroll_record result" where
  "get_payslip userId recordId db =
     (case find_first (\<lambda>r. pr_id r = recordId \<and> pr_user_id r = userId) (db_records db) of
        None \<Rightarrow> Inl NotFoundError
      | Some r \<Rightarrow> if pr_status r \<noteq> ''processed'' then Inl (AppError 400 []) else Inr r)"

definition download_payslip :: "(string \<Rightarrow> string) \<Rightarrow> id \<Rightarrow> id \<Rightarrow> payroll_db \<Rightarrow> string result" where
  "download_payslip getSignedDownloadUrl userId recordId db =
     (case find_first (\<lambda>r. pr_id r = recordId \<and> pr_user_id r = userId) (db_records db) of
        None \<Rightarrow> Inl NotFoundError
      | Some r \<Rightarrow>
          if pr_status r \<noteq> ''processed'' then Inl (AppError 400 [])
          else case pr_payslip_url r of None \<Rightarrow> Inl (AppError 400 [])
            | Some key \<Rightarrow> if key = [] then Inl (AppError 400 []) else Inr (getSignedDownloadUrl key))"

subsection \<open>Expense claims\<close>

record claim_request =
  cq_newId :: id
  cq_amount :: rat
  cq_currency :: string
  cq_category :: string
  cq_description :: string
  cq_expense_date :: string

definition submit_claim ::
    "instant \<Rightarrow> (id \<Rightarrow> id option) \<Rightarrow> id \<Rightarrow> id \<Rightarrow> claim_request \<Rightarrow> payroll_db \<Rightarrow> payroll_db result" where
  "submit_claim now manager_of userId orgId body db =
     (if \<not> (0 < cq_amount body \<and> 1 \<le> length (trim (cq_category body)) \<and> length (trim (cq_category body)) \<le> 50 \<and>
            5 \<le> length (trim (cq_description body)) \<and> length (trim (cq_description body)) \<le> 1000)
      then Inl ValidationError
      else case parse_iso_date (cq_expense_date body) of None \<Rightarrow> Inl ValidationError
        | Some d \<Rightarrow>
            if d * day_ms > now then Inl ValidationError
            else (let cur = (if cq_currency body \<noteq> [] then cq_currency body
                    else org_currency (find_org orgId db));
                      claim = \<lparr>ec_id = cq_newId body, ec_user_id = userId, ec_org_id = orgId,
                        ec_amount = dec2 (cq_amount body), ec_currency = cur, ec_category = trim (cq_category body),
                        ec_expense_date = d, ec_status = ''pending'', ec_reviewed_by = None, ec_review_note = None,
                        ec_reimbursed_in_payroll_id = None\<rparr>
                  in Inr (db\<lparr>db_claims := claim # db_claims db,
                       db_log := OrgEvent ''expense_changed'' #
                         (case manager_of userId of None \<Rightarrow> [] | Some mgr \<Rightarrow> [Notify mgr ''expense_request'' (ec_id claim)]) @
                         db_log db\<rparr>)))"

definition loadClaim :: "id \<Rightarrow> id \<Rightarrow> string \<Rightarrow> payroll_db \<Rightarrow> expense_claim result" where
  "loadClaim i orgId expectedStatus db =
     (case find_first (\<lambda>c. ec_id c = i \<and> ec_org_id c = orgId) (db_claims db) of
        None \<Rightarrow> Inl NotFoundError
      | Some claim \<Rightarrow> if ec_status claim \<noteq> expectedStatus then Inl (AppError 400 ''INVALID_STATUS'') else Inr claim)"

definition review_claim :: "string \<Rightarrow> id \<Rightarrow> id \<Rightarrow> id \<Rightarrow> string option \<Rightarrow> payroll_db \<Rightarrow> payroll_db result" where
  "review_claim verdict actor orgId claimId note db =
     bind_result (loadClaim claimId orgId ''pending'' db) (\<lambda>claim.
       Inr (db\<lparr>db_claims := update_where (\<lambda>c. ec_id c = ec_id claim)
              (\<lambda>c. c\<lparr>ec_status := verdict, ec_reviewed_by := Some actor, ec_review_note := note\<rparr>) (db_claims db),
            db_log := OrgEvent ''expense_changed'' # Notify (ec_user_id claim) (''expense_'' @ verdict) (ec_id claim) #
              Audit (if verdict = ''approved'' then ''expense.approve'' else ''expense.reject'') (ec_id claim) # db_log db\<rparr>))"

definition approve_claim :: "id \<Rightarrow> id \<Rightarrow> id \<Rightarrow> string option \<Rightarrow> payroll_db \<Rightarrow> payroll_db result" where
  "approve_claim = review_claim ''approved''"

definition reject_claim :: "id \<Rightarrow> id \<Rightarrow> id \<Rightarrow> string option \<Rightarrow> payroll_db \<Rightarrow> payroll_db result" where
  "reject_claim = review_claim ''rejected''"

text \<open>Reimbursement in two steps, as the code runs it: everything up to the transaction reads
  (\<open>plan_reimbursement\<close>); the transaction writes what was computed from those reads
  (\<open>commit_reimbursement\<close>).\<close>

record reimbursement =
  rb_record_id :: id
  rb_claim_id :: id
  rb_user_id :: id
  rb_newAdjustment :: rat
  rb_reason :: string
  rb_statutory :: "payroll_totals statutory_applied"

definition plan_reimbursement :: "id \<Rightarrow> id \<Rightarrow> int \<Rightarrow> int \<Rightarrow> payroll_db \<Rightarrow> reimbursement result" where
  "plan_reimbursement orgId claimId month year db =
     bind_result (loadClaim claimId orgId ''approved'' db) (\<lambda>claim.
       case find_first (record_key (ec_user_id claim) month year) (db_records db) of
         None \<Rightarrow> Inl (AppError 404 ''NO_PAYROLL_RECORD'')
       | Some rec \<Rightarrow>
           if pr_org_id rec \<noteq> orgId then Inl (AppError 404 ''NO_PAYROLL_RECORD'')
           else if pr_status rec = ''processed'' then Inl (AppError 400 ''LOCKED'')
           else
            (let newAdjustment = pr_manual_adjustment rec + ec_amount claim;
                 org = find_org (pr_org_id rec) db;
                 orgCurrency = org_currency org
             in if ec_currency claim \<noteq> orgCurrency then Inl (AppError 400 ''CURRENCY_MISMATCH'')
                else
                 (let recalculated = recalcPayrollTotals
                    \<lparr>fg_regular_hours = pr_regular_hours rec, fg_overtime_hours = pr_overtime_hours rec,
                     fg_hourly_rate = pr_hourly_rate rec, fg_unpaid_deduction = pr_unpaid_deduction rec,
                     fg_manual_adjustment = newAdjustment, fg_base_pay = Some (pr_base_pay rec),
                     fg_overtime_pay = Some (pr_overtime_pay rec)\<rparr>
                    (org_pct og_tax_rate org) (org_pct og_pension_rate org)
                  in bind_result (statutory_for db (pr_org_id rec) (pr_user_id rec) (pr_period_year rec)
                        (pr_period_month rec) recalculated) (\<lambda>st.
                       Inr \<lparr>rb_record_id = pr_id rec, rb_claim_id = ec_id claim, rb_user_id = ec_user_id claim,
                            rb_newAdjustment = newAdjustment,
                            rb_reason = ''Expense reimbursement: '' @ ec_category claim, rb_statutory = st\<rparr>))))"

definition commit_reimbursement :: "reimbursement \<Rightarrow> payroll_db \<Rightarrow> payroll_db" where
  "commit_reimbursement p db =
     db\<lparr>db_records := update_where (\<lambda>r. pr_id r = rb_record_id p)
          (\<lambda>r. (apply_totals (rb_statutory p) r)\<lparr>pr_manual_adjustment := dec2 (rb_newAdjustment p),
                 pr_adjustment_reason := Some (rb_reason p)\<rparr>) (db_records db),
        db_claims := update_where (\<lambda>c. ec_id c = rb_claim_id p)
          (\<lambda>c. c\<lparr>ec_status := ''reimbursed'', ec_reimbursed_in_payroll_id := Some (rb_record_id p)\<rparr>) (db_claims db),
        db_log := OrgEvent ''expense_changed'' # Notify (rb_user_id p) ''expense_reimbursed'' (rb_claim_id p) #
          Audit ''payroll.adjust'' (rb_record_id p) # Audit ''expense.reimburse'' (rb_claim_id p) # db_log db\<rparr>"

definition reimburse :: "id \<Rightarrow> id \<Rightarrow> int \<Rightarrow> int \<Rightarrow> payroll_db \<Rightarrow> payroll_db result" where
  "reimburse orgId claimId month year db =
     bind_result (plan_reimbursement orgId claimId month year db) (\<lambda>p. Inr (commit_reimbursement p db))"

end
