(* ===== verification/PayrollLifecycle.thy ===== *)
theory PayrollLifecycle
  imports PayrollRun
begin

text \<open>
  The life of a payroll record under every handler of \<open>PayrollRun\<close>.  \<open>payroll_step\<close> is one
  completed request; \<open>record_step\<close> is what a request may do to one row.  Every step of the
  system is a sequence of row steps, so the invariants are proved once for row steps.
\<close>

subsection \<open>Row steps\<close>

text \<open>A row keeps its identity; a processed row only ever changes by being recalled; a draft becomes
  processed only when its inputs are not stale and by somebody who did not generate it; a recalled
  row stays recalled.\<close>

definition row_step :: "payroll_record \<Rightarrow> payroll_record \<Rightarrow> bool" where
  "row_step r r' \<longleftrightarrow>
     pr_id r' = pr_id r \<and> pr_user_id r' = pr_user_id r \<and> pr_org_id r' = pr_org_id r \<and>
     pr_period_month r' = pr_period_month r \<and> pr_period_year r' = pr_period_year r \<and>
     (pr_status r' = pr_status r \<and> (pr_status r = ''processed'' \<longrightarrow> r' = r) \<or>
      pr_status r = ''draft'' \<and> \<not> pr_inputs_stale r \<and>
        (\<exists>p t k. pr_generated_by r \<noteq> Some p \<and>
          r' = r\<lparr>pr_status := ''processed'', pr_processed_at := Some t, pr_processed_by := Some p, pr_payslip_url := Some k\<rparr>) \<or>
      pr_status r = ''processed'' \<and>
        (\<exists>reason. r' = r\<lparr>pr_status := ''recalled'', pr_adjustment_reason := Some reason\<rparr>))"

text \<open>A row lies in the organisation of its user; \<open>home\<close> is that of the users table.\<close>

definition at_home :: "(id \<Rightarrow> id option) \<Rightarrow> payroll_record \<Rightarrow> bool" where
  "at_home home r \<longleftrightarrow> (case home (pr_user_id r) of None \<Rightarrow> True | Some g \<Rightarrow> pr_org_id r = g)"

definition records_step :: "(id \<Rightarrow> id option) \<Rightarrow> payroll_record list \<Rightarrow> payroll_record list \<Rightarrow> bool" where
  "records_step home rs rs' \<longleftrightarrow>
     (\<exists>new f. rs' = new @ map f rs \<and> (\<forall>r\<in>set rs. row_step r (f r)) \<and>
        (\<forall>r\<in>set new. pr_status r = ''draft'' \<and> at_home home r) \<and> distinct (map pr_id rs'))"

definition records_ok :: "(id \<Rightarrow> id option) \<Rightarrow> payroll_record list \<Rightarrow> bool" where
  "records_ok home rs \<longleftrightarrow>
     distinct (map pr_id rs) \<and> (\<forall>r\<in>set rs. at_home home r) \<and>
     (\<forall>r\<in>set rs. pr_status r = ''processed'' \<longrightarrow>
        (\<exists>p. pr_processed_by r = Some p \<and> pr_generated_by r \<noteq> Some p))"

lemma row_step_refl: "row_step r r"
  by (simp add: row_step_def)

lemma row_step_id: "row_step r r' \<Longrightarrow> pr_id r' = pr_id r"
  by (simp add: row_step_def)

lemma row_step_home: "row_step r r' \<Longrightarrow> at_home home r' = at_home home r"
  by (auto simp: row_step_def at_home_def split: option.splits)

lemma records_step_update:
  assumes "distinct (map pr_id rs)" "\<And>r. r \<in> set rs \<Longrightarrow> p r \<Longrightarrow> row_step r (f r)"
  shows "records_step home rs (update_where p f rs)"
proof -
  let ?g = "\<lambda>r. if p r then f r else r"
  have g: "\<forall>r\<in>set rs. row_step r (?g r)" using assms(2) row_step_refl by simp
  then have e: "map pr_id (map ?g rs) = map pr_id rs" by (simp add: row_step_id)
  have "distinct (map pr_id (update_where p f rs))"
    unfolding update_where_def e by (rule assms(1))
  with g show ?thesis unfolding records_step_def update_where_def
    by (intro exI[of _ "[]"] exI[of _ ?g]) simp
qed

lemma records_step_refl: "distinct (map pr_id rs) \<Longrightarrow> records_step home rs rs"
  using records_step_update[of rs "\<lambda>_. False"] by (simp add: update_where_def)

lemma records_step_cons:
  assumes "distinct (map pr_id rs)" "pr_status r = ''draft''" "\<forall>x\<in>set rs. pr_id x \<noteq> pr_id r" "at_home home r"
  shows "records_step home rs (r # rs)"
  unfolding records_step_def using assms row_step_refl
  by (intro exI[of _ "[r]"] exI[of _ "\<lambda>x. x"]) auto

lemma records_step_distinct: "records_step home rs rs' \<Longrightarrow> distinct (map pr_id rs')"
  by (auto simp: records_step_def)

lemma records_steps_distinct:
  "(records_step home)\<^sup>*\<^sup>* rs rs' \<Longrightarrow> distinct (map pr_id rs) \<Longrightarrow> distinct (map pr_id rs')"
  by (induction rule: rtranclp_induct) (auto dest: records_step_distinct)

text \<open>The row of an id after a step.\<close>

lemma records_step_row:
  assumes "records_step home rs rs'" "r \<in> set rs"
  shows "\<exists>r'\<in>set rs'. row_step r r'"
  using assms by (auto simp: records_step_def)

lemma records_step_ok:
  assumes "records_step home rs rs'" "records_ok home rs"
  shows "records_ok home rs'"
proof -
  obtain new f where f: "rs' = new @ map f rs" "\<forall>r\<in>set rs. row_step r (f r)"
      "\<forall>r\<in>set new. pr_status r = ''draft'' \<and> at_home home r"
    and d: "distinct (map pr_id rs')"
    using assms(1) unfolding records_step_def by blast
  have "\<exists>p. pr_processed_by r' = Some p \<and> pr_generated_by r' \<noteq> Some p"
    if r': "r' \<in> set rs'" "pr_status r' = ''processed''" for r'
  proof -
    obtain r where r: "r \<in> set rs" "r' = f r" using r' f by auto
    then have "row_step r r'" using f by blast
    then show ?thesis using assms(2) r(1) r'(2) unfolding row_step_def records_ok_def by auto
  qed
  moreover have "at_home home r'" if r': "r' \<in> set rs'" for r'
    using r' f assms(2) row_step_home unfolding records_ok_def by auto
  ultimately show ?thesis using d by (simp add: records_ok_def)
qed

lemma records_steps_ok: "(records_step home)\<^sup>*\<^sup>* rs rs' \<Longrightarrow> records_ok home rs \<Longrightarrow> records_ok home rs'"
  by (induction rule: rtranclp_induct) (auto dest: records_step_ok)

lemma recalled_stays:
  assumes "(records_step home)\<^sup>*\<^sup>* rs rs'" "\<exists>r\<in>set rs. pr_id r = i \<and> pr_status r = ''recalled''"
  shows "\<exists>r\<in>set rs'. pr_id r = i \<and> pr_status r = ''recalled''"
  using assms
proof (induction rule: rtranclp_induct)
  case (step y z)
  then obtain r where "r \<in> set y" "pr_id r = i" "pr_status r = ''recalled''" by blast
  moreover obtain r' where "r' \<in> set z" "row_step r r'" using records_step_row[OF step(2) \<open>r \<in> set y\<close>] by blast
  ultimately show ?case by (auto simp: row_step_def)
qed

subsection \<open>Steps of the system\<close>

definition home_of :: "payroll_db \<Rightarrow> id \<Rightarrow> id option" where
  "home_of db = map_of (map (\<lambda>u. (us_id u, us_org_id u)) (db_users db))"

definition db_ok :: "payroll_db \<Rightarrow> bool" where
  "db_ok db \<longleftrightarrow> distinct (map us_id (db_users db)) \<and> records_ok (home_of db) (db_records db)"

lemma home_of_user: "distinct (map us_id (db_users db)) \<Longrightarrow> u \<in> set (db_users db) \<Longrightarrow> home_of db (us_id u) = Some (us_org_id u)"
  unfolding home_of_def by (rule map_of_is_SomeI) (auto simp: comp_def)

inductive payroll_step :: "payroll_db \<Rightarrow> payroll_db \<Rightarrow> bool" where
  rate: "put_rate tz srv now cfg actor orgId userId body db = Inr db' \<Longrightarrow> payroll_step db db'"
| create_set: "createStatutorySet i now actor orgId v (db_sets db) = Inr (row, sets') \<Longrightarrow> payroll_step db (db\<lparr>db_sets := sets'\<rparr>)"
| activate: "activate_set cfg actor orgId setId db = Inr db' \<Longrightarrow> payroll_step db db'"
| generate: "payroll_step db (snd (generate per cfg e db))"
| adjust: "adjust per cfg orgId recordId field value reason db = Inr db' \<Longrightarrow> payroll_step db db'"
| recall: "recall orgId recordId reason db = Inr db' \<Longrightarrow> payroll_step db db'"
| process: "process_full per cfg pdf actor orgId m y now db = Inr (rs, db') \<Longrightarrow> payroll_step db db'"
| submit: "submit_claim now mgr userId orgId req db = Inr db' \<Longrightarrow> payroll_step db db'"
| approve: "approve_claim actor orgId claimId note db = Inr db' \<Longrightarrow> payroll_step db db'"
| reject: "reject_claim actor orgId claimId note db = Inr db' \<Longrightarrow> payroll_step db db'"
| reimburse: "reimburse orgId claimId month year db = Inr db' \<Longrightarrow> payroll_step db db'"

lemma mark_stale_steps:
  "distinct (map pr_id rs) \<Longrightarrow> records_step home rs (mark_stale p rs)"
  unfolding mark_stale_def by (rule records_step_update) (auto simp: row_step_def)

lemma apply_totals_keys [simp]:
  "pr_id (apply_totals st r) = pr_id r" "pr_user_id (apply_totals st r) = pr_user_id r"
  "pr_org_id (apply_totals st r) = pr_org_id r" "pr_period_month (apply_totals st r) = pr_period_month r"
  "pr_period_year (apply_totals st r) = pr_period_year r" "pr_status (apply_totals st r) = pr_status r"
  by (simp_all add: apply_totals_def)

lemma row_by_id:
  "distinct (map pr_id rs) \<Longrightarrow> r \<in> set rs \<Longrightarrow> s \<in> set rs \<Longrightarrow> pr_id r = pr_id s \<Longrightarrow> r = s"
  by (auto simp: distinct_map dest: inj_onD)

text \<open>A write addressed by the id of a row \<open>x\<close> is a row step when it is one for \<open>x\<close>.\<close>

lemma update_by_id_step:
  assumes "distinct (map pr_id rs)" "x \<in> set rs" "row_step x (f x)"
  shows "records_step home rs (update_where (\<lambda>r. pr_id r = pr_id x) f rs)"
  using assms row_by_id by (intro records_step_update) blast+

lemma put_rate_commits:
  assumes "put_rate tz srv now cfg actor orgId userId body db = Inr db'"
  shows "\<exists>org d c. parse_iso_date (rq_effective_from body) = Some d \<and> dayOf d = 1 \<and>
    commit_rate tz srv now orgId org
      \<lparr>ri_newId = rq_newId body, ri_userId = userId, ri_amount = dec2 (rq_amount body), ri_basis = rq_basis body,
       ri_currency = c, ri_effectiveFrom = d, ri_actorId = actor\<rparr> db = Inr db'"
  using assms unfolding put_rate_def Let_def by (auto split: option.splits if_splits)

lemma commit_rate_effect:
  assumes "commit_rate tz srv now orgId org input db = Inr db'"
  shows "\<exists>rate rates' x. setEffectivePayRate input orgId (db_rates db) = Inr (rate, rates') \<and>
    db_records db' = mark_stale (\<lambda>r. pr_org_id r = orgId \<and> pr_user_id r = ri_userId input \<and>
        startOfMonth srv (pr_period_year r) (pr_period_month r) \<le>
          coalesce (rt_effective_to rate) (civil_day 9999 12 31) * day_ms \<and>
        endOfMonth srv (pr_period_year r) (pr_period_month r) \<ge> ri_effectiveFrom input * day_ms) (db_records db) \<and>
    (db_users db' = db_users db \<or>
     db_users db' = update_where (\<lambda>u. us_id u = ri_userId input) (\<lambda>u. u\<lparr>us_hourly_rate := x\<rparr>) (db_users db))"
  using assms unfolding commit_rate_def Let_def by (auto split: option.splits) blast

lemma put_rate_step:
  assumes "put_rate tz srv now cfg actor orgId userId body db = Inr db'" "distinct (map pr_id (db_records db))"
  shows "records_step home (db_records db) (db_records db')"
proof -
  obtain p where "db_records db' = mark_stale p (db_records db)"
    using put_rate_commits[OF assms(1)] commit_rate_effect by blast
  then show ?thesis using mark_stale_steps[OF assms(2)] by simp
qed

lemma activate_step:
  assumes "activate_set cfg actor orgId setId db = Inr db'" "distinct (map pr_id (db_records db))"
  shows "records_step home (db_records db) (db_records db')"
  using assms mark_stale_steps by (auto simp: activate_set_def)

lemma recall_step:
  assumes "recall orgId recordId reason db = Inr db'" "distinct (map pr_id (db_records db))"
  shows "records_step home (db_records db) (db_records db')"
proof -
  obtain x where x: "find_first (\<lambda>r. pr_id r = recordId \<and> pr_org_id r = orgId) (db_records db) = Some x"
      "pr_status x = ''processed''"
    and db': "db_records db' = update_where (\<lambda>r. pr_id r = pr_id x)
      (\<lambda>r. r\<lparr>pr_status := ''recalled'', pr_adjustment_reason := Some reason\<rparr>) (db_records db)"
    using assms(1) by (auto simp: recall_def split: option.splits if_splits)
  have "row_step x (x\<lparr>pr_status := ''recalled'', pr_adjustment_reason := Some reason\<rparr>)"
    unfolding row_step_def by (intro conjI disjI2 exI[of _ reason]) (simp_all add: x(2))
  then show ?thesis
    unfolding db' using find_first_Some[OF x(1)] by (intro update_by_id_step[OF assms(2)]) auto
qed

lemma adjust_step:
  assumes "adjust per cfg orgId recordId field value reason db = Inr db'" "distinct (map pr_id (db_records db))"
  shows "records_step home (db_records db) (db_records db')"
proof -
  obtain x st b ot where x: "find_first (\<lambda>r. pr_id r = recordId \<and> pr_org_id r = orgId) (db_records db) = Some x"
      "pr_status x \<noteq> ''processed''"
    and db': "db_records db' = update_where (\<lambda>r. pr_id r = recordId)
      (\<lambda>r. (apply_totals (st :: payroll_totals statutory_applied) r)
        \<lparr>pr_adjustment_reason := Some reason,
         pr_regular_hours := (if field = RegularHours then dec2 value else pr_regular_hours r),
         pr_overtime_hours := (if field = OvertimeHours then dec2 value else pr_overtime_hours r),
         pr_manual_adjustment := (if field = Adjustments then dec2 value else pr_manual_adjustment r),
         pr_base_pay := dec2 b, pr_overtime_pay := dec2 ot\<rparr>) (db_records db)"
    using assms(1) unfolding adjust_def Let_def
    by (auto split: option.splits if_splits)
  have "recordId = pr_id x" "x \<in> set (db_records db)" using find_first_Some[OF x(1)] by auto
  then show ?thesis
    unfolding db' using x(2) by (simp only:) (rule update_by_id_step[OF assms(2)], simp_all add: row_step_def)
qed

lemma plan_reads:
  assumes "plan_reimbursement orgId claimId month year db = Inr p"
  shows "\<exists>claim x. find_first (\<lambda>c. ec_id c = claimId \<and> ec_org_id c = orgId) (db_claims db) = Some claim \<and>
    ec_status claim = ''approved'' \<and>
    find_first (record_key (ec_user_id claim) month year) (db_records db) = Some x \<and>
    pr_org_id x = orgId \<and> pr_status x \<noteq> ''processed'' \<and> rb_record_id p = pr_id x \<and> rb_claim_id p = ec_id claim \<and>
    rb_newAdjustment p = pr_manual_adjustment x + ec_amount claim \<and>
    ec_currency claim = org_currency (find_org orgId db)"
proof -
  obtain claim where c: "loadClaim claimId orgId ''approved'' db = Inr claim"
    using assms unfolding plan_reimbursement_def by (auto simp only: bind_result_eq_Inr)
  then have cl: "find_first (\<lambda>c. ec_id c = claimId \<and> ec_org_id c = orgId) (db_claims db) = Some claim"
      "ec_status claim = ''approved''"
    by (auto simp: loadClaim_def split: option.splits if_splits)
  show ?thesis
  proof (cases "find_first (record_key (ec_user_id claim) month year) (db_records db)")
    case None
    then show ?thesis using assms c by (simp add: plan_reimbursement_def)
  next
    case (Some x)
    then show ?thesis
      using assms c cl by (auto simp: plan_reimbursement_def Let_def split: if_splits)
  qed
qed

lemma reimburse_step:
  assumes "reimburse orgId claimId month year db = Inr db'" "distinct (map pr_id (db_records db))"
  shows "records_step home (db_records db) (db_records db')"
proof -
  obtain p where p: "plan_reimbursement orgId claimId month year db = Inr p" "db' = commit_reimbursement p db"
    using assms(1) by (auto simp: reimburse_def)
  obtain claim :: expense_claim and x where x: "find_first (record_key (ec_user_id claim) month year) (db_records db) = Some x"
      "pr_status x \<noteq> ''processed''" "rb_record_id p = pr_id x"
    using plan_reads[OF p(1)] by blast
  have "x \<in> set (db_records db)" using find_first_Some[OF x(1)] by blast
  then show ?thesis
    unfolding p(2) commit_reimbursement_def x(3) using x(2)
    by simp (rule update_by_id_step[OF assms(2)], simp_all add: row_step_def)
qed

lemma row_step_process:
  assumes "pr_status r = ''draft''" "\<not> pr_inputs_stale r" "pr_generated_by r \<noteq> Some actor"
  shows "row_step r (r\<lparr>pr_status := ''processed'', pr_processed_at := Some now, pr_processed_by := Some actor,
    pr_payslip_url := Some key\<rparr>)"
proof -
  have "\<exists>p t k. pr_generated_by r \<noteq> Some p \<and>
      r\<lparr>pr_status := ''processed'', pr_processed_at := Some now, pr_processed_by := Some actor, pr_payslip_url := Some key\<rparr> =
      r\<lparr>pr_status := ''processed'', pr_processed_at := Some t, pr_processed_by := Some p, pr_payslip_url := Some k\<rparr>"
    using assms(3) by blast
  with assms show ?thesis unfolding row_step_def by auto
qed

lemma finalize_step:
  assumes "finalize_record actor orgId now key x db = (done, db')" "distinct (map pr_id (db_records db))"
    and "\<And>r. r \<in> set (db_records db) \<Longrightarrow> pr_id r = pr_id x \<Longrightarrow> pr_generated_by r \<noteq> Some actor"
  shows "records_step home (db_records db) (db_records db')"
proof (cases "count_where (\<lambda>r. pr_id r = pr_id x \<and> pr_org_id r = orgId \<and> pr_status r = ''draft'' \<and> \<not> pr_inputs_stale r) (db_records db) = 0")
  case True
  then have "db' = db" using assms(1) by (simp add: finalize_record_def Let_def)
  then show ?thesis using records_step_refl[OF assms(2)] by simp
next
  case False
  have "db_records db' = update_where (\<lambda>r. pr_id r = pr_id x \<and> pr_org_id r = orgId \<and> pr_status r = ''draft'' \<and> \<not> pr_inputs_stale r)
      (\<lambda>r. r\<lparr>pr_status := ''processed'', pr_processed_at := Some now, pr_processed_by := Some actor, pr_payslip_url := Some key\<rparr>) (db_records db)"
    using assms(1) False by (auto simp: finalize_record_def Let_def)
  then show ?thesis
    by (simp only:) (rule records_step_update[OF assms(2)], use assms(3) row_step_process in blast)
qed

lemma finalize_generated_by:
  assumes "finalize_record actor orgId now key x db = (done, db')" "r' \<in> set (db_records db')"
  shows "\<exists>r\<in>set (db_records db). pr_id r' = pr_id r \<and> pr_generated_by r' = pr_generated_by r"
proof -
  let ?p = "\<lambda>r. pr_id r = pr_id x \<and> pr_org_id r = orgId \<and> pr_status r = ''draft'' \<and> \<not> pr_inputs_stale r"
  let ?f = "\<lambda>r. r\<lparr>pr_status := ''processed'', pr_processed_at := Some now, pr_processed_by := Some actor, pr_payslip_url := Some key\<rparr>"
  have "db_records db' = db_records db \<or> db_records db' = update_where ?p ?f (db_records db)"
    using assms(1) unfolding finalize_record_def Let_def by (auto split: if_splits)
  then obtain r where "r \<in> set (db_records db)" "r' = r \<or> r' = ?f r"
    using assms(2) by (elim disjE) (auto simp: set_update_where)
  then show ?thesis by auto
qed

lemma process_loop_steps:
  assumes "process_loop pdf actor orgId now xs db = (rs, db')" "distinct (map pr_id (db_records db))"
    and "\<And>x r. x \<in> set xs \<Longrightarrow> r \<in> set (db_records db) \<Longrightarrow> pr_id r = pr_id x \<Longrightarrow> pr_generated_by r \<noteq> Some actor"
  shows "(records_step home)\<^sup>*\<^sup>* (db_records db) (db_records db')"
  using assms
proof (induction xs arbitrary: db rs)
  case (Cons x xs)
  show ?case
  proof (cases "pdf x")
    case None
    then obtain rs1 where "process_loop pdf actor orgId now xs db = (rs1, db')"
      using Cons.prems(1) by (auto split: prod.splits)
    then show ?thesis using Cons.IH Cons.prems(2,3) by (metis list.set_intros(2))
  next
    case (Some key)
    obtain d db1 where f: "finalize_record actor orgId now key x db = (d, db1)" by fastforce
    then obtain rs1 where rec: "process_loop pdf actor orgId now xs db1 = (rs1, db')"
      using Cons.prems(1) Some by (auto split: prod.splits)
    have s: "records_step home (db_records db) (db_records db1)"
      using finalize_step[OF f Cons.prems(2)] Cons.prems(3) by (metis list.set_intros(1))
    have "(records_step home)\<^sup>*\<^sup>* (db_records db1) (db_records db')"
      using Cons.IH[OF rec records_step_distinct[OF s]] finalize_generated_by[OF f] Cons.prems(3)
      by (metis list.set_intros(2))
    with s show ?thesis by (rule converse_rtranclp_into_rtranclp)
  qed
qed simp

lemma process_candidates_Inr:
  assumes "process_candidates actor orgId m y db = Inr xs" "x \<in> set xs"
  shows "x \<in> set (db_records db) \<and> pr_generated_by x \<noteq> Some actor"
proof -
  have "xs = filter (\<lambda>r. pr_status r \<noteq> ''processed'') (period_records orgId m y db)"
    "count_where (\<lambda>r. pr_generated_by r = Some actor) xs = 0"
    using assms(1) by (auto simp: process_candidates_def Let_def split: if_splits)
  then show ?thesis using assms(2) by (auto simp: count_where_zero period_records_def)
qed

lemma process_full_Inr:
  assumes "process_full per cfg pdf actor orgId m y now db = Inr (rs, db')"
  shows "\<exists>xs db1. process_candidates actor orgId m y db = Inr xs \<and>
    process_loop pdf actor orgId now xs db = (rs, db1) \<and> db_records db' = db_records db1"
proof -
  obtain xs where xs: "process_candidates actor orgId m y db = Inr xs"
    and body: "(case process_loop pdf actor orgId now xs db of
         (rs, db') \<Rightarrow> Inr (rs, db'\<lparr>db_log := Audit ''payroll.process'' [] # db_log db'\<rparr>)) = (Inr (rs, db') :: _ result)"
    using assms unfolding process_full_def bind_result_eq_Inr by blast
  obtain rs1 db1 where "process_loop pdf actor orgId now xs db = (rs1, db1)" by fastforce
  with xs body show ?thesis by auto
qed

lemma process_steps:
  assumes "process_full per cfg pdf actor orgId m y now db = Inr (rs, db')" "distinct (map pr_id (db_records db))"
  shows "(records_step home)\<^sup>*\<^sup>* (db_records db) (db_records db')"
proof -
  obtain xs db1 where xs: "process_candidates actor orgId m y db = Inr xs"
      "process_loop pdf actor orgId now xs db = (rs, db1)" "db_records db' = db_records db1"
    using process_full_Inr[OF assms(1)] by blast
  have "pr_generated_by r \<noteq> Some actor"
    if r: "x \<in> set xs" "r \<in> set (db_records db)" "pr_id r = pr_id x" for x r
    using row_by_id[OF assms(2) r(2) _ r(3)] process_candidates_Inr[OF xs(1) r(1)] by blast
  then show ?thesis using process_loop_steps[OF xs(2) assms(2)] unfolding xs(3) by blast
qed

subsection \<open>Generation\<close>

lemma generated_fields_keys [simp]:
  "pr_id (generated_fields a b c d e f g st r) = pr_id r"
  "pr_user_id (generated_fields a b c d e f g st r) = pr_user_id r"
  "pr_org_id (generated_fields a b c d e f g st r) = pr_org_id r"
  "pr_period_month (generated_fields a b c d e f g st r) = pr_period_month r"
  "pr_period_year (generated_fields a b c d e f g st r) = pr_period_year r"
  "pr_status (generated_fields a b c d e f g st r) = pr_status r"
  "pr_manual_adjustment (generated_fields a b c d e f g st r) = pr_manual_adjustment r"
  by (simp_all add: generated_fields_def Let_def)

lemma blank_record_keys [simp]:
  "pr_id (blank_record i u g m y) = i" "pr_user_id (blank_record i u g m y) = u"
  "pr_org_id (blank_record i u g m y) = g" "pr_period_month (blank_record i u g m y) = m"
  "pr_period_year (blank_record i u g m y) = y" "pr_status (blank_record i u g m y) = ''draft''"
  "pr_manual_adjustment (blank_record i u g m y) = 0"
  by (simp_all add: blank_record_def)

lemma generate_user_effect:
  assumes "generate_user e org manual user db = Inr db'"
  shows "\<exists>b c d h i j st. db' = db\<lparr>db_records := db_records db'\<rparr> \<and>
    upsert_record (generated_fields (ge_actor e) b c d h i j st)
      (blank_record (ge_uuid e (us_id user)) (us_id user) (ge_org e) (ge_month e) (ge_year e)) (db_records db) =
      Inr (db_records db')"
  using assms unfolding generate_user_def Let_def
  by (auto split: prod.splits) blast

text \<open>The loop's invariant: processed rows of the period belong to users that are skipped, and
  every row lies in the organisation of its user.\<close>

definition gen_inv :: "(id \<Rightarrow> id option) \<Rightarrow> gen_env \<Rightarrow> id list \<Rightarrow> employee list \<Rightarrow> payroll_record list \<Rightarrow> bool" where
  "gen_inv home e processed users rs \<longleftrightarrow>
     distinct (map pr_id rs) \<and> (\<forall>u\<in>set users. home (us_id u) = Some (ge_org e)) \<and>
     (\<forall>r\<in>set rs. \<forall>u\<in>set users. record_key (us_id u) (ge_month e) (ge_year e) r \<longrightarrow>
        pr_status r = ''processed'' \<longrightarrow> us_id u \<in> set processed)"

lemma generate_user_step:
  assumes "generate_user e org manual user db = Inr db'" "us_id user \<notin> set processed"
    and "gen_inv home e processed (user # users) (db_records db)"
  shows "records_step home (db_records db) (db_records db') \<and> gen_inv home e processed users (db_records db')"
proof -
  let ?rs = "db_records db" and ?rs' = "db_records db'"
  let ?fresh = "blank_record (ge_uuid e (us_id user)) (us_id user) (ge_org e) (ge_month e) (ge_year e)"
  let ?key = "record_key (us_id user) (ge_month e) (ge_year e)"
  obtain b c d h i j st where up: "upsert_record (generated_fields (ge_actor e) b c d h i j st) ?fresh ?rs = Inr ?rs'"
    using generate_user_effect[OF assms(1)] by blast
  have dist: "distinct (map pr_id ?rs)" using assms(3) by (simp add: gen_inv_def)
  have open_rows: "r \<in> set ?rs \<Longrightarrow> ?key r \<Longrightarrow> pr_status r \<noteq> ''processed''" for r
    using assms(2,3) by (auto simp: gen_inv_def)
  show ?thesis
  proof (cases "\<exists>r\<in>set ?rs. ?key r")
    case True
    then have rs': "?rs' = update_where ?key (generated_fields (ge_actor e) b c d h i j st) ?rs"
      using up by (simp add: upsert_record_def)
    have step: "records_step home ?rs ?rs'"
      unfolding rs' by (rule records_step_update[OF dist]) (use open_rows in \<open>simp add: row_step_def\<close>)
    have "gen_inv home e processed users ?rs'"
      using assms(3) records_step_distinct[OF step] unfolding rs' gen_inv_def
      by (auto simp: set_update_where)
    with step show ?thesis by blast
  next
    case False
    then have rs': "?rs' = generated_fields (ge_actor e) b c d h i j st ?fresh # ?rs"
      and new: "\<forall>r\<in>set ?rs. pr_id r \<noteq> ge_uuid e (us_id user)"
      using up by (auto simp: upsert_record_def split: if_splits)
    have step: "records_step home ?rs ?rs'"
      unfolding rs' by (rule records_step_cons[OF dist]) (use assms(3) in \<open>simp_all add: new at_home_def gen_inv_def\<close>)
    have "gen_inv home e processed users ?rs'"
      using assms(3) records_step_distinct[OF step] unfolding rs' gen_inv_def by auto
    with step show ?thesis by blast
  qed
qed

lemma generate_loop_steps:
  assumes "gen_inv home e processed users (db_records db)"
  shows "(records_step home)\<^sup>*\<^sup>* (db_records db) (db_records (snd (generate_loop e org processed manual users db)))"
  using assms
proof (induction users arbitrary: db)
  case (Cons user users)
  have tl: "gen_inv home e processed users (db_records db)" using Cons.prems by (simp add: gen_inv_def)
  show ?case
  proof (cases "us_id user \<in> set processed")
    case True
    then show ?thesis using Cons.IH[OF tl] by simp
  next
    case False
    show ?thesis
    proof (cases "generate_user e org (manual (us_id user)) user db")
      case (Inl err)
      then show ?thesis using False by simp
    next
      case (Inr db1)
      from generate_user_step[OF Inr False Cons.prems]
      have s: "records_step home (db_records db) (db_records db1)" and i: "gen_inv home e processed users (db_records db1)"
        by blast+
      show ?thesis using converse_rtranclp_into_rtranclp[OF s Cons.IH[OF i]] Inr False by simp
    qed
  qed
qed simp

lemma generate_steps:
  assumes "db_ok db"
  shows "(records_step (home_of db))\<^sup>*\<^sup>* (db_records db) (db_records (snd (generate per cfg e db)))"
proof -
  let ?users = "filter (\<lambda>u. us_org_id u = ge_org e \<and> us_is_active u \<and> \<not> us_deleted u) (db_users db)"
  let ?existing = "filter (\<lambda>r. pr_org_id r = ge_org e \<and> pr_period_month r = ge_month e \<and> pr_period_year r = ge_year e) (db_records db)"
  let ?processed = "map pr_user_id (filter (\<lambda>r. pr_status r = ''processed'') ?existing)"
  have home: "home_of db (us_id u) = Some (ge_org e)" if "u \<in> set ?users" for u
    using that assms home_of_user[of db u] by (simp add: db_ok_def)
  have "us_id u \<in> set ?processed"
    if "r \<in> set (db_records db)" "u \<in> set ?users" "record_key (us_id u) (ge_month e) (ge_year e) r" "pr_status r = ''processed''" for r u
  proof -
    have "pr_org_id r = ge_org e" using that assms home[OF that(2)] by (auto simp: db_ok_def records_ok_def at_home_def)
    then show ?thesis using that by force
  qed
  moreover have "distinct (map pr_id (db_records db))" using assms by (simp add: db_ok_def records_ok_def)
  ultimately have "gen_inv (home_of db) e ?processed ?users (db_records db)"
    using home unfolding gen_inv_def by blast
  from generate_loop_steps[OF this] show ?thesis
    unfolding generate_def Let_def by (auto split: sum.splits)
qed

subsection \<open>Every step\<close>

lemma claim_handlers_keep:
  "submit_claim now mgr userId orgId req db = Inr db' \<Longrightarrow> db_records db' = db_records db \<and> db_users db' = db_users db"
  "review_claim verdict actor orgId claimId note db = Inr db' \<Longrightarrow> db_records db' = db_records db \<and> db_users db' = db_users db"
  by (auto simp: submit_claim_def review_claim_def Let_def split: option.splits if_splits)

lemma payroll_step_records:
  assumes "payroll_step db db'" "db_ok db"
  shows "(records_step (home_of db))\<^sup>*\<^sup>* (db_records db) (db_records db')"
proof -
  have d: "distinct (map pr_id (db_records db))" using assms(2) by (simp add: db_ok_def records_ok_def)
  from assms(1) show ?thesis
  proof cases
    case generate
    then show ?thesis using generate_steps[OF assms(2)] by simp
  next
    case process
    then show ?thesis using process_steps[OF _ d] by blast
  qed (use put_rate_step[OF _ d] activate_step[OF _ d] adjust_step[OF _ d]
        recall_step[OF _ d] reimburse_step[OF _ d] claim_handlers_keep
        in \<open>auto simp: approve_claim_def reject_claim_def intro: r_into_rtranclp\<close>)
qed

text \<open>The users and their organisations stay; only hourly rates change.\<close>

lemma update_users_keys:
  "map (\<lambda>u. (us_id u, us_org_id u)) (update_where p (\<lambda>u. u\<lparr>us_hourly_rate := x\<rparr>) us) =
   map (\<lambda>u. (us_id u, us_org_id u)) us"
  by (induction us) auto

lemma process_loop_users: "process_loop pdf actor orgId now xs db = (rs, db') \<Longrightarrow> db_users db' = db_users db"
  by (induction xs arbitrary: db rs)
    (auto simp: finalize_record_def Let_def split: option.splits prod.splits if_splits)

lemma process_full_users:
  assumes "process_full per cfg pdf actor orgId m y now db = Inr (rs, db')"
  shows "db_users db' = db_users db"
proof -
  obtain xs where body: "(case process_loop pdf actor orgId now xs db of
         (rs, db') \<Rightarrow> Inr (rs, db'\<lparr>db_log := Audit ''payroll.process'' [] # db_log db'\<rparr>)) = (Inr (rs, db') :: _ result)"
    using assms unfolding process_full_def bind_result_eq_Inr by blast
  obtain rs1 db1 where "process_loop pdf actor orgId now xs db = (rs1, db1)" by fastforce
  with process_loop_users[OF this] body show ?thesis by auto
qed

lemma generate_loop_users: "db_users (snd (generate_loop e org processed manual users db)) = db_users db"
proof (induction users arbitrary: db)
  case (Cons u us)
  show ?case
    using Cons generate_user_effect[of e org "manual (us_id u)" u db]
    by (auto split: sum.splits) (metis payroll_db.select_convs(1) payroll_db.surjective payroll_db.update_convs(7))
qed simp

abbreviation user_keys :: "payroll_db \<Rightarrow> (id \<times> id) list" where
  "user_keys db \<equiv> map (\<lambda>u. (us_id u, us_org_id u)) (db_users db)"

lemma put_rate_users:
  assumes "put_rate tz srv now cfg actor orgId userId body db = Inr db'"
  shows "user_keys db' = user_keys db"
proof -
  obtain input org where "commit_rate tz srv now orgId org input db = Inr db'"
    using put_rate_commits[OF assms] by blast
  from commit_rate_effect[OF this] obtain u x where
    "db_users db' = db_users db \<or> db_users db' = update_where (\<lambda>w. us_id w = u) (\<lambda>w. w\<lparr>us_hourly_rate := x\<rparr>) (db_users db)"
    by blast
  then show ?thesis by (elim disjE) (simp_all only: update_users_keys)
qed

lemma payroll_step_users:
  assumes "payroll_step db db'"
  shows "user_keys db' = user_keys db"
  using assms
proof cases
  case rate
  then show ?thesis using put_rate_users by blast
next
  case activate
  then show ?thesis by (auto simp: activate_set_def)
next
  case (generate per cfg e)
  then show ?thesis by (simp add: generate_def Let_def generate_loop_users split: sum.splits)
next
  case adjust
  then show ?thesis unfolding adjust_def Let_def by (auto split: option.splits if_splits)
next
  case recall
  then show ?thesis by (auto simp: recall_def split: option.splits if_splits)
next
  case process
  then show ?thesis using process_full_users by metis
next
  case reimburse
  then show ?thesis by (auto simp: reimburse_def commit_reimbursement_def)
qed (use claim_handlers_keep in \<open>auto simp: approve_claim_def reject_claim_def\<close>)

lemma payroll_step_ok:
  assumes "payroll_step db db'" "db_ok db"
  shows "db_ok db' \<and> home_of db' = home_of db"
proof -
  have k: "user_keys db' = user_keys db" using payroll_step_users[OF assms(1)] .
  then have h: "home_of db' = home_of db" unfolding home_of_def by simp
  have "map us_id (db_users db') = map fst (user_keys db')" by simp
  also have "\<dots> = map us_id (db_users db)" unfolding k by simp
  finally have "distinct (map us_id (db_users db'))" using assms(2) by (simp add: db_ok_def)
  moreover have "records_ok (home_of db) (db_records db')"
    using records_steps_ok[OF payroll_step_records[OF assms]] assms(2) by (simp add: db_ok_def)
  ultimately show ?thesis using h by (simp add: db_ok_def)
qed

lemma payroll_steps_ok:
  "payroll_step\<^sup>*\<^sup>* db db' \<Longrightarrow> db_ok db \<Longrightarrow>
     db_ok db' \<and> home_of db' = home_of db \<and> (records_step (home_of db))\<^sup>*\<^sup>* (db_records db) (db_records db')"
proof (induction rule: rtranclp_induct)
  case (step y z)
  then have y: "db_ok y" "home_of y = home_of db" "(records_step (home_of db))\<^sup>*\<^sup>* (db_records db) (db_records y)" by auto
  then show ?case
    using payroll_step_ok[OF step(2) y(1)] payroll_step_records[OF step(2) y(1)] by (auto intro: rtranclp_trans)
qed simp

lemma processed_kept:
  assumes "(records_step home)\<^sup>*\<^sup>* rs rs'" "r \<in> set rs" "pr_status r = ''processed''"
  shows "r \<in> set rs' \<or> (\<exists>r'\<in>set rs'. pr_id r' = pr_id r \<and> pr_status r' = ''recalled'')"
  using assms
proof (induction rule: rtranclp_induct)
  case (step y z)
  then consider "r \<in> set y" | r' where "r' \<in> set y" "pr_id r' = pr_id r" "pr_status r' = ''recalled''" by blast
  then show ?case
  proof cases
    case 1
    then obtain r' where "r' \<in> set z" "row_step r r'" using records_step_row[OF step(2)] by blast
    then show ?thesis using step.prems(2) by (auto simp: row_step_def)
  next
    case 2
    then obtain r2 where "r2 \<in> set z" "row_step r' r2" using records_step_row[OF step(2)] by blast
    then show ?thesis using 2 by (auto simp: row_step_def)
  qed
qed simp

subsection \<open>A run\<close>

text \<open>One employee of organisation \<open>o\<close>, two days in March 2025: \<open>maker\<close> generates, \<open>checker\<close>
  processes, then the record is recalled.\<close>

definition ex_env :: gen_env where
  "ex_env = \<lparr>ge_srv = 0, ge_sha = (\<lambda>c. ''h''), ge_uuid = (\<lambda>u. ''p-'' @ u), ge_actor = ''maker'', ge_org = ''o'',
     ge_month = 3, ge_year = 2025\<rparr>"

definition ex_db0 :: payroll_db where
  "ex_db0 = \<lparr>db_users = [\<lparr>us_id = ''u'', us_org_id = ''o'', us_is_active = True, us_deleted = False, us_hourly_rate = 20\<rparr>],
     db_orgs = [\<lparr>og_id = ''o'', og_country_code = None, og_currency = ''PKR'', og_timezone = None,
       og_monthly_pay_divisor = 26, og_tax_rate = 10, og_pension_rate = 5\<rparr>],
     db_attendance = [\<lparr>ar_user_id = ''u'', ar_date = 20158, ar_pay = row_example 8 1\<rparr>,
       \<lparr>ar_user_id = ''u'', ar_date = 20159, ar_pay = row_example 7 0\<rparr>],
     db_leave = [], db_rates = [], db_sets = [], db_records = [], db_claims = [], db_log = []\<rparr>"

definition ex_pdf :: "payroll_record \<Rightarrow> string option" where
  "ex_pdf r = Some ''k''"

definition ex_db1 :: payroll_db where
  "ex_db1 = snd (generate Granted Granted ex_env ex_db0)"

definition ex_db2 :: payroll_db where
  "ex_db2 = (case process_full Granted Granted ex_pdf ''checker'' ''o'' 3 2025 5 ex_db1 of
     Inl _ \<Rightarrow> ex_db1 | Inr (rs, d) \<Rightarrow> d)"

definition ex_db3 :: payroll_db where
  "ex_db3 = (case recall ''o'' ''p-u'' ''wrong hours'' ex_db2 of Inl _ \<Rightarrow> ex_db2 | Inr d \<Rightarrow> d)"

lemma ex_steps: "payroll_step ex_db0 ex_db1" "payroll_step ex_db1 ex_db2" "payroll_step ex_db2 ex_db3"
proof -
  show "payroll_step ex_db0 ex_db1" unfolding ex_db1_def by (rule payroll_step.generate)
  have "\<not> Option.is_none (case process_full Granted Granted ex_pdf ''checker'' ''o'' 3 2025 5 ex_db1 of Inl _ \<Rightarrow> None | Inr x \<Rightarrow> Some x)"
    by code_simp
  then obtain rs d where "process_full Granted Granted ex_pdf ''checker'' ''o'' 3 2025 5 ex_db1 = Inr (rs, d)"
    by (auto split: sum.splits)
  then show "payroll_step ex_db1 ex_db2" unfolding ex_db2_def by (auto intro: payroll_step.process)
  have "\<not> Option.is_none (case recall ''o'' ''p-u'' ''wrong hours'' ex_db2 of Inl _ \<Rightarrow> None | Inr x \<Rightarrow> Some x)"
    by code_simp
  then obtain d where "recall ''o'' ''p-u'' ''wrong hours'' ex_db2 = Inr d"
    by (auto split: sum.splits)
  then show "payroll_step ex_db2 ex_db3" unfolding ex_db3_def by (auto intro: payroll_step.recall)
qed

lemma ex_ok: "db_ok ex_db0"
  by (simp add: db_ok_def records_ok_def ex_db0_def)

lemma ex_reach:
  "payroll_step\<^sup>*\<^sup>* ex_db0 ex_db2" "payroll_step\<^sup>*\<^sup>* ex_db0 ex_db3" "payroll_step\<^sup>*\<^sup>* ex_db2 ex_db3" "db_ok ex_db2" "db_ok ex_db3"
proof -
  show r: "payroll_step\<^sup>*\<^sup>* ex_db0 ex_db2" "payroll_step\<^sup>*\<^sup>* ex_db0 ex_db3" "payroll_step\<^sup>*\<^sup>* ex_db2 ex_db3"
    using ex_steps by (meson converse_rtranclp_into_rtranclp r_into_rtranclp)+
  show "db_ok ex_db2" "db_ok ex_db3" using payroll_steps_ok[OF r(1) ex_ok] payroll_steps_ok[OF r(2) ex_ok] by auto
qed

lemma ex_rows:
  "map (\<lambda>r. (pr_id r, pr_status r, pr_net_pay r)) (db_records ex_db2) = [(''p-u'', ''processed'', 561 / 2)]"
  "map (\<lambda>r. (pr_id r, pr_status r)) (db_records ex_db3) = [(''p-u'', ''recalled'')]"
  by code_simp+

lemma ex_row2: "\<exists>r\<in>set (db_records ex_db2). pr_id r = ''p-u'' \<and> pr_status r = ''processed''"
  using ex_rows(1) by (auto simp: map_eq_Cons_conv)

lemma ex_row3: "\<exists>r\<in>set (db_records ex_db3). pr_id r = ''p-u'' \<and> pr_status r = ''recalled''"
  using ex_rows(2) by (auto simp: map_eq_Cons_conv)

text \<open>C1: in every state the system can reach from a well-formed one, each processed
  payroll record was processed by somebody other than the person who generated it.\<close>

theorem payroll_four_eyes:
  assumes "db_ok db" "payroll_step\<^sup>*\<^sup>* db db'" "r \<in> set (db_records db')" "pr_status r = ''processed''"
  shows "\<exists>p. pr_processed_by r = Some p \<and> pr_generated_by r \<noteq> Some p"
  using payroll_steps_ok[OF assms(2,1)] assms(3,4) by (auto simp: db_ok_def records_ok_def)

theorem payroll_four_eyes_witness:
  "\<exists>r\<in>set (db_records ex_db2). pr_status r = ''processed'' \<and> (\<exists>p. pr_processed_by r = Some p \<and> pr_generated_by r \<noteq> Some p)"
  using payroll_four_eyes[OF ex_ok ex_reach(1)] ex_row2 by blast



text \<open>Once a payroll record has been recalled no sequence of requests
  brings it back: it stays recalled, and its payslip is refused for ever.\<close>

theorem recalled_never_processed:
  assumes "db_ok db" "payroll_step\<^sup>*\<^sup>* db db'" "r \<in> set (db_records db)" "pr_status r = ''recalled''"
  shows "(\<forall>r'\<in>set (db_records db'). pr_id r' = pr_id r \<longrightarrow> pr_status r' = ''recalled'') \<and>
    (\<exists>e. get_payslip userId (pr_id r) db' = Inl e)"
proof -
  note ok = payroll_steps_ok[OF assms(2,1)]
  obtain x where x: "x \<in> set (db_records db')" "pr_id x = pr_id r" "pr_status x = ''recalled''"
    using recalled_stays[of "home_of db" "db_records db" "db_records db'" "pr_id r"] ok assms(3,4) by blast
  have all: "\<forall>r'\<in>set (db_records db'). pr_id r' = pr_id r \<longrightarrow> pr_status r' = ''recalled''"
  proof (intro ballI impI)
    fix r' assume "r' \<in> set (db_records db')" "pr_id r' = pr_id r"
    then have "r' = x" using x row_by_id[of "db_records db'" r' x] ok by (simp add: db_ok_def records_ok_def)
    then show "pr_status r' = ''recalled''" using x(3) by simp
  qed
  moreover have "\<exists>e. get_payslip userId (pr_id r) db' = Inl e"
  proof (cases "find_first (\<lambda>q. pr_id q = pr_id r \<and> pr_user_id q = userId) (db_records db')")
    case None
    then show ?thesis by (simp add: get_payslip_def)
  next
    case (Some q)
    then have "pr_status q = ''recalled''" using all find_first_Some[OF Some] by blast
    then show ?thesis using Some by (simp add: get_payslip_def)
  qed
  ultimately show ?thesis by blast
qed

theorem recalled_never_processed_witness:
  "\<exists>e. get_payslip ''u'' ''p-u'' (snd (generate Granted Granted ex_env ex_db3)) = Inl e"
proof -
  obtain r where "r \<in> set (db_records ex_db3)" "pr_id r = ''p-u''" "pr_status r = ''recalled''" using ex_row3 by blast
  then show ?thesis
    using recalled_never_processed[OF ex_reach(5) r_into_rtranclp[of payroll_step, OF payroll_step.generate]] by metis
qed

end
