(* ===== verification/PayrollRules.thy ===== *)
theory PayrollRules
  imports PayrollLifecycle
begin

text \<open>
  What the payroll handlers guarantee across components: a change of pay rate blocks the processing
  of the drafts it affects, generation keeps manual adjustments, a claim is reimbursed at most once,
  and two places where the code does not do what its comments say: the rate of the month in which
  a rate ends, and reimbursements that run at the same time.
\<close>

subsection \<open>Month ends\<close>

lemma utc_day_first: "1 \<le> m \<Longrightarrow> m \<le> 12 \<Longrightarrow> utc_day y (m - 1) 1 = civil_day y m 1"
  by (simp add: utc_day_def div_pos_pos_trivial mod_pos_pos_trivial)

lemma utc_day_last:
  assumes "1 \<le> m" "m \<le> 12"
  shows "utc_day y m 0 = civil_day y m (month_length (leap y) m)"
proof (cases "m = 12")
  case True
  then show ?thesis
    by (simp add: utc_day_def civil_day_def month_length_def month_start_def days_before_year_Suc)
next
  case False
  then have "m div 12 = 0" "m mod 12 = m" using assms by (simp_all add: div_pos_pos_trivial mod_pos_pos_trivial)
  then show ?thesis using assms False by (simp add: utc_day_def civil_day_def month_length_def)
qed

lemma first_of_month:
  assumes "dayOf d = 1"
  shows "utc_day (yearOf d) (monthOf d - 1) 1 = d" "d \<le> utc_day (yearOf d) (monthOf d) 0"
proof -
  have m: "1 \<le> monthOf d" "monthOf d \<le> 12" by (rule monthOf_bounds)+
  have d: "civil_day (yearOf d) (monthOf d) 1 = d" using civil_roundtrip[of d] assms by simp
  then show "utc_day (yearOf d) (monthOf d - 1) 1 = d" using utc_day_first[OF m] by simp
  have "28 \<le> month_length (leap (yearOf d)) (monthOf d)" using month_length_bounds[OF m] by blast
  then show "d \<le> utc_day (yearOf d) (monthOf d) 0" using d by (simp add: utc_day_last[OF m] civil_day_def)
qed

lemma parse_iso_date_year: "parse_iso_date s = Some n \<Longrightarrow> yearOf n \<le> 9999"
proof -
  assume "parse_iso_date s = Some n"
  then obtain a b c e m d where "n = civil_day (int (dec_value [a, b, c, e])) m d" "1 \<le> m" "m \<le> 12" "1 \<le> d"
      "d \<le> month_length (leap (int (dec_value [a, b, c, e]))) m" and dig: "list_all is_digit [a, b, c, e]"
    by (auto simp: parse_iso_date_def Let_def split: list.splits if_splits)
  then have "yearOf n = int (dec_value [a, b, c, e])" by (simp add: civil_day_fields)
  moreover have "dec_value [a, b, c, e] =
      1000 * (of_char a - 48) + 100 * (of_char b - 48) + 10 * (of_char c - 48) + (of_char e - 48)"
    by (simp add: dec_value_def)
  moreover have "is_digit x \<Longrightarrow> of_char x - 48 \<le> (9 :: nat)" for x by (auto simp: is_digit_def)
  then have "of_char a - 48 \<le> (9 :: nat)" "of_char b - 48 \<le> (9 :: nat)"
      "of_char c - 48 \<le> (9 :: nat)" "of_char e - 48 \<le> (9 :: nat)" using dig by auto
  ultimately show ?thesis by simp
qed

lemma before_year_10000: "yearOf n \<le> 9999 \<Longrightarrow> n \<le> civil_day 9999 12 31"
proof -
  assume "yearOf n \<le> 9999"
  then have "n < days_before_year 10000"
    using yearOf_spec(2)[of n] days_before_year_mono[of "yearOf n + 1" 10000] by simp
  moreover have "civil_day 9999 12 31 = days_before_year 10000 - 1" by code_simp
  ultimately show ?thesis by simp
qed

subsection \<open>Rate changes\<close>

lemma payRate_create_row: "payRate_create row rates = Inr (row', rates') \<Longrightarrow> row' = row"
  unfolding payRate_create_def by (cases "\<exists>r\<in>set rates. rt_id r = rt_id row \<or>
          (rt_user_id r = rt_user_id row \<and> rt_effective_from r = rt_effective_from row)") simp_all

lemma setEffectivePayRate_to:
  assumes "setEffectivePayRate input orgId rates = Inr (row, rates')"
  shows "case rt_effective_to row of None \<Rightarrow> True | Some e \<Rightarrow> ri_effectiveFrom input \<le> e"
proof -
  let ?u = "ri_userId input" and ?e = "ri_effectiveFrom input"
  let ?T = "next_end (\<lambda>_. orgId) ?u ?e rates"
  let ?same = "find_first (\<lambda>r. rt_user_id r = ?u \<and> rt_effective_from r = ?e) rates"
  let ?prev = "find_desc rt_effective_from (\<lambda>r. rt_org_id r = orgId \<and> rt_user_id r = ?u \<and>
     rt_effective_from r < ?e \<and> (case rt_effective_to r of None \<Rightarrow> True | Some e \<Rightarrow> ?e \<le> e)) rates"
  note step = assms[unfolded setEffectivePayRate_def Let_def next_end_def[symmetric, of "\<lambda>_. orgId"]]
  have "rt_effective_to row = ?T"
  proof (cases ?same)
    case (Some s)
    then show ?thesis using step by auto
  next
    case None
    show ?thesis
    proof (cases ?prev)
      case None
      show ?thesis using step payRate_create_row unfolding \<open>?same = None\<close> None option.case by fastforce
    next
      case (Some q)
      show ?thesis using step payRate_create_row
        unfolding \<open>?same = None\<close> Some option.case by (fastforce split: if_splits)
    qed
  qed
  then show ?thesis using next_end_valid[of ?e "\<lambda>_. orgId"] by simp
qed

lemma stale_blocks:
  assumes "r \<in> set (db_records db)" "pr_org_id r = orgId" "pr_period_month r = m" "pr_period_year r = y"
    and "pr_status r = ''draft''" "pr_inputs_stale r"
  shows "process_candidates actor orgId m y db \<in>
    {Inl (AppError 400 []), Inl (AppError 409 ''PAYROLL_INPUTS_STALE'')}"
proof -
  have "r \<in> set (period_records orgId m y db)" using assms by (simp add: period_records_def)
  then have "count_where (\<lambda>r. pr_status r = ''draft'' \<and> pr_inputs_stale r) (period_records orgId m y db) \<noteq> 0"
    using assms(5,6) unfolding count_where_zero by blast
  then show ?thesis by (simp add: process_candidates_def Let_def)
qed

text \<open>When a pay rate is set for an employee, the payroll of the
  month in which it takes effect cannot be processed while the employee's draft of that month has
  not been regenerated.\<close>

theorem rate_change_blocks_processing:
  assumes "put_rate tz srv now cfg actor orgId userId body db = Inr db'"
    and "parse_iso_date (rq_effective_from body) = Some d" "0 \<le> srv" "srv \<le> 86399999"
    and "r \<in> set (db_records db)" "pr_user_id r = userId" "pr_org_id r = orgId" "pr_status r = ''draft''"
    and "pr_period_month r = monthOf d" "pr_period_year r = yearOf d"
  shows "process_full per cfg' pdf actor' orgId (monthOf d) (yearOf d) now' db' \<noteq> Inr out"
proof -
  obtain org c where day: "dayOf d = 1" and commit: "commit_rate tz srv now orgId org
      \<lparr>ri_newId = rq_newId body, ri_userId = userId, ri_amount = dec2 (rq_amount body), ri_basis = rq_basis body,
       ri_currency = c, ri_effectiveFrom = d, ri_actorId = actor\<rparr> db = Inr db'"
    using put_rate_commits[OF assms(1)] assms(2) by auto
  obtain rate rates' input where rate: "setEffectivePayRate input orgId (db_rates db) = Inr (rate, rates')"
      "ri_effectiveFrom input = d"
    and recs: "db_records db' = mark_stale (\<lambda>r. pr_org_id r = orgId \<and> pr_user_id r = userId \<and>
        startOfMonth srv (pr_period_year r) (pr_period_month r) \<le>
          coalesce (rt_effective_to rate) (civil_day 9999 12 31) * day_ms \<and>
        endOfMonth srv (pr_period_year r) (pr_period_month r) \<ge> d * day_ms) (db_records db)"
    using commit_rate_effect[OF commit] by auto
  have "d \<le> coalesce (rt_effective_to rate) (civil_day 9999 12 31)"
    using setEffectivePayRate_to[OF rate(1)] rate(2) before_year_10000[OF parse_iso_date_year[OF assms(2)]]
    by (cases "rt_effective_to rate") auto
  then have s: "startOfMonth srv (yearOf d) (monthOf d) \<le> coalesce (rt_effective_to rate) (civil_day 9999 12 31) * day_ms"
    using assms(3) first_of_month(1)[OF day] by (simp add: startOfMonth_def day_ms_def)
  have "endOfMonth srv (yearOf d) (monthOf d) \<ge> d * day_ms"
    using assms(4) first_of_month(2)[OF day] by (simp add: endOfMonth_def day_ms_def)
  with s assms(5-) have "r\<lparr>pr_inputs_stale := True\<rparr> \<in> set (db_records db')"
    unfolding recs mark_stale_def set_update_where by (intro UnI1 image_eqI[of _ _ r]) simp_all
  from stale_blocks[OF this, of orgId "monthOf d" "yearOf d" actor'] assms(7-10)
  show ?thesis by (auto simp: process_full_def)
qed

definition ex_rate :: rate_request where
  "ex_rate = \<lparr>rq_newId = ''r1'', rq_amount = 30, rq_basis = Hourly, rq_currency = None, rq_effective_from = ''2025-03-01''\<rparr>"

definition ex_tz :: tzdb where
  "ex_tz = \<lparr>toZonedTime = (\<lambda>t z. t), fromZonedTime = (\<lambda>w z. w)\<rparr>"

definition ex_rated :: payroll_db where
  "ex_rated = (case put_rate ex_tz 0 1743000000000 Granted ''hr'' ''o'' ''u'' ex_rate ex_db1 of Inl _ \<Rightarrow> ex_db1 | Inr d \<Rightarrow> d)"

theorem rate_change_blocks_processing_witness:
  "process_full Granted Granted ex_pdf ''checker'' ''o'' 3 2025 5 ex_rated \<noteq> Inr ([], ex_rated)"
proof -
  have "\<not> Option.is_none (case put_rate ex_tz 0 1743000000000 Granted ''hr'' ''o'' ''u'' ex_rate ex_db1 of Inl _ \<Rightarrow> None | Inr d \<Rightarrow> Some d)"
    by code_simp
  then have p: "put_rate ex_tz 0 1743000000000 Granted ''hr'' ''o'' ''u'' ex_rate ex_db1 = Inr ex_rated"
    by (auto simp: ex_rated_def split: sum.splits)
  have d: "parse_iso_date (rq_effective_from ex_rate) = Some 20148" "monthOf 20148 = 3" "yearOf 20148 = 2025"
    by code_simp+
  have "map (\<lambda>r. (pr_user_id r, pr_org_id r, pr_status r, pr_period_month r, pr_period_year r)) (db_records ex_db1) =
      [(''u'', ''o'', ''draft'', 3, 2025)]" by code_simp
  then obtain r where "r \<in> set (db_records ex_db1)" "pr_user_id r = ''u''" "pr_org_id r = ''o''" "pr_status r = ''draft''"
      "pr_period_month r = 3" "pr_period_year r = 2025"
    by (auto simp: map_eq_Cons_conv)
  then show ?thesis using rate_change_blocks_processing[OF p d(1), of r] by (simp add: d)
qed

subsection \<open>The month in which a rate ends\<close>

text \<open>A rate that ends on the last day of a month is in force on that
  day, yet the generation of that month's payroll does not find it: no rate is used, and the
  employee is paid the fallback hourly rate.  (The end of the range is midnight of the last day,
  the bound it is compared with is the last millisecond of that day.)\<close>

theorem closing_month_rate_ignored:
  assumes "timeline home rates" "0 \<le> srv" "srv < 86399999"
    and "r \<in> set rates" "rt_user_id r = u" "rt_effective_to r = Some (utc_day y m 0)"
  shows "rate_in_force (home u) u (utc_day y m 0) r \<and> generate_rate srv (home u) y m u rates = None"
proof -
  have r: "rate_in_force (home u) u (utc_day y m 0) r"
    using assms by (auto simp: rate_in_force_def covers_day_def timeline_def)
  have "generate_rate srv (home u) y m u rates \<noteq> Some q" for q
  proof
    assume "generate_rate srv (home u) y m u rates = Some q"
    note q = find_desc_Some(1,2)[OF this[unfolded generate_rate_def Let_def]]
    have "rt_effective_from q \<le> utc_day y m 0"
      using q(2) assms(2) by (auto simp: endOfMonth_def day_ms_def)
    moreover have "utc_day y m 0 < e" if "rt_effective_to q = Some e" for e
      using q(2) that assms(3) by (auto simp: endOfMonth_def day_ms_def)
    ultimately have "rate_in_force (home u) u (utc_day y m 0) q" "q \<noteq> r"
      using q(2) assms(6) by (auto simp: rate_in_force_def covers_day_def less_imp_le split: option.splits)
    then show False using timeline_covers_unique[OF assms(1) _ r q(1) assms(4)] by blast
  qed
  with r show ?thesis by auto
qed

theorem closing_month_rate_ignored_witness:
  "map (\<lambda>r. (rt_id r, rt_effective_to r)) rates_example = [(''r3'', Some 20147), (''r2'', None), (''r1'', Some 20119)] \<and>
   generate_rate 0 ''o'' 2025 2 ''u'' rates_example = None"
proof -
  have e: "map (\<lambda>r. (rt_id r, rt_effective_to r)) rates_example = [(''r3'', Some 20147), (''r2'', None), (''r1'', Some 20119)]"
    by code_simp
  have t: "timeline (\<lambda>_. ''o'') rates_example" by code_simp
  have u: "\<forall>r\<in>set rates_example. rt_user_id r = ''u''" by code_simp
  obtain r rest where rr: "rates_example = r # rest" using e by (cases rates_example) auto
  then have "r \<in> set rates_example" "rt_effective_to r = Some 20147" using e unfolding rr by simp_all
  moreover have "utc_day 2025 2 0 = 20147" by code_simp
  ultimately have "generate_rate 0 ''o'' 2025 2 ''u'' rates_example = None"
    using closing_month_rate_ignored[OF t, of 0 r "''u''" 2025 2] u by auto
  with e show ?thesis by blast
qed

subsection \<open>Generation keeps manual adjustments\<close>

lemma upsert_keeps_manual:
  assumes "upsert_record (generated_fields a b c d h i j st) (blank_record k u g m y) rs = Inr rs'" "r \<in> set rs"
  shows "\<exists>r'\<in>set rs'. pr_id r' = pr_id r \<and> pr_manual_adjustment r' = pr_manual_adjustment r \<and>
    (pr_status r = ''processed'' \<longrightarrow> pr_status r' = ''processed'')"
proof -
  have "rs' = update_where (record_key u m y) (generated_fields a b c d h i j st) rs \<or>
      rs' = generated_fields a b c d h i j st (blank_record k u g m y) # rs"
    using assms(1) by (auto simp: upsert_record_def split: if_splits)
  then show ?thesis
  proof
    assume "rs' = update_where (record_key u m y) (generated_fields a b c d h i j st) rs"
    with update_where_row[OF assms(2), of "record_key u m y" "generated_fields a b c d h i j st"]
    have "(if record_key u m y r then generated_fields a b c d h i j st r else r) \<in> set rs'" by blast
    then show ?thesis by (rule rev_bexI) simp
  qed (use assms(2) in auto)
qed

lemma generate_loop_keeps_manual:
  "r \<in> set (db_records db) \<Longrightarrow>
   \<exists>r'\<in>set (db_records (snd (generate_loop e org processed manual users db))).
     pr_id r' = pr_id r \<and> pr_manual_adjustment r' = pr_manual_adjustment r"
proof (induction users arbitrary: db r)
  case (Cons u us)
  show ?case
  proof (cases "us_id u \<in> set processed")
    case True
    then show ?thesis using Cons by simp
  next
    case False
    show ?thesis
    proof (cases "generate_user e org (manual (us_id u)) u db")
      case (Inl err)
      then show ?thesis using False Cons.prems by auto
    next
      case (Inr db1)
      obtain r1 where "r1 \<in> set (db_records db1)" "pr_id r1 = pr_id r" "pr_manual_adjustment r1 = pr_manual_adjustment r"
        using generate_user_effect[OF Inr] upsert_keeps_manual Cons.prems by meson
      then show ?thesis using Cons.IH[of r1 db1] Inr False by simp
    qed
  qed
qed auto

text \<open>Regenerating a payroll period, whether or not it fails half way,
  loses no record and changes no manual adjustment, so reimbursements already applied survive.\<close>

theorem generate_keeps_adjustments:
  assumes "r \<in> set (db_records db)"
  shows "\<exists>r'\<in>set (db_records (snd (generate per cfg e db))).
    pr_id r' = pr_id r \<and> pr_manual_adjustment r' = pr_manual_adjustment r"
proof -
  have "\<exists>r'\<in>set (db_records db). pr_id r' = pr_id r \<and> pr_manual_adjustment r' = pr_manual_adjustment r"
    using assms by blast
  then show ?thesis
    unfolding generate_def Let_def using generate_loop_keeps_manual[OF assms] by (auto split: sum.splits)
qed

definition ex_adjusted :: payroll_db where
  "ex_adjusted = (case adjust Granted Granted ''o'' ''p-u'' Adjustments 75 ''bonus for March'' ex_db1 of Inl _ \<Rightarrow> ex_db1 | Inr d \<Rightarrow> d)"

theorem generate_keeps_adjustments_witness:
  "\<exists>r'\<in>set (db_records (snd (generate Granted Granted ex_env ex_adjusted))). pr_manual_adjustment r' = 75"
proof -
  have "map pr_manual_adjustment (db_records ex_adjusted) = [75]" by code_simp
  then obtain r where "r \<in> set (db_records ex_adjusted)" "pr_manual_adjustment r = 75" by (auto simp: map_eq_Cons_conv)
  then show ?thesis using generate_keeps_adjustments[of r ex_adjusted Granted Granted ex_env] by auto
qed

subsection \<open>Reimbursement\<close>

text \<open>A claim can be reimbursed while a row of its id is approved.\<close>

definition reimbursable :: "id \<Rightarrow> payroll_db \<Rightarrow> bool" where
  "reimbursable claimId db \<longleftrightarrow> (\<exists>c\<in>set (db_claims db). ec_id c = claimId \<and> ec_status c = ''approved'')"

lemma reimburse_consumes:
  assumes "reimburse orgId claimId m y db = Inr db'"
  shows "reimbursable claimId db \<and> \<not> reimbursable claimId db'"
proof -
  obtain p where p: "plan_reimbursement orgId claimId m y db = Inr p" "db' = commit_reimbursement p db"
    using assms by (auto simp: reimburse_def)
  from plan_reads[OF p(1)] obtain claim where
    cl: "find_first (\<lambda>c. ec_id c = claimId \<and> ec_org_id c = orgId) (db_claims db) = Some claim"
    and st: "ec_status claim = ''approved''" "rb_claim_id p = ec_id claim" by blast
  have c: "claim \<in> set (db_claims db)" "ec_id claim = claimId" "ec_status claim = ''approved''" "rb_claim_id p = claimId"
    using find_first_Some[OF cl] st by simp_all
  then have "reimbursable claimId db" by (auto simp: reimbursable_def)
  moreover have "\<not> reimbursable claimId db'"
    unfolding p(2) commit_reimbursement_def reimbursable_def using c(4) by (auto simp: set_update_where)
  ultimately show ?thesis ..
qed

interpretation claim_pay: single_shot "\<lambda>(orgId, m, y) db. reimburse orgId claimId m y db" "reimbursable claimId" for claimId
  by unfold_locales (auto dest: reimburse_consumes)


definition ex_claim :: "id \<Rightarrow> rat \<Rightarrow> expense_claim" where
  "ex_claim i a = \<lparr>ec_id = i, ec_user_id = ''u'', ec_org_id = ''o'', ec_amount = a, ec_currency = ''PKR'',
     ec_category = ''travel'', ec_expense_date = 20150, ec_status = ''approved'', ec_reviewed_by = Some ''mgr'',
     ec_review_note = None, ec_reimbursed_in_payroll_id = None\<rparr>"

definition ex_claims :: payroll_db where
  "ex_claims = ex_db1\<lparr>db_claims := [ex_claim ''c1'' 40, ex_claim ''c2'' 60]\<rparr>"


text \<open>There is a run in which two reimbursements read before either writes: both claims end up \<open>reimbursed\<close>, but the
  payroll record is raised by one of the two amounts only.\<close>

theorem reimburse_lost_update:
  "\<exists>p1 p2. plan_reimbursement ''o'' ''c1'' 3 2025 ex_claims = Inr p1 \<and>
     plan_reimbursement ''o'' ''c2'' 3 2025 ex_claims = Inr p2 \<and>
     map ec_status (db_claims (commit_reimbursement p2 (commit_reimbursement p1 ex_claims))) = [''reimbursed'', ''reimbursed''] \<and>
     map pr_manual_adjustment (db_records (commit_reimbursement p2 (commit_reimbursement p1 ex_claims))) = [60]"
proof -
  have "case (plan_reimbursement ''o'' ''c1'' 3 2025 ex_claims, plan_reimbursement ''o'' ''c2'' 3 2025 ex_claims) of
      (Inr p1, Inr p2) \<Rightarrow>
        map ec_status (db_claims (commit_reimbursement p2 (commit_reimbursement p1 ex_claims))) = [''reimbursed'', ''reimbursed''] \<and>
        map pr_manual_adjustment (db_records (commit_reimbursement p2 (commit_reimbursement p1 ex_claims))) = [60]
    | _ \<Rightarrow> False"
    by code_simp
  then show ?thesis by (auto split: sum.splits)
qed

end
