(* ===== verification/Sessions.thy ===== *)
theory Sessions
  imports Prelude
begin

text \<open>
  Rotating refresh tokens with reuse detection: \<^verbatim>\<open>src/src/services/refreshTokens.ts\<close>.

  The state holds the rows of \<open>refresh_tokens\<close> and \<open>user_sessions\<close> and the Redis keys
  \<open>sid:<family>\<close> with the instant at which they expire.  The JWT library is the parameter
  \<open>jwt_codec\<close>; \<open>verify\<close> yields \<open>None\<close> when \<open>jwt.verify\<close> throws.  Fresh UUIDs and the clock are
  arguments.  \<open>rotateRefreshToken\<close> is not a transaction, so it is given in the three parts between
  which other requests can run (check, issue, consume); their composition is the sequential
  function, and \<open>session_step\<close> interleaves them with everything else.
\<close>

record token_row =
  tk_id :: id
  tk_user_id :: id
  tk_family_id :: id
  tk_expires_at :: instant
  tk_revoked_at :: "instant option"
  tk_replaced_by :: "id option"

record session_row =
  se_id :: id
  se_user_id :: id
  se_device_name :: "string option"
  se_user_agent :: "string option"
  se_ip_address :: "string option"
  se_last_seen_at :: instant
  se_expires_at :: instant
  se_revoked_at :: "instant option"

record session_metadata =
  md_device_name :: "string option"
  md_user_agent :: "string option"
  md_ip_address :: "string option"

record auth_state =
  st_tokens :: "token_row list"
  st_sessions :: "session_row list"
  st_denied :: "(id \<times> instant) list"

record claims =
  cl_sub :: id
  cl_jti :: "id option"
  cl_fam :: "id option"

record jwt_codec =
  verify :: "instant \<Rightarrow> string \<Rightarrow> claims option"
  sign :: "instant \<Rightarrow> claims \<Rightarrow> string"

definition REFRESH_TTL_MS :: int where
  "REFRESH_TTL_MS = 30 * 24 * 60 * 60 * 1000"

definition no_metadata :: session_metadata where
  "no_metadata = \<lparr>md_device_name = None, md_user_agent = None, md_ip_address = None\<rparr>"

definition apply_metadata :: "session_metadata \<Rightarrow> session_row \<Rightarrow> session_row" where
  "apply_metadata md s =
     s\<lparr>se_device_name := coalesce_opt (md_device_name md) (se_device_name s),
       se_user_agent := coalesce_opt (md_user_agent md) (se_user_agent s),
       se_ip_address := coalesce_opt (md_ip_address md) (se_ip_address s)\<rparr>"

subsection \<open>Issuing\<close>

definition touch_session :: "instant \<Rightarrow> id \<Rightarrow> id \<Rightarrow> session_metadata \<Rightarrow> session_row list \<Rightarrow> session_row list" where
  "touch_session now userId family md sessions =
     (if \<exists>s\<in>set sessions. se_id s = family
      then update_where (\<lambda>s. se_id s = family \<and> se_user_id s = userId \<and> se_revoked_at s = None \<and>
               se_last_seen_at s < now - 5 * 60000) (\<lambda>s. s\<lparr>se_last_seen_at := now\<rparr>)
             (update_where (\<lambda>s. se_id s = family \<and> se_user_id s = userId \<and> se_revoked_at s = None)
               (\<lambda>s. (apply_metadata md s)\<lparr>se_expires_at := now + REFRESH_TTL_MS\<rparr>) sessions)
      else \<lparr>se_id = family, se_user_id = userId, se_device_name = md_device_name md,
            se_user_agent = md_user_agent md, se_ip_address = md_ip_address md,
            se_last_seen_at = now, se_expires_at = now + REFRESH_TTL_MS, se_revoked_at = None\<rparr> # sessions)"

definition issueRefreshToken ::
    "instant \<Rightarrow> id \<Rightarrow> id \<Rightarrow> id \<Rightarrow> session_metadata \<Rightarrow> auth_state \<Rightarrow> auth_state result" where
  "issueRefreshToken now jti userId family md st =
     (let st1 = st\<lparr>st_sessions := touch_session now userId family md (st_sessions st)\<rparr>
      in if \<exists>t\<in>set (st_tokens st). tk_id t = jti then Inl PlainError
         else Inr (st1\<lparr>st_tokens :=
           \<lparr>tk_id = jti, tk_user_id = userId, tk_family_id = family, tk_expires_at = now + REFRESH_TTL_MS,
            tk_revoked_at = None, tk_replaced_by = None\<rparr> # st_tokens st1\<rparr>))"

subsection \<open>Revocation\<close>

definition revoke_tokens :: "instant \<Rightarrow> (token_row \<Rightarrow> bool) \<Rightarrow> token_row list \<Rightarrow> token_row list" where
  "revoke_tokens now p = update_where (\<lambda>t. p t \<and> tk_revoked_at t = None) (\<lambda>t. t\<lparr>tk_revoked_at := Some now\<rparr>)"

definition revoke_sessions :: "instant \<Rightarrow> (session_row \<Rightarrow> bool) \<Rightarrow> session_row list \<Rightarrow> session_row list" where
  "revoke_sessions now p = update_where (\<lambda>s. p s \<and> se_revoked_at s = None) (\<lambda>s. s\<lparr>se_revoked_at := Some now\<rparr>)"

text \<open>\<open>setex\<close> with a life of \<open>Math.max(1, Math.ceil(ms / 1000))\<close> seconds.\<close>

definition deny_until :: "instant \<Rightarrow> instant \<Rightarrow> instant" where
  "deny_until now expires = now + 1000 * max 1 (- ((now - expires) div 1000))"

definition revokeFamily :: "instant \<Rightarrow> id \<Rightarrow> auth_state \<Rightarrow> auth_state" where
  "revokeFamily now familyId st =
     (let st1 = st\<lparr>st_tokens := revoke_tokens now (\<lambda>t. tk_family_id t = familyId) (st_tokens st),
                   st_sessions := revoke_sessions now (\<lambda>s. se_id s = familyId) (st_sessions st)\<rparr>
      in case find_first (\<lambda>s. se_id s = familyId) (st_sessions st) of
           None \<Rightarrow> st1
         | Some session \<Rightarrow> st1\<lparr>st_denied := (familyId, deny_until now (se_expires_at session)) # st_denied st\<rparr>)"

definition revokeAllForUser :: "instant \<Rightarrow> id \<Rightarrow> auth_state \<Rightarrow> auth_state" where
  "revokeAllForUser now userId st =
     (let sessions = filter (\<lambda>s. se_user_id s = userId \<and> se_revoked_at s = None) (st_sessions st)
      in st\<lparr>st_sessions := revoke_sessions now (\<lambda>s. se_user_id s = userId) (st_sessions st),
            st_tokens := revoke_tokens now (\<lambda>t. tk_user_id t = userId) (st_tokens st),
            st_denied := map (\<lambda>s. (se_id s, now + 1000 * (30 * 24 * 60 * 60))) sessions @ st_denied st\<rparr>)"

definition revokeOtherSessionsForUser :: "instant \<Rightarrow> id \<Rightarrow> id option \<Rightarrow> auth_state \<Rightarrow> auth_state" where
  "revokeOtherSessionsForUser now userId keep st =
     (let sessions = filter (\<lambda>s. se_user_id s = userId \<and> se_revoked_at s = None \<and> keep \<noteq> Some (se_id s)) (st_sessions st);
          ids = map se_id sessions
      in if sessions = [] then st
         else st\<lparr>st_sessions := revoke_sessions now (\<lambda>s. se_id s \<in> set ids \<and> se_user_id s = userId) (st_sessions st),
                 st_tokens := revoke_tokens now (\<lambda>t. tk_family_id t \<in> set ids) (st_tokens st),
                 st_denied := map (\<lambda>s. (se_id s, now + 1000 * (30 * 24 * 60 * 60))) sessions @ st_denied st\<rparr>)"

definition revokeSession :: "instant \<Rightarrow> id \<Rightarrow> id \<Rightarrow> auth_state \<Rightarrow> bool \<times> auth_state" where
  "revokeSession now userId familyId st =
     (case find_first (\<lambda>s. se_id s = familyId \<and> se_user_id s = userId \<and> se_revoked_at s = None) (st_sessions st) of
        None \<Rightarrow> (False, st)
      | Some session \<Rightarrow>
          (True, st\<lparr>st_sessions := revoke_sessions now (\<lambda>s. se_id s = familyId \<and> se_user_id s = userId) (st_sessions st),
                    st_tokens := revoke_tokens now (\<lambda>t. tk_family_id t = familyId) (st_tokens st),
                    st_denied := (familyId, deny_until now (se_expires_at session)) # st_denied st\<rparr>))"

definition listActiveSessions :: "instant \<Rightarrow> id \<Rightarrow> auth_state \<Rightarrow> session_row list" where
  "listActiveSessions now userId st =
     sort_key (\<lambda>s. - se_last_seen_at s)
       (filter (\<lambda>s. se_user_id s = userId \<and> se_revoked_at s = None \<and> now < se_expires_at s) (st_sessions st))"

definition purgeRefreshTokens :: "instant \<Rightarrow> auth_state \<Rightarrow> auth_state" where
  "purgeRefreshTokens now st =
     (let cutoff = now - 30 * 24 * 60 * 60 * 1000;
          before = (\<lambda>r. case r of None \<Rightarrow> False | Some t \<Rightarrow> t < cutoff)
      in st\<lparr>st_tokens := filter (\<lambda>t. \<not> (tk_expires_at t < now \<or> before (tk_revoked_at t))) (st_tokens st),
            st_sessions := filter (\<lambda>s. \<not> (se_expires_at s < cutoff \<or> before (se_revoked_at s))) (st_sessions st)\<rparr>)"

subsection \<open>Rotation\<close>

datatype rotation = LegacyToken id | Rotate token_row

definition is_denied :: "instant \<Rightarrow> id \<Rightarrow> auth_state \<Rightarrow> bool" where
  "is_denied now family st \<longleftrightarrow> (\<exists>d\<in>set (st_denied st). fst d = family \<and> now < snd d)"

definition rotate_check :: "jwt_codec \<Rightarrow> instant \<Rightarrow> string \<Rightarrow> auth_state \<Rightarrow> rotation result \<times> auth_state" where
  "rotate_check jwt now token st =
     (case verify jwt now token of
        None \<Rightarrow> (Inl UnauthorizedError, st)
      | Some payload \<Rightarrow>
          (case Option.bind (cl_jti payload) (\<lambda>j. find_first (\<lambda>t. tk_id t = j) (st_tokens st)) of
             None \<Rightarrow> (Inr (LegacyToken (cl_sub payload)), st)
           | Some row \<Rightarrow>
               if (\<exists>s\<in>set (st_sessions st). se_id s = tk_family_id row \<and> se_revoked_at s \<noteq> None) \<or>
                  is_denied now (tk_family_id row) st
               then (Inl UnauthorizedError, st)
               else if tk_revoked_at row \<noteq> None \<or> tk_replaced_by row \<noteq> None
               then (Inl UnauthorizedError, revokeFamily now (tk_family_id row) st)
               else if tk_expires_at row < now then (Inl UnauthorizedError, st)
               else (Inr (Rotate row), st)))"

definition unconsumed :: "id \<Rightarrow> token_row \<Rightarrow> bool" where
  "unconsumed rid t \<longleftrightarrow> tk_id t = rid \<and> tk_revoked_at t = None \<and> tk_replaced_by t = None"

definition consume :: "instant \<Rightarrow> token_row \<Rightarrow> id \<Rightarrow> auth_state \<Rightarrow> unit result \<times> auth_state" where
  "consume now row successor st =
     (if count_where (unconsumed (tk_id row)) (st_tokens st) = 0
      then (Inl UnauthorizedError, revokeFamily now (tk_family_id row) st)
      else (Inr (), st\<lparr>st_tokens := update_where (unconsumed (tk_id row))
              (\<lambda>t. t\<lparr>tk_replaced_by := Some successor\<rparr>) (st_tokens st)\<rparr>))"

definition rotateRefreshToken ::
    "jwt_codec \<Rightarrow> instant \<Rightarrow> id \<Rightarrow> id \<Rightarrow> string \<Rightarrow> auth_state \<Rightarrow> (id \<times> string \<times> id) result \<times> auth_state" where
  "rotateRefreshToken jwt now jti fam token st =
     (case rotate_check jwt now token st of
        (Inl e, st1) \<Rightarrow> (Inl e, st1)
      | (Inr (LegacyToken userId), st1) \<Rightarrow>
          (case issueRefreshToken now jti userId fam no_metadata st1 of
             Inl e \<Rightarrow> (Inl e, st1)
           | Inr st2 \<Rightarrow> (Inr (userId, sign jwt now \<lparr>cl_sub = userId, cl_jti = Some jti, cl_fam = Some fam\<rparr>, fam), st2))
      | (Inr (Rotate row), st1) \<Rightarrow>
          (case issueRefreshToken now jti (tk_user_id row) (tk_family_id row) no_metadata st1 of
             Inl e \<Rightarrow> (Inl e, st1)
           | Inr st2 \<Rightarrow>
               (case consume now row jti st2 of
                  (Inl e, st3) \<Rightarrow> (Inl e, st3)
                | (Inr _, st3) \<Rightarrow>
                    (Inr (tk_user_id row,
                       sign jwt now \<lparr>cl_sub = tk_user_id row, cl_jti = Some jti, cl_fam = Some (tk_family_id row)\<rparr>,
                       tk_family_id row), st3))))"

subsection \<open>Interleaved execution\<close>

text \<open>\<open>sy_checked\<close> and \<open>sy_issued\<close> are the rotations in flight: past the check, and past the issue of
  the successor.  \<open>sy_used\<close> are the token ids handed out so far; \<open>uuidv4\<close> never repeats one.  The
  label of a step is the id of the token row that it rotates successfully.\<close>

record sys =
  sy_st :: auth_state
  sy_checked :: "token_row list"
  sy_issued :: "(token_row \<times> id) list"
  sy_used :: "id list"

inductive session_step :: "sys \<Rightarrow> id option \<Rightarrow> sys \<Rightarrow> bool" where
  login: "jti \<notin> set (sy_used s) \<Longrightarrow> issueRefreshToken now jti u fam md (sy_st s) = Inr st \<Longrightarrow>
    session_step s None (s\<lparr>sy_st := st, sy_used := jti # sy_used s\<rparr>)"
| check: "rotate_check jwt now token (sy_st s) = (Inr (Rotate row), st) \<Longrightarrow>
    session_step s None (s\<lparr>sy_st := st, sy_checked := row # sy_checked s\<rparr>)"
| refuse: "rotate_check jwt now token (sy_st s) = (Inl e, st) \<Longrightarrow> session_step s None (s\<lparr>sy_st := st\<rparr>)"
| issue: "row \<in> set (sy_checked s) \<Longrightarrow> jti \<notin> set (sy_used s) \<Longrightarrow>
    issueRefreshToken now jti (tk_user_id row) (tk_family_id row) no_metadata (sy_st s) = Inr st \<Longrightarrow>
    session_step s None (s\<lparr>sy_st := st, sy_issued := (row, jti) # sy_issued s, sy_used := jti # sy_used s\<rparr>)"
| win: "(row, jti) \<in> set (sy_issued s) \<Longrightarrow> consume now row jti (sy_st s) = (Inr u, st) \<Longrightarrow>
    session_step s (Some (tk_id row)) (s\<lparr>sy_st := st\<rparr>)"
| lose: "(row, jti) \<in> set (sy_issued s) \<Longrightarrow> consume now row jti (sy_st s) = (Inl e, st) \<Longrightarrow>
    session_step s None (s\<lparr>sy_st := st\<rparr>)"
| logout: "revokeSession now u fam (sy_st s) = (b, st) \<Longrightarrow> session_step s None (s\<lparr>sy_st := st\<rparr>)"
| logout_all: "session_step s None (s\<lparr>sy_st := revokeAllForUser now u (sy_st s)\<rparr>)"
| logout_others: "session_step s None (s\<lparr>sy_st := revokeOtherSessionsForUser now u keep (sy_st s)\<rparr>)"
| revoke: "session_step s None (s\<lparr>sy_st := revokeFamily now fam (sy_st s)\<rparr>)"
| purge: "session_step s None (s\<lparr>sy_st := purgeRefreshTokens now (sy_st s)\<rparr>)"

inductive session_run :: "sys \<Rightarrow> id list \<Rightarrow> sys \<Rightarrow> bool" where
  start: "session_run s [] s"
| quiet: "session_run s rs t \<Longrightarrow> session_step t None u \<Longrightarrow> session_run s rs u"
| rotated: "session_run s rs t \<Longrightarrow> session_step t (Some r) u \<Longrightarrow> session_run s (r # rs) u"

subsection \<open>Lemmas\<close>

text \<open>Every operation keeps the identity of the rows and never clears \<open>replaced_by\<close>.\<close>

definition keeps_rows :: "token_row list \<Rightarrow> token_row list \<Rightarrow> bool" where
  "keeps_rows ts ts' \<longleftrightarrow>
     (\<forall>t'\<in>set ts'. \<exists>t\<in>set ts. tk_id t' = tk_id t \<and> tk_family_id t' = tk_family_id t \<and>
        (tk_replaced_by t \<noteq> None \<longrightarrow> tk_replaced_by t' \<noteq> None) \<and> (tk_revoked_at t \<noteq> None \<longrightarrow> tk_revoked_at t' \<noteq> None))"

lemma keeps_rows_refl: "keeps_rows ts ts"
  by (auto simp: keeps_rows_def)

lemma keeps_rows_update:
  assumes "\<And>t. tk_id (f t) = tk_id t \<and> tk_family_id (f t) = tk_family_id t \<and>
      (tk_replaced_by t \<noteq> None \<longrightarrow> tk_replaced_by (f t) \<noteq> None) \<and> (tk_revoked_at t \<noteq> None \<longrightarrow> tk_revoked_at (f t) \<noteq> None)"
  shows "keeps_rows ts (update_where p f ts)"
  unfolding keeps_rows_def set_update_where using assms by blast

lemma revoke_tokens_keeps: "keeps_rows ts (revoke_tokens now p ts)"
  unfolding revoke_tokens_def by (rule keeps_rows_update) simp

lemma revokeFamily_tokens:
  "st_tokens (revokeFamily now f st) = revoke_tokens now (\<lambda>t. tk_family_id t = f) (st_tokens st)"
  by (simp add: revokeFamily_def Let_def split: option.split)

lemma revokeFamily_keeps: "keeps_rows (st_tokens st) (st_tokens (revokeFamily now f st))"
  unfolding revokeFamily_tokens by (rule revoke_tokens_keeps)

lemma revokeAll_keeps: "keeps_rows (st_tokens st) (st_tokens (revokeAllForUser now u st))"
  by (simp add: revokeAllForUser_def Let_def revoke_tokens_keeps)

lemma revokeOthers_keeps: "keeps_rows (st_tokens st) (st_tokens (revokeOtherSessionsForUser now u k st))"
  by (simp add: revokeOtherSessionsForUser_def Let_def revoke_tokens_keeps keeps_rows_refl)

lemma revokeSession_keeps: "revokeSession now u f st = (b, st') \<Longrightarrow> keeps_rows (st_tokens st) (st_tokens st')"
  by (auto simp: revokeSession_def revoke_tokens_keeps keeps_rows_refl split: option.splits)

lemma purge_keeps: "keeps_rows (st_tokens st) (st_tokens (purgeRefreshTokens now st))"
  by (auto simp: purgeRefreshTokens_def keeps_rows_def Let_def)

lemma rotate_check_keeps: "rotate_check jwt now token st = (r, st') \<Longrightarrow> keeps_rows (st_tokens st) (st_tokens st')"
  by (auto simp: rotate_check_def keeps_rows_refl revokeFamily_keeps split: option.splits if_splits)

lemma issue_tokens:
  "issueRefreshToken now jti u f md st = Inr st' \<Longrightarrow>
     \<exists>t. st_tokens st' = t # st_tokens st \<and> tk_id t = jti \<and> tk_family_id t = f"
  by (auto simp: issueRefreshToken_def Let_def split: if_splits)

lemma consume_tokens:
  assumes "consume now row jti st = (r, st')"
  shows "keeps_rows (st_tokens st) (st_tokens st')"
  using assms
  by (auto simp: consume_def revokeFamily_keeps keeps_rows_update split: if_splits)

lemma consume_wins:
  assumes "consume now row jti st = (Inr u, st')"
  shows "(\<exists>t\<in>set (st_tokens st). tk_id t = tk_id row \<and> tk_replaced_by t = None \<and> tk_revoked_at t = None) \<and>
    (\<forall>t\<in>set (st_tokens st'). tk_id t = tk_id row \<longrightarrow> tk_replaced_by t \<noteq> None \<or> tk_revoked_at t \<noteq> None)"
proof -
  have "count_where (unconsumed (tk_id row)) (st_tokens st) \<noteq> 0"
    and st': "st' = st\<lparr>st_tokens := update_where (unconsumed (tk_id row)) (\<lambda>t. t\<lparr>tk_replaced_by := Some jti\<rparr>) (st_tokens st)\<rparr>"
    using assms by (auto simp: consume_def split: if_splits)
  then have "\<exists>t\<in>set (st_tokens st). unconsumed (tk_id row) t" unfolding count_where_zero by blast
  then show ?thesis by (auto simp: st' set_update_where unconsumed_def)
qed

subsection \<open>A token rotates at most once\<close>

definition spent :: "token_row list \<Rightarrow> id \<Rightarrow> bool" where
  "spent ts r \<longleftrightarrow> (\<forall>t\<in>set ts. tk_id t = r \<longrightarrow> tk_replaced_by t \<noteq> None \<or> tk_revoked_at t \<noteq> None)"

definition run_inv :: "sys \<Rightarrow> id list \<Rightarrow> bool" where
  "run_inv s rs \<longleftrightarrow>
     (\<forall>t\<in>set (st_tokens (sy_st s)). tk_id t \<in> set (sy_used s)) \<and>
     (\<forall>r\<in>set rs. r \<in> set (sy_used s) \<and> spent (st_tokens (sy_st s)) r) \<and> distinct rs"

lemma spent_keeps: "keeps_rows ts ts' \<Longrightarrow> spent ts r \<Longrightarrow> spent ts' r"
  unfolding keeps_rows_def spent_def by fastforce

lemma run_inv_keeps:
  assumes "run_inv s rs" "keeps_rows (st_tokens (sy_st s)) (st_tokens (sy_st s'))" "sy_used s' = sy_used s"
  shows "run_inv s' rs"
proof -
  have "tk_id t' \<in> set (sy_used s)" if "t' \<in> set (st_tokens (sy_st s'))" for t'
    using assms(1,2) that by (auto simp: run_inv_def keeps_rows_def dest!: bspec)
  then show ?thesis using assms spent_keeps[OF assms(2)] by (simp add: run_inv_def)
qed

lemma run_inv_issue:
  assumes "run_inv s rs" "issueRefreshToken now jti u f md (sy_st s) = Inr st" "jti \<notin> set (sy_used s)"
    and "sy_st s' = st" "sy_used s' = jti # sy_used s"
  shows "run_inv s' rs"
proof -
  obtain t where t: "st_tokens st = t # st_tokens (sy_st s)" "tk_id t = jti" using issue_tokens[OF assms(2)] by blast
  have "spent (t # st_tokens (sy_st s)) r" if "r \<in> set rs" for r
  proof -
    have "r \<noteq> jti" "spent (st_tokens (sy_st s)) r" using assms(1,3) that by (auto simp: run_inv_def)
    then show ?thesis using t(2) by (simp add: spent_def)
  qed
  then show ?thesis using assms t by (simp add: run_inv_def)
qed

lemma session_step_inv:
  assumes "session_step s l s'" "run_inv s rs"
  shows "run_inv s' (case l of None \<Rightarrow> rs | Some r \<Rightarrow> r # rs)"
  using assms
proof cases
  case (win row jti now u st)
  have k: "run_inv s' rs"
    using run_inv_keeps[OF assms(2), of s'] consume_tokens[OF win(4)] win by simp
  obtain t where t: "t \<in> set (st_tokens (sy_st s))" "tk_id t = tk_id row" "tk_replaced_by t = None" "tk_revoked_at t = None"
    using consume_wins[OF win(4)] by blast
  then have "\<not> spent (st_tokens (sy_st s)) (tk_id row)" by (auto simp: spent_def)
  then have "tk_id row \<notin> set rs" using assms(2) by (auto simp: run_inv_def)
  moreover have "spent (st_tokens (sy_st s')) (tk_id row)"
    using consume_wins[OF win(4)] win by (simp add: spent_def)
  moreover have "tk_id row \<in> set (sy_used s')" using assms(2) t win by (auto simp: run_inv_def)
  ultimately show ?thesis using k win by (simp add: run_inv_def)
next
  case (login jti now u fam md st)
  then show ?thesis using run_inv_issue[OF assms(2), of now jti u fam md st s'] by simp
next
  case (issue row jti now st)
  then show ?thesis
    using run_inv_issue[OF assms(2), of now jti "tk_user_id row" "tk_family_id row" no_metadata st s'] by simp
next
  case (lose row jti now e st)
  then show ?thesis using run_inv_keeps[OF assms(2), of s'] consume_tokens[OF lose(4)] by simp
qed (use run_inv_keeps[OF assms(2), of s'] rotate_check_keeps revokeSession_keeps revokeAll_keeps
      revokeOthers_keeps revokeFamily_keeps purge_keeps in simp_all)

lemma session_run_inv: "session_run s rs t \<Longrightarrow> run_inv s [] \<Longrightarrow> run_inv t rs"
  by (induction rule: session_run.induct) (auto dest: session_step_inv)


definition ex_row :: token_row where
  "ex_row = \<lparr>tk_id = ''t1'', tk_user_id = ''u'', tk_family_id = ''f'', tk_expires_at = 1000000,
     tk_revoked_at = None, tk_replaced_by = None\<rparr>"

definition ex_session :: session_row where
  "ex_session = \<lparr>se_id = ''f'', se_user_id = ''u'', se_device_name = None, se_user_agent = None, se_ip_address = None,
     se_last_seen_at = 0, se_expires_at = 1000000, se_revoked_at = None\<rparr>"

definition ex_state :: auth_state where
  "ex_state = \<lparr>st_tokens = [ex_row], st_sessions = [ex_session], st_denied = []\<rparr>"

definition ex_sys :: sys where
  "ex_sys = \<lparr>sy_st = ex_state, sy_checked = [], sy_issued = [(ex_row, ''t2''), (ex_row, ''t3'')], sy_used = [''t1'', ''t2'', ''t3'']\<rparr>"

definition ex_jwt :: jwt_codec where
  "ex_jwt = \<lparr>verify = (\<lambda>now t. if t = ''T1'' then Some \<lparr>cl_sub = ''u'', cl_jti = Some ''t1'', cl_fam = Some ''f''\<rparr>
      else if t = ''L'' then Some \<lparr>cl_sub = ''u'', cl_jti = None, cl_fam = None\<rparr> else None), sign = (\<lambda>now c. ''S'')\<rparr>"


subsection \<open>Reuse revokes the family\<close>

lemma revokeFamily_revokes:
  "t \<in> set (st_tokens (revokeFamily now f st)) \<Longrightarrow> tk_family_id t = f \<Longrightarrow> tk_revoked_at t \<noteq> None"
proof -
  assume "t \<in> set (st_tokens (revokeFamily now f st))" and f: "tk_family_id t = f"
  then consider x where "t = x\<lparr>tk_revoked_at := Some now\<rparr>" | "\<not> (tk_family_id t = f \<and> tk_revoked_at t = None)"
    unfolding revokeFamily_tokens revoke_tokens_def set_update_where by blast
  then show ?thesis using f by cases simp_all
qed

lemma revoked_row_refused:
  assumes "Option.bind (cl_jti c) (\<lambda>j. find_first (\<lambda>t. tk_id t = j) (st_tokens st)) = Some row"
    and "tk_revoked_at row \<noteq> None" "verify jwt now token = Some c"
  shows "fst (rotateRefreshToken jwt now jti fam token st) = Inl UnauthorizedError"
  using assms by (simp add: rotateRefreshToken_def rotate_check_def)

text \<open>Presenting a token that has already been rotated fails, and from then on
  every token of its family that is in the database, the current one included, is refused
  whenever it is presented: a leaked token cannot keep a session alive.\<close>

theorem reuse_revokes_family:
  assumes "verify jwt now token = Some c" "cl_jti c = Some j"
    and "find_first (\<lambda>t. tk_id t = j) (st_tokens st) = Some row" "tk_replaced_by row \<noteq> None"
    and "\<forall>s\<in>set (st_sessions st). se_id s = tk_family_id row \<longrightarrow> se_revoked_at s = None"
    and "\<not> is_denied now (tk_family_id row) st"
    and "rotateRefreshToken jwt now jti fam token st = (r, st')"
    and "verify jwt later other = Some d" "cl_jti d = Some k"
    and "find_first (\<lambda>t. tk_id t = k) (st_tokens st') = Some row'" "tk_family_id row' = tk_family_id row"
  shows "r = Inl UnauthorizedError \<and> fst (rotateRefreshToken jwt later jti' fam' other st') = Inl UnauthorizedError"
proof -
  have check: "rotate_check jwt now token st = (Inl UnauthorizedError, revokeFamily now (tk_family_id row) st)"
    using assms(1-6) by (auto simp: rotate_check_def)
  then have r: "r = Inl UnauthorizedError" "st' = revokeFamily now (tk_family_id row) st"
    using assms(7) by (simp_all add: rotateRefreshToken_def)
  have "row' \<in> set (st_tokens st')" using find_first_Some[OF assms(10)] by blast
  then have "tk_revoked_at row' \<noteq> None" using revokeFamily_revokes assms(11) r(2) by metis
  moreover have "Option.bind (cl_jti d) (\<lambda>j. find_first (\<lambda>t. tk_id t = j) (st_tokens st')) = Some row'"
    using assms(9,10) by simp
  ultimately show ?thesis using r(1) revoked_row_refused[OF _ _ assms(8)] by blast
qed

definition ex_after :: auth_state where
  "ex_after = snd (rotateRefreshToken ex_jwt 5 ''t2'' ''x'' ''T1'' ex_state)"

theorem reuse_revokes_family_witness:
  "fst (rotateRefreshToken ex_jwt 6 ''t3'' ''x'' ''T1'' ex_after) = Inl UnauthorizedError"
proof -
  obtain r st' where run: "rotateRefreshToken ex_jwt 6 ''t3'' ''x'' ''T1'' ex_after = (r, st')" by fastforce
  have st: "map tk_id (st_tokens ex_after) = [''t2'', ''t1'']" "map tk_replaced_by (st_tokens ex_after) = [None, Some ''t2'']"
    "map tk_family_id (st_tokens ex_after) = [''f'', ''f'']" "list_all (\<lambda>s. se_revoked_at s = None) (st_sessions ex_after)"
    "st_denied ex_after = []"
    by code_simp+
  then obtain a row where toks: "st_tokens ex_after = [a, row]" by (auto simp: map_eq_Cons_conv)
  have f: "find_first (\<lambda>t. tk_id t = ''t1'') (st_tokens ex_after) = Some row"
    using st toks by simp
  have "map tk_id (st_tokens (snd (rotateRefreshToken ex_jwt 6 ''t3'' ''x'' ''T1'' ex_after))) = [''t2'', ''t1'']"
    "map tk_family_id (st_tokens (snd (rotateRefreshToken ex_jwt 6 ''t3'' ''x'' ''T1'' ex_after))) = [''f'', ''f'']"
    by code_simp+
  then obtain b row' where toks': "st_tokens st' = [b, row']" "tk_id b = ''t2''" "tk_id row' = ''t1''" "tk_family_id row' = ''f''"
    using run by (auto simp: map_eq_Cons_conv)
  have v: "verify ex_jwt 6 ''T1'' = Some \<lparr>cl_sub = ''u'', cl_jti = Some ''t1'', cl_fam = Some ''f''\<rparr>"
    "verify ex_jwt 7 ''T1'' = Some \<lparr>cl_sub = ''u'', cl_jti = Some ''t1'', cl_fam = Some ''f''\<rparr>"
    by (simp_all add: ex_jwt_def)
  have s1: "\<forall>s\<in>set (st_sessions ex_after). se_id s = tk_family_id row \<longrightarrow> se_revoked_at s = None"
    using st(4) by (simp add: list_all_iff)
  have d: "\<not> is_denied 6 (tk_family_id row) ex_after" using st(5) by (simp add: is_denied_def)
  have rp: "tk_replaced_by row \<noteq> None" "tk_family_id row' = tk_family_id row" using st(2,3) toks toks' by simp_all
  have f': "find_first (\<lambda>t. tk_id t = ''t1'') (st_tokens st') = Some row'" using toks' by simp
  have "r = Inl UnauthorizedError"
    using reuse_revokes_family[OF v(1) _ f rp(1) s1 d run v(2) _ f' rp(2)] by simp
  then show ?thesis using run by simp
qed

subsection \<open>Tokens without a row\<close>

text \<open>A valid token without a database row is accepted however often it has
  been presented before: after a successful exchange the same token is accepted again, opening
  one new session family each time.\<close>

theorem legacy_token_unlimited:
  assumes "verify jwt now token = Some c" "cl_jti c = None"
    and "verify jwt later token = Some c"
    and "jti2 \<noteq> jti1" "\<forall>t\<in>set (st_tokens st). tk_id t \<noteq> jti1 \<and> tk_id t \<noteq> jti2"
  shows "\<exists>r1 st1 r2 st2. rotateRefreshToken jwt now jti1 fam1 token st = (Inr r1, st1) \<and>
    rotateRefreshToken jwt later jti2 fam2 token st1 = (Inr r2, st2) \<and>
    length (st_tokens st2) = length (st_tokens st) + 2"
  using assms unfolding rotateRefreshToken_def rotate_check_def issueRefreshToken_def Let_def by simp

theorem legacy_token_unlimited_witness:
  "\<exists>r1 st1 r2 st2. rotateRefreshToken ex_jwt 5 ''a'' ''f1'' ''L'' ex_state = (Inr r1, st1) \<and>
    rotateRefreshToken ex_jwt 6 ''b'' ''f2'' ''L'' st1 = (Inr r2, st2)"
  using legacy_token_unlimited[of ex_jwt 5 "''L''" "\<lparr>cl_sub = ''u'', cl_jti = None, cl_fam = None\<rparr>" 6 "''b''" "''a''" ex_state "''f1''" "''f2''"]
  by (auto simp: ex_jwt_def ex_state_def ex_row_def)

end
