(* ===== verification/Access.thy ===== *)
theory Access
  imports Sessions
begin

text \<open>
  Who may do what: plan features and effective permissions
  (\<^verbatim>\<open>src/src/services/authorization.ts\<close>, \<^verbatim>\<open>src/src/constants/rbac.ts\<close>), the employees in a reviewer's
  scope (\<^verbatim>\<open>src/src/services/locationScope.ts\<close>) and the request guards
  (\<^verbatim>\<open>src/src/middleware/auth.ts\<close>).

  A guard is a function from the request to an error or to the request with what the guard
  attached to it.  Access tokens are checked by the parameter \<open>verifyAccess\<close>, the SHA-256 digest is the
  parameter \<open>sha256\<close>.  Redis may be down (\<open>up\<close> is false); its keys \<open>jti:<id>\<close> are the list \<open>revoked\<close> with
  the instants at which they expire, its keys \<open>sid:<id>\<close> are \<open>st_denied\<close> of the session state.
\<close>

subsection \<open>Tables\<close>

record member =
  mb_id :: id
  mb_org_id :: id
  mb_role :: string
  mb_name :: string
  mb_email :: string
  mb_is_active :: bool
  mb_deleted_at :: "instant option"
  mb_manager_id :: "id option"
  mb_primary_location_id :: "id option"

record org_role =
  or_id :: id
  or_slug :: string
  or_name :: string
  or_permissions :: "string list"

record permission_grant =
  gr_user_id :: id
  gr_org_id :: id
  gr_permission_key :: string
  gr_effect :: string

record organisation =
  og_id :: id
  og_plan :: id
  og_features_override :: "(string \<times> bool) list option"
  og_timezone :: "string option"

record location =
  lc_id :: id
  lc_org_id :: id
  lc_is_active :: bool

record api_key =
  ak_id :: id
  ak_key_prefix :: string
  ak_key_hash :: string
  ak_user_id :: id
  ak_org_id :: id
  ak_scopes :: "string list"
  ak_revoked_at :: "instant option"
  ak_expires_at :: "instant option"
  ak_last_used_at :: "instant option"

record access_db =
  ad_members :: "member list"
  ad_user_roles :: "(id \<times> id) list"
  ad_roles :: "org_role list"
  ad_grants :: "permission_grant list"
  ad_platform_roles :: "(id \<times> string list) list"
  ad_orgs :: "organisation list"
  ad_plans :: "(id \<times> (string \<times> bool) list option) list"
  ad_locations :: "location list"
  ad_managers :: "(id \<times> id) list"
  ad_api_keys :: "api_key list"

subsection \<open>Plan features\<close>

type_synonym plan_features = "string \<Rightarrow> bool option"

definition FEATURE_KEYS :: "string list" where
  "FEATURE_KEYS = [''attendance'', ''leave_management'', ''shifts'', ''payroll'', ''whatsapp'', ''performance_reviews'',
     ''remote_work'', ''api_access'', ''advanced_reports'', ''multi_location'', ''time_tracking'']"

definition DEFAULT_PLAN_FEATURES :: plan_features where
  "DEFAULT_PLAN_FEATURES = map_of (map (\<lambda>k. (k, False)) FEATURE_KEYS)"

definition mergePlanFeatures :: "plan_features \<Rightarrow> (string \<times> bool) list option \<Rightarrow> plan_features" where
  "mergePlanFeatures base override =
     (case override of None \<Rightarrow> base | Some ov \<Rightarrow> fold (\<lambda>(k, v) out. out(k \<mapsto> v)) ov base)"

text \<open>A plan whose \<open>features\<close> column is no object, or that does not exist, enables every feature.\<close>

definition resolveOrgFeatures :: "id \<Rightarrow> access_db \<Rightarrow> plan_features" where
  "resolveOrgFeatures orgId db =
     (case find_first (\<lambda>o'. og_id o' = orgId) (ad_orgs db) of
        None \<Rightarrow> DEFAULT_PLAN_FEATURES
      | Some org \<Rightarrow>
          mergePlanFeatures
            (case Option.bind (map_of (ad_plans db) (og_plan org)) id of
               Some raw \<Rightarrow> fold (\<lambda>k base. case map_of raw k of None \<Rightarrow> base | Some v \<Rightarrow> base(k \<mapsto> v)) FEATURE_KEYS DEFAULT_PLAN_FEATURES
             | None \<Rightarrow> fold (\<lambda>k base. base(k \<mapsto> True)) FEATURE_KEYS DEFAULT_PLAN_FEATURES)
            (og_features_override org))"

definition hasFeature :: "plan_features \<Rightarrow> string \<Rightarrow> bool" where
  "hasFeature features k \<longleftrightarrow> features k = Some True"

subsection \<open>Permissions\<close>

definition rolePermissionKeys :: "id \<Rightarrow> access_db \<Rightarrow> string set" where
  "rolePermissionKeys userId db =
     (case Option.bind (map_of (ad_user_roles db) userId) (\<lambda>r. find_first (\<lambda>x. or_id x = r) (ad_roles db)) of
        None \<Rightarrow> {} | Some role \<Rightarrow> set (or_permissions role))"

definition apply_grant :: "permission_grant \<Rightarrow> string set \<Rightarrow> string set" where
  "apply_grant g effective =
     (if gr_effect g = ''allow'' then insert (gr_permission_key g) effective
      else if gr_effect g = ''deny'' then effective - {gr_permission_key g}
      else effective)"

definition resolveUserPermissions :: "id \<Rightarrow> id \<Rightarrow> access_db \<Rightarrow> string set" where
  "resolveUserPermissions userId orgId db =
     (case find_first (\<lambda>u. mb_id u = userId \<and> mb_org_id u = orgId \<and> mb_deleted_at u = None) (ad_members db) of
        None \<Rightarrow> {}
      | Some _ \<Rightarrow>
          fold apply_grant (filter (\<lambda>g. gr_user_id g = userId \<and> gr_org_id g = orgId) (ad_grants db))
            (rolePermissionKeys userId db))"

definition resolvePlatformPermissions :: "id \<Rightarrow> access_db \<Rightarrow> string set" where
  "resolvePlatformPermissions userId db = (\<Union>a\<in>set (filter (\<lambda>a. fst a = userId) (ad_platform_roles db)). set (snd a))"

definition can :: "string set \<Rightarrow> string \<Rightarrow> bool" where
  "can permissions k \<longleftrightarrow> k \<in> permissions"

record capabilities =
  cp_permissions :: "string set"
  cp_features :: plan_features
  cp_org_role :: "(id \<times> string \<times> string) option"
  cp_platform_permissions :: "string set"
  cp_timezone :: string

text \<open>The sets stand for the sorted arrays of the answer.\<close>

definition getUserCapabilities :: "id \<Rightarrow> id \<Rightarrow> string \<Rightarrow> access_db \<Rightarrow> capabilities" where
  "getUserCapabilities userId orgId legacyRole db =
     \<lparr>cp_permissions = resolveUserPermissions userId orgId db,
      cp_features = resolveOrgFeatures orgId db,
      cp_org_role = map_option (\<lambda>r. (or_id r, or_slug r, or_name r))
        (Option.bind (map_of (ad_user_roles db) userId) (\<lambda>r. find_first (\<lambda>x. or_id x = r) (ad_roles db))),
      cp_platform_permissions = (if legacyRole = ''platform_admin'' then resolvePlatformPermissions userId db else {}),
      cp_timezone = coalesce (Option.bind (find_first (\<lambda>o'. og_id o' = orgId) (ad_orgs db)) og_timezone) ''UTC''\<rparr>"

subsection \<open>Employee scope\<close>

definition managed_locations :: "id \<Rightarrow> id \<Rightarrow> access_db \<Rightarrow> id list" where
  "managed_locations orgId userId db =
     map snd (filter (\<lambda>m. fst m = userId \<and>
       (\<exists>l\<in>set (ad_locations db). lc_id l = snd m \<and> lc_org_id l = orgId \<and> lc_is_active l)) (ad_managers db))"

definition in_locations :: "id list \<Rightarrow> member \<Rightarrow> bool" where
  "in_locations ls u \<longleftrightarrow> (case mb_primary_location_id u of None \<Rightarrow> False | Some l \<Rightarrow> l \<in> set ls)"

definition scopedEmployeeIds :: "id \<Rightarrow> id \<Rightarrow> string set \<Rightarrow> string \<Rightarrow> access_db \<Rightarrow> id list option" where
  "scopedEmployeeIds orgId userId permissions orgWide db =
     (if orgWide \<in> permissions then None
      else (let active = (\<lambda>u. mb_org_id u = orgId \<and> mb_is_active u \<and> mb_deleted_at u = None);
                directReports = (if ''employees.view_team'' \<in> permissions
                  then filter (\<lambda>u. active u \<and> mb_manager_id u = Some userId) (ad_members db) else []);
                locations = (if ''employees.view_location'' \<in> permissions then managed_locations orgId userId db else []);
                locationEmployees = filter (\<lambda>u. active u \<and> in_locations locations u) (ad_members db)
            in Some (remdups (map mb_id (directReports @ locationEmployees)))))"

definition reviewableEmployeeIds :: "id \<Rightarrow> id \<Rightarrow> string set \<Rightarrow> string \<Rightarrow> access_db \<Rightarrow> id list option" where
  "reviewableEmployeeIds orgId userId permissions orgWide db =
     (if orgWide \<in> permissions then None
      else (let live = (\<lambda>u. mb_org_id u = orgId \<and> mb_deleted_at u = None);
                directReports = filter (\<lambda>u. live u \<and> mb_manager_id u = Some userId) (ad_members db);
                locations = (if ''employees.view_location'' \<in> permissions then managed_locations orgId userId db else []);
                locationEmployees = filter (\<lambda>u. live u \<and> in_locations locations u) (ad_members db)
            in Some (remdups (map mb_id (directReports @ locationEmployees)))))"

definition isInEmployeeScope :: "id \<Rightarrow> id list option \<Rightarrow> bool" where
  "isInEmployeeScope userId scopedIds \<longleftrightarrow> (case scopedIds of None \<Rightarrow> True | Some ids \<Rightarrow> userId \<in> set ids)"

subsection \<open>Request guards\<close>

record jwt_payload =
  jp_sub :: id
  jp_org_id :: id
  jp_role :: string
  jp_name :: string
  jp_email :: string
  jp_jti :: id
  jp_sid :: "id option"

record request =
  rq_authorization :: "string option"
  rq_user :: "jwt_payload option"
  rq_permissions :: "string set option"
  rq_api_key :: "(id \<times> string list) option"

definition bearer :: "request \<Rightarrow> string option" where
  "bearer req = Option.bind (rq_authorization req) (\<lambda>h. if take 7 h = ''Bearer '' then Some (drop 7 h) else None)"

definition is_hex :: "char \<Rightarrow> bool" where
  "is_hex c \<longleftrightarrow> is_digit c \<or> (97 \<le> (of_char c :: nat) \<and> (of_char c :: nat) \<le> 102)"

definition is_alpha :: "char \<Rightarrow> bool" where
  "is_alpha c \<longleftrightarrow> (65 \<le> (of_char c :: nat) \<and> (of_char c :: nat) \<le> 90) \<or> (97 \<le> (of_char c :: nat) \<and> (of_char c :: nat) \<le> 122)"

definition api_key_prefix :: "string \<Rightarrow> string option" where
  "api_key_prefix raw =
     (let prefix = take 16 (drop 8 raw); secret = drop 25 raw
      in if take 8 raw = ''attenda_'' \<and> length prefix = 16 \<and> list_all is_hex prefix \<and> take 1 (drop 24 raw) = ''_'' \<and>
            32 \<le> length secret \<and> list_all (\<lambda>c. is_alpha c \<or> is_digit c \<or> c = CHR ''_'' \<or> c = CHR ''-'') secret
         then Some prefix else None)"

definition authenticateApiKey :: "(string \<Rightarrow> string) \<Rightarrow> instant \<Rightarrow> request \<Rightarrow> access_db \<Rightarrow> (request \<times> access_db) result" where
  "authenticateApiKey sha256 now req db =
     (case bearer req of
        None \<Rightarrow> Inl UnauthorizedError
      | Some rawKey \<Rightarrow>
     (case api_key_prefix rawKey of
        None \<Rightarrow> Inl UnauthorizedError
      | Some prefix \<Rightarrow>
     (case find_first (\<lambda>k. ak_key_prefix k = prefix) (ad_api_keys db) of
        None \<Rightarrow> Inl UnauthorizedError
      | Some k \<Rightarrow>
          if ak_revoked_at k \<noteq> None \<or> (case ak_expires_at k of None \<Rightarrow> False | Some t \<Rightarrow> t \<le> now)
          then Inl UnauthorizedError
          else if sha256 rawKey \<noteq> ak_key_hash k then Inl UnauthorizedError
          else case find_first (\<lambda>u. mb_id u = ak_user_id k \<and> mb_org_id u = ak_org_id k \<and> mb_is_active u \<and> mb_deleted_at u = None)
                 (ad_members db) of
            None \<Rightarrow> Inl UnauthorizedError
          | Some u \<Rightarrow>
              if \<not> hasFeature (resolveOrgFeatures (ak_org_id k) db) ''api_access'' then Inl ForbiddenError
              else Inr (req\<lparr>rq_user := Some \<lparr>jp_sub = mb_id u, jp_org_id = mb_org_id u, jp_role = mb_role u,
                              jp_name = mb_name u, jp_email = mb_email u, jp_jti = ''api-key:'' @ ak_id k, jp_sid = None\<rparr>,
                            rq_api_key := Some (ak_id k, ak_scopes k)\<rparr>,
                        db\<lparr>ad_api_keys := update_where
                            (\<lambda>x. ak_id x = ak_id k \<and> (case ak_last_used_at x of None \<Rightarrow> True | Some t \<Rightarrow> t < now - 5 * 60000))
                            (\<lambda>x. x\<lparr>ak_last_used_at := Some now\<rparr>) (ad_api_keys db)\<rparr>))))"

definition ROLE_HIERARCHY :: "string \<Rightarrow> int option" where
  "ROLE_HIERARCHY = map_of [(''employee'', 1), (''manager'', 2), (''hr_admin'', 3), (''super_admin'', 4), (''platform_admin'', 99)]"

definition isBlacklisted :: "instant \<Rightarrow> bool \<Rightarrow> (id \<times> instant) list \<Rightarrow> id \<Rightarrow> bool" where
  "isBlacklisted now up revoked jti \<longleftrightarrow> (if up then \<exists>d\<in>set revoked. fst d = jti \<and> now < snd d else True)"

definition isSessionRevoked :: "instant \<Rightarrow> bool \<Rightarrow> id \<Rightarrow> auth_state \<Rightarrow> bool \<times> auth_state" where
  "isSessionRevoked now up sessionId st =
     (if \<not> up then (True, st)
      else if is_denied now sessionId st then (True, st)
      else case find_first (\<lambda>s. se_id s = sessionId) (st_sessions st) of
             None \<Rightarrow> (False, st)
           | Some session \<Rightarrow>
               if se_revoked_at session = None then (False, st)
               else (True, st\<lparr>st_denied := (sessionId, deny_until now (se_expires_at session)) # st_denied st\<rparr>))"

definition authenticate ::
    "(string \<Rightarrow> jwt_payload option) \<Rightarrow> instant \<Rightarrow> bool \<Rightarrow> (id \<times> instant) list \<Rightarrow> request \<Rightarrow> auth_state \<Rightarrow> request result \<times> auth_state" where
  "authenticate verifyAccess now up revoked req st =
     (case bearer req of
        None \<Rightarrow> (Inl UnauthorizedError, st)
      | Some token \<Rightarrow>
     (case verifyAccess token of
        None \<Rightarrow> (Inl UnauthorizedError, st)
      | Some payload \<Rightarrow>
          if isBlacklisted now up revoked (jp_jti payload) then (Inl UnauthorizedError, st)
          else (case jp_sid payload of
                  None \<Rightarrow> (Inr (req\<lparr>rq_user := Some payload\<rparr>), st)
                | Some sid \<Rightarrow>
                    (case isSessionRevoked now up sid st of (gone, st1) \<Rightarrow>
                       if gone then (Inl UnauthorizedError, st1) else (Inr (req\<lparr>rq_user := Some payload\<rparr>), st1)))))"

definition requireRole :: "string list \<Rightarrow> request \<Rightarrow> request result" where
  "requireRole roles req =
     (case rq_user req of
        None \<Rightarrow> Inl UnauthorizedError
      | Some u \<Rightarrow>
          if rq_api_key req \<noteq> None then Inl ForbiddenError
          else if jp_role u = ''platform_admin'' \<and> ''platform_admin'' \<notin> set roles then Inl ForbiddenError
          else (let userLevel = coalesce (ROLE_HIERARCHY (jp_role u)) 0
                in if \<exists>r\<in>set roles. jp_role u = r \<or> (case ROLE_HIERARCHY r of None \<Rightarrow> False | Some l \<Rightarrow> l \<le> userLevel)
                   then Inr req else Inl ForbiddenError))"

definition requirePermission :: "string list \<Rightarrow> access_db \<Rightarrow> request \<Rightarrow> request result" where
  "requirePermission permissionKeys db req =
     (case rq_user req of
        None \<Rightarrow> Inl UnauthorizedError
      | Some u \<Rightarrow>
          if jp_role u = ''platform_admin'' then
            (if rq_api_key req \<noteq> None then Inl ForbiddenError
             else (let platformPerms = resolvePlatformPermissions (jp_sub u) db
                   in if \<exists>k\<in>set permissionKeys. can platformPerms k then Inr (req\<lparr>rq_permissions := Some platformPerms\<rparr>)
                      else Inl ForbiddenError))
          else (let resolved = resolveUserPermissions (jp_sub u) (jp_org_id u) db;
                    perms = (case rq_api_key req of None \<Rightarrow> resolved | Some (_, scopes) \<Rightarrow> resolved \<inter> set scopes)
                in if \<exists>k\<in>set permissionKeys. can perms k then Inr (req\<lparr>rq_permissions := Some perms\<rparr>)
                   else Inl ForbiddenError))"

definition requireOrgFeature :: "string list \<Rightarrow> access_db \<Rightarrow> request \<Rightarrow> request result" where
  "requireOrgFeature featureKeys db req =
     (case rq_user req of
        None \<Rightarrow> Inl UnauthorizedError
      | Some u \<Rightarrow>
          if jp_role u = ''platform_admin'' then Inl ForbiddenError
          else if list_all (hasFeature (resolveOrgFeatures (jp_org_id u) db)) featureKeys then Inr req
          else Inl ForbiddenError)"

definition sameOrg :: "request \<Rightarrow> id \<Rightarrow> bool" where
  "sameOrg req orgId \<longleftrightarrow> map_option jp_org_id (rq_user req) = Some orgId"

definition optionalAuth ::
    "(string \<Rightarrow> jwt_payload option) \<Rightarrow> instant \<Rightarrow> bool \<Rightarrow> (id \<times> instant) list \<Rightarrow> request \<Rightarrow> request" where
  "optionalAuth verifyAccess now up revoked req =
     (case Option.bind (bearer req) verifyAccess of
        None \<Rightarrow> req
      | Some payload \<Rightarrow>
          if up \<and> (\<exists>d\<in>set revoked. fst d = jp_jti payload \<and> now < snd d) then req
          else req\<lparr>rq_user := Some payload\<rparr>)"

subsection \<open>Effective permissions\<close>

definition granted :: "string \<Rightarrow> string \<Rightarrow> permission_grant list \<Rightarrow> bool" where
  "granted effect k gs \<longleftrightarrow> (\<exists>g\<in>set gs. gr_permission_key g = k \<and> gr_effect g = effect)"

lemma fold_grants:
  "distinct (map gr_permission_key gs) \<Longrightarrow>
   k \<in> fold apply_grant gs S \<longleftrightarrow> (k \<in> S \<or> granted ''allow'' k gs) \<and> \<not> granted ''deny'' k gs"
proof (induction gs arbitrary: S)
  case Nil
  show ?case by (simp add: granted_def)
next
  case (Cons g gs)
  have other: "\<not> granted e k gs" if "gr_permission_key g = k" for e
    using Cons.prems that by (simp add: granted_def) (metis image_eqI)
  have step: "granted e k (g # gs) \<longleftrightarrow> (gr_permission_key g = k \<and> gr_effect g = e) \<or> granted e k gs" for e
    by (auto simp: granted_def)
  have IH: "k \<in> fold apply_grant gs T \<longleftrightarrow> (k \<in> T \<or> granted ''allow'' k gs) \<and> \<not> granted ''deny'' k gs" for T
    using Cons.IH Cons.prems by simp
  show ?case
    by (cases "gr_permission_key g = k") (simp_all add: IH step other apply_grant_def[of g])
qed

text \<open>C19: with at most one grant per user and permission, as the unique key of the
  table guarantees, a permission is effective exactly when the user is a live member of the
  organisation, the role or an allow grant gives it, and no deny grant takes it away.\<close>

theorem effective_permissions:
  assumes "distinct (map gr_permission_key (filter (\<lambda>g. gr_user_id g = userId \<and> gr_org_id g = orgId) (ad_grants db)))"
  shows "k \<in> resolveUserPermissions userId orgId db \<longleftrightarrow>
    (\<exists>u\<in>set (ad_members db). mb_id u = userId \<and> mb_org_id u = orgId \<and> mb_deleted_at u = None) \<and>
    (k \<in> rolePermissionKeys userId db \<or>
       (\<exists>g\<in>set (ad_grants db). gr_user_id g = userId \<and> gr_org_id g = orgId \<and> gr_permission_key g = k \<and> gr_effect g = ''allow'')) \<and>
    \<not> (\<exists>g\<in>set (ad_grants db). gr_user_id g = userId \<and> gr_org_id g = orgId \<and> gr_permission_key g = k \<and> gr_effect g = ''deny'')"
proof (cases "find_first (\<lambda>u. mb_id u = userId \<and> mb_org_id u = orgId \<and> mb_deleted_at u = None) (ad_members db)")
  case None
  then have "\<not> (\<exists>u\<in>set (ad_members db). mb_id u = userId \<and> mb_org_id u = orgId \<and> mb_deleted_at u = None)"
    by (simp add: find_first_None)
  moreover have "resolveUserPermissions userId orgId db = {}" using None by (simp add: resolveUserPermissions_def)
  ultimately show ?thesis by simp
next
  case (Some u)
  then have "\<exists>u\<in>set (ad_members db). mb_id u = userId \<and> mb_org_id u = orgId \<and> mb_deleted_at u = None"
    using find_first_Some by fast
  with Some show ?thesis
    by (auto simp: resolveUserPermissions_def fold_grants[OF assms] granted_def)
qed

definition ac_member :: "id \<Rightarrow> id option \<Rightarrow> member" where
  "ac_member i m = \<lparr>mb_id = i, mb_org_id = ''o'', mb_role = ''manager'', mb_name = i, mb_email = i, mb_is_active = True,
     mb_deleted_at = None, mb_manager_id = m, mb_primary_location_id = None\<rparr>"

definition ac_key :: string where
  "ac_key = ''attenda_0123456789abcdef_'' @ replicate 32 (CHR ''x'')"

definition ac_db :: access_db where
  "ac_db = \<lparr>ad_members = [ac_member ''u'' None, ac_member ''v'' (Some ''u'')], ad_user_roles = [(''u'', ''r'')],
     ad_roles = [\<lparr>or_id = ''r'', or_slug = ''hr'', or_name = ''HR'', or_permissions = [''leave.approve'', ''payroll.view'']\<rparr>],
     ad_grants = [\<lparr>gr_user_id = ''u'', gr_org_id = ''o'', gr_permission_key = ''payroll.view'', gr_effect = ''deny''\<rparr>,
                  \<lparr>gr_user_id = ''u'', gr_org_id = ''o'', gr_permission_key = ''time.approve'', gr_effect = ''allow''\<rparr>],
     ad_platform_roles = [], ad_orgs = [\<lparr>og_id = ''o'', og_plan = ''p'', og_features_override = None, og_timezone = None\<rparr>],
     ad_plans = [(''p'', Some [(''api_access'', True)])], ad_locations = [], ad_managers = [],
     ad_api_keys = [\<lparr>ak_id = ''k'', ak_key_prefix = ''0123456789abcdef'', ak_key_hash = ac_key, ak_user_id = ''u'', ak_org_id = ''o'',
       ak_scopes = [''leave.approve'', ''payroll.view''], ak_revoked_at = None, ak_expires_at = Some 100, ak_last_used_at = None\<rparr>]\<rparr>"

theorem effective_permissions_witness:
  "distinct (map gr_permission_key (filter (\<lambda>g. gr_user_id g = ''u'' \<and> gr_org_id g = ''o'') (ad_grants ac_db))) \<and>
   ''payroll.view'' \<notin> resolveUserPermissions ''u'' ''o'' ac_db \<and> ''time.approve'' \<in> resolveUserPermissions ''u'' ''o'' ac_db"
proof -
  have d: "distinct (map gr_permission_key (filter (\<lambda>g. gr_user_id g = ''u'' \<and> gr_org_id g = ''o'') (ad_grants ac_db)))"
    by (simp add: ac_db_def)
  show ?thesis
    using effective_permissions[OF d, of "''payroll.view''"] effective_permissions[OF d, of "''time.approve''"] d
    by (simp add: ac_db_def ac_member_def)
qed

subsection \<open>Guards\<close>

lemma permissions_of_key_touch [simp]: "resolveUserPermissions u o' (db\<lparr>ad_api_keys := ks\<rparr>) = resolveUserPermissions u o' db"
  by (simp add: resolveUserPermissions_def rolePermissionKeys_def split: option.splits)

lemma authenticateApiKey_InrE:
  assumes "authenticateApiKey sha256 now req db = Inr (req1, db1)"
  obtains raw k u where
    "bearer req = Some raw" "k \<in> set (ad_api_keys db)" "sha256 raw = ak_key_hash k" "ak_revoked_at k = None"
    "\<forall>t. ak_expires_at k = Some t \<longrightarrow> now < t"
    "u \<in> set (ad_members db)" "mb_id u = ak_user_id k" "mb_org_id u = ak_org_id k" "mb_is_active u" "mb_deleted_at u = None"
    "hasFeature (resolveOrgFeatures (ak_org_id k) db) ''api_access''"
    "rq_api_key req1 = Some (ak_id k, ak_scopes k)"
    "map_option (\<lambda>p. (jp_sub p, jp_org_id p)) (rq_user req1) = Some (ak_user_id k, ak_org_id k)"
    "\<exists>ks. db1 = db\<lparr>ad_api_keys := ks\<rparr>"
proof -
  obtain raw where raw: "bearer req = Some raw"
    using assms by (cases "bearer req") (simp_all add: authenticateApiKey_def)
  obtain prefix where prefix: "api_key_prefix raw = Some prefix"
    using assms raw by (cases "api_key_prefix raw") (simp_all add: authenticateApiKey_def)
  obtain k where k: "find_first (\<lambda>k. ak_key_prefix k = prefix) (ad_api_keys db) = Some k"
    using assms raw prefix
    by (cases "find_first (\<lambda>k. ak_key_prefix k = prefix) (ad_api_keys db)") (simp_all add: authenticateApiKey_def)
  let ?owner = "\<lambda>u. mb_id u = ak_user_id k \<and> mb_org_id u = ak_org_id k \<and> mb_is_active u \<and> mb_deleted_at u = None"
  note found = assms raw prefix k
  have live: "ak_revoked_at k = None" "\<forall>t. ak_expires_at k = Some t \<longrightarrow> now < t" "sha256 raw = ak_key_hash k"
    using found by (auto simp: authenticateApiKey_def split: if_splits)
  obtain u where u: "find_first ?owner (ad_members db) = Some u"
    using found live by (cases "find_first ?owner (ad_members db)") (simp_all add: authenticateApiKey_def split: if_splits)
  have feature: "hasFeature (resolveOrgFeatures (ak_org_id k) db) ''api_access''"
    using found live u by (simp add: authenticateApiKey_def split: if_splits)
  show thesis
  proof (rule that[OF raw _ live(3) live(1) live(2) _ _ _ _ _ feature])
    show "k \<in> set (ad_api_keys db)" using find_first_Some[OF k] by simp
    show "u \<in> set (ad_members db)" "mb_id u = ak_user_id k" "mb_org_id u = ak_org_id k" "mb_is_active u" "mb_deleted_at u = None"
      using find_first_Some[OF u] by simp_all
    then show "rq_api_key req1 = Some (ak_id k, ak_scopes k)"
      "map_option (\<lambda>p. (jp_sub p, jp_org_id p)) (rq_user req1) = Some (ak_user_id k, ak_org_id k)"
      "\<exists>ks. db1 = db\<lparr>ad_api_keys := ks\<rparr>"
      using found live u feature by (auto simp: authenticateApiKey_def split: if_splits)
  qed
qed

text \<open>C10: a request that passes the API-key check and a permission guard came with
  the secret of a live key of an active member of the organisation whose plan has API access, and
  the handler sees only permissions that are both scopes of the key and effective permissions of its
  owner, among them one of those the route asks for.\<close>

theorem api_key_least_privilege:
  assumes key: "authenticateApiKey sha256 now req db = Inr (req1, db1)"
    and guard: "requirePermission permissionKeys db1 req1 = Inr req2"
  shows "\<exists>raw k perms. bearer req = Some raw \<and> k \<in> set (ad_api_keys db) \<and> sha256 raw = ak_key_hash k \<and>
    ak_revoked_at k = None \<and> (case ak_expires_at k of None \<Rightarrow> True | Some t \<Rightarrow> now < t) \<and>
    hasFeature (resolveOrgFeatures (ak_org_id k) db) ''api_access'' \<and>
    (\<exists>u\<in>set (ad_members db). mb_id u = ak_user_id k \<and> mb_org_id u = ak_org_id k \<and> mb_is_active u \<and> mb_deleted_at u = None) \<and>
    rq_permissions req2 = Some perms \<and>
    perms \<subseteq> set (ak_scopes k) \<inter> resolveUserPermissions (ak_user_id k) (ak_org_id k) db \<and>
    perms \<inter> set permissionKeys \<noteq> {}"
  using key
proof (rule authenticateApiKey_InrE)
  fix raw k u
  assume k: "bearer req = Some raw" "k \<in> set (ad_api_keys db)" "sha256 raw = ak_key_hash k" "ak_revoked_at k = None"
    "\<forall>t. ak_expires_at k = Some t \<longrightarrow> now < t"
    "u \<in> set (ad_members db)" "mb_id u = ak_user_id k" "mb_org_id u = ak_org_id k" "mb_is_active u" "mb_deleted_at u = None"
    "hasFeature (resolveOrgFeatures (ak_org_id k) db) ''api_access''"
    and r: "rq_api_key req1 = Some (ak_id k, ak_scopes k)"
    "map_option (\<lambda>p. (jp_sub p, jp_org_id p)) (rq_user req1) = Some (ak_user_id k, ak_org_id k)"
    "\<exists>ks. db1 = db\<lparr>ad_api_keys := ks\<rparr>"
  let ?perms = "resolveUserPermissions (ak_user_id k) (ak_org_id k) db \<inter> set (ak_scopes k)"
  have "rq_permissions req2 = Some ?perms \<and> ?perms \<inter> set permissionKeys \<noteq> {}"
    using guard r by (auto simp: requirePermission_def can_def Let_def split: option.splits if_splits)
  moreover have "case ak_expires_at k of None \<Rightarrow> True | Some t \<Rightarrow> now < t"
    using k(5) by (simp split: option.splits)
  ultimately show ?thesis using k
    by (intro exI[of _ raw] exI[of _ k] exI[of _ ?perms]) blast
qed

definition ac_request :: "string \<Rightarrow> request" where
  "ac_request token = \<lparr>rq_authorization = Some (''Bearer '' @ token), rq_user = None, rq_permissions = None, rq_api_key = None\<rparr>"

theorem api_key_least_privilege_witness:
  "\<exists>req1 db1 req2. authenticateApiKey (\<lambda>s. s) 50 (ac_request ac_key) ac_db = Inr (req1, db1) \<and>
     requirePermission [''leave.approve''] db1 req1 = Inr req2 \<and>
     (\<exists>perms. rq_permissions req2 = Some perms \<and> perms \<inter> set [''leave.approve''] \<noteq> {})"
proof -
  have "\<not> Option.is_none (case authenticateApiKey (\<lambda>s. s) 50 (ac_request ac_key) ac_db of Inl _ \<Rightarrow> None
      | Inr (req1, db1) \<Rightarrow> (case requirePermission [''leave.approve''] db1 req1 of Inl _ \<Rightarrow> None | Inr r \<Rightarrow> Some ()))"
    by code_simp
  then obtain req1 db1 req2 where r: "authenticateApiKey (\<lambda>s. s) 50 (ac_request ac_key) ac_db = Inr (req1, db1)"
    "requirePermission [''leave.approve''] db1 req1 = Inr req2"
    by (auto split: sum.splits)
  from api_key_least_privilege[OF r] r show ?thesis by blast
qed

lemma revoke_sessions_row:
  assumes "x \<in> set (revoke_sessions now (\<lambda>s. se_id s = sid) ss)" "se_id x = sid"
  shows "se_revoked_at x \<noteq> None"
proof -
  obtain y where y: "x = (if se_id y = sid \<and> se_revoked_at y = None then y\<lparr>se_revoked_at := Some now\<rparr> else y)"
    using assms(1) unfolding revoke_sessions_def update_where_def set_map by (elim imageE) blast
  then have "se_id y = sid" using assms(2) by (cases "se_id y = sid \<and> se_revoked_at y = None") simp_all
  then show ?thesis using y by (cases "se_revoked_at y = None") simp_all
qed

text \<open>Once the family of a session is revoked, every access token of that
  session is refused for as long as the session row exists, whether Redis is reachable, has lost its
  keys, or is down.\<close>

theorem revoked_session_refused:
  assumes row: "s \<in> set (st_sessions st)" "se_id s = sid" and ids: "distinct (map se_id (st_sessions st))"
    and token: "verifyAccess token = Some payload" "jp_sid payload = Some sid" "bearer req = Some token"
  shows "fst (authenticate verifyAccess later up revoked req ((revokeFamily now sid st)\<lparr>st_denied := denied\<rparr>)) = Inl UnauthorizedError"
proof -
  let ?st = "(revokeFamily now sid st)\<lparr>st_denied := denied\<rparr>"
  have sessions: "st_sessions ?st = revoke_sessions now (\<lambda>s. se_id s = sid) (st_sessions st)"
    by (simp add: revokeFamily_def Let_def split: option.splits)
  have "\<exists>x\<in>set (revoke_sessions now (\<lambda>s. se_id s = sid) (st_sessions st)). se_id x = sid"
    unfolding revoke_sessions_def using row(2)
    by (intro bexI[OF _ update_where_row[OF row(1)]]) simp
  then have "find_first (\<lambda>x. se_id x = sid) (st_sessions ?st) \<noteq> None"
    by (simp only: sessions find_first_None) blast
  moreover have "\<forall>x\<in>set (st_sessions ?st). se_id x = sid \<longrightarrow> se_revoked_at x \<noteq> None"
    unfolding sessions using revoke_sessions_row by blast
  then have "se_revoked_at x \<noteq> None" if "find_first (\<lambda>x. se_id x = sid) (st_sessions ?st) = Some x" for x
    using find_first_Some[OF that] by blast
  ultimately have "fst (isSessionRevoked later up sid ?st)"
    by (auto simp: isSessionRevoked_def)
  then show ?thesis using token by (auto simp: authenticate_def split: prod.splits)
qed

theorem revoked_session_refused_witness:
  "fst (authenticate (\<lambda>_. Some \<lparr>jp_sub = ''u'', jp_org_id = ''o'', jp_role = ''employee'', jp_name = [], jp_email = [], jp_jti = ''j'', jp_sid = Some ''f''\<rparr>)
     9 True [] (ac_request ''t'') ((revokeFamily 5 ''f'' \<lparr>st_tokens = [], st_sessions = touch_session 1 ''u'' ''f'' no_metadata [], st_denied = []\<rparr>)
       \<lparr>st_denied := []\<rparr>)) = Inl UnauthorizedError"
proof (rule revoked_session_refused[where payload = "\<lparr>jp_sub = ''u'', jp_org_id = ''o'', jp_role = ''employee'', jp_name = [],
    jp_email = [], jp_jti = ''j'', jp_sid = Some ''f''\<rparr>"])
  show "hd (touch_session 1 ''u'' ''f'' no_metadata []) \<in>
    set (st_sessions \<lparr>st_tokens = [], st_sessions = touch_session 1 ''u'' ''f'' no_metadata [], st_denied = []\<rparr>)"
    by (simp add: touch_session_def)
qed (simp_all add: touch_session_def ac_request_def bearer_def)

end
