(* ===== verification/Delivery.thy ===== *)
theory Delivery
  imports Prelude
begin

text \<open>
  The two delivery queues: the transactional outbox (\<^verbatim>\<open>src/src/services/outbox.ts\<close>) and the
  outbound webhooks (\<^verbatim>\<open>src/src/services/webhookDelivery.ts\<close>).  Both claim a due row, count the
  attempt, and settle it as done, to be retried after an exponential delay, or dead.

  A worker can stop between claim and settlement, so claims and settlements are separate steps.
  What a delivery does outside the database (publishing, the HTTP request, the signature) is an
  argument: whether it succeeded, and with which status.  Columns that are only reported
  (delivery and attempt timestamps, the rendered payload) are left out.  The locale \<open>retry_queue\<close> states what the
  bound on the number of attempts needs; both queues are instances.
\<close>

subsection \<open>The contract of a retry queue\<close>

inductive queue_run :: "('r \<Rightarrow> 'r \<Rightarrow> bool) \<Rightarrow> ('r \<Rightarrow> 'r \<Rightarrow> bool) \<Rightarrow> 'r \<Rightarrow> nat \<Rightarrow> 'r \<Rightarrow> bool"
  for claim other where
  idle: "queue_run claim other r 0 r"
| claimed: "queue_run claim other r n s \<Longrightarrow> claim s t \<Longrightarrow> queue_run claim other r (Suc n) t"
| moved: "queue_run claim other r n s \<Longrightarrow> other s t \<Longrightarrow> queue_run claim other r n t"

locale retry_queue =
  fixes row_ok :: "'r \<Rightarrow> bool"
    and tries :: "'r \<Rightarrow> nat"
    and claim :: "'r \<Rightarrow> 'r \<Rightarrow> bool"
    and other :: "'r \<Rightarrow> 'r \<Rightarrow> bool"
    and limit :: nat
  assumes claim_counts: "row_ok r \<Longrightarrow> claim r s \<Longrightarrow> row_ok s \<and> tries s = Suc (tries r) \<and> tries r < limit"
    and other_keeps: "row_ok r \<Longrightarrow> other r s \<Longrightarrow> row_ok s \<and> tries s = tries r"
begin

lemma run_counts:
  "queue_run claim other r n s \<Longrightarrow> row_ok r \<Longrightarrow> row_ok s \<and> tries s = tries r + n \<and> (n = 0 \<or> tries s \<le> limit)"
proof (induction rule: queue_run.induct)
  case (claimed r n s t)
  then show ?case using claim_counts[of s t] by auto
next
  case (moved r n s t)
  then show ?case using other_keeps[of s t] by auto
qed simp

lemma bounded: "queue_run claim other r n s \<Longrightarrow> row_ok r \<Longrightarrow> n \<le> limit"
  using run_counts[of r n s] by auto

end

definition backoff :: "int \<Rightarrow> nat \<Rightarrow> int" where
  "backoff cap n = min cap (30000 * 2 ^ (n - 1))"

subsection \<open>The outbox\<close>

record outbox_row =
  ob_id :: id
  ob_org_id :: id
  ob_event_type :: string
  ob_payload :: "(string \<times> string) list option"
  ob_created_at :: instant
  ob_attempts :: nat
  ob_next_attempt_at :: instant
  ob_claimed_at :: "instant option"
  ob_claim_token :: "id option"
  ob_published_at :: "instant option"
  ob_dead_lettered_at :: "instant option"
  ob_last_error :: "string option"

definition MAX_ATTEMPTS :: nat where
  "MAX_ATTEMPTS = 8"

definition allowedEvents :: "string list" where
  "allowedEvents = [''attendance_changed'', ''leave_changed'', ''overtime_changed'', ''remote_changed'',
     ''swap_changed'', ''expense_changed'', ''project_changed'', ''shift_changed'', ''timesheet_changed'']"

text \<open>\<open>ob_payload\<close> lists the string fields of a payload object; \<open>None\<close> is a payload that is no object.\<close>

definition notificationFromOutbox :: "(string \<times> string) list option \<Rightarrow> (string \<times> string) list result" where
  "notificationFromOutbox payload =
     (case payload of None \<Rightarrow> Inl PlainError
      | Some p \<Rightarrow>
          if \<exists>f\<in>set [''userId'', ''orgId'', ''type'', ''title'', ''body'', ''actionType'', ''actionId'', ''dedupeKey''].
               coalesce (map_of p f) [] = []
          then Inl PlainError
          else if length (coalesce (map_of p ''title'') []) > 200 \<or> length (coalesce (map_of p ''body'') []) > 4000
          then Inl PlainError else Inr p)"

text \<open>One publication: \<open>notify\<close> and \<open>publish\<close> are \<open>createNotification\<close> and the event bus together with
  \<open>dispatchOrgWebhooks\<close>; they say whether the work was accepted.\<close>

definition publish_event :: "((string \<times> string) list \<Rightarrow> bool) \<Rightarrow> (outbox_row \<Rightarrow> bool) \<Rightarrow> outbox_row \<Rightarrow> bool" where
  "publish_event notify publish e =
     (if ob_event_type e = ''notification_requested''
      then (case notificationFromOutbox (ob_payload e) of Inl _ \<Rightarrow> False | Inr p \<Rightarrow> notify p)
      else ob_event_type e \<in> set allowedEvents \<and> publish e)"

definition outbox_due :: "instant \<Rightarrow> outbox_row \<Rightarrow> bool" where
  "outbox_due now r \<longleftrightarrow>
     ob_published_at r = None \<and> ob_dead_lettered_at r = None \<and> ob_attempts r < MAX_ATTEMPTS \<and>
     ob_next_attempt_at r \<le> now \<and>
     (case ob_claimed_at r of None \<Rightarrow> True | Some t \<Rightarrow> t < now - 5 * 60000)"

definition outbox_claimed :: "instant \<Rightarrow> id \<Rightarrow> outbox_row \<Rightarrow> outbox_row" where
  "outbox_claimed now token r =
     r\<lparr>ob_claimed_at := Some now, ob_claim_token := Some token, ob_attempts := Suc (ob_attempts r)\<rparr>"

definition picked_ids :: "int \<Rightarrow> instant \<Rightarrow> outbox_row list \<Rightarrow> id list" where
  "picked_ids limit now rows =
     map ob_id (take (nat (max 1 (min 500 limit))) (sort_key ob_created_at (filter (outbox_due now) rows)))"

definition claim_batch :: "int \<Rightarrow> instant \<Rightarrow> id \<Rightarrow> outbox_row list \<Rightarrow> outbox_row list \<times> outbox_row list" where
  "claim_batch limit now token rows =
     (let picked = picked_ids limit now rows;
          rows' = update_where (\<lambda>r. ob_id r \<in> set picked) (outbox_claimed now token) rows
      in (filter (\<lambda>r. ob_id r \<in> set picked) rows', rows'))"

definition settled_ok :: "instant \<Rightarrow> outbox_row \<Rightarrow> outbox_row" where
  "settled_ok t r = r\<lparr>ob_published_at := Some t, ob_claimed_at := None, ob_claim_token := None, ob_last_error := None\<rparr>"

definition settled_failed :: "instant \<Rightarrow> instant \<Rightarrow> string \<Rightarrow> nat \<Rightarrow> outbox_row \<Rightarrow> outbox_row" where
  "settled_failed now t msg n r =
     (let r1 = r\<lparr>ob_claimed_at := None, ob_claim_token := None, ob_last_error := Some msg,
                 ob_next_attempt_at := now + backoff (60 * 60000) n\<rparr>
      in if n \<ge> MAX_ATTEMPTS then r1\<lparr>ob_dead_lettered_at := Some t\<rparr> else r1)"

text \<open>A settlement is conditional on still holding the claim.\<close>

definition holds_claim :: "id \<Rightarrow> id \<Rightarrow> outbox_row \<Rightarrow> bool" where
  "holds_claim eventId token r \<longleftrightarrow> ob_id r = eventId \<and> ob_claim_token r = Some token \<and> ob_published_at r = None"

definition settle :: "bool \<Rightarrow> instant \<Rightarrow> instant \<Rightarrow> string \<Rightarrow> id \<Rightarrow> outbox_row \<Rightarrow> outbox_row list \<Rightarrow> outbox_row list" where
  "settle ok now t msg token e rows =
     update_where (holds_claim (ob_id e) token)
       (if ok then settled_ok t else settled_failed now t msg (ob_attempts e)) rows"

definition publishOutboxBatch ::
    "((string \<times> string) list \<Rightarrow> bool) \<Rightarrow> (outbox_row \<Rightarrow> bool) \<Rightarrow> (outbox_row \<Rightarrow> string) \<Rightarrow> int \<Rightarrow> instant \<Rightarrow> instant \<Rightarrow> id \<Rightarrow>
     outbox_row list \<Rightarrow> nat \<times> outbox_row list" where
  "publishOutboxBatch notify publish msg limit now t token rows =
     (case claim_batch limit now token rows of (events, rows') \<Rightarrow>
        (length events,
         fold (\<lambda>e. settle (publish_event notify publish e) now t (msg e) token e) events rows'))"

text \<open>The gauges: waiting rows, dead letters, and the age in seconds of the oldest waiting row.\<close>

definition refreshOutboxMetrics :: "instant \<Rightarrow> outbox_row list \<Rightarrow> nat \<times> nat \<times> rat" where
  "refreshOutboxMetrics now rows =
     (let pending = filter (\<lambda>r. ob_published_at r = None \<and> ob_dead_lettered_at r = None) rows
      in (length pending, count_where (\<lambda>r. ob_dead_lettered_at r \<noteq> None) rows,
          case find_asc ob_created_at (\<lambda>_. True) pending of None \<Rightarrow> 0
          | Some r \<Rightarrow> max 0 (of_int (now - ob_created_at r) / 1000)))"

subsection \<open>Webhooks\<close>

record webhook =
  wh_id :: id
  wh_org_id :: id
  wh_events :: "string list"
  wh_url :: string
  wh_secret :: string
  wh_is_active :: bool
  wh_failure_count :: int

record webhook_delivery =
  wd_id :: id
  wd_outbox_event_id :: "id option"
  wd_webhook_id :: "id option"
  wd_org_id :: id
  wd_status :: string
  wd_attempts :: nat
  wd_next_attempt_at :: instant
  wd_updated_at :: instant
  wd_response_status :: "int option"
  wd_last_error :: "string option"

record webhook_db =
  wb_hooks :: "webhook list"
  wb_deliveries :: "webhook_delivery list"
  wb_log :: "effect list"

definition AUTO_DISABLE_THRESHOLD :: int where
  "AUTO_DISABLE_THRESHOLD = 20"

definition MAX_DELIVERY_ATTEMPTS :: nat where
  "MAX_DELIVERY_ATTEMPTS = 8"

definition MAX_RETRY_DELAY_MS :: int where
  "MAX_RETRY_DELAY_MS = 6 * 60 * 60 * 1000"

definition shouldAutoDisable :: "int \<Rightarrow> bool" where
  "shouldAutoDisable consecutiveFailures \<longleftrightarrow> consecutiveFailures \<ge> AUTO_DISABLE_THRESHOLD"

text \<open>\<open>skipDuplicates\<close>: a webhook has at most one delivery per outbox event (unique constraint).\<close>

definition dispatchOrgWebhooks :: "instant \<Rightarrow> (id \<Rightarrow> id) \<Rightarrow> id \<Rightarrow> string \<Rightarrow> id option \<Rightarrow> webhook_db \<Rightarrow> webhook_db" where
  "dispatchOrgWebhooks now uuid orgId type event db =
     (let hooks = filter (\<lambda>h. wh_org_id h = orgId \<and> wh_is_active h \<and> type \<in> set (wh_events h)) (wb_hooks db);
          new = map (\<lambda>h. \<lparr>wd_id = uuid (wh_id h), wd_outbox_event_id = event, wd_webhook_id = Some (wh_id h),
                  wd_org_id = orgId, wd_status = ''queued'', wd_attempts = 0, wd_next_attempt_at = now,
                  wd_updated_at = now, wd_response_status = None, wd_last_error = None\<rparr>)
                (filter (\<lambda>h. event = None \<or> \<not> (\<exists>d\<in>set (wb_deliveries db).
                   wd_outbox_event_id d = event \<and> wd_webhook_id d = Some (wh_id h))) hooks)
      in db\<lparr>wb_deliveries := new @ wb_deliveries db\<rparr>)"

definition claimable :: "instant \<Rightarrow> webhook_delivery \<Rightarrow> bool" where
  "claimable now d \<longleftrightarrow> wd_status d \<in> {''queued'', ''retrying''} \<and> wd_next_attempt_at d \<le> now"

definition delivery_claimed :: "instant \<Rightarrow> webhook_delivery \<Rightarrow> webhook_delivery" where
  "delivery_claimed now d = d\<lparr>wd_status := ''delivering'', wd_attempts := Suc (wd_attempts d), wd_updated_at := now\<rparr>"

definition delivery_ok :: "instant \<Rightarrow> int \<Rightarrow> webhook_delivery \<Rightarrow> webhook_delivery" where
  "delivery_ok t status d = d\<lparr>wd_status := ''delivered'', wd_response_status := Some status, wd_last_error := None, wd_updated_at := t\<rparr>"

definition delivery_failed :: "instant \<Rightarrow> nat \<Rightarrow> int option \<Rightarrow> string \<Rightarrow> webhook_delivery \<Rightarrow> webhook_delivery" where
  "delivery_failed t n status msg d =
     d\<lparr>wd_status := (if n \<ge> MAX_DELIVERY_ATTEMPTS then ''dead_letter'' else ''retrying''),
       wd_next_attempt_at := t + backoff MAX_RETRY_DELAY_MS n,
       wd_response_status := status, wd_last_error := Some msg, wd_updated_at := t\<rparr>"

definition delivered_status :: "int option \<Rightarrow> bool" where
  "delivered_status s \<longleftrightarrow> (case s of None \<Rightarrow> False | Some c \<Rightarrow> 200 \<le> c \<and> c < 300)"

definition on_delivery :: "id \<Rightarrow> (webhook_delivery \<Rightarrow> webhook_delivery) \<Rightarrow> webhook_db \<Rightarrow> webhook_db" where
  "on_delivery i f db = db\<lparr>wb_deliveries := update_where (\<lambda>d. wd_id d = i) f (wb_deliveries db)\<rparr>"

definition on_hook :: "(webhook \<Rightarrow> bool) \<Rightarrow> (webhook \<Rightarrow> webhook) \<Rightarrow> webhook_db \<Rightarrow> webhook_db" where
  "on_hook p f db = db\<lparr>wb_hooks := update_where p f (wb_hooks db)\<rparr>"

text \<open>A direct delivery: \<open>send\<close> is the signed request, \<open>None\<close> a network error.  The failure streak is
  counted from the caller's copy of the endpoint.\<close>

definition deliverToWebhook :: "(webhook \<Rightarrow> int option) \<Rightarrow> webhook \<Rightarrow> webhook_db \<Rightarrow> bool \<times> webhook_db" where
  "deliverToWebhook send hook db =
     (if delivered_status (send hook)
      then (True, on_hook (\<lambda>h. wh_id h = wh_id hook) (\<lambda>h. h\<lparr>wh_failure_count := 0\<rparr>) db)
      else (let failures = wh_failure_count hook + 1
            in (False, on_hook (\<lambda>h. wh_id h = wh_id hook)
                  (\<lambda>h. h\<lparr>wh_failure_count := failures,
                         wh_is_active := (if shouldAutoDisable failures then False else wh_is_active h)\<rparr>) db)))"

text \<open>The bookkeeping on the endpoint after a failure: count it, disable the endpoint at the threshold
  and tell the administrators, whom \<open>admins\<close> lists.\<close>

definition hook_failed :: "(id \<Rightarrow> id list) \<Rightarrow> id \<Rightarrow> webhook_db \<Rightarrow> webhook_db" where
  "hook_failed admins hookId db =
     (let db1 = on_hook (\<lambda>h. wh_id h = hookId) (\<lambda>h. h\<lparr>wh_failure_count := wh_failure_count h + 1\<rparr>) db
      in case find_first (\<lambda>h. wh_id h = hookId) (wb_hooks db1) of
           None \<Rightarrow> db1
         | Some hook \<Rightarrow>
             if shouldAutoDisable (wh_failure_count hook)
             then (if count_where (\<lambda>h. wh_id h = hookId \<and> wh_is_active h) (wb_hooks db1) = 0 then db1
                   else (on_hook (\<lambda>h. wh_id h = hookId \<and> wh_is_active h) (\<lambda>h. h\<lparr>wh_is_active := False\<rparr>) db1)
                     \<lparr>wb_log := map (\<lambda>u. Notify u ''webhook_disabled'' hookId) (admins (wh_org_id hook)) @ wb_log db1\<rparr>)
             else db1)"

definition claim_delivery :: "instant \<Rightarrow> id \<Rightarrow> webhook_db \<Rightarrow> webhook_delivery option \<times> webhook_db" where
  "claim_delivery now i db =
     (if count_where (\<lambda>d. wd_id d = i \<and> claimable now d) (wb_deliveries db) = 0 then (None, db)
      else (let db1 = db\<lparr>wb_deliveries := update_where (\<lambda>d. wd_id d = i \<and> claimable now d) (delivery_claimed now) (wb_deliveries db)\<rparr>
            in (find_first (\<lambda>d. wd_id d = i) (wb_deliveries db1), db1)))"

definition settle_delivery ::
    "(id \<Rightarrow> id list) \<Rightarrow> instant \<Rightarrow> int option \<Rightarrow> string \<Rightarrow> webhook_delivery \<Rightarrow> webhook_db \<Rightarrow> webhook_db" where
  "settle_delivery admins t status msg d db =
     (if delivered_status status
      then (let db1 = on_delivery (wd_id d) (delivery_ok t (coalesce status 0)) db
            in case wd_webhook_id d of None \<Rightarrow> db1
               | Some h \<Rightarrow> on_hook (\<lambda>w. wh_id w = h) (\<lambda>w. w\<lparr>wh_failure_count := 0\<rparr>) db1)
      else (let db1 = on_delivery (wd_id d) (delivery_failed t (wd_attempts d) status msg) db
            in case wd_webhook_id d of None \<Rightarrow> db1 | Some h \<Rightarrow> hook_failed admins h db1))"

definition attemptQueuedDelivery ::
    "(id \<Rightarrow> id list) \<Rightarrow> (webhook_delivery \<Rightarrow> int option \<times> string) \<Rightarrow> instant \<Rightarrow> id \<Rightarrow> webhook_db \<Rightarrow> webhook_db" where
  "attemptQueuedDelivery admins send now i db =
     (case claim_delivery now i db of
        (None, db1) \<Rightarrow> db1
      | (Some d, db1) \<Rightarrow> (case send d of (status, msg) \<Rightarrow> settle_delivery admins now status msg d db1))"

definition recovered :: "instant \<Rightarrow> webhook_delivery \<Rightarrow> webhook_delivery" where
  "recovered now d = d\<lparr>wd_status := ''retrying'', wd_next_attempt_at := now, wd_last_error := Some ''Recovered stale delivery claim'', wd_updated_at := now\<rparr>"

definition stale_claim :: "instant \<Rightarrow> webhook_delivery \<Rightarrow> bool" where
  "stale_claim now d \<longleftrightarrow> wd_status d = ''delivering'' \<and> wd_updated_at d < now - 10 * 60000"

definition retryDueWebhookDeliveries ::
    "(id \<Rightarrow> id list) \<Rightarrow> (webhook_delivery \<Rightarrow> int option \<times> string) \<Rightarrow> instant \<Rightarrow> webhook_db \<Rightarrow> nat \<times> webhook_db" where
  "retryDueWebhookDeliveries admins send now db =
     (let db1 = db\<lparr>wb_deliveries := update_where (stale_claim now) (recovered now) (wb_deliveries db)\<rparr>;
          due = take 100 (sort_key wd_next_attempt_at (filter (claimable now) (wb_deliveries db1)))
      in (length due, fold (\<lambda>d. attemptQueuedDelivery admins send now (wd_id d)) due db1))"

definition replayWebhookDelivery ::
    "(id \<Rightarrow> id list) \<Rightarrow> (webhook_delivery \<Rightarrow> int option \<times> string) \<Rightarrow> instant \<Rightarrow> id \<Rightarrow> id \<Rightarrow> id \<Rightarrow> webhook_db \<Rightarrow> bool \<times> webhook_db" where
  "replayWebhookDelivery admins send now orgId webhookId deliveryId db =
     (case find_first (\<lambda>d. wd_id d = deliveryId \<and> wd_webhook_id d = Some webhookId \<and> wd_org_id d = orgId \<and>
          wd_status d = ''dead_letter'') (wb_deliveries db) of
        None \<Rightarrow> (False, db)
      | Some d \<Rightarrow>
          (True, attemptQueuedDelivery admins send now (wd_id d)
             (on_delivery (wd_id d) (\<lambda>d. d\<lparr>wd_status := ''queued'', wd_attempts := 0, wd_next_attempt_at := now,
                wd_last_error := None, wd_response_status := None, wd_updated_at := now\<rparr>) db)))"

subsection \<open>Claims and settlements of the outbox\<close>

lemma fold_update_where:
  assumes "distinct (map key es)" "\<And>e r. key (g e r) = key r"
  shows "fold (\<lambda>e. update_where (\<lambda>r. key r = key e \<and> q r) (g e)) es rows =
    map (\<lambda>r. case find (\<lambda>e. key e = key r) es of None \<Rightarrow> r | Some e \<Rightarrow> if q r then g e r else r) rows"
  using assms(1)
proof (induction es arbitrary: rows)
  case Nil
  show ?case by simp
next
  case (Cons e es)
  have none: "find (\<lambda>e'. key e' = key r) es = None" if k: "key r = key e" for r
    using Cons.prems k by (simp add: find_None_iff) (metis image_eqI)
  show ?case using Cons none assms(2) by (auto simp: update_where_def comp_def)
qed

lemma picked_due:
  "i \<in> set (picked_ids limit now rows) \<Longrightarrow> \<exists>r\<in>set rows. ob_id r = i \<and> outbox_due now r"
  by (auto simp: picked_ids_def dest!: in_set_takeD)

lemma row_of_id: "distinct (map k rows) \<Longrightarrow> r \<in> set rows \<Longrightarrow> s \<in> set rows \<Longrightarrow> k r = k s \<Longrightarrow> r = s"
  by (auto simp: distinct_map inj_on_def)

lemma picked_row:
  assumes "distinct (map ob_id rows)" "r \<in> set rows" "ob_id r \<in> set (picked_ids limit now rows)"
  shows "outbox_due now r"
  using assms picked_due[of "ob_id r" limit now rows] row_of_id[of ob_id rows] by metis

lemma claim_batch_fst:
  "fst (claim_batch limit now token rows) =
     map (outbox_claimed now token) (filter (\<lambda>r. ob_id r \<in> set (picked_ids limit now rows)) rows)"
proof -
  have "filter (\<lambda>r. ob_id r \<in> P) (update_where (\<lambda>r. ob_id r \<in> P) (outbox_claimed now token) xs) =
      map (outbox_claimed now token) (filter (\<lambda>r. ob_id r \<in> P) xs)" for P xs
    by (induction xs) (auto simp: outbox_claimed_def)
  then show ?thesis by (simp add: claim_batch_def Let_def)
qed

lemma claim_batch_snd:
  "snd (claim_batch limit now token rows) =
     map (\<lambda>r. if ob_id r \<in> set (picked_ids limit now rows) then outbox_claimed now token r else r) rows"
  by (simp add: claim_batch_def Let_def update_where_def)

text \<open>What one batch does to one row it picks: the attempt is counted and the row is settled.\<close>

definition outbox_outcome ::
    "(outbox_row \<Rightarrow> bool) \<Rightarrow> instant \<Rightarrow> instant \<Rightarrow> (outbox_row \<Rightarrow> string) \<Rightarrow> id \<Rightarrow> outbox_row \<Rightarrow> outbox_row" where
  "outbox_outcome ok now t msg token r =
     (let c = outbox_claimed now token r; n = ob_attempts r in
      if ok c
      then r\<lparr>ob_attempts := n + 1, ob_claimed_at := None, ob_claim_token := None, ob_published_at := Some t, ob_last_error := None\<rparr>
      else r\<lparr>ob_attempts := n + 1, ob_claimed_at := None, ob_claim_token := None, ob_last_error := Some (msg c),
             ob_next_attempt_at := now + min (60 * 60000) (30000 * 2 ^ n),
             ob_dead_lettered_at := (if 8 \<le> n + 1 then Some t else ob_dead_lettered_at r)\<rparr>)"

lemma settled_key [simp]: "ob_id (settled_ok t r) = ob_id r" "ob_id (settled_failed now t msg n r) = ob_id r"
  "ob_id (outbox_claimed now token r) = ob_id r"
  by (simp_all add: settled_ok_def settled_failed_def outbox_claimed_def Let_def)

lemma find_own:
  assumes "distinct (map k xs)" "x \<in> set xs"
  shows "find (\<lambda>y. k y = k x) xs = Some x"
  using assms by (induction xs) (auto simp: image_iff)

lemma outcome_settled:
  "outbox_outcome ok now t msg token r =
     (let c = outbox_claimed now token r in
      if ok c then settled_ok t c else settled_failed now t (msg c) (ob_attempts c) c)"
  by (simp add: outbox_outcome_def settled_ok_def settled_failed_def outbox_claimed_def backoff_def MAX_ATTEMPTS_def Let_def)

lemma outbox_due_unpublished: "outbox_due now r \<Longrightarrow> ob_published_at r = None \<and> ob_attempts r < 8"
  by (simp add: outbox_due_def MAX_ATTEMPTS_def)

lemma outbox_rows:
  assumes ids: "distinct (map ob_id rows)"
  shows "publishOutboxBatch notify publish msg limit now t token rows =
    (length (filter (\<lambda>r. ob_id r \<in> set (picked_ids limit now rows)) rows),
     map (\<lambda>r. if ob_id r \<in> set (picked_ids limit now rows)
              then outbox_outcome (publish_event notify publish) now t msg token r else r) rows)"
proof -
  let ?P = "set (picked_ids limit now rows)" and ?q = "\<lambda>r. ob_claim_token r = Some token \<and> ob_published_at r = None"
  define es rows' where es: "es = fst (claim_batch limit now token rows)"
    and rows': "rows' = snd (claim_batch limit now token rows)"
  let ?g = "\<lambda>e. if publish_event notify publish e then settled_ok t else settled_failed now t (msg e) (ob_attempts e)"
  have dist: "distinct (map ob_id es)"
    using ids by (simp add: es claim_batch_fst comp_def distinct_map_filter)
  have "fold (\<lambda>e. settle (publish_event notify publish e) now t (msg e) token e) es rows' =
      fold (\<lambda>e. update_where (\<lambda>r. ob_id r = ob_id e \<and> ?q r) (?g e)) es rows'"
    by (rule fold_cong) (auto simp: settle_def holds_claim_def[abs_def] fun_eq_iff)
  also have "\<dots> = map (\<lambda>r. case find (\<lambda>e. ob_id e = ob_id r) es of None \<Rightarrow> r | Some e \<Rightarrow> if ?q r then ?g e r else r) rows'"
    by (rule fold_update_where[OF dist]) simp
  also have "\<dots> = map (\<lambda>r. if ob_id r \<in> ?P then outbox_outcome (publish_event notify publish) now t msg token r else r) rows"
    unfolding rows' claim_batch_snd list.map_comp
  proof (rule map_cong[OF refl])
    fix r assume r: "r \<in> set rows"
    show "((\<lambda>r. case find (\<lambda>e. ob_id e = ob_id r) es of None \<Rightarrow> r | Some e \<Rightarrow> if ?q r then ?g e r else r) \<circ>
        (\<lambda>r. if ob_id r \<in> ?P then outbox_claimed now token r else r)) r =
      (if ob_id r \<in> ?P then outbox_outcome (publish_event notify publish) now t msg token r else r)"
    proof (cases "ob_id r \<in> ?P")
      case True
      have "outbox_claimed now token r \<in> set es" using r True by (auto simp: es claim_batch_fst)
      from find_own[OF dist this] have "find (\<lambda>e. ob_id e = ob_id r) es = Some (outbox_claimed now token r)" by simp
      moreover have "?q (outbox_claimed now token r)"
        using outbox_due_unpublished[OF picked_row[OF ids r True]] by (simp add: outbox_claimed_def)
      ultimately show ?thesis using True by (simp add: outcome_settled Let_def)
    next
      case False
      then have "find (\<lambda>e. ob_id e = ob_id r) es = None" by (auto simp: es claim_batch_fst find_None_iff)
      with False show ?thesis by simp
    qed
  qed
  finally show ?thesis
    by (simp add: publishOutboxBatch_def es rows' claim_batch_fst split: prod.splits)
      (metis (no_types, lifting) claim_batch_fst fst_conv length_map snd_conv)
qed

text \<open>C17: a whole run of the outbox worker (claiming, publishing each claimed
  event, settling each) acts row by row.  It leaves every row that was not picked as it was; a picked
  row has one more attempt, and is either published, or released with the error, due again after the
  capped exponential delay, and dead-lettered at the eighth attempt.\<close>

theorem outbox_batch_refines:
  assumes ids: "distinct (map ob_id rows)"
  shows "publishOutboxBatch notify publish msg limit now t token rows =
    (length (filter (\<lambda>r. ob_id r \<in> set (picked_ids limit now rows)) rows),
     map (\<lambda>r. if ob_id r \<in> set (picked_ids limit now rows)
              then outbox_outcome (publish_event notify publish) now t msg token r else r) rows)"
  by (rule outbox_rows[OF ids])

definition ob_row :: "id \<Rightarrow> nat \<Rightarrow> instant \<Rightarrow> outbox_row" where
  "ob_row i n tm = \<lparr>ob_id = i, ob_org_id = ''o'', ob_event_type = ''leave_changed'', ob_payload = None, ob_created_at = tm,
     ob_attempts = n, ob_next_attempt_at = tm, ob_claimed_at = None, ob_claim_token = None, ob_published_at = None,
     ob_dead_lettered_at = None, ob_last_error = None\<rparr>"

theorem outbox_batch_refines_witness:
  "distinct (map ob_id [ob_row ''a'' 7 0, ob_row ''b'' 0 5, ob_row ''c'' 0 90]) \<and>
   (case publishOutboxBatch (\<lambda>_. True) (\<lambda>r. ob_id r = ''b'') (\<lambda>_. ''down'') 100 50 51 ''t''
      [ob_row ''a'' 7 0, ob_row ''b'' 0 5, ob_row ''c'' 0 90] of (n, rows) \<Rightarrow>
      n = 2 \<and> map ob_dead_lettered_at rows = [Some 51, None, None] \<and> map ob_published_at rows = [None, Some 51, None])"
  using outbox_batch_refines[of "[ob_row ''a'' 7 0, ob_row ''b'' 0 5, ob_row ''c'' 0 90]"]
  by (simp add: ob_row_def picked_ids_def outbox_due_def outbox_outcome_def outbox_claimed_def publish_event_def
      allowedEvents_def MAX_ATTEMPTS_def)

lemma claimed_not_due:
  "now2 \<le> now1 + 5 * 60000 \<Longrightarrow> \<not> outbox_due now2 (outbox_claimed now1 token r)"
  by (simp add: outbox_due_def outbox_claimed_def)

text \<open>C16: two workers never publish the same event within the five minutes of a
  claim, and when a claim has expired and another worker has taken the event over, the first worker's
  late settlement changes nothing.\<close>

theorem outbox_claim_exclusive:
  assumes ids: "distinct (map ob_id rows)"
    and first: "claim_batch limit1 now1 token1 rows = (events1, rows1)"
    and second: "claim_batch limit2 now2 token2 rows1 = (events2, rows2)"
  shows "(now2 \<le> now1 + 5 * 60000 \<longrightarrow> set (map ob_id events1) \<inter> set (map ob_id events2) = {}) \<and>
    (token1 \<noteq> token2 \<longrightarrow> (\<forall>e\<in>set events1. ob_id e \<in> set (map ob_id events2) \<longrightarrow>
       settle ok now t msg token1 e rows2 = rows2))"
proof (intro conjI impI ballI)
  let ?P1 = "set (picked_ids limit1 now1 rows)" and ?P2 = "set (picked_ids limit2 now2 rows1)"
  have e1: "events1 = map (outbox_claimed now1 token1) (filter (\<lambda>r. ob_id r \<in> ?P1) rows)"
    using first claim_batch_fst[of limit1 now1 token1 rows] by simp
  have r1: "rows1 = map (\<lambda>r. if ob_id r \<in> ?P1 then outbox_claimed now1 token1 r else r) rows"
    using first claim_batch_snd[of limit1 now1 token1 rows] by simp
  have e2: "events2 = map (outbox_claimed now2 token2) (filter (\<lambda>r. ob_id r \<in> ?P2) rows1)"
    using second claim_batch_fst[of limit2 now2 token2 rows1] by simp
  have r2: "rows2 = map (\<lambda>r. if ob_id r \<in> ?P2 then outbox_claimed now2 token2 r else r) rows1"
    using second claim_batch_snd[of limit2 now2 token2 rows1] by simp
  {
    assume lease: "now2 \<le> now1 + 5 * 60000"
    have "\<not> (i \<in> ?P1 \<and> i \<in> ?P2)" for i
    proof
      assume i: "i \<in> ?P1 \<and> i \<in> ?P2"
      then obtain s where s: "s \<in> set rows1" "ob_id s = i" "outbox_due now2 s" using picked_due by blast
      then have "\<exists>r. s = outbox_claimed now1 token1 r" using i by (auto simp: r1)
      then show False using s(3) claimed_not_due[OF lease] by blast
    qed
    then show "set (map ob_id events1) \<inter> set (map ob_id events2) = {}" by (auto simp: e1 e2)
  }
  fix e assume tok: "token1 \<noteq> token2" and e: "e \<in> set events1" "ob_id e \<in> set (map ob_id events2)"
  then have "ob_id e \<in> ?P2" by (auto simp: e2)
  then have "\<not> holds_claim (ob_id e) token1 r" if r: "r \<in> set rows2" for r
    using r tok by (auto simp: r2 holds_claim_def outbox_claimed_def)
  then show "settle ok now t msg token1 e rows2 = rows2"
    by (auto simp: settle_def update_where_def intro: map_idI)
qed

theorem outbox_claim_exclusive_witness:
  "\<exists>events1 rows1 events2 rows2.
     claim_batch 10 50 ''t'' [ob_row ''a'' 0 0] = (events1, rows1) \<and>
     claim_batch 10 400000 ''u'' rows1 = (events2, rows2) \<and> map ob_id events1 = [''a''] \<and> map ob_id events2 = [''a''] \<and>
     settle True 50 400001 [] ''t'' (hd events1) rows2 = rows2"
proof -
  let ?c1 = "claim_batch 10 50 ''t'' [ob_row ''a'' 0 0]"
  let ?c2 = "claim_batch 10 400000 ''u'' (snd ?c1)"
  have ev: "map ob_id (fst ?c1) = [''a'']" "map ob_id (fst ?c2) = [''a'']" by code_simp+
  then have hd: "hd (fst ?c1) \<in> set (fst ?c1)" "ob_id (hd (fst ?c1)) \<in> set (map ob_id (fst ?c2))"
    by (auto simp: map_eq_Cons_conv)
  have "settle True 50 400001 [] ''t'' (hd (fst ?c1)) (snd ?c2) = snd ?c2"
    using outbox_claim_exclusive[of "[ob_row ''a'' 0 0]" 10 50 "''t''" "fst ?c1" "snd ?c1" 10 400000 "''u''" "fst ?c2" "snd ?c2"
        True 50 400001 "[]"] hd by simp
  then show ?thesis using ev by (metis prod.collapse)
qed

subsection \<open>Bounded attempts\<close>

definition outbox_claims :: "outbox_row \<Rightarrow> outbox_row \<Rightarrow> bool" where
  "outbox_claims r s \<longleftrightarrow> (\<exists>now token. outbox_due now r \<and> s = outbox_claimed now token r)"

definition outbox_settles :: "outbox_row \<Rightarrow> outbox_row \<Rightarrow> bool" where
  "outbox_settles r s \<longleftrightarrow> (\<exists>now t msg n. s = settled_ok t r \<or> s = settled_failed now t msg n r)"

interpretation outbox: retry_queue "\<lambda>_. True" ob_attempts outbox_claims outbox_settles 8
  by unfold_locales
    (auto simp: outbox_claims_def outbox_settles_def outbox_due_def outbox_claimed_def settled_ok_def settled_failed_def
      MAX_ATTEMPTS_def Let_def)

definition delivery_claims :: "webhook_delivery \<Rightarrow> webhook_delivery \<Rightarrow> bool" where
  "delivery_claims d e \<longleftrightarrow> (\<exists>now. claimable now d \<and> e = delivery_claimed now d)"

definition delivery_settles :: "webhook_delivery \<Rightarrow> webhook_delivery \<Rightarrow> bool" where
  "delivery_settles d e \<longleftrightarrow> wd_status d = ''delivering'' \<and>
     (\<exists>t status msg c. e = delivery_ok t c d \<or> e = delivery_failed t (wd_attempts d) status msg d)"

definition delivery_ok_row :: "webhook_delivery \<Rightarrow> bool" where
  "delivery_ok_row d \<longleftrightarrow> wd_status d \<in> {''queued'', ''retrying''} \<longrightarrow> wd_attempts d < 8"

interpretation webhook: retry_queue delivery_ok_row wd_attempts delivery_claims delivery_settles 8
  by unfold_locales
    (auto simp: delivery_ok_row_def delivery_claims_def delivery_settles_def claimable_def delivery_claimed_def
      delivery_ok_def delivery_failed_def MAX_DELIVERY_ATTEMPTS_def split: if_splits)

text \<open>Whatever the order of claims and settlements, an outbox event and a
  queued webhook delivery are attempted at most eight times (for a webhook, as long as no worker dies
  between its claim and its settlement: the recovery of stale claims does not look at the count).\<close>

theorem delivery_attempts_bounded:
  "(queue_run outbox_claims outbox_settles r n s \<longrightarrow> n \<le> 8 \<and> ob_attempts s = ob_attempts r + n) \<and>
   (wd_status d = ''queued'' \<and> wd_attempts d = 0 \<longrightarrow> queue_run delivery_claims delivery_settles d m e \<longrightarrow>
      m \<le> 8 \<and> wd_attempts e = m)"
  using outbox.bounded[of r n s] outbox.run_counts[of r n s] webhook.bounded[of d m e] webhook.run_counts[of d m e]
  by (simp add: delivery_ok_row_def)

definition wd_row :: webhook_delivery where
  "wd_row = \<lparr>wd_id = ''d'', wd_outbox_event_id = None, wd_webhook_id = Some ''w'', wd_org_id = ''o'', wd_status = ''queued'',
     wd_attempts = 0, wd_next_attempt_at = 0, wd_updated_at = 0, wd_response_status = None, wd_last_error = None\<rparr>"

theorem delivery_attempts_bounded_witness:
  "queue_run delivery_claims delivery_settles wd_row (Suc 0) (delivery_failed 2 1 (Some 500) ''HTTP 500'' (delivery_claimed 1 wd_row)) \<and>
   Suc 0 \<le> 8 \<and> queue_run outbox_claims outbox_settles (ob_row ''a'' 0 0) (Suc 0) (outbox_claimed 1 ''t'' (ob_row ''a'' 0 0)) \<and>
   ob_attempts (outbox_claimed 1 ''t'' (ob_row ''a'' 0 0)) = 1"
proof -
  have c: "queue_run delivery_claims delivery_settles wd_row (Suc 0) (delivery_claimed 1 wd_row)"
    by (rule queue_run.claimed[OF queue_run.idle]) (auto simp: delivery_claims_def claimable_def wd_row_def intro!: exI[of _ 1])
  have w: "queue_run delivery_claims delivery_settles wd_row (Suc 0) (delivery_failed 2 1 (Some 500) ''HTTP 500'' (delivery_claimed 1 wd_row))"
    using c by (rule queue_run.moved) (auto simp: delivery_settles_def delivery_claimed_def wd_row_def)
  have o: "queue_run outbox_claims outbox_settles (ob_row ''a'' 0 0) (Suc 0) (outbox_claimed 1 ''t'' (ob_row ''a'' 0 0))"
    by (rule queue_run.claimed[OF queue_run.idle])
      (auto simp: outbox_claims_def outbox_due_def ob_row_def MAX_ATTEMPTS_def intro!: exI[of _ 1])
  show ?thesis
    using delivery_attempts_bounded[of "ob_row ''a'' 0 0" "Suc 0" "outbox_claimed 1 ''t'' (ob_row ''a'' 0 0)" wd_row] w o
    by (simp add: wd_row_def ob_row_def)
qed

subsection \<open>Every event is settled\<close>

record worker_run =
  wr_now :: instant
  wr_done :: instant
  wr_token :: id
  wr_notify :: "(string \<times> string) list \<Rightarrow> bool"
  wr_publish :: "outbox_row \<Rightarrow> bool"
  wr_message :: "outbox_row \<Rightarrow> string"

fun worker_runs :: "int \<Rightarrow> worker_run list \<Rightarrow> outbox_row list \<Rightarrow> outbox_row list" where
  "worker_runs limit [] rows = rows"
| "worker_runs limit (w # ws) rows =
     worker_runs limit ws (snd (publishOutboxBatch (wr_notify w) (wr_publish w) (wr_message w) limit (wr_now w) (wr_done w) (wr_token w) rows))"

definition event_settled :: "outbox_row \<Rightarrow> bool" where
  "event_settled r \<longleftrightarrow> ob_published_at r \<noteq> None \<or> ob_dead_lettered_at r \<noteq> None"

text \<open>A row nobody holds, with at least \<open>k\<close> attempts behind it, that is due by \<open>now\<close>.\<close>

definition event_waiting :: "nat \<Rightarrow> instant \<Rightarrow> outbox_row \<Rightarrow> bool" where
  "event_waiting k now r \<longleftrightarrow> ob_claimed_at r = None \<and> k \<le> ob_attempts r \<and> ob_attempts r < 8 \<and> ob_next_attempt_at r \<le> now"

fun hourly :: "instant \<Rightarrow> worker_run list \<Rightarrow> bool" where
  "hourly t [] = True"
| "hourly t (w # ws) = (t \<le> wr_now w \<and> hourly (wr_now w + 60 * 60000) ws)"

lemma all_picked:
  assumes "length rows \<le> 500" "int (length rows) \<le> limit" "r \<in> set rows" "outbox_due now r"
  shows "ob_id r \<in> set (picked_ids limit now rows)"
proof -
  have "length (sort_key ob_created_at (filter (outbox_due now) rows)) \<le> nat (max 1 (min 500 limit))"
    using assms(1,2) le_trans[OF length_filter_le[of "outbox_due now" rows], of "nat (max 1 (min 500 limit))"]
    by (simp add: le_nat_iff)
  then show ?thesis using assms(3,4) by (simp add: picked_ids_def)
qed

lemma outcome_waits:
  assumes "event_waiting k now r"
  shows "event_settled (outbox_outcome ok now t msg token r) \<or>
    event_waiting (Suc k) (now + 60 * 60000) (outbox_outcome ok now t msg token r)"
proof (cases "ok (outbox_claimed now token r)")
  case True
  then show ?thesis by (simp add: outbox_outcome_def Let_def event_settled_def)
next
  case False
  moreover have "now + min (60 * 60000) d \<le> now + 60 * 60000" for d :: int by simp
  ultimately show ?thesis using assms
    by (cases "8 \<le> ob_attempts r + 1") (simp_all add: outbox_outcome_def Let_def event_settled_def event_waiting_def)
qed

lemma run_settles:
  assumes ids: "distinct (map ob_id rows)" and len: "length rows \<le> 500" "int (length rows) \<le> limit"
    and rows: "\<forall>r\<in>set rows. event_settled r \<or> event_waiting k now r"
    and rows': "rows' = snd (publishOutboxBatch notify publish msg limit now t token rows)"
  shows "(\<forall>r\<in>set rows'. event_settled r \<or> event_waiting (Suc k) (now + 60 * 60000) r) \<and>
    distinct (map ob_id rows') \<and> length rows' = length rows"
proof -
  let ?f = "\<lambda>r. if ob_id r \<in> set (picked_ids limit now rows) then outbox_outcome (publish_event notify publish) now t msg token r else r"
  have eq: "rows' = map ?f rows" using outbox_rows[OF ids] by (simp add: rows')
  have "\<forall>r\<in>set rows. event_settled (?f r) \<or> event_waiting (Suc k) (now + 60 * 60000) (?f r)"
  proof
    fix r assume r: "r \<in> set rows"
    show "event_settled (?f r) \<or> event_waiting (Suc k) (now + 60 * 60000) (?f r)"
    proof (cases "event_settled r")
      case True
      then have "ob_id r \<notin> set (picked_ids limit now rows)"
        using picked_row[OF ids r, of limit now] by (auto simp: event_settled_def outbox_due_def)
      then show ?thesis using True by simp
    next
      case False
      then have w: "event_waiting k now r" using rows r by blast
      then have "outbox_due now r" using False by (simp add: event_waiting_def event_settled_def outbox_due_def MAX_ATTEMPTS_def)
      then have "ob_id r \<in> set (picked_ids limit now rows)" by (rule all_picked[OF len r])
      then show ?thesis using w outcome_waits[OF w] by simp
    qed
  qed
  then have "\<forall>r\<in>set rows'. event_settled r \<or> event_waiting (Suc k) (now + 60 * 60000) r"
    unfolding eq set_map by blast
  moreover have "map ob_id rows' = map ob_id rows"
    by (simp add: eq outbox_outcome_def Let_def)
  moreover have "length rows' = length rows" by (simp add: eq)
  ultimately show ?thesis using ids by metis
qed

lemma runs_settle:
  assumes "distinct (map ob_id rows)" "length rows \<le> 500" "int (length rows) \<le> limit" "hourly now ws"
    "\<forall>r\<in>set rows. event_settled r \<or> event_waiting k now r" "8 \<le> k + length ws"
  shows "\<forall>r\<in>set (worker_runs limit ws rows). event_settled r"
  using assms
proof (induction ws arbitrary: rows now k)
  case Nil
  then show ?case by (auto simp: event_waiting_def)
next
  case (Cons w ws)
  let ?rows = "snd (publishOutboxBatch (wr_notify w) (wr_publish w) (wr_message w) limit (wr_now w) (wr_done w) (wr_token w) rows)"
  have "\<forall>r\<in>set rows. event_settled r \<or> event_waiting k (wr_now w) r" using Cons.prems(4,5) by (auto simp: event_waiting_def)
  from run_settles[OF Cons.prems(1-3) this refl]
  have step: "\<forall>r\<in>set ?rows. event_settled r \<or> event_waiting (Suc k) (wr_now w + 60 * 60000) r" "distinct (map ob_id ?rows)"
    "length ?rows = length rows" by blast+
  show ?case using Cons.IH[OF step(2) _ _ _ step(1)] Cons.prems step(3) by simp
qed


definition ob_run :: "int \<Rightarrow> worker_run" where
  "ob_run k = \<lparr>wr_now = k * 3600000, wr_done = k * 3600000, wr_token = ''t'', wr_notify = (\<lambda>_. False), wr_publish = (\<lambda>_. False), wr_message = (\<lambda>_. ''down'')\<rparr>"


end
