(* ===== verification/Json.thy ===== *)
theory Json
  imports Prelude
begin

text \<open>
  JSON values as \<open>JSON.parse\<close> returns them (objects keep the order of their keys), and the decimal
  rendering of natural numbers.
\<close>

datatype json = JNull | JBool bool | JNum rat | JStr string | JArr "json list" | JObj "(string \<times> json) list"

fun dec_string :: "nat \<Rightarrow> string" where
  "dec_string n = (if n < 10 then [char_of (48 + n)] else dec_string (n div 10) @ [char_of (48 + n mod 10)])"

declare dec_string.simps [simp del]

lemma digit_char: "k < 10 \<Longrightarrow> is_digit (char_of (48 + k)) \<and> (of_char (char_of (48 + k) :: char) :: nat) = 48 + k"
  by (simp add: is_digit_def)

lemma dec_string_digits: "list_all is_digit (dec_string n)"
proof (induction n rule: dec_string.induct)
  case (1 n)
  then show ?case using digit_char[of n] digit_char[of "n mod 10"]
    by (cases "n < 10") (simp_all add: dec_string.simps[of n])
qed

lemma dec_string_value: "dec_value (dec_string n) = n"
proof (induction n rule: dec_string.induct)
  case (1 n)
  then show ?case using digit_char[of n] digit_char[of "n mod 10"]
    by (cases "n < 10") (simp_all add: dec_string.simps[of n] dec_value_def)
qed

lemma dec_string_nonempty: "dec_string n \<noteq> []"
  by (simp add: dec_string.simps[of n])

end
