(* ===== verification/Idempotency.thy ===== *)
theory Idempotency
  imports Json "HOL-Library.List_Lexorder" "HOL-Library.Product_Lexorder"
begin

text \<open>
  Idempotency keys: \<^verbatim>\<open>src/src/middleware/idempotency.ts\<close> and the sealing of stored responses
  (\<^verbatim>\<open>src/src/utils/idempotencyResponse.ts\<close>).

  The parameters are gathered in \<open>idem_env\<close>: the SHA-256 digests, the collation key that
  \<open>localeCompare\<close> compares, the byte length of a serialised value, AES-256-GCM (\<open>seal\<close> yields the
  ciphertext and the tag; \<open>unseal\<close> is \<open>None\<close> when the tag does not match) and the environment
  variables.  A body handed to \<open>res.send\<close> is the JSON value it stands for.  The check of a request and
  the answer of its handler are separate steps, and \<open>idem_step\<close> interleaves them with the steps of
  other requests and with the daily purge.
\<close>

subsection \<open>Values and their canonical form\<close>

lemma json_entry_size: "(k, v) \<in> set es \<Longrightarrow> size v < Suc (size_list (size_prod (\<lambda>_. 0) size) es)"
  by (induction es) auto

function stableValue :: "(string \<Rightarrow> nat list) \<Rightarrow> json \<Rightarrow> json" where
  "stableValue collate (JArr vs) = JArr (map (stableValue collate) vs)"
| "stableValue collate (JObj es) =
     JObj (map (\<lambda>(key, item). (key, stableValue collate item)) (sort_key (\<lambda>e. collate (fst e)) es))"
| "stableValue collate JNull = JNull"
| "stableValue collate (JBool b) = JBool b"
| "stableValue collate (JNum q) = JNum q"
| "stableValue collate (JStr s) = JStr s"
  by pat_completeness auto
termination
proof (relation "measure (\<lambda>(_, v). size v)")
  fix collate :: "string \<Rightarrow> nat list" and vs :: "json list" and z
  assume "z \<in> set vs"
  then show "((collate, z), (collate, JArr vs)) \<in> measure (\<lambda>(_, v). size v)"
    by (induction vs) auto
next
  fix collate :: "string \<Rightarrow> nat list" and es :: "(string \<times> json) list" and z x y
  assume "z \<in> set (sort_key (\<lambda>e. collate (fst e)) es)" "(x, y) = z"
  then show "((collate, y), (collate, JObj es)) \<in> measure (\<lambda>(_, v). size v)"
    using json_entry_size[of x y es] by auto
qed simp

fun entries :: "json \<Rightarrow> (string \<times> json) list" where
  "entries (JObj es) = es"
| "entries (JArr vs) = zip (map dec_string [0..<length vs]) vs"
| "entries _ = []"

record idem_request =
  ir_method :: string
  ir_header_key :: "string option"
  ir_body :: "json option"
  ir_path :: string
  ir_query :: "(string \<times> string) list"
  ir_file :: "json option"
  ir_user :: "(id \<times> id) option"
  ir_actor :: "string option"

record idem_env =
  en_sha :: "json \<Rightarrow> string"
  en_sha_text :: "string \<Rightarrow> string"
  en_collate :: "string \<Rightarrow> nat list"
  en_bytes :: "json \<Rightarrow> nat"
  en_seal :: "string \<Rightarrow> string \<Rightarrow> json \<Rightarrow> string \<times> string"
  en_unseal :: "string \<Rightarrow> string \<Rightarrow> string \<Rightarrow> string \<Rightarrow> json option"
  en_production :: bool
  en_configured :: "string option"
  en_jwt_refresh_secret :: "string option"
  en_encrypt :: bool

definition hashed_body :: "json option \<Rightarrow> json" where
  "hashed_body body =
     (case body of None \<Rightarrow> JNull
      | Some v \<Rightarrow>
          (case v of
             JObj es \<Rightarrow> JObj (filter (\<lambda>e. fst e \<noteq> ''offline'' \<and> fst e \<noteq> ''idempotency_key'') (entries v))
           | JArr vs \<Rightarrow> JObj (filter (\<lambda>e. fst e \<noteq> ''offline'' \<and> fst e \<noteq> ''idempotency_key'') (entries v))
           | _ \<Rightarrow> v))"

definition canonical_request :: "idem_env \<Rightarrow> idem_request \<Rightarrow> json" where
  "canonical_request env req =
     stableValue (en_collate env) (JObj
       [(''method'', JStr (ir_method req)), (''path'', JStr (ir_path req)),
        (''query'', JArr (map (\<lambda>(k, v). JArr [JStr k, JStr v])
           (sort_key (\<lambda>(k, v). (en_collate env k, en_collate env v)) (ir_query req)))),
        (''body'', hashed_body (ir_body req)), (''file'', coalesce (ir_file req) JNull)])"

definition payloadHash :: "idem_env \<Rightarrow> idem_request \<Rightarrow> string" where
  "payloadHash env req = en_sha env (canonical_request env req)"

subsection \<open>Sealed responses\<close>

definition ENVELOPE :: string where
  "ENVELOPE = ''__attenda_idempotency_response_v1''"

text \<open>The key is derived from the secret that is returned here.\<close>

definition encryptionKey :: "idem_env \<Rightarrow> string result" where
  "encryptionKey env =
     (if en_production env \<and> length (coalesce (en_configured env) []) < 32 then Inl PlainError
      else (let secret = coalesce_str (en_configured env) (coalesce (en_jwt_refresh_secret env) [])
            in if length secret < 16 then Inl PlainError else Inr secret))"

definition encryptIdempotencyResponse :: "idem_env \<Rightarrow> string \<Rightarrow> json \<Rightarrow> json result" where
  "encryptIdempotencyResponse env iv v =
     bind_result (encryptionKey env) (\<lambda>secret.
       case en_seal env secret iv v of (ciphertext, tag) \<Rightarrow>
         Inr (JObj [(ENVELOPE, JNum 1), (''iv'', JStr iv), (''tag'', JStr tag), (''ciphertext'', JStr ciphertext)]))"

definition is_envelope :: "json \<Rightarrow> bool" where
  "is_envelope v \<longleftrightarrow> (case v of JObj es \<Rightarrow> map_of es ENVELOPE = Some (JNum 1) | _ \<Rightarrow> False)"

definition text_field :: "string \<Rightarrow> json \<Rightarrow> string" where
  "text_field f v = (case map_of (entries v) f of Some (JStr s) \<Rightarrow> s | _ \<Rightarrow> [])"

definition decryptIdempotencyResponse :: "idem_env \<Rightarrow> json \<Rightarrow> json result" where
  "decryptIdempotencyResponse env v =
     (if \<not> is_envelope v then Inr v
      else bind_result (encryptionKey env) (\<lambda>secret.
        case en_unseal env secret (text_field ''iv'' v) (text_field ''tag'' v) (text_field ''ciphertext'' v) of
          None \<Rightarrow> Inl PlainError
        | Some clear \<Rightarrow> Inr clear))"

subsection \<open>The record of a key\<close>

record idem_row =
  im_id :: id
  im_org_id :: id
  im_user_id :: id
  im_key :: string
  im_request_hash :: string
  im_state :: string
  im_status_code :: "int option"
  im_response_body :: "json option"
  im_expires_at :: instant
  im_updated_at :: instant

type_synonym idem_key = "id \<times> id \<times> string"

definition key_of :: "idem_row \<Rightarrow> idem_key" where
  "key_of r = (im_org_id r, im_user_id r, im_key r)"

definition RETENTION_MS :: int where
  "RETENTION_MS = 24 * 60 * 60 * 1000"

definition MAX_RESPONSE_BYTES :: nat where
  "MAX_RESPONSE_BYTES = 256 * 1024"

datatype idem_verdict = Pass | Fail app_error | Replay int json | Execute id

definition key_ok :: "string \<Rightarrow> bool" where
  "key_ok key \<longleftrightarrow> 8 \<le> length key \<and> length key \<le> 128 \<and>
     list_all (\<lambda>c. is_digit c \<or> (65 \<le> (of_char c :: nat) \<and> (of_char c :: nat) \<le> 90) \<or>
       (97 \<le> (of_char c :: nat) \<and> (of_char c :: nat) \<le> 122) \<or> c \<in> set ''._:-'') key"

definition body_key :: "json option \<Rightarrow> string option" where
  "body_key body = Option.bind body (\<lambda>v. case map_of (entries v) ''idempotency_key'' of Some (JStr s) \<Rightarrow> Some (trim s) | _ \<Rightarrow> None)"

definition non_empty :: "string option \<Rightarrow> bool" where
  "non_empty s \<longleftrightarrow> (case s of None \<Rightarrow> False | Some x \<Rightarrow> x \<noteq> [])"

text \<open>The checks before the table is read; \<open>Inr None\<close> lets the request through without a key.\<close>

definition idem_identify :: "idem_env \<Rightarrow> idem_request \<Rightarrow> idem_key option result" where
  "idem_identify env req =
     (if ir_method req \<notin> set [''POST'', ''PUT'', ''PATCH'', ''DELETE''] then Inr None
      else (let headerKey = map_option trim (ir_header_key req); bodyKey = body_key (ir_body req) in
        if non_empty headerKey \<and> non_empty bodyKey \<and> headerKey \<noteq> bodyKey then Inl (AppError 400 ''IDEMPOTENCY_KEY_MISMATCH'')
        else case coalesce_opt headerKey bodyKey of
          None \<Rightarrow> Inr None
        | Some rawKey \<Rightarrow>
            if rawKey = [] then Inr None
            else (let key = trim rawKey; signedIn = non_empty (map_option fst (ir_user req));
                      actor = (if signedIn then None else map_option trim (ir_actor req)) in
              if \<not> key_ok key then Inl (AppError 400 ''INVALID_IDEMPOTENCY_KEY'')
              else if actor = Some [] then Inl (AppError 400 ''IDEMPOTENCY_ACTOR_REQUIRED'')
              else (let orgId = coalesce_str (map_option snd (ir_user req)) (if non_empty actor then ''AUTH_PUBLIC'' else []);
                        userId = coalesce_str (map_option fst (ir_user req))
                          (if non_empty actor then ''anon_'' @ en_sha_text env (coalesce actor []) else []) in
                if orgId = [] \<or> userId = [] then Inl (AppError 401 ''UNAUTHENTICATED'')
                else if en_encrypt env \<and> isl (encryptionKey env) then Inl (AppError 503 ''IDEMPOTENCY_ENCRYPTION_UNAVAILABLE'')
                else Inr (Some (orgId, userId, key))))))"

definition find_key :: "idem_key \<Rightarrow> idem_row list \<Rightarrow> idem_row option" where
  "find_key k rows = find_first (\<lambda>r. key_of r = k) rows"

definition answer_existing :: "idem_env \<Rightarrow> string \<Rightarrow> idem_row \<Rightarrow> idem_verdict" where
  "answer_existing env hash r =
     (if im_request_hash r \<noteq> hash then Fail (AppError 409 ''IDEMPOTENCY_KEY_REUSED'')
      else if im_state r = ''unknown'' then Fail (AppError 409 ''IDEMPOTENCY_OUTCOME_UNKNOWN'')
      else if im_state r \<noteq> ''completed'' \<or> coalesce (im_status_code r) 0 = 0
      then Fail (AppError 409 ''IDEMPOTENCY_REQUEST_IN_PROGRESS'')
      else case decryptIdempotencyResponse env (coalesce (im_response_body r) JNull) of
             Inl _ \<Rightarrow> Fail (AppError 503 ''IDEMPOTENCY_RESPONSE_UNAVAILABLE'')
           | Inr v \<Rightarrow> Replay (coalesce (im_status_code r) 0) v)"

definition expired :: "instant \<Rightarrow> idem_key \<Rightarrow> idem_row \<Rightarrow> bool" where
  "expired now k r \<longleftrightarrow> key_of r = k \<and> im_expires_at r \<le> now"

definition idem_lookup :: "instant \<Rightarrow> idem_key \<Rightarrow> idem_row list \<Rightarrow> idem_row option \<times> idem_row list" where
  "idem_lookup now k rows =
     (case find_key k rows of
        None \<Rightarrow> (None, rows)
      | Some r \<Rightarrow>
          if im_expires_at r \<le> now then (None, filter (\<lambda>x. im_id x \<noteq> im_id r) rows)
          else if im_state r = ''processing'' \<and> im_updated_at r < now - 5 * 60000
          then (let rows' = update_where (\<lambda>x. im_id x = im_id r \<and> im_state x = ''processing'' \<and> im_updated_at x = im_updated_at r)
                      (\<lambda>x. x\<lparr>im_state := ''unknown'', im_updated_at := now\<rparr>) rows
                in (find_key k rows', rows'))
          else (Some r, rows))"

definition idem_create :: "idem_env \<Rightarrow> instant \<Rightarrow> id \<Rightarrow> idem_key \<Rightarrow> string \<Rightarrow> idem_row list \<Rightarrow> idem_verdict \<times> idem_row list" where
  "idem_create env now rid k hash rows =
     (case find_key k rows of
        Some concurrent \<Rightarrow> (answer_existing env hash concurrent, rows)
      | None \<Rightarrow>
          (case k of (orgId, userId, key) \<Rightarrow>
             (Execute rid,
              \<lparr>im_id = rid, im_org_id = orgId, im_user_id = userId, im_key = key, im_request_hash = hash, im_state = ''processing'',
               im_status_code = None, im_response_body = None, im_expires_at = now + RETENTION_MS, im_updated_at = now\<rparr> # rows)))"

definition applyIdempotency :: "idem_env \<Rightarrow> instant \<Rightarrow> id \<Rightarrow> idem_request \<Rightarrow> idem_row list \<Rightarrow> idem_verdict \<times> idem_row list" where
  "applyIdempotency env now rid req rows =
     (case idem_identify env req of
        Inl e \<Rightarrow> (Fail e, rows)
      | Inr None \<Rightarrow> (Pass, rows)
      | Inr (Some k) \<Rightarrow>
          (case idem_lookup now k rows of
             (Some r, rows1) \<Rightarrow> (answer_existing env (payloadHash env req) r, rows1)
           | (None, rows1) \<Rightarrow> idem_create env now rid k (payloadHash env req) rows1))"

definition claim_of :: "id \<Rightarrow> idem_row \<Rightarrow> bool" where
  "claim_of rid r \<longleftrightarrow> im_id r = rid \<and> im_state r = ''processing''"

definition mark_unknown :: "instant \<Rightarrow> id \<Rightarrow> idem_row list \<Rightarrow> idem_row list" where
  "mark_unknown now rid = update_where (claim_of rid) (\<lambda>r. r\<lparr>im_state := ''unknown'', im_updated_at := now\<rparr>)"

text \<open>The replacement of \<open>res.send\<close>: the handler of claim \<open>rid\<close>, taken at \<open>claimedAt\<close>, answers.\<close>

definition idem_finish :: "idem_env \<Rightarrow> string \<Rightarrow> instant \<Rightarrow> instant \<Rightarrow> int \<Rightarrow> json option \<Rightarrow> id \<Rightarrow> idem_row list \<Rightarrow> idem_row list" where
  "idem_finish env iv claimedAt now status body rid rows =
     (if status < 200 \<or> 300 \<le> status
      then (if status < 500 then filter (\<lambda>r. \<not> claim_of rid r) rows else mark_unknown now rid rows)
      else (let replayBody = coalesce body JNull in
        case (if en_encrypt env then encryptIdempotencyResponse env iv replayBody else Inr replayBody) of
          Inl _ \<Rightarrow> mark_unknown now rid rows
        | Inr v \<Rightarrow>
            if MAX_RESPONSE_BYTES < en_bytes env v then mark_unknown now rid rows
            else update_where (\<lambda>r. im_id r = rid)
              (\<lambda>r. r\<lparr>im_state := ''completed'', im_status_code := Some status, im_response_body := Some v,
                     im_expires_at := claimedAt + RETENTION_MS, im_updated_at := now\<rparr>) rows))"

subsection \<open>Interleaved requests\<close>

text \<open>A label says which key had a handler started, and which keys lost their record because the handler
  answered with an error below 500, or because the record had expired.\<close>

datatype idem_label = Executed idem_key | Refused "idem_key list" | Expired "idem_key list" | Quiet

definition keys_where :: "(idem_row \<Rightarrow> bool) \<Rightarrow> idem_row list \<Rightarrow> idem_key list" where
  "keys_where p rows = map key_of (filter p rows)"

inductive idem_step :: "idem_row list \<Rightarrow> idem_label \<Rightarrow> idem_row list \<Rightarrow> bool" where
  lookup: "idem_lookup now k rows = (found, rows') \<Longrightarrow>
    idem_step rows (Expired (keys_where (\<lambda>r. im_id r \<notin> im_id ` set rows') rows)) rows'"
| create: "rid \<notin> im_id ` set rows \<Longrightarrow> idem_create env now rid k hash rows = (Execute rid, rows') \<Longrightarrow>
    idem_step rows (Executed k) rows'"
| answer: "\<not> (status < 200 \<or> 300 \<le> status) \<or> 500 \<le> status \<Longrightarrow>
    idem_step rows Quiet (idem_finish env iv claimedAt now status body rid rows)"
| refuse: "300 \<le> status \<and> status < 500 \<Longrightarrow>
    idem_step rows (Refused (keys_where (claim_of rid) rows)) (idem_finish env iv claimedAt now status body rid rows)"
| purge: "idem_step rows (Expired (keys_where (\<lambda>r. im_expires_at r < now) rows)) (filter (\<lambda>r. \<not> im_expires_at r < now) rows)"

inductive idem_run :: "idem_row list \<Rightarrow> idem_label list \<Rightarrow> idem_row list \<Rightarrow> bool" where
  start: "idem_run rows [] rows"
| step: "idem_run rows ls rows1 \<Longrightarrow> idem_step rows1 l rows2 \<Longrightarrow> idem_run rows (l # ls) rows2"

definition executions :: "idem_key \<Rightarrow> idem_label list \<Rightarrow> nat" where
  "executions k ls = count_list ls (Executed k)"

fun released :: "idem_key \<Rightarrow> idem_label \<Rightarrow> nat" where
  "released k (Refused ks) = count_list ks k"
| "released k (Expired ks) = count_list ks k"
| "released k _ = 0"

definition rows_ok :: "idem_row list \<Rightarrow> bool" where
  "rows_ok rows \<longleftrightarrow> distinct (map key_of rows) \<and> distinct (map im_id rows)"

lemma count_split: "count_list (map key_of (filter p rows)) k + count_list (map key_of (filter (\<lambda>r. \<not> p r) rows)) k = count_list (map key_of rows) k"
  by (induction rows) auto

lemma count_distinct: "distinct xs \<Longrightarrow> count_list xs k \<le> 1"
  by (induction xs) (auto simp: count_notin)

lemma mark_unknown_keys: "map key_of (mark_unknown now rid rows) = map key_of rows" "map im_id (mark_unknown now rid rows) = map im_id rows"
  by (auto simp: mark_unknown_def update_where_def key_of_def)

lemma finish_keys:
  assumes "\<not> (status < 200 \<or> 300 \<le> status) \<or> 500 \<le> status"
  shows "map key_of (idem_finish env iv claimedAt now status body rid rows) = map key_of rows"
    "map im_id (idem_finish env iv claimedAt now status body rid rows) = map im_id rows"
  using assms by (auto simp: idem_finish_def Let_def mark_unknown_keys update_where_def key_of_def split: sum.splits)

lemma lookup_rows:
  assumes "idem_lookup now k rows = (found, rows')"
  shows "(map key_of rows' = map key_of rows \<and> map im_id rows' = map im_id rows) \<or>
    (\<exists>r. find_key k rows = Some r \<and> im_expires_at r \<le> now \<and> found = None \<and> rows' = filter (\<lambda>x. im_id x \<noteq> im_id r) rows)"
  using assms
  by (auto simp: idem_lookup_def Let_def update_where_def key_of_def split: option.splits if_splits)

lemma rows_ok_filter: "rows_ok rows \<Longrightarrow> rows_ok (filter p rows)"
  by (simp add: rows_ok_def distinct_map_filter)

lemma rows_ok_keys: "rows_ok rows \<Longrightarrow> map key_of rows' = map key_of rows \<Longrightarrow> map im_id rows' = map im_id rows \<Longrightarrow> rows_ok rows'"
  by (simp add: rows_ok_def)

lemma lookup_dropped:
  assumes "idem_lookup now k rows = (found, rows')"
  shows "\<exists>p. keys_where (\<lambda>r. im_id r \<notin> im_id ` set rows') rows = map key_of (filter p rows) \<and>
    map key_of rows' = map key_of (filter (\<lambda>r. \<not> p r) rows) \<and> (\<exists>q. rows' = filter q rows \<or> (map key_of rows' = map key_of rows \<and> map im_id rows' = map im_id rows))"
  using lookup_rows[OF assms]
proof
  assume same: "map key_of rows' = map key_of rows \<and> map im_id rows' = map im_id rows"
  then have "im_id ` set rows' = im_id ` set rows" by (metis image_set)
  then have "keys_where (\<lambda>r. im_id r \<notin> im_id ` set rows') rows = map key_of (filter (\<lambda>_. False) rows)"
    by (auto simp: keys_where_def)
  then show ?thesis using same by (intro exI[of _ "\<lambda>_. False"]) auto
next
  assume "\<exists>r. find_key k rows = Some r \<and> im_expires_at r \<le> now \<and> found = None \<and> rows' = filter (\<lambda>x. im_id x \<noteq> im_id r) rows"
  then obtain r :: idem_row where r: "rows' = filter (\<lambda>x. im_id x \<noteq> im_id r) rows" by (elim exE conjE)
  have "filter (\<lambda>x. im_id x \<notin> im_id ` set rows') rows = filter (\<lambda>x. im_id x = im_id r) rows"
    by (rule filter_cong) (auto simp: r)
  then show ?thesis by (intro exI[of _ "\<lambda>x. im_id x = im_id r"]) (auto simp: keys_where_def r)
qed

lemma step_accounts:
  assumes "idem_step rows l rows'" "rows_ok rows"
  shows "rows_ok rows' \<and>
    count_list (map key_of rows') k + released k l = count_list (map key_of rows) k + executions k [l]"
  using assms
proof (cases rule: idem_step.cases)
  case (lookup now k' found)
  obtain p where p: "keys_where (\<lambda>r. im_id r \<notin> im_id ` set rows') rows = map key_of (filter p rows)"
    "map key_of rows' = map key_of (filter (\<lambda>r. \<not> p r) rows)"
    "\<exists>q. rows' = filter q rows \<or> (map key_of rows' = map key_of rows \<and> map im_id rows' = map im_id rows)"
    using lookup_dropped[OF lookup(2)] by blast
  have "rows_ok rows'" using p(3) assms(2) rows_ok_filter rows_ok_keys by blast
  then show ?thesis using count_split[of p rows k] by (simp add: lookup(1) p(1,2) executions_def)
next
  case (create rid env now k' hash)
  obtain o' u key where k': "k' = (o', u, key)" by (cases k')
  have "find_key k' rows = None" and r: "rows' = \<lparr>im_id = rid, im_org_id = o', im_user_id = u, im_key = key,
      im_request_hash = hash, im_state = ''processing'', im_status_code = None, im_response_body = None,
      im_expires_at = now + RETENTION_MS, im_updated_at = now\<rparr> # rows"
    using create(3) by (auto simp: idem_create_def k' answer_existing_def split: option.splits if_splits sum.splits)
  then have "k' \<notin> set (map key_of rows)" by (auto simp: find_key_def find_first_None)
  then show ?thesis using assms(2) create(2)
    by (auto simp: rows_ok_def r key_of_def k' create(1) executions_def)
next
  case (answer status env iv claimedAt now body rid)
  then show ?thesis using finish_keys[OF answer(3)] assms(2) rows_ok_keys
    by (simp add: executions_def)
next
  case (refuse status rid env iv claimedAt now body)
  have "rows' = filter (\<lambda>r. \<not> claim_of rid r) rows" using refuse(2,3) by (simp add: idem_finish_def)
  then show ?thesis using assms(2) count_split[of "claim_of rid" rows k]
    by (simp add: refuse(1) keys_where_def rows_ok_filter executions_def)
next
  case (purge now)
  then show ?thesis using assms(2) count_split[of "\<lambda>r. im_expires_at r < now" rows k]
    by (simp add: keys_where_def rows_ok_filter executions_def)
qed

lemma run_accounts:
  "idem_run rows ls rows' \<Longrightarrow> rows_ok rows \<Longrightarrow> rows_ok rows' \<and>
    count_list (map key_of rows') k + sum_list (map (released k) ls) = count_list (map key_of rows) k + executions k ls"
proof (induction rule: idem_run.induct)
  case (step rows ls rows1 l rows2)
  then show ?case using step_accounts[OF step.hyps(2), of k]
    by (cases "l = Executed k") (simp_all add: executions_def)
qed (simp add: executions_def)

text \<open>C4: under every interleaving of requests with the same key, with other keys and with
  the purge, the handler is started again for a key only after the record of the previous start was
  released, and that happens only when that start was answered with an error below 500 or the
  record had expired; so of the starts within one retention period at most one succeeds, fails
  with a server error, or dies.\<close>

theorem idempotent_once:
  assumes "idem_run [] ls rows"
  shows "executions k ls \<le> 1 + sum_list (map (released k) ls)"
proof -
  have ok: "rows_ok []" by (simp add: rows_ok_def)
  have run: "rows_ok rows \<and> count_list (map key_of rows) k + sum_list (map (released k) ls) = executions k ls"
    using run_accounts[OF assms ok, of k] by simp
  then have "count_list (map key_of rows) k \<le> 1"
    using count_distinct by (auto simp: rows_ok_def)
  with run show ?thesis by simp
qed

definition id_env :: "bool \<Rightarrow> idem_env" where
  "id_env encrypt = \<lparr>en_sha = (\<lambda>v. case v of JObj es \<Rightarrow> (if length es = 5 then ''h'' else ''x'') | _ \<Rightarrow> ''y''), en_sha_text = (\<lambda>s. s),
     en_collate = map of_char, en_bytes = (\<lambda>_. 10), en_seal = (\<lambda>secret iv v. (case v of JStr s \<Rightarrow> ''s'' @ s | _ \<Rightarrow> ''n'', ''tag'')),
     en_unseal = (\<lambda>secret iv tag c. case c of [] \<Rightarrow> None | x # s \<Rightarrow> Some (if x = CHR ''s'' then JStr s else JNull)),
     en_production = False, en_configured = Some ''0123456789abcdef'', en_jwt_refresh_secret = None, en_encrypt = encrypt\<rparr>"

definition id_request :: idem_request where
  "id_request = \<lparr>ir_method = ''POST'', ir_header_key = Some ''request-0001'', ir_body = Some (JObj [(''amount'', JNum 5)]),
     ir_path = ''/expenses'', ir_query = [], ir_file = None, ir_user = Some (''u'', ''o''), ir_actor = None\<rparr>"

theorem idempotent_once_witness:
  "\<exists>ls rows. idem_run [] ls rows \<and> executions (''o'', ''u'', ''request-0001'') ls = 2 \<and>
     executions (''o'', ''u'', ''request-0001'') ls \<le> 1 + sum_list (map (released (''o'', ''u'', ''request-0001'')) ls)"
proof -
  let ?k = "(''o'', ''u'', ''request-0001'')"
  let ?e = "id_env False"
  let ?r1 = "snd (idem_create ?e 5 ''a'' ?k ''h'' [])"
  let ?r2 = "idem_finish ?e [] 5 6 422 None ''a'' ?r1"
  let ?r3 = "snd (idem_create ?e 7 ''b'' ?k ''h'' ?r2)"
  let ?ls = "[Executed ?k, Refused (keys_where (claim_of ''a'') ?r1), Executed ?k]"
  have r2: "?r2 = []" by (simp add: idem_create_def find_key_def idem_finish_def claim_of_def)
  have s1: "idem_step [] (Executed ?k) ?r1"
    by (rule idem_step.create[where rid = "''a''"]) (simp_all add: idem_create_def find_key_def)
  have s2: "idem_step ?r1 (Refused (keys_where (claim_of ''a'') ?r1)) ?r2" by (rule idem_step.refuse) simp
  have s3: "idem_step ?r2 (Executed ?k) ?r3"
    unfolding r2 by (rule idem_step.create[where rid = "''b''"]) (simp_all add: idem_create_def find_key_def)
  have run: "idem_run [] ?ls ?r3"
    by (rule idem_run.step[OF idem_run.step[OF idem_run.step[OF idem_run.start s1] s2] s3])
  have "executions ?k ?ls = 2" by (simp add: executions_def)
  with run idempotent_once[OF run, of ?k] show ?thesis by blast
qed

subsection \<open>Replay\<close>

lemma update_keys: "map key_of rows = ks \<Longrightarrow> (\<And>r. key_of (f r) = key_of r) \<Longrightarrow> map key_of (update_where p f rows) = ks"
  by (auto simp: update_where_def)

lemma create_Execute:
  assumes "idem_create env now rid (orgId, userId, key) hash rows = (Execute rid, rows1)"
  shows "rows1 = \<lparr>im_id = rid, im_org_id = orgId, im_user_id = userId, im_key = key, im_request_hash = hash,
      im_state = ''processing'', im_status_code = None, im_response_body = None,
      im_expires_at = now + RETENTION_MS, im_updated_at = now\<rparr> # rows"
  using assms by (auto simp: idem_create_def answer_existing_def split: option.splits if_splits sum.splits)

definition stored_body :: "idem_env \<Rightarrow> string \<Rightarrow> json \<Rightarrow> json result" where
  "stored_body env iv v = (if en_encrypt env then encryptIdempotencyResponse env iv v else Inr v)"

lemma stored_body_opens:
  assumes seal: "\<And>secret. en_unseal env secret iv (snd (en_seal env secret iv v)) (fst (en_seal env secret iv v)) = Some v"
    and plain: "\<not> is_envelope v" and stored: "stored_body env iv v = Inr w"
  shows "decryptIdempotencyResponse env w = Inr v"
proof (cases "en_encrypt env")
  case False
  then show ?thesis using plain stored by (simp add: stored_body_def decryptIdempotencyResponse_def)
next
  case True
  obtain secret where secret: "encryptionKey env = Inr secret"
    using stored True by (cases "encryptionKey env") (auto simp: stored_body_def encryptIdempotencyResponse_def)
  obtain c t where ct: "en_seal env secret iv v = (c, t)" by (cases "en_seal env secret iv v")
  then have w: "w = JObj [(ENVELOPE, JNum 1), (''iv'', JStr iv), (''tag'', JStr t), (''ciphertext'', JStr c)]"
    using stored True secret by (simp add: stored_body_def encryptIdempotencyResponse_def)
  have "en_unseal env secret iv t c = Some v" using seal[of secret] ct by simp
  then show ?thesis using secret
    by (simp add: w decryptIdempotencyResponse_def is_envelope_def text_field_def ENVELOPE_def)
qed

text \<open>C20: after a request with a key was executed and answered with success, the same
  request within the retention period is answered with the same status and body, sealed or not, and
  changes nothing.  The response must fit the size limit and not itself look like a sealed
  envelope; AES-GCM must open what it sealed.\<close>

theorem idempotent_replay:
  assumes seal: "\<And>secret. en_unseal env secret iv (snd (en_seal env secret iv (coalesce body JNull)))
      (fst (en_seal env secret iv (coalesce body JNull))) = Some (coalesce body JNull)"
    and first: "applyIdempotency env now rid req rows = (Execute rid, rows1)"
    and ok: "200 \<le> status" "status < 300" and plain: "\<not> is_envelope (coalesce body JNull)"
    and stored: "stored_body env iv (coalesce body JNull) = Inr w" "en_bytes env w \<le> MAX_RESPONSE_BYTES"
    and later: "later < now + RETENTION_MS"
  shows "applyIdempotency env later rid2 req (idem_finish env iv now done status body rid rows1) =
    (Replay status (coalesce body JNull), idem_finish env iv now done status body rid rows1)"
proof -
  obtain orgId userId key where k: "idem_identify env req = Inr (Some (orgId, userId, key))"
    using first by (auto simp: applyIdempotency_def split: sum.splits option.splits)
  let ?k = "(orgId, userId, key)" and ?h = "payloadHash env req"
  obtain found rows0 where look: "idem_lookup now ?k rows = (found, rows0)" by (cases "idem_lookup now ?k rows")
  have none: "found = None" and created: "idem_create env now rid ?k ?h rows0 = (Execute rid, rows1)"
    using first k look
    by (auto simp: applyIdempotency_def answer_existing_def split: option.splits if_splits sum.splits)
  let ?row = "\<lparr>im_id = rid, im_org_id = orgId, im_user_id = userId, im_key = key, im_request_hash = ?h,
      im_state = ''completed'', im_status_code = Some status, im_response_body = Some w,
      im_expires_at = now + RETENTION_MS, im_updated_at = done\<rparr>"
  have "\<exists>rest. idem_finish env iv now done status body rid rows1 = ?row # rest"
    using ok stored create_Execute[OF created]
    by (simp add: idem_finish_def Let_def flip: stored_body_def)
  then obtain rest where fin: "idem_finish env iv now done status body rid rows1 = ?row # rest" by blast
  have "find_key ?k (?row # rest) = Some ?row" by (simp add: find_key_def key_of_def)
  then have "idem_lookup later ?k (?row # rest) = (Some ?row, ?row # rest)"
    using later by (simp add: idem_lookup_def)
  moreover have "answer_existing env ?h ?row = Replay status (coalesce body JNull)"
    using ok stored_body_opens[OF seal plain stored(1)] by (simp add: answer_existing_def)
  ultimately show ?thesis unfolding fin by (simp add: applyIdempotency_def k)
qed

theorem idempotent_replay_witness:
  "\<exists>rows1 rows2. applyIdempotency (id_env True) 5 ''a'' id_request [] = (Execute ''a'', rows1) \<and>
     applyIdempotency (id_env True) 9 ''b'' id_request (idem_finish (id_env True) ''iv'' 5 6 201 (Some (JStr ''created'')) ''a'' rows1) =
       (Replay 201 (JStr ''created''), rows2)"
proof -
  have "(case applyIdempotency (id_env True) 5 ''a'' id_request [] of (v, rows) \<Rightarrow> v) = Execute ''a''" by code_simp
  then obtain rows1 where first: "applyIdempotency (id_env True) 5 ''a'' id_request [] = (Execute ''a'', rows1)"
    by (auto split: prod.splits)
  have "applyIdempotency (id_env True) 9 ''b'' id_request (idem_finish (id_env True) ''iv'' 5 6 201 (Some (JStr ''created'')) ''a'' rows1) =
      (Replay 201 (coalesce (Some (JStr ''created'')) JNull), idem_finish (id_env True) ''iv'' 5 6 201 (Some (JStr ''created'')) ''a'' rows1)"
  proof (rule idempotent_replay[OF _ first])
    show "stored_body (id_env True) ''iv'' (coalesce (Some (JStr ''created'')) JNull) =
        Inr (JObj [(ENVELOPE, JNum 1), (''iv'', JStr ''iv''), (''tag'', JStr ''tag''), (''ciphertext'', JStr ''screated'')])"
      by code_simp
  qed (simp_all add: id_env_def is_envelope_def MAX_RESPONSE_BYTES_def RETENTION_MS_def)
  with first show ?thesis by auto
qed

end
