(* ===== verification/Leave.thy ===== *)
theory Leave
  imports Calendar ShiftTime "HOL-Library.List_Lexorder" "HOL-Library.Char_ord"
begin

text \<open>
  Leave: the holiday calendar (\<^verbatim>\<open>src/src/services/holidays.ts\<close>), monthly accrual
  (\<^verbatim>\<open>src/src/services/leaveAccrual.ts\<close>), the balance ledger (\<^verbatim>\<open>src/src/services/leaveLedger.ts\<close>
  with its database trigger, \<^verbatim>\<open>src/prisma/migrations/20261102150000_leave_balance_ledger/migration.sql\<close>)
  and the submission of a request (\<^verbatim>\<open>src/src/services/leave-request.ts\<close>).

  Every write to \<open>leave_balances\<close> goes through \<open>balance_insert\<close> or \<open>balance_update\<close>, which append the
  trigger's ledger entry.  The JSON of an organisation's accrual policy is given with the numbers
  that \<open>Number(...)\<close> yields (\<open>None\<close> for \<open>NaN\<close> and the infinities).
\<close>

subsection \<open>Holidays and working days\<close>

record holiday_row =
  hd_org_id :: id
  hd_location_id :: "id option"
  hd_date :: day
  hd_name :: string
  hd_recurring :: bool

definition recurring_dates :: "holiday_row \<Rightarrow> day \<Rightarrow> day \<Rightarrow> day list" where
  "recurring_dates row start end =
     filter (\<lambda>c. monthOf c = monthOf (hd_date row) \<and> start \<le> c \<and> c \<le> end)
       (map (\<lambda>year. utc_day year (monthOf (hd_date row) - 1) (dayOf (hd_date row))) [yearOf start..yearOf end])"

definition expandHolidays :: "holiday_row list \<Rightarrow> day \<Rightarrow> day \<Rightarrow> day set" where
  "expandHolidays rows start end =
     set (concat (map (\<lambda>row. if hd_recurring row then recurring_dates row start end
                             else filter (\<lambda>d. start \<le> d \<and> d \<le> end) [hd_date row]) rows))"

definition is_working_day :: "day set \<Rightarrow> day \<Rightarrow> bool" where
  "is_working_day holidays d \<longleftrightarrow> weekdayOf d \<noteq> 0 \<and> weekdayOf d \<noteq> 6 \<and> d \<notin> holidays"

function count_from :: "day \<Rightarrow> day \<Rightarrow> day set \<Rightarrow> int \<Rightarrow> int" where
  "count_from cur end holidays n =
     (if cur \<le> end then count_from (cur + 1) end holidays (if is_working_day holidays cur then n + 1 else n) else n)"
  by auto
termination by (relation "measure (\<lambda>(cur, end, _). nat (end + 1 - cur))") auto

declare count_from.simps [simp del]

definition workingDaysExcluding :: "day \<Rightarrow> day \<Rightarrow> day set \<Rightarrow> int" where
  "workingDaysExcluding start end holidays = count_from start end holidays 0"

definition location_holidays :: "id \<Rightarrow> id option \<Rightarrow> holiday_row list \<Rightarrow> holiday_row list" where
  "location_holidays orgId locationId rows =
     filter (\<lambda>r. hd_org_id r = orgId \<and>
       (if coalesce locationId [] \<noteq> [] then hd_location_id r = None \<or> hd_location_id r = locationId else hd_location_id r = None)) rows"

definition holidaySetForRange :: "id \<Rightarrow> day \<Rightarrow> day \<Rightarrow> id option \<Rightarrow> holiday_row list \<Rightarrow> day set" where
  "holidaySetForRange orgId start end locationId rows = expandHolidays (location_holidays orgId locationId rows) start end"

definition workingDaysForOrg :: "id \<Rightarrow> day \<Rightarrow> day \<Rightarrow> id option \<Rightarrow> holiday_row list \<Rightarrow> int" where
  "workingDaysForOrg orgId start end locationId rows =
     workingDaysExcluding start end (holidaySetForRange orgId start end locationId rows)"

definition isOrgHoliday :: "id \<Rightarrow> day \<Rightarrow> id option \<Rightarrow> holiday_row list \<Rightarrow> bool" where
  "isOrgHoliday orgId date locationId rows \<longleftrightarrow> holidaySetForRange orgId date date locationId rows \<noteq> {}"

lemma utc_day_civil: "1 \<le> m \<Longrightarrow> m \<le> 12 \<Longrightarrow> utc_day y (m - 1) d = civil_day y m d"
proof -
  assume "1 \<le> m" "m \<le> 12"
  then have "(m - 1) div 12 = 0" "(m - 1) mod 12 = m - 1" by auto
  then show ?thesis by (simp add: utc_day_def)
qed

lemma candidate_date:
  assumes "monthOf (utc_day y (monthOf h - 1) (dayOf h)) = monthOf h"
  shows "dayOf (utc_day y (monthOf h - 1) (dayOf h)) = dayOf h"
proof -
  have m: "1 \<le> monthOf h" "monthOf h \<le> 12" by (rule monthOf_bounds)+
  have d: "1 \<le> dayOf h" "dayOf h \<le> 31"
    using dayOf_bounds[of h] month_length_bounds[OF m, of "leap (yearOf h)"] by auto
  have c: "utc_day y (monthOf h - 1) (dayOf h) = civil_day y (monthOf h) (dayOf h)" by (rule utc_day_civil[OF m])
  have "dayOf h \<le> month_length (leap y) (monthOf h)"
    using civil_day_rollover[OF m, of y "dayOf h"] assms c d by (cases "dayOf h \<le> month_length (leap y) (monthOf h)") auto
  then show ?thesis unfolding c by (rule civil_day_fields(3)[OF m d(1)])
qed

lemma recurring_dates_iff:
  "d \<in> set (recurring_dates row start end) \<longleftrightarrow>
   start \<le> d \<and> d \<le> end \<and> monthOf d = monthOf (hd_date row) \<and> dayOf d = dayOf (hd_date row)"
proof
  assume "d \<in> set (recurring_dates row start end)"
  then show "start \<le> d \<and> d \<le> end \<and> monthOf d = monthOf (hd_date row) \<and> dayOf d = dayOf (hd_date row)"
    using candidate_date by (auto simp: recurring_dates_def)
next
  assume r: "start \<le> d \<and> d \<le> end \<and> monthOf d = monthOf (hd_date row) \<and> dayOf d = dayOf (hd_date row)"
  have "utc_day (yearOf d) (monthOf d - 1) (dayOf d) = d"
    using utc_day_civil[OF monthOf_bounds, of "yearOf d" d "dayOf d"] civil_roundtrip[of d] by simp
  moreover have "yearOf d \<in> set [yearOf start..yearOf end]" using r yearOf_mono by simp
  ultimately have "d \<in> set (map (\<lambda>year. utc_day year (monthOf d - 1) (dayOf d)) [yearOf start..yearOf end])" by force
  then show "d \<in> set (recurring_dates row start end)" using r by (simp add: recurring_dates_def)
qed

lemma expandHolidays_iff:
  "d \<in> expandHolidays rows start end \<longleftrightarrow> start \<le> d \<and> d \<le> end \<and>
     (\<exists>row\<in>set rows. if hd_recurring row then monthOf d = monthOf (hd_date row) \<and> dayOf d = dayOf (hd_date row) else d = hd_date row)"
  by (auto simp: expandHolidays_def recurring_dates_iff split: if_splits)

lemma count_from_card:
  "count_from cur end H n = n + int (card {d. cur \<le> d \<and> d \<le> end \<and> is_working_day H d})"
proof (induction cur "end" H n rule: count_from.induct)
  case (1 cur "end" H n)
  show ?case
  proof (cases "cur \<le> end")
    case True
    let ?S = "{d. cur + 1 \<le> d \<and> d \<le> end \<and> is_working_day H d}"
    have "finite ?S" by (rule finite_subset[of _ "{cur..end}"]) auto
    moreover have "{d. cur \<le> d \<and> d \<le> end \<and> is_working_day H d} = (if is_working_day H cur then insert cur ?S else ?S)"
      using True by (auto simp: order_le_less)
    ultimately show ?thesis using 1[OF True] True by (simp add: count_from.simps[of cur])
  next
    case False
    then have none: "{d. cur \<le> d \<and> d \<le> end \<and> is_working_day H d} = {}" by auto
    show ?thesis unfolding none using False by (simp add: count_from.simps[of cur])
  qed
qed

text \<open>C22: the working days of a leave range are counted by a loop over its days
  against the expanded holiday calendar; the result is the number of days from Monday to Friday in
  the range that match no holiday of the organisation or the location, a yearly holiday matching by
  month and day in every year (29 February only in leap years).\<close>

theorem working_days_spec:
  "workingDaysForOrg orgId start end locationId rows =
    int (card {d. start \<le> d \<and> d \<le> end \<and> weekdayOf d \<notin> {0, 6} \<and>
      \<not> (\<exists>row\<in>set rows. hd_org_id row = orgId \<and>
          (hd_location_id row = None \<or> (coalesce locationId [] \<noteq> [] \<and> hd_location_id row = locationId)) \<and>
          (if hd_recurring row then monthOf d = monthOf (hd_date row) \<and> dayOf d = dayOf (hd_date row) else d = hd_date row))})"
proof -
  have "{d. start \<le> d \<and> d \<le> end \<and> is_working_day (holidaySetForRange orgId start end locationId rows) d} =
    {d. start \<le> d \<and> d \<le> end \<and> weekdayOf d \<notin> {0, 6} \<and>
      \<not> (\<exists>row\<in>set rows. hd_org_id row = orgId \<and>
          (hd_location_id row = None \<or> (coalesce locationId [] \<noteq> [] \<and> hd_location_id row = locationId)) \<and>
          (if hd_recurring row then monthOf d = monthOf (hd_date row) \<and> dayOf d = dayOf (hd_date row) else d = hd_date row))}"
    by (rule Collect_cong) (auto simp: is_working_day_def holidaySetForRange_def expandHolidays_iff location_holidays_def)
  then show ?thesis by (simp add: workingDaysForOrg_def workingDaysExcluding_def count_from_card)
qed

subsection \<open>Balances and their ledger\<close>

record leave_balance =
  lb_user_id :: id
  lb_org_id :: id
  lb_leave_type :: string
  lb_year :: int
  lb_total_days :: rat
  lb_used_days :: rat

record ledger_entry =
  le_user_id :: id
  le_org_id :: id
  le_leave_type :: string
  le_year :: int
  le_total_delta :: rat
  le_used_delta :: rat
  le_reason :: string
  le_ref_id :: string

record leave_request =
  lr_id :: id
  lr_org_id :: id
  lr_user_id :: id
  lr_location_id :: "id option"
  lr_leave_type :: string
  lr_start_date :: day
  lr_end_date :: day
  lr_working_days :: rat
  lr_reason :: "string option"
  lr_is_half_day :: bool
  lr_half_day_period :: "string option"
  lr_leave_start_time :: "string option"
  lr_leave_end_time :: "string option"
  lr_status :: string
  lr_reviewed_by :: "id option"
  lr_reviewed_at :: "instant option"
  lr_rejection_reason :: "string option"
  lr_created_at :: instant

record policy_raw =
  pr_days_per_year :: "rat option"
  pr_carry_over_max :: "rat option option"

record leave_org =
  lo_id :: id
  lo_timezone :: "string option"
  lo_leave_accrual :: "(string \<times> policy_raw option) list option"

record leave_user =
  lu_id :: id
  lu_org_id :: id
  lu_is_active :: bool
  lu_deleted_at :: "instant option"
  lu_location_id :: "id option"
  lu_location_timezone :: "string option"
  lu_manager_id :: "id option"

record accrual_grant =
  ag_org_id :: id
  ag_user_id :: id
  ag_leave_type :: string
  ag_year :: int
  ag_month :: int
  ag_days :: rat

record leave_db =
  lv_orgs :: "leave_org list"
  lv_users :: "leave_user list"
  lv_holidays :: "holiday_row list"
  lv_requests :: "leave_request list"
  lv_balances :: "leave_balance list"
  lv_ledger :: "ledger_entry list"
  lv_grants :: "accrual_grant list"
  lv_runs :: "(id \<times> int \<times> int) list"
  lv_log :: "effect list"

text \<open>The context that \<open>setLeaveLedgerContext\<close> leaves for the trigger: the reason and the reference.\<close>

definition trigger_entry :: "string \<times> string \<Rightarrow> leave_balance \<Rightarrow> rat \<Rightarrow> rat \<Rightarrow> ledger_entry" where
  "trigger_entry ctx b dt du =
     \<lparr>le_user_id = lb_user_id b, le_org_id = lb_org_id b, le_leave_type = lb_leave_type b, le_year = lb_year b,
      le_total_delta = dt, le_used_delta = du, le_reason = fst ctx, le_ref_id = snd ctx\<rparr>"

definition balance_insert :: "string \<times> string \<Rightarrow> leave_balance \<Rightarrow> leave_db \<Rightarrow> leave_db" where
  "balance_insert ctx b db =
     db\<lparr>lv_balances := b # lv_balances db, lv_ledger := trigger_entry ctx b (lb_total_days b) (lb_used_days b) # lv_ledger db\<rparr>"

definition balance_delta :: "string \<times> string \<Rightarrow> leave_balance \<Rightarrow> leave_balance \<Rightarrow> ledger_entry list" where
  "balance_delta ctx old new =
     (let dt = lb_total_days new - lb_total_days old; du = lb_used_days new - lb_used_days old
      in if dt = 0 \<and> du = 0 then [] else [trigger_entry ctx new dt du])"

definition balance_update :: "string \<times> string \<Rightarrow> (leave_balance \<Rightarrow> bool) \<Rightarrow> (leave_balance \<Rightarrow> leave_balance) \<Rightarrow> leave_db \<Rightarrow> leave_db" where
  "balance_update ctx p f db =
     db\<lparr>lv_balances := update_where p f (lv_balances db),
        lv_ledger := concat (map (\<lambda>b. balance_delta ctx b (f b)) (filter p (lv_balances db))) @ lv_ledger db\<rparr>"

definition ledger_rows :: "id option \<Rightarrow> id \<Rightarrow> int \<Rightarrow> ledger_entry list \<Rightarrow> ledger_entry list" where
  "ledger_rows userId orgId year entries =
     filter (\<lambda>e. le_org_id e = orgId \<and> le_year e = year \<and> (userId = None \<or> userId = Some (le_user_id e))) entries"

definition getLeaveLedgerBalances :: "id option \<Rightarrow> id \<Rightarrow> int \<Rightarrow> leave_db \<Rightarrow> leave_balance list" where
  "getLeaveLedgerBalances userId orgId year db =
     (let rows = ledger_rows userId orgId year (lv_ledger db);
          groups = remdups (map (\<lambda>e. (le_user_id e, le_leave_type e)) rows)
      in sort_key lb_leave_type (map (\<lambda>(u, t).
           \<lparr>lb_user_id = u, lb_org_id = orgId, lb_leave_type = t, lb_year = year,
            lb_total_days = sum_list (map le_total_delta (filter (\<lambda>e. le_user_id e = u \<and> le_leave_type e = t) rows)),
            lb_used_days = sum_list (map le_used_delta (filter (\<lambda>e. le_user_id e = u \<and> le_leave_type e = t) rows))\<rparr>) groups))"

definition getLeaveLedgerBalance :: "id \<Rightarrow> id \<Rightarrow> string \<Rightarrow> int \<Rightarrow> leave_db \<Rightarrow> (rat \<times> rat) option" where
  "getLeaveLedgerBalance userId orgId leaveType year db =
     map_option (\<lambda>b. (lb_total_days b, lb_used_days b))
       (find_first (\<lambda>b. lb_leave_type b = leaveType) (getLeaveLedgerBalances (Some userId) orgId year db))"

subsection \<open>Accrual\<close>

record accrual_policy =
  po_days_per_year :: rat
  po_carry_over_max :: "rat option"

definition accrualPeriodForLocation :: "tzdb \<Rightarrow> instant \<Rightarrow> string \<Rightarrow> (int \<times> int \<times> day) option" where
  "accrualPeriodForLocation tz now timezone =
     (let localDate = dateOnlyInTz tz now (Some timezone)
      in if 2 < dayOf localDate then None
         else Some (yearOf localDate, monthOf localDate, utc_day (yearOf localDate) (monthOf localDate - 1) 1))"

definition parse_policy :: "policy_raw option \<Rightarrow> accrual_policy option" where
  "parse_policy v =
     Option.bind v (\<lambda>p. Option.bind (pr_days_per_year p) (\<lambda>perYear.
       if perYear \<le> 0 \<or> 366 < perYear then None
       else Some \<lparr>po_days_per_year = perYear,
         po_carry_over_max = Option.bind (coalesce (pr_carry_over_max p) None) (\<lambda>c. if 0 \<le> c then Some c else None)\<rparr>))"

definition parseAccrualConfig :: "(string \<times> policy_raw option) list option \<Rightarrow> (string \<times> accrual_policy) list option" where
  "parseAccrualConfig raw =
     Option.bind raw (\<lambda>entries.
       let out = List.map_filter (\<lambda>(type, v). map_option (Pair type) (parse_policy v)) entries
       in if out = [] then None else Some out)"

definition monthlyIncrement :: "accrual_policy \<Rightarrow> rat" where
  "monthlyIncrement policy = round2 (po_days_per_year policy / 12)"

definition accruedTotal :: "rat \<Rightarrow> rat \<Rightarrow> rat" where
  "accruedTotal existingTotal inc = round2 (existingTotal + inc)"

definition availableDays :: "rat \<Rightarrow> rat \<Rightarrow> rat" where
  "availableDays t u = round2 (t - u)"

definition carryOver :: "accrual_policy \<Rightarrow> rat \<Rightarrow> rat \<Rightarrow> rat" where
  "carryOver policy priorTotal priorUsed =
     round2 (min (max 0 (priorTotal - priorUsed)) (coalesce (po_carry_over_max policy) 0))"

definition same_balance :: "id \<Rightarrow> string \<Rightarrow> int \<Rightarrow> leave_balance \<Rightarrow> bool" where
  "same_balance userId type year b \<longleftrightarrow> lb_user_id b = userId \<and> lb_leave_type b = type \<and> lb_year b = year"

record accrual_item =
  ai_org_id :: id
  ai_user_id :: id
  ai_type :: string
  ai_policy :: accrual_policy
  ai_year :: int
  ai_month :: int

definition grant_key :: "accrual_grant \<Rightarrow> id \<times> id \<times> string \<times> int \<times> int" where
  "grant_key g = (ag_org_id g, ag_user_id g, ag_leave_type g, ag_year g, ag_month g)"

definition item_key :: "accrual_item \<Rightarrow> id \<times> id \<times> string \<times> int \<times> int" where
  "item_key i = (ai_org_id i, ai_user_id i, ai_type i, ai_year i, ai_month i)"

text \<open>One transaction; \<open>None\<close> is the unique violation that rolls it back.\<close>

definition accrue_one :: "accrual_item \<Rightarrow> leave_db \<Rightarrow> leave_db option" where
  "accrue_one i db =
     (if item_key i \<in> grant_key ` set (lv_grants db) then None
      else (let inc = monthlyIncrement (ai_policy i);
                ctx = (''accrual'', ai_org_id i @ '':'' @ ai_user_id i @ '':'' @
                  take 7 (iso_date (civil_day (ai_year i) (ai_month i) 1)) @ '':'' @ ai_type i);
                db1 = db\<lparr>lv_grants := \<lparr>ag_org_id = ai_org_id i, ag_user_id = ai_user_id i, ag_leave_type = ai_type i,
                        ag_year = ai_year i, ag_month = ai_month i, ag_days = inc\<rparr> # lv_grants db\<rparr>;
                mine = same_balance (ai_user_id i) (ai_type i) (ai_year i)
            in Some (case find_first mine (lv_balances db) of
                 Some _ \<Rightarrow> balance_update ctx mine (\<lambda>b. b\<lparr>lb_total_days := lb_total_days b + inc\<rparr>) db1
               | None \<Rightarrow>
                   (let carried = (if ai_month i = 1
                          then (case find_first (same_balance (ai_user_id i) (ai_type i) (ai_year i - 1)) (lv_balances db) of
                                  None \<Rightarrow> 0
                                | Some prior \<Rightarrow> carryOver (ai_policy i) (lb_total_days prior) (lb_used_days prior))
                          else 0)
                    in balance_insert ctx \<lparr>lb_user_id = ai_user_id i, lb_org_id = ai_org_id i, lb_leave_type = ai_type i,
                         lb_year = ai_year i, lb_total_days = round2 (inc + carried), lb_used_days = 0\<rparr> db1))))"

type_synonym accrual_run = "leave_db \<times> nat \<times> nat"

definition accrue_item :: "accrual_item \<Rightarrow> accrual_run \<Rightarrow> accrual_run" where
  "accrue_item i st =
     (case st of (db, touched, skipped) \<Rightarrow>
        (case accrue_one i db of None \<Rightarrow> (db, touched, skipped + 1) | Some db' \<Rightarrow> (db', touched + 1, skipped)))"

definition user_items :: "tzdb \<Rightarrow> instant \<Rightarrow> leave_org \<Rightarrow> (string \<times> accrual_policy) list \<Rightarrow> leave_user \<Rightarrow> accrual_item list" where
  "user_items tz now org config u =
     (case accrualPeriodForLocation tz now (coalesce_str (lu_location_timezone u) (coalesce_str (lo_timezone org) ''UTC'')) of
        None \<Rightarrow> []
      | Some (year, month, _) \<Rightarrow>
          map (\<lambda>(type, policy). \<lparr>ai_org_id = lo_id org, ai_user_id = lu_id u, ai_type = type, ai_policy = policy,
                 ai_year = year, ai_month = month\<rparr>) config)"

definition org_members :: "leave_org \<Rightarrow> leave_db \<Rightarrow> leave_user list" where
  "org_members org db = filter (\<lambda>u. lu_org_id u = lo_id org \<and> lu_is_active u \<and> lu_deleted_at u = None) (lv_users db)"

definition add_run :: "id \<times> int \<times> int \<Rightarrow> leave_db \<Rightarrow> leave_db" where
  "add_run r db = (if r \<in> set (lv_runs db) then db else db\<lparr>lv_runs := r # lv_runs db\<rparr>)"

definition accrue_org :: "tzdb \<Rightarrow> instant \<Rightarrow> leave_org \<Rightarrow> nat \<times> accrual_run \<Rightarrow> nat \<times> accrual_run" where
  "accrue_org tz now org st =
     (case st of (orgs, run) \<Rightarrow>
        (case parseAccrualConfig (lo_leave_accrual org) of
           None \<Rightarrow> (orgs, run)
         | Some config \<Rightarrow>
             (let users = org_members org (fst run);
                  run1 = fold (\<lambda>u r. fold accrue_item (user_items tz now org config u) r) users run;
                  orgDate = dateOnlyInTz tz now (Some (coalesce_str (lo_timezone org) ''UTC''))
              in if \<exists>u\<in>set users. user_items tz now org config u \<noteq> []
                 then (orgs + 1, (add_run (lo_id org, yearOf orgDate, monthOf orgDate) (fst run1), snd run1))
                 else (orgs, run1))))"

definition runMonthlyAccrual :: "tzdb \<Rightarrow> instant \<Rightarrow> id list \<Rightarrow> leave_db \<Rightarrow> nat \<times> accrual_run" where
  "runMonthlyAccrual tz now onlyOrgIds db =
     fold (accrue_org tz now) (filter (\<lambda>o'. onlyOrgIds = [] \<or> lo_id o' \<in> set onlyOrgIds) (lv_orgs db)) (0, (db, 0, 0))"

subsection \<open>Accrual runs are repeatable\<close>

definition accrued :: "accrual_item \<Rightarrow> leave_db \<Rightarrow> bool" where
  "accrued i db \<longleftrightarrow> item_key i \<in> grant_key ` set (lv_grants db)"

definition grows :: "leave_db \<Rightarrow> leave_db \<Rightarrow> bool" where
  "grows db db' \<longleftrightarrow> lv_users db' = lv_users db \<and> lv_orgs db' = lv_orgs db \<and>
     grant_key ` set (lv_grants db) \<subseteq> grant_key ` set (lv_grants db')"

lemma grows_refl: "grows db db"
  by (simp add: grows_def)

lemma grows_trans: "grows a b \<Longrightarrow> grows b c \<Longrightarrow> grows a c"
  by (auto simp: grows_def)

lemma grows_accrued: "grows db db' \<Longrightarrow> accrued i db \<Longrightarrow> accrued i db'"
  by (auto simp: grows_def accrued_def)

lemma balance_tables [simp]:
  "lv_grants (balance_insert ctx b db) = lv_grants db" "lv_users (balance_insert ctx b db) = lv_users db"
  "lv_orgs (balance_insert ctx b db) = lv_orgs db" "lv_grants (balance_update ctx p f db) = lv_grants db"
  "lv_users (balance_update ctx p f db) = lv_users db" "lv_orgs (balance_update ctx p f db) = lv_orgs db"
  by (simp_all add: balance_insert_def balance_update_def)

lemma accrue_one_grants:
  assumes "accrue_one i db = Some db'"
  shows "lv_grants db' = \<lparr>ag_org_id = ai_org_id i, ag_user_id = ai_user_id i, ag_leave_type = ai_type i,
      ag_year = ai_year i, ag_month = ai_month i, ag_days = monthlyIncrement (ai_policy i)\<rparr> # lv_grants db"
    "lv_users db' = lv_users db" "lv_orgs db' = lv_orgs db"
  using assms by (auto simp: accrue_one_def Let_def split: if_splits option.splits)

lemma accrue_one_Some: "accrue_one i db = Some db' \<Longrightarrow> grows db db' \<and> accrued i db'"
  using accrue_one_grants[of i db db'] by (auto simp: grows_def accrued_def item_key_def grant_key_def)

lemma accrue_one_None: "accrue_one i db = None \<longleftrightarrow> accrued i db"
  by (simp add: accrue_one_def accrued_def Let_def)

lemma accrue_item_grows:
  assumes "accrue_item i (db, t, s) = (db', t', s')"
  shows "grows db db' \<and> accrued i db'"
proof (cases "accrue_one i db")
  case None
  then have "db' = db" "accrued i db" using assms accrue_one_None[of i db] by (simp_all add: accrue_item_def)
  then show ?thesis by (simp add: grows_refl)
next
  case (Some d)
  then have "d = db'" using assms by (simp add: accrue_item_def)
  then show ?thesis using accrue_one_Some[OF Some] by simp
qed

lemma accrue_items_grow:
  "fold accrue_item items (db, t, s) = (db', t', s') \<Longrightarrow> grows db db' \<and> (\<forall>i\<in>set items. accrued i db')"
proof (induction items arbitrary: db t s)
  case Nil
  then show ?case by (simp add: grows_refl)
next
  case (Cons i items)
  obtain db1 t1 s1 where one: "accrue_item i (db, t, s) = (db1, t1, s1)" by (cases "accrue_item i (db, t, s)")
  with Cons.prems have "fold accrue_item items (db1, t1, s1) = (db', t', s')" by simp
  from Cons.IH[OF this] accrue_item_grows[OF one] show ?case using grows_trans grows_accrued by auto
qed

lemma accrue_items_idle:
  "\<forall>i\<in>set items. accrued i db \<Longrightarrow> fold accrue_item items (db, t, s) = (db, t, s + length items)"
  by (induction items arbitrary: s) (simp_all add: accrue_item_def flip: accrue_one_None)

lemma fold_concat_map: "fold (\<lambda>u r. fold f (g u) r) us x = fold f (concat (map g us)) x"
  by (induction us arbitrary: x) simp_all

definition org_items :: "tzdb \<Rightarrow> instant \<Rightarrow> leave_org \<Rightarrow> leave_db \<Rightarrow> accrual_item list" where
  "org_items tz now org db =
     (case parseAccrualConfig (lo_leave_accrual org) of None \<Rightarrow> []
      | Some config \<Rightarrow> concat (map (user_items tz now org config) (org_members org db)))"

lemma org_items_grows: "grows db db' \<Longrightarrow> org_items tz now org db' = org_items tz now org db"
  by (simp add: org_items_def org_members_def grows_def split: option.splits)

definition same_books :: "leave_db \<Rightarrow> leave_db \<Rightarrow> bool" where
  "same_books db db' \<longleftrightarrow> lv_users db' = lv_users db \<and> lv_orgs db' = lv_orgs db \<and> lv_grants db' = lv_grants db \<and>
     lv_balances db' = lv_balances db \<and> lv_ledger db' = lv_ledger db \<and> lv_requests db' = lv_requests db"

lemma add_run_books: "same_books db (add_run r db)"
  by (simp add: same_books_def add_run_def)

lemma same_books_grows: "same_books db db' \<Longrightarrow> grows db db'"
  by (simp add: same_books_def grows_def)

lemma same_books_trans: "same_books a b \<Longrightarrow> same_books b c \<Longrightarrow> same_books a c"
  by (simp add: same_books_def)

lemma accrue_org_shape:
  assumes "accrue_org tz now org (n, (db, t, s)) = (n', (db', t', s'))"
  shows "\<exists>db1. fold accrue_item (org_items tz now org db) (db, t, s) = (db1, t', s') \<and> same_books db1 db'"
proof (cases "parseAccrualConfig (lo_leave_accrual org)")
  case None
  then show ?thesis using assms by (simp add: accrue_org_def org_items_def same_books_def)
next
  case (Some config)
  obtain db1 t1 s1 where run: "fold accrue_item (org_items tz now org db) (db, t, s) = (db1, t1, s1)"
    by (cases "fold accrue_item (org_items tz now org db) (db, t, s)")
  then have "(db' = db1 \<or> (\<exists>r. db' = add_run r db1)) \<and> t' = t1 \<and> s' = s1"
    using assms Some by (auto simp: accrue_org_def org_items_def fold_concat_map Let_def split: if_splits)
  then show ?thesis using run add_run_books by (auto simp: same_books_def)
qed

lemma accrue_orgs_grow:
  "fold (accrue_org tz now) orgs (n, (db, t, s)) = (n', (db', t', s')) \<Longrightarrow>
   grows db db' \<and> (\<forall>org\<in>set orgs. \<forall>i\<in>set (org_items tz now org db). accrued i db')"
proof (induction orgs arbitrary: n db t s)
  case Nil
  then show ?case by (simp add: grows_refl)
next
  case (Cons org orgs)
  obtain n1 db1 t1 s1 where one: "accrue_org tz now org (n, (db, t, s)) = (n1, (db1, t1, s1))"
    by (cases "accrue_org tz now org (n, (db, t, s))") auto
  then obtain d where d: "fold accrue_item (org_items tz now org db) (db, t, s) = (d, t1, s1)" "same_books d db1"
    using accrue_org_shape by blast
  have g: "grows db db1" and a: "\<forall>i\<in>set (org_items tz now org db). accrued i db1"
    using accrue_items_grow[OF d(1)] same_books_grows[OF d(2)] grows_trans grows_accrued by blast+
  have "fold (accrue_org tz now) orgs (n1, (db1, t1, s1)) = (n', (db', t', s'))" using Cons.prems one by simp
  from Cons.IH[OF this] g a show ?case
    using grows_trans grows_accrued org_items_grows[OF g] by auto
qed

lemma accrue_orgs_idle:
  "\<forall>org\<in>set orgs. \<forall>i\<in>set (org_items tz now org db). accrued i db \<Longrightarrow>
   fold (accrue_org tz now) orgs (n, (db, t, s)) = (n', (db', t', s')) \<Longrightarrow> same_books db db' \<and> t' = t"
proof (induction orgs arbitrary: n db s)
  case Nil
  then show ?case by (simp add: same_books_def)
next
  case (Cons org orgs)
  obtain n1 db1 t1 s1 where one: "accrue_org tz now org (n, (db, t, s)) = (n1, (db1, t1, s1))"
    by (cases "accrue_org tz now org (n, (db, t, s))") auto
  have "t1 = t" and b: "same_books db db1"
    using accrue_org_shape[OF one] accrue_items_idle[of "org_items tz now org db" db t s] Cons.prems(1) by auto
  then have rest: "fold (accrue_org tz now) orgs (n1, (db1, t, s1)) = (n', (db', t', s'))" using Cons.prems(2) one by simp
  have "\<forall>org\<in>set orgs. \<forall>i\<in>set (org_items tz now org db1). accrued i db1"
    using Cons.prems(1) org_items_grows[OF same_books_grows[OF b]] grows_accrued[OF same_books_grows[OF b]] by simp
  from Cons.IH[OF this rest] show ?case using same_books_trans[OF b] by simp
qed

text \<open>C21: a second accrual run within the same local period (a retry on the next day, or
  a second scheduler) grants nothing: balances, ledger and grants are as the first run left them.\<close>

theorem accrual_idempotent:
  assumes first: "runMonthlyAccrual tz now onlyOrgIds db = (n1, (db1, touched1, skipped1))"
    and second: "runMonthlyAccrual tz now2 onlyOrgIds db1 = (n2, (db2, touched2, skipped2))"
    and period: "\<And>z. accrualPeriodForLocation tz now2 z = accrualPeriodForLocation tz now z"
  shows "touched2 = 0 \<and> lv_balances db2 = lv_balances db1 \<and> lv_ledger db2 = lv_ledger db1 \<and> lv_grants db2 = lv_grants db1"
proof -
  let ?orgs = "filter (\<lambda>o'. onlyOrgIds = [] \<or> lo_id o' \<in> set onlyOrgIds) (lv_orgs db)"
  have grow: "grows db db1" "\<forall>org\<in>set ?orgs. \<forall>i\<in>set (org_items tz now org db). accrued i db1"
    using accrue_orgs_grow first unfolding runMonthlyAccrual_def by blast+
  then have orgs: "filter (\<lambda>o'. onlyOrgIds = [] \<or> lo_id o' \<in> set onlyOrgIds) (lv_orgs db1) = ?orgs"
    by (simp add: grows_def)
  have "org_items tz now2 org db1 = org_items tz now org db" for org
  proof -
    have "user_items tz now2 = user_items tz now" by (simp add: fun_eq_iff user_items_def period)
    then have "org_items tz now2 org db1 = org_items tz now org db1" by (simp add: org_items_def split: option.splits)
    then show ?thesis using org_items_grows[OF grow(1)] by simp
  qed
  then have "\<forall>org\<in>set ?orgs. \<forall>i\<in>set (org_items tz now2 org db1). accrued i db1" using grow(2) by simp
  from accrue_orgs_idle[OF this] show ?thesis
    using second unfolding runMonthlyAccrual_def orgs same_books_def by blast
qed

definition lv_tz :: tzdb where
  "lv_tz = \<lparr>toZonedTime = (\<lambda>t z. t), fromZonedTime = (\<lambda>w z. w)\<rparr>"

definition lv_db0 :: leave_db where
  "lv_db0 = \<lparr>lv_orgs = [\<lparr>lo_id = ''o'', lo_timezone = None,
       lo_leave_accrual = Some [(''annual'', Some \<lparr>pr_days_per_year = Some 24, pr_carry_over_max = Some (Some 5)\<rparr>)]\<rparr>],
     lv_users = [\<lparr>lu_id = ''u'', lu_org_id = ''o'', lu_is_active = True, lu_deleted_at = None, lu_location_id = None,
       lu_location_timezone = None, lu_manager_id = Some ''m''\<rparr>],
     lv_holidays = [\<lparr>hd_org_id = ''o'', hd_location_id = None, hd_date = 0, hd_name = ''New Year'', hd_recurring = True\<rparr>],
     lv_requests = [],
     lv_balances = [\<lparr>lb_user_id = ''u'', lb_org_id = ''o'', lb_leave_type = ''annual'', lb_year = 1969, lb_total_days = 20, lb_used_days = 12\<rparr>],
     lv_ledger = [\<lparr>le_user_id = ''u'', le_org_id = ''o'', le_leave_type = ''annual'', le_year = 1969, le_total_delta = 20,
       le_used_delta = 12, le_reason = ''opening_balance'', le_ref_id = []\<rparr>],
     lv_grants = [], lv_runs = [], lv_log = []\<rparr>"

theorem accrual_idempotent_witness:
  "\<exists>n1 db1 s1 n2 db2 s2. runMonthlyAccrual lv_tz 0 [] lv_db0 = (n1, (db1, 1, s1)) \<and> map lb_total_days (lv_balances db1) = [7, 20] \<and>
     runMonthlyAccrual lv_tz 86400000 [] db1 = (n2, (db2, 0, s2)) \<and> lv_balances db2 = lv_balances db1"
proof -
  have v: "(case runMonthlyAccrual lv_tz 0 [] lv_db0 of (n1, (db1, t1, s1)) \<Rightarrow> (t1, map lb_total_days (lv_balances db1))) = (1, [7, 20])"
    by code_simp
  then obtain n1 db1 s1 where first: "runMonthlyAccrual lv_tz 0 [] lv_db0 = (n1, (db1, 1, s1))"
    and b: "map lb_total_days (lv_balances db1) = [7, 20]" by (auto split: prod.splits)
  obtain n2 db2 t2 s2 where second: "runMonthlyAccrual lv_tz 86400000 [] db1 = (n2, (db2, t2, s2))"
    by (cases "runMonthlyAccrual lv_tz 86400000 [] db1") auto
  have d: "day_of_instant 86400000 = 1" "day_of_instant 0 = 0"
    "civil_day (yearOf 1) (monthOf 1) (dayOf 1) = 1" "civil_day (yearOf 0) (monthOf 0) (dayOf 0) = 0"
    "dayOf 1 = 2" "dayOf 0 = 1" "yearOf 1 = yearOf 0" "monthOf 1 = monthOf 0"
    by code_simp+
  have "accrualPeriodForLocation lv_tz 86400000 z = accrualPeriodForLocation lv_tz 0 z" for z
    by (simp add: accrualPeriodForLocation_def dateOnlyInTz_eq lv_tz_def d)
  with accrual_idempotent[OF first second] first second b show ?thesis by auto
qed

subsection \<open>The ledger adds up to the balances\<close>

definition of_balance :: "id \<times> string \<times> int \<Rightarrow> leave_balance \<Rightarrow> bool" where
  "of_balance k b \<longleftrightarrow> (lb_user_id b, lb_leave_type b, lb_year b) = k"

definition of_entry :: "id \<times> string \<times> int \<Rightarrow> ledger_entry \<Rightarrow> bool" where
  "of_entry k e \<longleftrightarrow> (le_user_id e, le_leave_type e, le_year e) = k"

definition books_match :: "leave_db \<Rightarrow> bool" where
  "books_match db \<longleftrightarrow> (\<forall>k.
     sum_list (map lb_total_days (filter (of_balance k) (lv_balances db))) = sum_list (map le_total_delta (filter (of_entry k) (lv_ledger db))) \<and>
     sum_list (map lb_used_days (filter (of_balance k) (lv_balances db))) = sum_list (map le_used_delta (filter (of_entry k) (lv_ledger db))))"

lemma balance_insert_match: "books_match db \<Longrightarrow> books_match (balance_insert ctx b db)"
  by (simp add: books_match_def balance_insert_def of_balance_def of_entry_def trigger_entry_def)

lemma delta_sums:
  assumes "of_balance k (f b) = of_balance k b"
  shows "sum_list (map le_total_delta (filter (of_entry k) (balance_delta ctx b (f b)))) = (if of_balance k b then lb_total_days (f b) - lb_total_days b else 0)"
    "sum_list (map le_used_delta (filter (of_entry k) (balance_delta ctx b (f b)))) = (if of_balance k b then lb_used_days (f b) - lb_used_days b else 0)"
  using assms by (auto simp: balance_delta_def Let_def trigger_entry_def of_balance_def of_entry_def)

lemma update_sums:
  assumes "\<And>b. of_balance k (f b) = of_balance k b"
  shows "sum_list (map lb_total_days (filter (of_balance k) (update_where p f bs))) =
      sum_list (map lb_total_days (filter (of_balance k) bs)) +
      sum_list (map le_total_delta (filter (of_entry k) (concat (map (\<lambda>b. balance_delta ctx b (f b)) (filter p bs)))))"
    "sum_list (map lb_used_days (filter (of_balance k) (update_where p f bs))) =
      sum_list (map lb_used_days (filter (of_balance k) bs)) +
      sum_list (map le_used_delta (filter (of_entry k) (concat (map (\<lambda>b. balance_delta ctx b (f b)) (filter p bs)))))"
  using assms by (induction bs) (simp_all add: delta_sums)

lemma balance_update_match:
  assumes "books_match db" "\<And>k b. of_balance k (f b) = of_balance k b"
  shows "books_match (balance_update ctx p f db)"
  unfolding books_match_def
proof (intro allI conjI)
  fix k
  have m: "sum_list (map lb_total_days (filter (of_balance k) (lv_balances db))) = sum_list (map le_total_delta (filter (of_entry k) (lv_ledger db)))"
    "sum_list (map lb_used_days (filter (of_balance k) (lv_balances db))) = sum_list (map le_used_delta (filter (of_entry k) (lv_ledger db)))"
    using assms(1) unfolding books_match_def by blast+
  show "sum_list (map lb_total_days (filter (of_balance k) (lv_balances (balance_update ctx p f db)))) =
      sum_list (map le_total_delta (filter (of_entry k) (lv_ledger (balance_update ctx p f db))))"
    using update_sums(1)[of k f p "lv_balances db" ctx] assms(2) m(1) by (simp add: balance_update_def)
  show "sum_list (map lb_used_days (filter (of_balance k) (lv_balances (balance_update ctx p f db)))) =
      sum_list (map le_used_delta (filter (of_entry k) (lv_ledger (balance_update ctx p f db))))"
    using update_sums(2)[of k f p "lv_balances db" ctx] assms(2) m(2) by (simp add: balance_update_def)
qed

lemma books_match_cong: "lv_balances db' = lv_balances db \<Longrightarrow> lv_ledger db' = lv_ledger db \<Longrightarrow> books_match db' = books_match db"
  by (simp add: books_match_def)

lemma accrue_one_match:
  assumes "accrue_one i db = Some db'" "books_match db"
  shows "books_match db'"
proof -
  have g: "books_match (db\<lparr>lv_grants := g\<rparr>)" for g using assms(2) by (simp add: books_match_def)
  show ?thesis using assms(1)
    by (auto simp: accrue_one_def Let_def of_balance_def split: if_splits option.splits
        intro!: balance_update_match balance_insert_match g)
qed

text \<open>What one grant keeps and what does not depend on the other tables is kept by a whole run.\<close>

lemma accrual_invariant:
  assumes one: "\<And>i a b. accrue_one i a = Some b \<Longrightarrow> P a \<Longrightarrow> P b" and same: "\<And>a b. same_books a b \<Longrightarrow> P a \<Longrightarrow> P b"
  shows "P db \<Longrightarrow> runMonthlyAccrual tz now ids db = (n, (db', t, s)) \<Longrightarrow> P db'"
proof -
  have items: "P db \<Longrightarrow> fold accrue_item items (db, t, s) = (db', t', s') \<Longrightarrow> P db'" for items db t s db' t' s'
  proof (induction items arbitrary: db t s)
    case (Cons i items)
    then show ?case using one[of i db] by (cases "accrue_one i db") (auto simp: accrue_item_def)
  qed simp
  have orgs: "P db \<Longrightarrow> fold (accrue_org tz now) orgs (n, (db, t, s)) = (n', (db', t', s')) \<Longrightarrow> P db'"
    for orgs n db t s n' db' t' s'
  proof (induction orgs arbitrary: n db t s)
    case (Cons org orgs)
    obtain n1 db1 t1 s1 where one: "accrue_org tz now org (n, (db, t, s)) = (n1, (db1, t1, s1))"
      by (cases "accrue_org tz now org (n, (db, t, s))") auto
    then have "P db1" using accrue_org_shape[OF one] items Cons.prems(1) same by blast
    then show ?case using Cons.IH Cons.prems(2) one by simp
  qed simp
  show "P db \<Longrightarrow> runMonthlyAccrual tz now ids db = (n, (db', t, s)) \<Longrightarrow> P db'"
    unfolding runMonthlyAccrual_def by (rule orgs)
qed

lemma accrual_match: "books_match db \<Longrightarrow> runMonthlyAccrual tz now ids db = (n, (db', t, s)) \<Longrightarrow> books_match db'"
  by (rule accrual_invariant[where P = books_match]) (auto simp: same_books_def dest: books_match_cong intro: accrue_one_match)

subsection \<open>Submitting a request\<close>

text \<open>The input has passed \<open>leaveRequestSchema\<close>: dates are \<open>YYYY-MM-DD\<close> and times \<open>HH:MM\<close>.\<close>

record leave_input =
  li_leave_type :: string
  li_start_date :: string
  li_end_date :: string
  li_reason :: "string option"
  li_is_half_day :: bool
  li_half_day_period :: "string option"
  li_leave_start_time :: "string option"
  li_leave_end_time :: "string option"

definition leave_minutes :: "string \<Rightarrow> rat" where
  "leave_minutes time =
     (case map js_number (split_on (CHR '':'') time) of h # m # _ \<Rightarrow> or_zero h * 60 + or_zero m | _ \<Rightarrow> 0)"

definition overlaps_request :: "id \<Rightarrow> id \<Rightarrow> day \<Rightarrow> day \<Rightarrow> leave_input \<Rightarrow> leave_request \<Rightarrow> bool" where
  "overlaps_request userId orgId start end inp r \<longleftrightarrow>
     lr_user_id r = userId \<and> lr_org_id r = orgId \<and> lr_status r \<in> {''pending'', ''approved''} \<and>
     lr_start_date r \<le> end \<and> start \<le> lr_end_date r \<and>
     (li_is_half_day inp \<longrightarrow> \<not> lr_is_half_day r \<or> lr_half_day_period r = li_half_day_period inp)"

definition timed :: "leave_input \<Rightarrow> bool" where
  "timed inp \<longleftrightarrow> coalesce (li_leave_start_time inp) [] \<noteq> [] \<or> coalesce (li_leave_end_time inp) [] \<noteq> []"

definition new_request :: "instant \<Rightarrow> id \<Rightarrow> id \<Rightarrow> id \<Rightarrow> id option \<Rightarrow> day \<Rightarrow> day \<Rightarrow> rat \<Rightarrow> leave_input \<Rightarrow> leave_request" where
  "new_request now rid userId orgId locationId start end workingDays inp =
     \<lparr>lr_id = rid, lr_org_id = orgId, lr_user_id = userId, lr_location_id = locationId, lr_leave_type = li_leave_type inp,
      lr_start_date = start, lr_end_date = end, lr_working_days = workingDays, lr_reason = li_reason inp,
      lr_is_half_day = li_is_half_day inp,
      lr_half_day_period = (if li_is_half_day inp then li_half_day_period inp else None),
      lr_leave_start_time = (if timed inp then li_leave_start_time inp else None),
      lr_leave_end_time = (if timed inp then li_leave_end_time inp else None),
      lr_status = ''pending'', lr_reviewed_by = None, lr_reviewed_at = None, lr_rejection_reason = None, lr_created_at = now\<rparr>"

definition same_submission :: "leave_request \<Rightarrow> leave_request \<Rightarrow> bool" where
  "same_submission n r \<longleftrightarrow> lr_user_id r = lr_user_id n \<and> lr_org_id r = lr_org_id n \<and> lr_status r = ''pending'' \<and>
     lr_leave_type r = lr_leave_type n \<and> lr_start_date r = lr_start_date n \<and> lr_end_date r = lr_end_date n \<and>
     lr_is_half_day r = lr_is_half_day n \<and> lr_half_day_period r = lr_half_day_period n \<and>
     lr_leave_start_time r = lr_leave_start_time n \<and> lr_leave_end_time r = lr_leave_end_time n \<and> lr_reason r = lr_reason n"

definition requested_days :: "leave_input \<Rightarrow> int \<Rightarrow> rat" where
  "requested_days inp calendarDays =
     (if timed inp
      then max (1 / 10) (round2 ((leave_minutes (coalesce (li_leave_end_time inp) []) -
             leave_minutes (coalesce (li_leave_start_time inp) [])) / 480))
      else if li_is_half_day inp then 1 / 2 else of_int calendarDays)"

definition submitLeaveRequest ::
    "tzdb \<Rightarrow> instant \<Rightarrow> id \<Rightarrow> id \<Rightarrow> id \<Rightarrow> leave_input \<Rightarrow> leave_db \<Rightarrow> (leave_request \<times> leave_db) result" where
  "submitLeaveRequest tz now rid userId orgId inp db =
     (case (find_first (\<lambda>o'. lo_id o' = orgId) (lv_orgs db),
            find_first (\<lambda>u. lu_id u = userId \<and> lu_org_id u = orgId \<and> lu_is_active u \<and> lu_deleted_at u = None) (lv_users db)) of
        (None, _) \<Rightarrow> Inl PlainError
      | (Some _, None) \<Rightarrow> Inl ValidationError
      | (Some org, Some requester) \<Rightarrow>
     (case (parse_iso_date (li_start_date inp), parse_iso_date (li_end_date inp)) of
        (Some start, Some end) \<Rightarrow>
     (let timezone = coalesce_opt (lu_location_timezone requester) (lo_timezone org);
          locationId = lu_location_id requester;
          sameDay = (li_start_date inp = li_end_date inp);
          startTime = coalesce (li_leave_start_time inp) []; endTime = coalesce (li_leave_end_time inp) [];
          calendarDays = workingDaysForOrg orgId start end locationId (lv_holidays db);
          workingDays = requested_days inp calendarDays;
          request = new_request now rid userId orgId locationId start end workingDays inp
      in require (\<not> (end < start \<or> start < dateOnlyInTz tz now timezone)) ValidationError
        (require (\<not> (li_is_half_day inp \<and> (\<not> sameDay \<or> coalesce (li_half_day_period inp) [] \<notin> {''morning'', ''afternoon''}))) ValidationError
        (require (\<not> (timed inp \<and> (startTime = [] \<or> endTime = [] \<or> \<not> sameDay \<or> endTime \<le> startTime))) ValidationError
        (require (\<not> (timed inp \<and> li_is_half_day inp)) ValidationError
        (require (\<not> ((timed inp \<or> li_is_half_day inp) \<and> calendarDays = 0)) ValidationError
        (require (0 < workingDays) ValidationError
        (case find_first (same_submission request) (lv_requests db) of
           Some existing \<Rightarrow> Inr (existing, db)
         | None \<Rightarrow>
        (require (find_first (overlaps_request userId orgId start end inp) (lv_requests db) = None) ValidationError
        (require (li_leave_type inp = ''unpaid'' \<or>
            (case getLeaveLedgerBalance userId orgId (li_leave_type inp) (yearOf start) db of
               None \<Rightarrow> True | Some (t, u) \<Rightarrow> workingDays \<le> availableDays t u)) ValidationError
        (Inr (request, db\<lparr>lv_requests := request # lv_requests db,
           lv_log := OrgEvent ''leave_changed'' #
             (case lu_manager_id requester of None \<Rightarrow> [] | Some m \<Rightarrow> [Notify m ''leave_request'' rid]) @ lv_log db\<rparr>)))))))))))
      | _ \<Rightarrow> Inl ValidationError))"

lemma case_option_Inr:
  "(case x of None \<Rightarrow> a | Some v \<Rightarrow> b v) = Inr y \<longleftrightarrow> x = None \<and> a = Inr y \<or> (\<exists>v. x = Some v \<and> b v = Inr y)"
  by (cases x) simp_all

lemma submit_keeps_books:
  assumes "submitLeaveRequest tz now rid userId orgId inp l = Inr (r, l')"
  shows "lv_balances l' = lv_balances l \<and> lv_ledger l' = lv_ledger l \<and>
    (lv_requests l' = lv_requests l \<or> (\<exists>x. lr_id x = rid \<and> lv_requests l' = x # lv_requests l))"
proof (cases "find_first (\<lambda>o'. lo_id o' = orgId) (lv_orgs l)")
  case None
  then show ?thesis using assms by (simp add: submitLeaveRequest_def)
next
  case org: (Some org)
  show ?thesis
  proof (cases "find_first (\<lambda>u. lu_id u = userId \<and> lu_org_id u = orgId \<and> lu_is_active u \<and> lu_deleted_at u = None) (lv_users l)")
    case None
    then show ?thesis using assms org by (simp add: submitLeaveRequest_def)
  next
    case usr: (Some u)
    show ?thesis
    proof (cases "parse_iso_date (li_start_date inp)")
      case None
      then show ?thesis using assms org usr by (simp only: submitLeaveRequest_def prod.case option.case sum.distinct)
    next
      case s: (Some s)
      show ?thesis
      proof (cases "parse_iso_date (li_end_date inp)")
        case None
        then show ?thesis using assms org usr s by (simp only: submitLeaveRequest_def prod.case option.case sum.distinct)
      next
        case (Some e)
        have r: "submitLeaveRequest tz now rid userId orgId inp l = Inr (r, l')" by (rule assms)
        note submitLeaveRequest_def [of tz now rid userId orgId inp l, unfolded org usr s Some Let_def prod.case option.case]
        from r [unfolded this require_eq_Inr case_option_Inr sum.inject prod.inject] show ?thesis
          by (elim conjE disjE exE) (hypsubst+, simp add: new_request_def)+
      qed
    qed
  qed
qed

end
