(* ===== verification/Approvals.thy ===== *)
theory Approvals
  imports Access Leave "HOL-Library.Product_Lexorder"
begin

text \<open>
  The shared approval inbox and its decisions: \<^verbatim>\<open>src/src/services/approval-workflows.ts\<close>, with the
  keyset conditions of \<^verbatim>\<open>src/src/utils/cursor.ts\<close>.

  Eight kinds of requests live in eight tables; a decision is one handler per kind behind common
  checks.  A handler that throws inside its transaction leaves the state as it was, so it is a
  function to an error or to the new state.  The texts of summaries and notifications are left
  out; that a notification, an audit row or an event is emitted is kept in \<open>ap_log\<close>.  Ids of new rows
  are given by \<open>uuid\<close>; \<open>collate\<close> is the collation key of \<open>localeCompare\<close>, \<open>db_less\<close> the order of ids in the
  database.
\<close>

subsection \<open>Requests and tables\<close>

datatype approval_type = LeaveT | OvertimeT | RemoteT | SwapT | LateNoticeT | ExpenseT | CorrectionT | TimesheetT

datatype approval_action = Approve | Reject | Acknowledge

record attendance_rec =
  at_id :: id
  at_user_id :: id
  at_org_id :: id
  at_location_id :: "id option"
  at_date :: day
  at_check_in_at :: "instant option"
  at_check_out_at :: "instant option"
  at_hours_worked :: "rat option"
  at_overtime_hours :: "rat option"
  at_extra_office_minutes :: "int option"
  at_check_in_type :: string
  at_status :: string
  at_is_overridden :: bool
  at_override_by :: "id option"
  at_override_reason :: "string option"

record shift_assignment =
  sa_id :: id
  sa_user_id :: id
  sa_shift_id :: id
  sa_date :: day

record overtime_request =
  ot_id :: id
  ot_org_id :: id
  ot_user_id :: id
  ot_attendance_id :: id
  ot_requested_minutes :: int
  ot_status :: string
  ot_reviewed_by :: "id option"
  ot_rejection_reason :: "string option"
  ot_created_at :: instant

record remote_session =
  rs_id :: id
  rs_user_id :: id
  rs_attendance_id :: id
  rs_status :: string
  rs_approved_by :: "id option"
  rs_review_note :: "string option"
  rs_created_at :: instant

record shift_swap =
  sw_id :: id
  sw_requester_id :: id
  sw_requester_assign_id :: id
  sw_target_assign_id :: id
  sw_status :: string
  sw_manager_id :: "id option"
  sw_rejection_reason :: "string option"
  sw_created_at :: instant

record late_notice =
  ln_id :: id
  ln_org_id :: id
  ln_user_id :: id
  ln_date :: day
  ln_status :: string
  ln_acknowledged_by :: "id option"
  ln_created_at :: instant

record correction =
  co_id :: id
  co_org_id :: id
  co_user_id :: id
  co_date :: day
  co_attendance_id :: "id option"
  co_requested_check_in :: "instant option"
  co_requested_check_out :: "instant option"
  co_reason :: string
  co_status :: string
  co_reviewed_by :: "id option"
  co_review_note :: "string option"
  co_created_at :: instant

record timesheet =
  ts_id :: id
  ts_org_id :: id
  ts_user_id :: id
  ts_week_start :: day
  ts_status :: string
  ts_submitted_at :: instant
  ts_reviewed_by :: "id option"
  ts_review_note :: "string option"

record time_entry =
  te_org_id :: id
  te_user_id :: id
  te_started_at :: instant
  te_status :: string

record claim_row =
  cr_id :: id
  cr_org_id :: id
  cr_user_id :: id
  cr_status :: string
  cr_reviewed_by :: "id option"
  cr_review_note :: "string option"
  cr_created_at :: instant

record approval_db =
  ap_access :: access_db
  ap_leave :: leave_db
  ap_attendance :: "attendance_rec list"
  ap_assignments :: "shift_assignment list"
  ap_overtime :: "overtime_request list"
  ap_remote :: "remote_session list"
  ap_swaps :: "shift_swap list"
  ap_notices :: "late_notice list"
  ap_corrections :: "correction list"
  ap_timesheets :: "timesheet list"
  ap_entries :: "time_entry list"
  ap_claims :: "claim_row list"
  ap_processed_payroll :: "(id \<times> id \<times> int \<times> int) list"
  ap_log :: "effect list"

definition member_org :: "id \<Rightarrow> approval_db \<Rightarrow> id option" where
  "member_org userId db = map_option mb_org_id (find_first (\<lambda>u. mb_id u = userId) (ad_members (ap_access db)))"

definition member_location :: "id \<Rightarrow> approval_db \<Rightarrow> id option" where
  "member_location userId db = Option.bind (find_first (\<lambda>u. mb_id u = userId) (ad_members (ap_access db))) mb_primary_location_id"

definition org_timezone :: "id \<Rightarrow> approval_db \<Rightarrow> string option" where
  "org_timezone orgId db = Option.bind (find_first (\<lambda>o'. og_id o' = orgId) (ad_orgs (ap_access db))) og_timezone"

subsection \<open>The inbox\<close>

definition requestTypes :: "approval_type list" where
  "requestTypes = [LeaveT, OvertimeT, RemoteT, SwapT, LateNoticeT, ExpenseT, CorrectionT, TimesheetT]"

fun type_rank :: "approval_type \<Rightarrow> nat" where
  "type_rank LeaveT = 0" | "type_rank OvertimeT = 1" | "type_rank RemoteT = 2" | "type_rank SwapT = 3"
| "type_rank LateNoticeT = 4" | "type_rank ExpenseT = 5" | "type_rank CorrectionT = 6" | "type_rank TimesheetT = 7"

definition scopeFor :: "approval_type \<Rightarrow> string set \<Rightarrow> id list \<Rightarrow> id list option" where
  "scopeFor type permissions reports =
     (if type = LeaveT \<and> ''leave.view_all'' \<in> permissions then None
      else if type = ExpenseT
      then (if ''expenses.manage'' \<in> permissions \<or> ''employees.view'' \<in> permissions then None else Some reports)
      else if ''employees.view'' \<in> permissions then None else Some reports)"

fun hasTypePermission :: "approval_type \<Rightarrow> string set \<Rightarrow> bool" where
  "hasTypePermission LeaveT ps \<longleftrightarrow> ''leave.approve'' \<in> ps"
| "hasTypePermission OvertimeT ps \<longleftrightarrow> ''overtime.manage'' \<in> ps"
| "hasTypePermission RemoteT ps \<longleftrightarrow> ''remote.approve'' \<in> ps"
| "hasTypePermission SwapT ps \<longleftrightarrow> ''shifts.swaps.approve'' \<in> ps"
| "hasTypePermission LateNoticeT ps \<longleftrightarrow> ''attendance.late_notices.manage'' \<in> ps"
| "hasTypePermission ExpenseT ps \<longleftrightarrow> ''expenses.view'' \<in> ps \<or> ''expenses.manage'' \<in> ps"
| "hasTypePermission CorrectionT ps \<longleftrightarrow> ''attendance.override'' \<in> ps"
| "hasTypePermission TimesheetT ps \<longleftrightarrow> ''time.approve'' \<in> ps"

record pending =
  pe_id :: id
  pe_requester :: id
  pe_at :: instant

fun pending_rows :: "approval_type \<Rightarrow> id \<Rightarrow> day \<Rightarrow> approval_db \<Rightarrow> pending list" where
  "pending_rows LeaveT orgId today db =
     map (\<lambda>r. \<lparr>pe_id = lr_id r, pe_requester = lr_user_id r, pe_at = lr_created_at r\<rparr>)
       (filter (\<lambda>r. lr_org_id r = orgId \<and> lr_status r = ''pending'') (lv_requests (ap_leave db)))"
| "pending_rows OvertimeT orgId today db =
     map (\<lambda>r. \<lparr>pe_id = ot_id r, pe_requester = ot_user_id r, pe_at = ot_created_at r\<rparr>)
       (filter (\<lambda>r. ot_org_id r = orgId \<and> ot_status r = ''pending'') (ap_overtime db))"
| "pending_rows RemoteT orgId today db =
     map (\<lambda>r. \<lparr>pe_id = rs_id r, pe_requester = rs_user_id r, pe_at = rs_created_at r\<rparr>)
       (filter (\<lambda>r. rs_status r = ''pending'' \<and> member_org (rs_user_id r) db = Some orgId) (ap_remote db))"
| "pending_rows SwapT orgId today db =
     map (\<lambda>r. \<lparr>pe_id = sw_id r, pe_requester = sw_requester_id r, pe_at = sw_created_at r\<rparr>)
       (filter (\<lambda>r. sw_status r = ''pending'' \<and> member_org (sw_requester_id r) db = Some orgId) (ap_swaps db))"
| "pending_rows LateNoticeT orgId today db =
     map (\<lambda>r. \<lparr>pe_id = ln_id r, pe_requester = ln_user_id r, pe_at = ln_created_at r\<rparr>)
       (filter (\<lambda>r. ln_org_id r = orgId \<and> ln_status r = ''pending'' \<and> today \<le> ln_date r) (ap_notices db))"
| "pending_rows ExpenseT orgId today db =
     map (\<lambda>r. \<lparr>pe_id = cr_id r, pe_requester = cr_user_id r, pe_at = cr_created_at r\<rparr>)
       (filter (\<lambda>r. cr_org_id r = orgId \<and> cr_status r = ''pending'') (ap_claims db))"
| "pending_rows CorrectionT orgId today db =
     map (\<lambda>r. \<lparr>pe_id = co_id r, pe_requester = co_user_id r, pe_at = co_created_at r\<rparr>)
       (filter (\<lambda>r. co_org_id r = orgId \<and> co_status r = ''pending'') (ap_corrections db))"
| "pending_rows TimesheetT orgId today db =
     map (\<lambda>r. \<lparr>pe_id = ts_id r, pe_requester = ts_user_id r, pe_at = ts_submitted_at r\<rparr>)
       (filter (\<lambda>r. ts_org_id r = orgId \<and> ts_status r = ''submitted'') (ap_timesheets db))"

record cursor =
  cu_at :: instant
  cu_id :: id
  cu_tie :: "approval_type option"

definition keysetAfterAscending :: "(id \<Rightarrow> id \<Rightarrow> bool) \<Rightarrow> cursor \<Rightarrow> approval_type \<Rightarrow> pending \<Rightarrow> bool" where
  "keysetAfterAscending db_less position grp row =
     (let currentRank = type_rank grp; cursorRank = type_rank (coalesce (cu_tie position) grp)
      in if currentRank < cursorRank then cu_at position < pe_at row
         else if cursorRank < currentRank then cu_at position \<le> pe_at row
         else cu_at position < pe_at row \<or> (pe_at row = cu_at position \<and> db_less (cu_id position) (pe_id row)))"

record approval_item =
  it_type :: approval_type
  it_id :: id
  it_requester :: id
  it_created_at :: instant
  it_age_hours :: int
  it_urgency :: string
  it_reject_needs_reason :: bool
  it_can_act :: bool

definition ageHours :: "instant \<Rightarrow> instant \<Rightarrow> int" where
  "ageHours now submitted = max 0 ((now - submitted) div 3600000)"

definition urgency :: "int \<Rightarrow> string" where
  "urgency age = (if 72 \<le> age then ''urgent'' else if 24 \<le> age then ''aging'' else ''normal'')"

definition item_of :: "instant \<Rightarrow> string set \<Rightarrow> approval_type \<Rightarrow> pending \<Rightarrow> approval_item" where
  "item_of now permissions type row =
     \<lparr>it_type = type, it_id = pe_id row, it_requester = pe_requester row, it_created_at = pe_at row,
      it_age_hours = ageHours now (pe_at row), it_urgency = urgency (ageHours now (pe_at row)),
      it_reject_needs_reason = (type \<noteq> LateNoticeT),
      it_can_act = (if type = ExpenseT then ''expenses.manage'' \<in> permissions else True)\<rparr>"

definition in_scope :: "id list option \<Rightarrow> pending \<Rightarrow> bool" where
  "in_scope scope row \<longleftrightarrow> isInEmployeeScope (pe_requester row) scope"

definition scoped_rows :: "approval_type \<Rightarrow> string set \<Rightarrow> id list \<Rightarrow> id \<Rightarrow> day \<Rightarrow> approval_db \<Rightarrow> pending list" where
  "scoped_rows type permissions reportIds orgId today db =
     filter (in_scope (scopeFor type permissions reportIds)) (pending_rows type orgId today db)"

record inbox =
  ib_available :: "approval_type list"
  ib_items :: "approval_item list"
  ib_counts :: "(approval_type \<times> nat) list"
  ib_total :: "nat option"
  ib_has_more :: bool
  ib_next :: "cursor option"

definition item_order :: "(string \<Rightarrow> nat list) \<Rightarrow> approval_item \<Rightarrow> instant \<times> nat \<times> nat list" where
  "item_order collate i = (it_created_at i, type_rank (it_type i), collate (it_id i))"

definition page_cursor :: "approval_item list \<Rightarrow> cursor option" where
  "page_cursor items =
     (case rev items of [] \<Rightarrow> None
      | i # _ \<Rightarrow> Some \<lparr>cu_at = it_created_at i, cu_id = it_id i, cu_tie = Some (it_type i)\<rparr>)"

text \<open>\<open>page\<close> is \<open>None\<close> for the unpaginated inbox, else the decoded cursor and the limit.\<close>

definition listPendingApprovals ::
    "(string \<Rightarrow> nat list) \<Rightarrow> (id \<Rightarrow> id \<Rightarrow> bool) \<Rightarrow> tzdb \<Rightarrow> instant \<Rightarrow> id \<Rightarrow> id \<Rightarrow> approval_type option \<Rightarrow>
     (cursor option \<times> nat) option \<Rightarrow> approval_db \<Rightarrow> inbox" where
  "listPendingApprovals collate db_less tz now userId orgId typeFilter page db =
     (let permissions = resolveUserPermissions userId orgId (ap_access db);
          permitted = filter (\<lambda>t. hasTypePermission t permissions) requestTypes;
          selected = (case typeFilter of None \<Rightarrow> permitted | Some t \<Rightarrow> filter (\<lambda>x. x = t) permitted);
          reportIds = coalesce (reviewableEmployeeIds orgId userId permissions ''employees.view'' (ap_access db)) [];
          today = dateOnlyInTz tz now (Some (coalesce (org_timezone orgId db) ''UTC''));
          after = (\<lambda>t row. case Option.bind page fst of None \<Rightarrow> True | Some c \<Rightarrow> keysetAfterAscending db_less c t row);
          pageTake = (case page of None \<Rightarrow> 200 | Some (_, limit) \<Rightarrow> limit + 1);
          fetch = (\<lambda>t. take pageTake (sort_key pe_at (filter (after t) (scoped_rows t permissions reportIds orgId today db))));
          items = sort_key (item_order collate) (concat (map (\<lambda>t. map (item_of now permissions t) (fetch t)) selected));
          pageItems = (case page of None \<Rightarrow> items | Some (_, limit) \<Rightarrow> take limit items);
          hasMore = (case page of None \<Rightarrow> False | Some (_, limit) \<Rightarrow> limit < length items);
          counts = (case page of
              None \<Rightarrow> map (\<lambda>t. (t, length (scoped_rows t permissions reportIds orgId today db))) selected
            | Some _ \<Rightarrow> map (\<lambda>t. (t, count_where (\<lambda>i. it_type i = t) pageItems))
                (filter (\<lambda>t. \<exists>i\<in>set pageItems. it_type i = t) selected))
      in \<lparr>ib_available = permitted, ib_items = pageItems, ib_counts = counts,
          ib_total = (case page of None \<Rightarrow> Some (sum_list (map snd counts)) | Some _ \<Rightarrow> None),
          ib_has_more = hasMore, ib_next = (if hasMore then page_cursor pageItems else None)\<rparr>)"

subsection \<open>Decisions\<close>

record decision =
  de_user :: id
  de_org :: id
  de_action :: approval_action
  de_reason :: string
  de_note :: "string option"
  de_now :: instant

definition viewer_permissions :: "decision \<Rightarrow> approval_db \<Rightarrow> string set" where
  "viewer_permissions d db = resolveUserPermissions (de_user d) (de_org d) (ap_access db)"

definition assertReviewerScope :: "decision \<Rightarrow> approval_type \<Rightarrow> id \<Rightarrow> approval_db \<Rightarrow> unit result" where
  "assertReviewerScope d type requesterId db =
     (if type = LeaveT \<and> ''leave.view_all'' \<in> viewer_permissions d db then Inr ()
      else if isInEmployeeScope requesterId
          (reviewableEmployeeIds (de_org d) (de_user d) (viewer_permissions d db) ''employees.view'' (ap_access db))
      then Inr () else Inl ForbiddenError)"

text \<open>The conditional update every handler starts its transaction with.\<close>

definition claim_pending :: "('r \<Rightarrow> bool) \<Rightarrow> ('r \<Rightarrow> 'r) \<Rightarrow> 'r list \<Rightarrow> 'r list result" where
  "claim_pending p f rows = (if count_where p rows = 0 then Inl ValidationError else Inr (update_where p f rows))"

definition decided :: "decision \<Rightarrow> string" where
  "decided d = (if de_action d = Approve then ''approved'' else ''rejected'')"

definition review_text :: "decision \<Rightarrow> string option" where
  "review_text d = (if de_action d = Reject then Some (de_reason d) else de_note d)"

definition rejection_text :: "decision \<Rightarrow> string option" where
  "rejection_text d = (if de_action d = Reject then Some (de_reason d) else None)"

definition effects :: "decision \<Rightarrow> id \<Rightarrow> string \<Rightarrow> string \<Rightarrow> string \<Rightarrow> id \<Rightarrow> approval_db \<Rightarrow> approval_db" where
  "effects d requesterId notice audit event i db =
     db\<lparr>ap_log := [OrgEvent event, Audit audit i, Notify requesterId notice i] @ ap_log db\<rparr>"

definition suffixed :: "decision \<Rightarrow> string \<Rightarrow> string" where
  "suffixed d s = s @ (if de_action d = Approve then ''approve'' else ''reject'')"

subsubsection \<open>Leave\<close>

definition mark_leave_day :: "(day \<Rightarrow> id) \<Rightarrow> id \<Rightarrow> id \<Rightarrow> id option \<Rightarrow> string \<Rightarrow> day \<Rightarrow> attendance_rec list \<Rightarrow> attendance_rec list" where
  "mark_leave_day uuid userId orgId locationId status day rows =
     (case find_first (\<lambda>a. at_user_id a = userId \<and> at_date a = day) rows of
        Some existing \<Rightarrow> update_where (\<lambda>a. at_id a = at_id existing) (\<lambda>a. a\<lparr>at_status := status\<rparr>) rows
      | None \<Rightarrow>
          \<lparr>at_id = uuid day, at_user_id = userId, at_org_id = orgId, at_location_id = locationId, at_date = day,
           at_check_in_at = None, at_check_out_at = None, at_hours_worked = None, at_overtime_hours = None,
           at_extra_office_minutes = None, at_check_in_type = ''manual'', at_status = status, at_is_overridden = False,
           at_override_by = None, at_override_reason = None\<rparr> # rows)"

definition mark_leave_days :: "(day \<Rightarrow> id) \<Rightarrow> day set \<Rightarrow> id option \<Rightarrow> leave_request \<Rightarrow> attendance_rec list \<Rightarrow> attendance_rec list" where
  "mark_leave_days uuid holidays locationId r rows =
     (let status = (if lr_is_half_day r \<or> coalesce (lr_leave_start_time r) [] \<noteq> [] then ''half_leave'' else ''leave'')
      in fold (\<lambda>day rows. if is_working_day holidays day
                 then mark_leave_day uuid (lr_user_id r) (lr_org_id r) locationId status day rows else rows)
           [lr_start_date r..lr_end_date r] rows)"

definition leave_location :: "leave_request \<Rightarrow> approval_db \<Rightarrow> id option" where
  "leave_location r db = coalesce_opt (lr_location_id r) (member_location (lr_user_id r) db)"

definition pending_leave :: "decision \<Rightarrow> id \<Rightarrow> leave_request \<Rightarrow> bool" where
  "pending_leave d i r \<longleftrightarrow> lr_id r = i \<and> lr_org_id r = de_org d \<and> lr_status r = ''pending''"

definition approve_leave :: "(day \<Rightarrow> id) \<Rightarrow> decision \<Rightarrow> id \<Rightarrow> leave_request \<Rightarrow> approval_db \<Rightarrow> approval_db result" where
  "approve_leave uuid d i r db =
     (let locationId = leave_location r db;
          holidays = holidaySetForRange (de_org d) (lr_start_date r) (lr_end_date r) locationId (lv_holidays (ap_leave db))
      in require (\<not> (\<exists>s\<in>set (ap_assignments db). sa_user_id s = lr_user_id r \<and> lr_start_date r \<le> sa_date s \<and> sa_date s \<le> lr_end_date r))
           ValidationError
        (bind_result (claim_pending (pending_leave d i)
            (\<lambda>x. x\<lparr>lr_status := ''approved'', lr_reviewed_by := Some (de_user d), lr_reviewed_at := Some (de_now d)\<rparr>)
            (lv_requests (ap_leave db))) (\<lambda>requests.
          Inr (db\<lparr>ap_leave := balance_update (''usage'', lr_id r)
                     (same_balance (lr_user_id r) (lr_leave_type r) (yearOf (lr_start_date r)))
                     (\<lambda>b. b\<lparr>lb_used_days := lb_used_days b + lr_working_days r\<rparr>) ((ap_leave db)\<lparr>lv_requests := requests\<rparr>),
                  ap_attendance := mark_leave_days uuid holidays locationId r (ap_attendance db)\<rparr>))))"

definition reject_leave :: "decision \<Rightarrow> id \<Rightarrow> approval_db \<Rightarrow> approval_db result" where
  "reject_leave d i db =
     bind_result (claim_pending (pending_leave d i)
        (\<lambda>x. x\<lparr>lr_status := ''rejected'', lr_reviewed_by := Some (de_user d), lr_reviewed_at := Some (de_now d),
               lr_rejection_reason := Some (de_reason d)\<rparr>) (lv_requests (ap_leave db)))
       (\<lambda>requests. Inr (db\<lparr>ap_leave := (ap_leave db)\<lparr>lv_requests := requests\<rparr>\<rparr>))"

definition review_leave :: "(day \<Rightarrow> id) \<Rightarrow> decision \<Rightarrow> id \<Rightarrow> approval_db \<Rightarrow> approval_db result" where
  "review_leave uuid d i db =
     (case find_first (\<lambda>r. lr_id r = i \<and> lr_org_id r = de_org d) (lv_requests (ap_leave db)) of
        None \<Rightarrow> Inl NotFoundError
      | Some r \<Rightarrow>
          bind_result (assertReviewerScope d LeaveT (lr_user_id r) db) (\<lambda>_.
          bind_result (if de_action d = Approve then approve_leave uuid d i r db else reject_leave d i db) (\<lambda>db1.
          Inr (effects d (lr_user_id r) (''leave_'' @ decided d) (suffixed d ''leave.'') ''leave_changed'' i db1))))"

subsubsection \<open>Overtime, remote work, shift swaps and late notices\<close>

definition review_overtime :: "decision \<Rightarrow> id \<Rightarrow> approval_db \<Rightarrow> approval_db result" where
  "review_overtime d i db =
     (case find_first (\<lambda>r. ot_id r = i \<and> ot_org_id r = de_org d) (ap_overtime db) of
        None \<Rightarrow> Inl NotFoundError
      | Some r \<Rightarrow>
          bind_result (assertReviewerScope d OvertimeT (ot_user_id r) db) (\<lambda>_.
          bind_result (claim_pending (\<lambda>x. ot_id x = i \<and> ot_org_id x = de_org d \<and> ot_status x = ''pending'')
            (\<lambda>x. x\<lparr>ot_status := decided d, ot_reviewed_by := Some (de_user d), ot_rejection_reason := rejection_text d\<rparr>)
            (ap_overtime db)) (\<lambda>rows.
          let extra = coalesce (Option.bind (find_first (\<lambda>a. at_id a = ot_attendance_id r) (ap_attendance db)) at_extra_office_minutes) 0;
              db1 = db\<lparr>ap_overtime := rows\<rparr>;
              db2 = (if de_action d = Approve
                then db1\<lparr>ap_attendance := update_where (\<lambda>a. at_id a = ot_attendance_id r)
                  (\<lambda>a. a\<lparr>at_overtime_hours := Some (toFixed2 (of_int (ot_requested_minutes r) / 60)),
                         at_extra_office_minutes := Some (max 0 (extra - ot_requested_minutes r))\<rparr>) (ap_attendance db)\<rparr>
                else db1)
          in Inr (effects d (ot_user_id r) (''overtime_'' @ decided d) (suffixed d ''overtime.'') ''overtime_changed'' i db2))))"

definition review_remote :: "decision \<Rightarrow> id \<Rightarrow> approval_db \<Rightarrow> approval_db result" where
  "review_remote d i db =
     (case find_first (\<lambda>r. rs_id r = i \<and> member_org (rs_user_id r) db = Some (de_org d)) (ap_remote db) of
        None \<Rightarrow> Inl NotFoundError
      | Some r \<Rightarrow>
          bind_result (assertReviewerScope d RemoteT (rs_user_id r) db) (\<lambda>_.
          bind_result (claim_pending (\<lambda>x. rs_id x = i \<and> rs_status x = ''pending'' \<and> member_org (rs_user_id x) db = Some (de_org d))
            (\<lambda>x. x\<lparr>rs_status := decided d, rs_approved_by := Some (de_user d), rs_review_note := review_text d\<rparr>)
            (ap_remote db)) (\<lambda>rows.
          let checkedIn = Option.bind (find_first (\<lambda>a. at_id a = rs_attendance_id r) (ap_attendance db)) at_check_in_at;
              db1 = db\<lparr>ap_remote := rows\<rparr>;
              db2 = (if de_action d = Reject \<and> checkedIn = None
                then db1\<lparr>ap_attendance := update_where (\<lambda>a. at_id a = rs_attendance_id r \<and> at_check_in_at a = None)
                  (\<lambda>a. a\<lparr>at_status := ''absent''\<rparr>) (ap_attendance db)\<rparr>
                else db1)
          in Inr (effects d (rs_user_id r) (''remote_'' @ decided d) (suffixed d ''remote.'') ''remote_changed'' i db2))))"

definition on_leave :: "id \<Rightarrow> day \<Rightarrow> approval_db \<Rightarrow> bool" where
  "on_leave userId day db \<longleftrightarrow> (\<exists>l\<in>set (lv_requests (ap_leave db)).
     lr_status l = ''approved'' \<and> lr_user_id l = userId \<and> lr_start_date l \<le> day \<and> day \<le> lr_end_date l)"

definition swap_shifts :: "shift_assignment \<Rightarrow> shift_assignment \<Rightarrow> shift_assignment list \<Rightarrow> shift_assignment list" where
  "swap_shifts a b rows =
     update_where (\<lambda>x. sa_id x = sa_id b) (\<lambda>x. x\<lparr>sa_shift_id := sa_shift_id a\<rparr>)
       (update_where (\<lambda>x. sa_id x = sa_id a) (\<lambda>x. x\<lparr>sa_shift_id := sa_shift_id b\<rparr>) rows)"

definition review_swap :: "decision \<Rightarrow> id \<Rightarrow> approval_db \<Rightarrow> approval_db result" where
  "review_swap d i db =
     (case find_first (\<lambda>r. sw_id r = i \<and> member_org (sw_requester_id r) db = Some (de_org d)) (ap_swaps db) of
        None \<Rightarrow> Inl NotFoundError
      | Some r \<Rightarrow>
          bind_result (assertReviewerScope d SwapT (sw_requester_id r) db) (\<lambda>_.
          bind_result (claim_pending (\<lambda>x. sw_id x = i \<and> sw_status x = ''pending'')
            (\<lambda>x. x\<lparr>sw_status := decided d, sw_manager_id := Some (de_user d), sw_rejection_reason := rejection_text d\<rparr>)
            (ap_swaps db)) (\<lambda>rows.
          bind_result
            (if de_action d = Approve
             then (case (find_first (\<lambda>a. sa_id a = sw_requester_assign_id r) (ap_assignments db),
                         find_first (\<lambda>a. sa_id a = sw_target_assign_id r) (ap_assignments db)) of
                     (Some a, Some b) \<Rightarrow>
                       require (\<not> on_leave (sw_requester_id r) (sa_date a) db \<and> \<not> on_leave (sa_user_id b) (sa_date b) db) ValidationError
                         (Inr (db\<lparr>ap_swaps := rows, ap_assignments := swap_shifts a b (ap_assignments db)\<rparr>))
                   | _ \<Rightarrow> Inl PlainError)
             else Inr (db\<lparr>ap_swaps := rows\<rparr>)) (\<lambda>db1.
          Inr (effects d (sw_requester_id r) (''shift_swap_'' @ decided d) (suffixed d ''shift_swap.'') ''swap_changed'' i db1)))))"

definition review_late_notice :: "tzdb \<Rightarrow> decision \<Rightarrow> id \<Rightarrow> approval_db \<Rightarrow> approval_db result" where
  "review_late_notice tz d i db =
     (case find_first (\<lambda>r. ln_id r = i \<and> ln_org_id r = de_org d) (ap_notices db) of
        None \<Rightarrow> Inl NotFoundError
      | Some r \<Rightarrow>
          require (\<not> ln_date r < dateOnlyInTz tz (de_now d) (Some (coalesce (org_timezone (de_org d) db) ''UTC''))) ValidationError
          (bind_result (assertReviewerScope d LateNoticeT (ln_user_id r) db) (\<lambda>_.
          bind_result (claim_pending (\<lambda>x. ln_id x = i \<and> ln_org_id x = de_org d \<and> ln_status x = ''pending'')
            (\<lambda>x. x\<lparr>ln_status := ''acknowledged'', ln_acknowledged_by := Some (de_user d)\<rparr>) (ap_notices db)) (\<lambda>rows.
          Inr (effects d (ln_user_id r) ''late_notice_ack'' ''attendance.late_notice.acknowledge'' ''attendance_changed'' i
            (db\<lparr>ap_notices := rows\<rparr>))))))"

subsubsection \<open>Attendance corrections\<close>

definition corrected_record :: "correction \<Rightarrow> attendance_rec list \<Rightarrow> attendance_rec option" where
  "corrected_record r rows =
     (case co_attendance_id r of
        Some a \<Rightarrow> find_first (\<lambda>x. at_id x = a \<and> at_org_id x = co_org_id r) rows
      | None \<Rightarrow> find_first (\<lambda>x. at_user_id x = co_user_id r \<and> at_date x = co_date r) rows)"

definition corrected_hours :: "correction \<Rightarrow> attendance_rec option \<Rightarrow> rat option" where
  "corrected_hours r rec =
     (case (coalesce_opt (co_requested_check_in r) (Option.bind rec at_check_in_at),
            coalesce_opt (co_requested_check_out r) (Option.bind rec at_check_out_at)) of
        (Some i, Some e) \<Rightarrow> Some (calcHoursWorked i e)
      | _ \<Rightarrow> Option.bind rec at_hours_worked)"

definition apply_correction :: "id \<Rightarrow> decision \<Rightarrow> correction \<Rightarrow> approval_db \<Rightarrow> id \<times> attendance_rec list" where
  "apply_correction newId d r db =
     (let rec = corrected_record r (ap_attendance db); hours = corrected_hours r rec; why = ''correction: '' @ co_reason r
      in case rec of
           Some a \<Rightarrow> (at_id a, update_where (\<lambda>x. at_id x = at_id a)
             (\<lambda>x. x\<lparr>at_check_in_at := coalesce_opt (co_requested_check_in r) (at_check_in_at x),
                    at_check_out_at := coalesce_opt (co_requested_check_out r) (at_check_out_at x),
                    at_hours_worked := coalesce_opt hours (at_hours_worked x),
                    at_is_overridden := True, at_override_by := Some (de_user d), at_override_reason := Some why\<rparr>) (ap_attendance db))
         | None \<Rightarrow> (newId,
             \<lparr>at_id = newId, at_user_id = co_user_id r, at_org_id = de_org d, at_location_id = member_location (co_user_id r) db,
              at_date = co_date r, at_check_in_at = co_requested_check_in r, at_check_out_at = co_requested_check_out r,
              at_hours_worked = hours, at_overtime_hours = None, at_extra_office_minutes = None, at_check_in_type = ''manual'',
              at_status = ''in'', at_is_overridden = True, at_override_by = Some (de_user d), at_override_reason = Some why\<rparr>
             # ap_attendance db))"

definition review_correction :: "id \<Rightarrow> decision \<Rightarrow> id \<Rightarrow> approval_db \<Rightarrow> approval_db result" where
  "review_correction newId d i db =
     (case find_first (\<lambda>r. co_id r = i \<and> co_org_id r = de_org d) (ap_corrections db) of
        None \<Rightarrow> Inl NotFoundError
      | Some r \<Rightarrow>
          bind_result (assertReviewerScope d CorrectionT (co_user_id r) db) (\<lambda>_.
          require (\<not> (de_action d = Approve \<and>
              (de_org d, co_user_id r, monthOf (co_date r), yearOf (co_date r)) \<in> set (ap_processed_payroll db)))
            (AppError 409 ''ATTENDANCE_PERIOD_PAYROLL_PROCESSED'')
          (bind_result (claim_pending (\<lambda>x. co_id x = i \<and> co_org_id x = de_org d \<and> co_status x = ''pending'')
            (\<lambda>x. x\<lparr>co_status := decided d, co_reviewed_by := Some (de_user d), co_review_note := review_text d\<rparr>)
            (ap_corrections db)) (\<lambda>rows.
          if de_action d = Reject
          then Inr (db\<lparr>ap_corrections := rows,
            ap_log := [OrgEvent ''attendance_changed'', Notify (co_user_id r) ''correction_rejected'' i,
              Audit ''attendance.correction.reject'' i] @ ap_log db\<rparr>)
          else (case apply_correction newId d r db of (recId, attendance) \<Rightarrow>
            Inr (db\<lparr>ap_corrections := update_where (\<lambda>x. co_id x = i) (\<lambda>x. x\<lparr>co_attendance_id := Some recId\<rparr>) rows,
              ap_attendance := attendance,
              ap_log := [OrgEvent ''attendance_changed'', Notify (co_user_id r) ''correction_approved'' i,
                Audit ''attendance.correction.approve'' recId] @ ap_log db\<rparr>))))))"

subsubsection \<open>Timesheets and expenses\<close>

definition review_timesheet :: "tzdb \<Rightarrow> (string \<Rightarrow> bool) \<Rightarrow> (id \<Rightarrow> string option) \<Rightarrow> decision \<Rightarrow> id \<Rightarrow> approval_db \<Rightarrow> approval_db result" where
  "review_timesheet tz zone_ok location_tz d i db =
     (case find_first (\<lambda>r. ts_id r = i \<and> ts_org_id r = de_org d \<and> ts_status r = ''submitted'') (ap_timesheets db) of
        None \<Rightarrow> Inl NotFoundError
      | Some r \<Rightarrow>
          bind_result (assertReviewerScope d TimesheetT (ts_user_id r) db) (\<lambda>_.
          require (ts_user_id r \<noteq> de_user d) (AppError 403 ''MAKER_CHECKER_REQUIRED'')
          (bind_result (localWeekRange tz zone_ok (iso_date (ts_week_start r) @ ''T00:00:00.000Z'')
              (coalesce (coalesce_opt (location_tz (ts_user_id r)) (org_timezone (de_org d) db)) ''UTC'')) (\<lambda>week.
          let target = (if de_action d = Approve then ''locked'' else ''rejected'') in
          bind_result (claim_pending (\<lambda>x. ts_id x = i \<and> ts_org_id x = de_org d \<and> ts_status x = ''submitted'')
            (\<lambda>x. x\<lparr>ts_status := target, ts_reviewed_by := Some (de_user d), ts_review_note := review_text d\<rparr>)
            (ap_timesheets db)) (\<lambda>rows.
          Inr (effects d (ts_user_id r) (if de_action d = Approve then ''timesheet_approved'' else ''timesheet_rejected'')
            (suffixed d ''timesheet.'') ''timesheet_changed'' i
            (db\<lparr>ap_timesheets := rows,
                ap_entries := update_where (\<lambda>e. te_org_id e = de_org d \<and> te_user_id e = ts_user_id r \<and>
                    startInstant week \<le> te_started_at e \<and> te_started_at e < endInstant week \<and> te_status e = ''submitted'')
                  (\<lambda>e. e\<lparr>te_status := target\<rparr>) (ap_entries db)\<rparr>)))))))"

definition review_expense :: "decision \<Rightarrow> id \<Rightarrow> approval_db \<Rightarrow> approval_db result" where
  "review_expense d i db =
     (case find_first (\<lambda>r. cr_id r = i \<and> cr_org_id r = de_org d) (ap_claims db) of
        None \<Rightarrow> Inl NotFoundError
      | Some r \<Rightarrow>
          require (''expenses.manage'' \<in> viewer_permissions d db) ForbiddenError
          (bind_result (assertReviewerScope d ExpenseT (cr_user_id r) db) (\<lambda>_.
          bind_result (claim_pending (\<lambda>x. cr_id x = i \<and> cr_org_id x = de_org d \<and> cr_status x = ''pending'')
            (\<lambda>x. x\<lparr>cr_status := decided d, cr_reviewed_by := Some (de_user d), cr_review_note := review_text d\<rparr>)
            (ap_claims db)) (\<lambda>rows.
          Inr (effects d (cr_user_id r) (''expense_'' @ decided d) (suffixed d ''expense.'') ''expense_changed'' i
            (db\<lparr>ap_claims := rows\<rparr>))))))"

text \<open>What the handlers need beyond the state: the zone database, the zones of the employees'
  locations and fresh ids.\<close>

record review_env =
  ev_tz :: tzdb
  ev_zone_ok :: "string \<Rightarrow> bool"
  ev_location_tz :: "id \<Rightarrow> string option"
  ev_uuid :: "day \<Rightarrow> id"

definition reviewApproval :: "review_env \<Rightarrow> approval_type \<Rightarrow> id \<Rightarrow> decision \<Rightarrow> approval_db \<Rightarrow> approval_db result" where
  "reviewApproval env type i d0 db =
     (let d = d0\<lparr>de_reason := trim (de_reason d0),
                 de_note := (case de_note d0 of None \<Rightarrow> None | Some n \<Rightarrow> if trim n = [] then None else Some (trim n))\<rparr>
      in require (i \<noteq> []) ValidationError
        (require (hasTypePermission type (viewer_permissions d db)) ForbiddenError
        (require (\<not> (de_action d = Reject \<and> length (de_reason d) < 5)) ValidationError
        (require (\<not> (type = LateNoticeT \<and> de_action d \<noteq> Acknowledge)) ValidationError
        (require (\<not> (type \<noteq> LateNoticeT \<and> de_action d = Acknowledge)) ValidationError
        (case type of
           LeaveT \<Rightarrow> review_leave (ev_uuid env) d i db
         | OvertimeT \<Rightarrow> review_overtime d i db
         | RemoteT \<Rightarrow> review_remote d i db
         | SwapT \<Rightarrow> review_swap d i db
         | LateNoticeT \<Rightarrow> review_late_notice (ev_tz env) d i db
         | CorrectionT \<Rightarrow> review_correction (ev_uuid env 0) d i db
         | TimesheetT \<Rightarrow> review_timesheet (ev_tz env) (ev_zone_ok env) (ev_location_tz env) d i db
         | ExpenseT \<Rightarrow> review_expense d i db))))))"

subsection \<open>A request is decided once\<close>

fun undecided :: "approval_type \<Rightarrow> id \<Rightarrow> id \<Rightarrow> approval_db \<Rightarrow> bool" where
  "undecided LeaveT i org db \<longleftrightarrow> (\<exists>r\<in>set (lv_requests (ap_leave db)). lr_id r = i \<and> lr_org_id r = org \<and> lr_status r = ''pending'')"
| "undecided OvertimeT i org db \<longleftrightarrow> (\<exists>r\<in>set (ap_overtime db). ot_id r = i \<and> ot_org_id r = org \<and> ot_status r = ''pending'')"
| "undecided RemoteT i org db \<longleftrightarrow> (\<exists>r\<in>set (ap_remote db). rs_id r = i \<and> rs_status r = ''pending'' \<and> member_org (rs_user_id r) db = Some org)"
| "undecided SwapT i org db \<longleftrightarrow> (\<exists>r\<in>set (ap_swaps db). sw_id r = i \<and> sw_status r = ''pending'')"
| "undecided LateNoticeT i org db \<longleftrightarrow> (\<exists>r\<in>set (ap_notices db). ln_id r = i \<and> ln_org_id r = org \<and> ln_status r = ''pending'')"
| "undecided CorrectionT i org db \<longleftrightarrow> (\<exists>r\<in>set (ap_corrections db). co_id r = i \<and> co_org_id r = org \<and> co_status r = ''pending'')"
| "undecided TimesheetT i org db \<longleftrightarrow> (\<exists>r\<in>set (ap_timesheets db). ts_id r = i \<and> ts_org_id r = org \<and> ts_status r = ''submitted'')"
| "undecided ExpenseT i org db \<longleftrightarrow> (\<exists>r\<in>set (ap_claims db). cr_id r = i \<and> cr_org_id r = org \<and> cr_status r = ''pending'')"

lemma claim_pending_Inr: "claim_pending p f rows = Inr rows' \<longleftrightarrow> (\<exists>x\<in>set rows. p x) \<and> rows' = update_where p f rows"
  by (auto simp: claim_pending_def count_where_zero)

lemma claimed_gone:
  assumes "\<And>x. p x \<Longrightarrow> \<not> p (f x)"
  shows "\<not> (\<exists>x\<in>set (update_where p f rows). p x)"
  using assms by (simp add: set_update_where) blast

lemma update_where_keeps:
  assumes "\<And>y. q y \<Longrightarrow> P (f y) \<Longrightarrow> P y" "\<exists>x\<in>set (update_where q f rows). P x"
  shows "\<exists>x\<in>set rows. P x"
  using assms by (auto simp: update_where_def split: if_splits)

lemma decided_final [simp]: "decided d \<noteq> ''pending''" "decided d = ''pending'' \<longleftrightarrow> False"
  by (simp_all add: decided_def)

lemma effects_fields [simp]:
  "ap_leave (effects d u n a e i db) = ap_leave db" "ap_overtime (effects d u n a e i db) = ap_overtime db"
  "ap_remote (effects d u n a e i db) = ap_remote db" "ap_swaps (effects d u n a e i db) = ap_swaps db"
  "ap_notices (effects d u n a e i db) = ap_notices db" "ap_corrections (effects d u n a e i db) = ap_corrections db"
  "ap_timesheets (effects d u n a e i db) = ap_timesheets db" "ap_claims (effects d u n a e i db) = ap_claims db"
  "ap_access (effects d u n a e i db) = ap_access db" "ap_attendance (effects d u n a e i db) = ap_attendance db"
  "ap_entries (effects d u n a e i db) = ap_entries db" "ap_assignments (effects d u n a e i db) = ap_assignments db"
  by (simp_all add: effects_def)

lemma requests_of_balance_update [simp]: "lv_requests (balance_update ctx p f db) = lv_requests db"
  by (simp add: balance_update_def)

lemma claim_consumes:
  assumes "claim_pending p f rows = Inr rows'" "\<And>x. p x \<Longrightarrow> \<not> p (f x)"
  shows "(\<exists>x\<in>set rows. p x) \<and> \<not> (\<exists>x\<in>set rows'. p x)"
  using assms claimed_gone[of p f rows] by (simp add: claim_pending_Inr)

lemma review_leave_consumes:
  assumes "review_leave uuid d i db = Inr db'"
  shows "undecided LeaveT i (de_org d) db \<and> \<not> undecided LeaveT i (de_org d) db'"
proof -
  obtain r db1 where r: "(if de_action d = Approve then approve_leave uuid d i r db else reject_leave d i db) = Inr db1"
    and db': "lv_requests (ap_leave db') = lv_requests (ap_leave db1)"
    using assms by (auto simp: review_leave_def split: option.splits)
  obtain f where claim: "claim_pending (pending_leave d i) f (lv_requests (ap_leave db)) = Inr (lv_requests (ap_leave db1))"
    and f: "\<And>x. \<not> pending_leave d i (f x)"
  proof (cases "de_action d = Approve")
    case True
    then show thesis using r by (auto simp: approve_leave_def Let_def pending_leave_def intro!: that)
  next
    case False
    then show thesis using r by (auto simp: reject_leave_def pending_leave_def intro!: that)
  qed
  show ?thesis using claim_consumes[OF claim f] db' by (simp add: pending_leave_def)
qed

lemma review_overtime_consumes:
  assumes "review_overtime d i db = Inr db'"
  shows "undecided OvertimeT i (de_org d) db \<and> \<not> undecided OvertimeT i (de_org d) db'"
proof -
  let ?p = "\<lambda>x. ot_id x = i \<and> ot_org_id x = de_org d \<and> ot_status x = ''pending''"
  let ?f = "\<lambda>x. x\<lparr>ot_status := decided d, ot_reviewed_by := Some (de_user d), ot_rejection_reason := rejection_text d\<rparr>"
  have "claim_pending ?p ?f (ap_overtime db) = Inr (ap_overtime db')"
    using assms by (auto simp: review_overtime_def Let_def split: option.splits)
  from claim_consumes[OF this] show ?thesis by simp
qed

lemma review_remote_consumes:
  assumes "review_remote d i db = Inr db'"
  shows "undecided RemoteT i (de_org d) db \<and> \<not> undecided RemoteT i (de_org d) db'"
proof -
  let ?p = "\<lambda>x. rs_id x = i \<and> rs_status x = ''pending'' \<and> member_org (rs_user_id x) db = Some (de_org d)"
  let ?f = "\<lambda>x. x\<lparr>rs_status := decided d, rs_approved_by := Some (de_user d), rs_review_note := review_text d\<rparr>"
  have "claim_pending ?p ?f (ap_remote db) = Inr (ap_remote db')" and "ap_access db' = ap_access db"
    using assms by (auto simp: review_remote_def Let_def split: option.splits)
  with claim_consumes[OF this(1)] show ?thesis by (simp add: member_org_def)
qed

lemma review_swap_consumes:
  assumes "review_swap d i db = Inr db'"
  shows "undecided SwapT i (de_org d) db \<and> \<not> undecided SwapT i (de_org d) db'"
proof -
  let ?p = "\<lambda>x. sw_id x = i \<and> sw_status x = ''pending''"
  let ?f = "\<lambda>x. x\<lparr>sw_status := decided d, sw_manager_id := Some (de_user d), sw_rejection_reason := rejection_text d\<rparr>"
  have "claim_pending ?p ?f (ap_swaps db) = Inr (ap_swaps db')"
    using assms by (auto simp: review_swap_def split: option.splits if_splits)
  from claim_consumes[OF this] show ?thesis by simp
qed

lemma review_late_notice_consumes:
  assumes "review_late_notice tz d i db = Inr db'"
  shows "undecided LateNoticeT i (de_org d) db \<and> \<not> undecided LateNoticeT i (de_org d) db'"
proof -
  let ?p = "\<lambda>x. ln_id x = i \<and> ln_org_id x = de_org d \<and> ln_status x = ''pending''"
  let ?f = "\<lambda>x. x\<lparr>ln_status := ''acknowledged'', ln_acknowledged_by := Some (de_user d)\<rparr>"
  have "claim_pending ?p ?f (ap_notices db) = Inr (ap_notices db')"
    using assms by (auto simp: review_late_notice_def split: option.splits)
  from claim_consumes[OF this] show ?thesis by simp
qed

lemma review_correction_consumes:
  assumes "review_correction newId d i db = Inr db'"
  shows "undecided CorrectionT i (de_org d) db \<and> \<not> undecided CorrectionT i (de_org d) db'"
proof -
  let ?p = "\<lambda>x. co_id x = i \<and> co_org_id x = de_org d \<and> co_status x = ''pending''"
  let ?f = "\<lambda>x. x\<lparr>co_status := decided d, co_reviewed_by := Some (de_user d), co_review_note := review_text d\<rparr>"
  let ?u = "\<lambda>a. update_where (\<lambda>x. co_id x = i) (\<lambda>x. x\<lparr>co_attendance_id := Some a\<rparr>)"
  obtain rows where claim: "claim_pending ?p ?f (ap_corrections db) = Inr rows"
    and out: "ap_corrections db' \<in> insert rows (range (\<lambda>a. ?u a rows))"
    using assms by (auto simp: review_correction_def split: option.splits if_splits prod.splits)
  then have rows': "ap_corrections db' = rows \<or> (\<exists>a. ap_corrections db' = ?u a rows)" by auto
  have keep: "\<exists>x\<in>set rows. ?p x" if "\<exists>x\<in>set (?u a rows). ?p x" for a
    by (rule update_where_keeps[OF _ that]) simp
  have gone: "(\<exists>x\<in>set (ap_corrections db). ?p x) \<and> \<not> (\<exists>x\<in>set rows. ?p x)"
    by (rule claim_consumes[OF claim]) simp
  then have "\<not> (\<exists>x\<in>set (ap_corrections db'). ?p x)" using rows' keep by metis
  with gone show ?thesis by (simp only: undecided.simps) blast
qed

lemma review_timesheet_consumes:
  assumes "review_timesheet tz zok ltz d i db = Inr db'"
  shows "undecided TimesheetT i (de_org d) db \<and> \<not> undecided TimesheetT i (de_org d) db'"
proof -
  let ?p = "\<lambda>x. ts_id x = i \<and> ts_org_id x = de_org d \<and> ts_status x = ''submitted''"
  let ?f = "\<lambda>x. x\<lparr>ts_status := (if de_action d = Approve then ''locked'' else ''rejected''), ts_reviewed_by := Some (de_user d), ts_review_note := review_text d\<rparr>"
  have "claim_pending ?p ?f (ap_timesheets db) = Inr (ap_timesheets db')"
    using assms by (auto simp: review_timesheet_def Let_def split: option.splits)
  from claim_consumes[OF this] show ?thesis by simp
qed

lemma review_expense_consumes:
  assumes "review_expense d i db = Inr db'"
  shows "undecided ExpenseT i (de_org d) db \<and> \<not> undecided ExpenseT i (de_org d) db'"
proof -
  let ?p = "\<lambda>x. cr_id x = i \<and> cr_org_id x = de_org d \<and> cr_status x = ''pending''"
  let ?f = "\<lambda>x. x\<lparr>cr_status := decided d, cr_reviewed_by := Some (de_user d), cr_review_note := review_text d\<rparr>"
  have "claim_pending ?p ?f (ap_claims db) = Inr (ap_claims db')"
    using assms by (auto simp: review_expense_def split: option.splits)
  from claim_consumes[OF this] show ?thesis by simp
qed

lemmas review_consumes = review_leave_consumes review_overtime_consumes review_remote_consumes review_swap_consumes
  review_late_notice_consumes review_correction_consumes review_timesheet_consumes review_expense_consumes

lemma reviewApproval_consumes:
  assumes "reviewApproval env type i d db = Inr db'"
  shows "undecided type i (de_org d) db \<and> \<not> undecided type i (de_org d) db'"
  using assms by (cases type) (auto simp: reviewApproval_def Let_def dest!: review_consumes)

definition decide_in :: "review_env \<Rightarrow> approval_type \<Rightarrow> id \<Rightarrow> id \<Rightarrow> decision \<Rightarrow> approval_db \<Rightarrow> approval_db result" where
  "decide_in env type i org d db = reviewApproval env type i (d\<lparr>de_org := org\<rparr>) db"

interpretation decide: single_shot "decide_in env type i org" "undecided type i org"
proof
  fix d db db'
  assume "decide_in env type i org d db = Inr db'"
  then show "undecided type i org db \<and> \<not> undecided type i org db'"
    using reviewApproval_consumes[of env type i "d\<lparr>de_org := org\<rparr>" db db'] by (simp add: decide_in_def)
qed

text \<open>C5: whichever reviewers of an organisation decide on a request, in whatever order
  and with whatever actions, at most one of the decisions takes effect; every other one fails and
  changes nothing.\<close>

theorem approval_decided_once:
  "fst (attempts (\<lambda>d. reviewApproval env type i (d\<lparr>de_org := org\<rparr>)) ds db) \<le> 1"
  using decide.at_most_one[of env type i org ds db] by (simp add: decide_in_def[abs_def])

subsection \<open>Who may decide\<close>

fun requester_of :: "approval_type \<Rightarrow> id \<Rightarrow> id \<Rightarrow> approval_db \<Rightarrow> id option" where
  "requester_of LeaveT i org db = map_option lr_user_id (find_first (\<lambda>r. lr_id r = i \<and> lr_org_id r = org) (lv_requests (ap_leave db)))"
| "requester_of OvertimeT i org db = map_option ot_user_id (find_first (\<lambda>r. ot_id r = i \<and> ot_org_id r = org) (ap_overtime db))"
| "requester_of RemoteT i org db =
     map_option rs_user_id (find_first (\<lambda>r. rs_id r = i \<and> member_org (rs_user_id r) db = Some org) (ap_remote db))"
| "requester_of SwapT i org db =
     map_option sw_requester_id (find_first (\<lambda>r. sw_id r = i \<and> member_org (sw_requester_id r) db = Some org) (ap_swaps db))"
| "requester_of LateNoticeT i org db = map_option ln_user_id (find_first (\<lambda>r. ln_id r = i \<and> ln_org_id r = org) (ap_notices db))"
| "requester_of CorrectionT i org db = map_option co_user_id (find_first (\<lambda>r. co_id r = i \<and> co_org_id r = org) (ap_corrections db))"
| "requester_of TimesheetT i org db =
     map_option ts_user_id (find_first (\<lambda>r. ts_id r = i \<and> ts_org_id r = org \<and> ts_status r = ''submitted'') (ap_timesheets db))"
| "requester_of ExpenseT i org db = map_option cr_user_id (find_first (\<lambda>r. cr_id r = i \<and> cr_org_id r = org) (ap_claims db))"

definition may_review :: "decision \<Rightarrow> approval_type \<Rightarrow> id \<Rightarrow> approval_db \<Rightarrow> bool" where
  "may_review d type u db \<longleftrightarrow>
     (type = LeaveT \<and> ''leave.view_all'' \<in> viewer_permissions d db) \<or>
     isInEmployeeScope u (reviewableEmployeeIds (de_org d) (de_user d) (viewer_permissions d db) ''employees.view'' (ap_access db))"

lemma assertReviewerScope_Inr: "assertReviewerScope d type u db = Inr x \<longleftrightarrow> may_review d type u db"
  by (auto simp: assertReviewerScope_def may_review_def)

lemma review_scoped:
  "review_leave uuid d i db = Inr db' \<Longrightarrow> \<exists>u. requester_of LeaveT i (de_org d) db = Some u \<and> may_review d LeaveT u db"
  "review_overtime d i db = Inr db' \<Longrightarrow> \<exists>u. requester_of OvertimeT i (de_org d) db = Some u \<and> may_review d OvertimeT u db"
  "review_remote d i db = Inr db' \<Longrightarrow> \<exists>u. requester_of RemoteT i (de_org d) db = Some u \<and> may_review d RemoteT u db"
  "review_swap d i db = Inr db' \<Longrightarrow> \<exists>u. requester_of SwapT i (de_org d) db = Some u \<and> may_review d SwapT u db"
  "review_late_notice tz d i db = Inr db' \<Longrightarrow> \<exists>u. requester_of LateNoticeT i (de_org d) db = Some u \<and> may_review d LateNoticeT u db"
  "review_correction newId d i db = Inr db' \<Longrightarrow> \<exists>u. requester_of CorrectionT i (de_org d) db = Some u \<and> may_review d CorrectionT u db"
  "review_timesheet tz zok ltz d i db = Inr db' \<Longrightarrow>
     \<exists>u. requester_of TimesheetT i (de_org d) db = Some u \<and> may_review d TimesheetT u db \<and> u \<noteq> de_user d"
  "review_expense d i db = Inr db' \<Longrightarrow>
     \<exists>u. requester_of ExpenseT i (de_org d) db = Some u \<and> may_review d ExpenseT u db \<and> ''expenses.manage'' \<in> viewer_permissions d db"
  by (auto simp: review_leave_def review_overtime_def review_remote_def review_swap_def review_late_notice_def
      review_correction_def review_timesheet_def review_expense_def assertReviewerScope_Inr split: option.splits)

lemma trimmed_decision [simp]:
  "viewer_permissions (d\<lparr>de_reason := x, de_note := y\<rparr>) db = viewer_permissions d db"
  "may_review (d\<lparr>de_reason := x, de_note := y\<rparr>) type u db = may_review d type u db"
  by (simp_all add: viewer_permissions_def may_review_def)

text \<open>C6: a decision takes effect only when the reviewer holds the permission for that
  kind of request, the request belongs to the reviewer's organisation and its author is in the
  reviewer's scope; an expense decision also needs the right to manage expenses, nobody decides on
  their own timesheet, and a rejection carries a reason.\<close>

theorem approval_authorised:
  assumes "reviewApproval env type i d db = Inr db'"
  shows "hasTypePermission type (viewer_permissions d db) \<and>
    (\<exists>u. requester_of type i (de_org d) db = Some u \<and> may_review d type u db \<and>
       (type = TimesheetT \<longrightarrow> u \<noteq> de_user d) \<and> (type = ExpenseT \<longrightarrow> ''expenses.manage'' \<in> viewer_permissions d db)) \<and>
    (de_action d = Reject \<longrightarrow> 5 \<le> length (trim (de_reason d))) \<and> (type = LateNoticeT \<longleftrightarrow> de_action d = Acknowledge)"
  using assms by (cases type) (auto simp: reviewApproval_def Let_def dest!: review_scoped)

definition ap_env :: review_env where
  "ap_env = \<lparr>ev_tz = lv_tz, ev_zone_ok = (\<lambda>_. True), ev_location_tz = (\<lambda>_. None), ev_uuid = (\<lambda>day. replicate (nat (if 0 \<le> day then 2 * day + 1 else - 2 * day)) (CHR ''x''))\<rparr>"

definition ap_request :: leave_request where
  "ap_request = \<lparr>lr_id = ''l1'', lr_org_id = ''o'', lr_user_id = ''v'', lr_location_id = None, lr_leave_type = ''annual'',
     lr_start_date = 4, lr_end_date = 11, lr_working_days = 6, lr_reason = None, lr_is_half_day = False,
     lr_half_day_period = None, lr_leave_start_time = None, lr_leave_end_time = None, lr_status = ''pending'',
     lr_reviewed_by = None, lr_reviewed_at = None, lr_rejection_reason = None, lr_created_at = 0\<rparr>"

definition ap_db0 :: approval_db where
  "ap_db0 = \<lparr>ap_access = ac_db, ap_leave = lv_db0\<lparr>lv_requests := [ap_request]\<rparr>, ap_attendance = [], ap_assignments = [],
     ap_overtime = [], ap_remote = [], ap_swaps = [], ap_notices = [], ap_corrections = [], ap_timesheets = [], ap_entries = [],
     ap_claims = [], ap_processed_payroll = [], ap_log = []\<rparr>"

definition ap_decision :: decision where
  "ap_decision = \<lparr>de_user = ''u'', de_org = ''o'', de_action = Approve, de_reason = [], de_note = None, de_now = 9\<rparr>"

lemma ap_example: "\<exists>db'. reviewApproval ap_env LeaveT ''l1'' ap_decision ap_db0 = Inr db'"
proof -
  have "\<not> Option.is_none (case reviewApproval ap_env LeaveT ''l1'' ap_decision ap_db0 of Inl _ \<Rightarrow> None | Inr db' \<Rightarrow> Some ())"
    by code_simp
  then show ?thesis by (auto split: sum.splits)
qed

theorem approval_authorised_witness:
  "\<exists>db'. reviewApproval ap_env LeaveT ''l1'' ap_decision ap_db0 = Inr db' \<and>
     (\<exists>u. requester_of LeaveT ''l1'' ''o'' ap_db0 = Some u \<and> may_review ap_decision LeaveT u ap_db0)"
proof -
  obtain db' where r: "reviewApproval ap_env LeaveT ''l1'' ap_decision ap_db0 = Inr db'" using ap_example by blast
  have "de_org ap_decision = ''o''" by (simp add: ap_decision_def)
  with approval_authorised[OF r] r show ?thesis by auto
qed

subsection \<open>Approved leave on the attendance calendar\<close>

definition status_on :: "id \<Rightarrow> day \<Rightarrow> attendance_rec list \<Rightarrow> string option" where
  "status_on u day rows = map_option at_status (find_first (\<lambda>a. at_user_id a = u \<and> at_date a = day) rows)"

lemma find_first_update_where:
  assumes "\<And>x. p (f x) = p x"
  shows "find_first p (update_where q f rows) = map_option (\<lambda>x. if q x then f x else x) (find_first p rows)"
  using assms by (induction rows) auto

lemma mark_leave_day_status:
  assumes ids: "distinct (map at_id rows)"
  shows "status_on v day' (mark_leave_day uuid u org loc s day rows) = (if v = u \<and> day' = day then Some s else status_on v day' rows)"
proof (cases "find_first (\<lambda>a. at_user_id a = u \<and> at_date a = day) rows")
  case None
  then show ?thesis by (simp add: mark_leave_day_def status_on_def)
next
  case (Some e)
  note e = find_first_Some[OF Some]
  let ?p = "\<lambda>a. at_user_id a = v \<and> at_date a = day'"
  have look: "status_on v day' (mark_leave_day uuid u org loc s day rows) =
      map_option (\<lambda>x. if at_id x = at_id e then s else at_status x) (find_first ?p rows)"
    using find_first_update_where[of ?p "\<lambda>a. a\<lparr>at_status := s\<rparr>" "\<lambda>a. at_id a = at_id e" rows] Some
    by (cases "find_first ?p rows") (simp_all add: mark_leave_day_def status_on_def)
  show ?thesis
  proof (cases "find_first ?p rows")
    case None
    then show ?thesis using look Some by (auto simp: status_on_def)
  next
    case (Some x)
    note x = find_first_Some[OF Some]
    have "at_id x = at_id e \<longleftrightarrow> v = u \<and> day' = day"
    proof
      assume "at_id x = at_id e"
      then have "x = e" using ids x e by (auto simp: distinct_map dest: inj_onD)
      then show "v = u \<and> day' = day" using x e by simp
    next
      assume "v = u \<and> day' = day"
      then show "at_id x = at_id e" using Some \<open>find_first (\<lambda>a. at_user_id a = u \<and> at_date a = day) rows = Some e\<close> by simp
    qed
    then show ?thesis using look Some by (auto simp: status_on_def)
  qed
qed

lemma status_ids: "map at_id (update_where q (\<lambda>a. a\<lparr>at_status := s\<rparr>) rows) = map at_id rows"
  by (simp add: update_where_def)

lemma mark_leave_day_ids:
  "distinct (map at_id rows) \<Longrightarrow> uuid day \<notin> at_id ` set rows \<Longrightarrow>
   distinct (map at_id (mark_leave_day uuid u org loc s day rows)) \<and>
   at_id ` set (mark_leave_day uuid u org loc s day rows) \<subseteq> insert (uuid day) (at_id ` set rows)"
proof -
  assume "distinct (map at_id rows)" "uuid day \<notin> at_id ` set rows"
  moreover have "at_id ` set (update_where q (\<lambda>a. a\<lparr>at_status := s\<rparr>) rows) = at_id ` set rows" for q
    using arg_cong[OF status_ids[of q s rows], of set] by simp
  ultimately show ?thesis
    by (simp add: mark_leave_day_def status_ids split: option.splits) blast
qed

lemma mark_days_status:
  assumes "distinct (map at_id rows)" "\<forall>x\<in>set days. uuid x \<notin> at_id ` set rows" "inj uuid" "distinct days"
  shows "status_on v day (fold (\<lambda>x rows. if W x then mark_leave_day uuid u org loc s x rows else rows) days rows) =
    (if v = u \<and> day \<in> set days \<and> W day then Some s else status_on v day rows)"
  using assms
proof (induction days arbitrary: rows)
  case Nil
  show ?case by simp
next
  case (Cons x days)
  let ?rows = "if W x then mark_leave_day uuid u org loc s x rows else rows"
  have ids: "distinct (map at_id ?rows)" "at_id ` set ?rows \<subseteq> insert (uuid x) (at_id ` set rows)"
    using mark_leave_day_ids[of rows uuid x u org loc s] Cons.prems by auto
  have "\<forall>y\<in>set days. uuid y \<notin> at_id ` set ?rows"
  proof
    fix y assume "y \<in> set days"
    then have "uuid y \<noteq> uuid x" "uuid y \<notin> at_id ` set rows" using Cons.prems by (auto dest: injD)
    then show "uuid y \<notin> at_id ` set ?rows" using ids(2) by blast
  qed
  then have "status_on v day (fold (\<lambda>x rows. if W x then mark_leave_day uuid u org loc s x rows else rows) days ?rows) =
      (if v = u \<and> day \<in> set days \<and> W day then Some s else status_on v day ?rows)"
    using Cons.IH[OF ids(1)] Cons.prems by auto
  then show ?case
    using mark_leave_day_status[OF Cons.prems(1), of v day uuid u org loc s x] by auto
qed

lemma approve_leave_Inr:
  assumes "reviewApproval env LeaveT i d db = Inr db'" "de_action d = Approve"
    and "find_first (\<lambda>r. lr_id r = i \<and> lr_org_id r = de_org d) (lv_requests (ap_leave db)) = Some r"
  shows "ap_attendance db' = mark_leave_days (ev_uuid env)
      (holidaySetForRange (de_org d) (lr_start_date r) (lr_end_date r) (leave_location r db) (lv_holidays (ap_leave db)))
      (leave_location r db) r (ap_attendance db)"
    and "lv_balances (ap_leave db') = update_where (same_balance (lr_user_id r) (lr_leave_type r) (yearOf (lr_start_date r)))
      (\<lambda>b. b\<lparr>lb_used_days := lb_used_days b + lr_working_days r\<rparr>) (lv_balances (ap_leave db))"
    and "\<not> (\<exists>s\<in>set (ap_assignments db). sa_user_id s = lr_user_id r \<and> lr_start_date r \<le> sa_date s \<and> sa_date s \<le> lr_end_date r)"
  using assms by (auto simp: reviewApproval_def review_leave_def approve_leave_def Let_def balance_update_def)


lemma ap_uuid_inj: "inj (ev_uuid ap_env)"
proof (rule injI)
  fix x y :: day
  assume "ev_uuid ap_env x = ev_uuid ap_env y"
  then have "nat (if 0 \<le> x then 2 * x + 1 else - 2 * x) = nat (if 0 \<le> y then 2 * y + 1 else - 2 * y)"
    by (simp add: ap_env_def)
  then have "(if 0 \<le> x then 2 * x + 1 else - 2 * x) = (if 0 \<le> y then 2 * y + 1 else - 2 * y)"
    by (simp split: if_splits)
  then show "x = y" by (simp split: if_splits) presburger+
qed


subsection \<open>The leave ledger under all operations\<close>

lemma submit_match: "submitLeaveRequest tz now rid u org inp l = Inr (r, l') \<Longrightarrow> books_match l \<Longrightarrow> books_match l'"
  by (drule submit_keeps_books) (simp add: books_match_def)

lemma review_others_leave:
  "review_overtime d i db = Inr db' \<Longrightarrow> ap_leave db' = ap_leave db"
  "review_remote d i db = Inr db' \<Longrightarrow> ap_leave db' = ap_leave db"
  "review_swap d i db = Inr db' \<Longrightarrow> ap_leave db' = ap_leave db"
  "review_late_notice tz d i db = Inr db' \<Longrightarrow> ap_leave db' = ap_leave db"
  "review_correction newId d i db = Inr db' \<Longrightarrow> ap_leave db' = ap_leave db"
  "review_timesheet tz zok ltz d i db = Inr db' \<Longrightarrow> ap_leave db' = ap_leave db"
  "review_expense d i db = Inr db' \<Longrightarrow> ap_leave db' = ap_leave db"
  by (auto simp: review_overtime_def review_remote_def review_swap_def review_late_notice_def review_correction_def
      review_timesheet_def review_expense_def Let_def split: option.splits if_splits prod.splits)

lemma review_leave_match:
  assumes "review_leave uuid d i db = Inr db'" "books_match (ap_leave db)"
  shows "books_match (ap_leave db')"
proof -
  have m: "books_match ((ap_leave db)\<lparr>lv_requests := rs\<rparr>)" for rs using assms(2) by (simp add: books_match_def)
  show ?thesis using assms(1)
    by (auto simp: review_leave_def approve_leave_def reject_leave_def Let_def of_balance_def
        split: option.splits if_splits intro!: m balance_update_match)
qed

lemma review_match: "reviewApproval env type i d db = Inr db' \<Longrightarrow> books_match (ap_leave db) \<Longrightarrow> books_match (ap_leave db')"
  by (cases type) (auto simp: reviewApproval_def Let_def dest: review_leave_match review_others_leave)

end
