(* ===== verification/Breaks.thy ===== *)
theory Breaks
  imports ShiftTime
begin

text \<open>
  Break accounting at checkout: \<^verbatim>\<open>src/src/utils/attendance.ts\<close>.  The state is the list of break
  records; the break templates and the attendance row with its shift are arguments.  Wall-clock end
  times are \<open>HH:MM\<close> strings, and minutes are whole numbers after \<open>Math.round\<close>.
\<close>

subsection \<open>Records\<close>

record shift_break =
  sb_id :: id
  sb_name :: string
  sb_break_kind :: string
  sb_break_minutes :: int
  sb_break_start_time :: "string option"
  sb_break_end_time :: "string option"
  sb_after_minutes :: int
  sb_is_paid :: bool
  sb_paid_within_limit :: bool
  sb_allowed_count_per_shift :: int
  sb_allow_extra_breaks :: bool
  sb_deduct_extra_time :: bool
  sb_auto_start :: bool
  sb_deduct_if_skipped :: "bool option"
  sb_applies_days :: "int list"
  sb_exception_dates :: "day list"

record break_row =
  br_id :: id
  br_attendance_id :: id
  br_shift_break_id :: "id option"
  br_break_start :: instant
  br_break_end :: "instant option"
  br_duration_mins :: "int option"
  br_is_paid :: bool
  br_counted_as_extra :: bool
  br_break_type :: string
  br_auto_started :: bool
  br_auto_ended :: bool
  br_late_return_minutes :: "int option"
  br_limit_exceeded :: bool
  br_source :: string
  br_wifi_on_at_end :: "bool option"
  br_start_key :: "string option"
  br_start_hash :: "string option"
  br_end_key :: "string option"
  br_end_hash :: "string option"

record break_attendance =
  ba_id :: id
  ba_date :: day
  ba_check_in_at :: "instant option"
  ba_scheduled_start :: "instant option"
  ba_scheduled_end :: "instant option"
  ba_shift_breaks :: "shift_break list option"
  ba_break_minutes :: int
  ba_paid_break_minutes :: int

record break_settlement =
  paidMins :: int
  unpaidMins :: int
  totalMins :: int

subsection \<open>Totals\<close>

definition template_of :: "shift_break list \<Rightarrow> break_row \<Rightarrow> shift_break option" where
  "template_of templates b = Option.bind (br_shift_break_id b) (\<lambda>i. find_first (\<lambda>t. sb_id t = i) templates)"

definition paid_part :: "shift_break list \<Rightarrow> break_row \<Rightarrow> int" where
  "paid_part templates b =
     (let duration = coalesce (br_duration_mins b) 0 in
      if \<not> br_is_paid b then 0
      else case template_of templates b of
             None \<Rightarrow> duration
           | Some t \<Rightarrow> if sb_deduct_extra_time t \<and> \<not> br_counted_as_extra b then min duration (sb_break_minutes t) else duration)"

definition ended_breaks :: "id \<Rightarrow> break_row list \<Rightarrow> break_row list" where
  "ended_breaks attendanceId rows = filter (\<lambda>b. br_attendance_id b = attendanceId \<and> br_break_end b \<noteq> None) rows"

definition settlement :: "int \<Rightarrow> int \<Rightarrow> break_settlement" where
  "settlement paid unpaid = \<lparr>paidMins = paid, unpaidMins = unpaid, totalMins = paid + unpaid\<rparr>"

definition calculateBreakTotals :: "shift_break list \<Rightarrow> id \<Rightarrow> break_row list \<Rightarrow> break_settlement" where
  "calculateBreakTotals templates attendanceId rows =
     (let all = ended_breaks attendanceId rows
      in settlement (sum_list (map (paid_part templates) all))
           (sum_list (map (\<lambda>b. coalesce (br_duration_mins b) 0 - paid_part templates b) all)))"

definition updateAttendanceBreakSummary :: "shift_break list \<Rightarrow> break_row list \<Rightarrow> break_attendance \<Rightarrow> break_settlement \<times> break_attendance" where
  "updateAttendanceBreakSummary templates rows a =
     (let totals = calculateBreakTotals templates (ba_id a) rows
      in (totals, a\<lparr>ba_break_minutes := totalMins totals, ba_paid_break_minutes := paidMins totals\<rparr>))"

subsection \<open>Closing breaks and deducting skipped ones\<close>

definition minutes_between :: "instant \<Rightarrow> instant \<Rightarrow> int" where
  "minutes_between a b = js_round (of_int (b - a) / 60000)"

text \<open>The instant at which a wall-clock time falls on the local day of \<open>t\<close>.\<close>

definition wall_clock_on :: "tzdb \<Rightarrow> instant \<Rightarrow> string \<Rightarrow> string \<Rightarrow> instant" where
  "wall_clock_on tz t z hhmm =
     fromZonedTime tz (day_of_instant (toZonedTime tz t z) * day_ms + \<lfloor>hhmmToMins hhmm * 60000\<rfloor>) z"

definition break_end_text :: "shift_break \<Rightarrow> string option" where
  "break_end_text t = (case sb_break_end_time t of None \<Rightarrow> None | Some s \<Rightarrow> if s = [] then None else Some s)"

definition calcLateReturnMins :: "tzdb \<Rightarrow> string \<Rightarrow> shift_break option \<Rightarrow> instant \<Rightarrow> int \<Rightarrow> int option" where
  "calcLateReturnMins tz z shiftBreak breakEnd durationMins =
     (case shiftBreak of None \<Rightarrow> None
      | Some t \<Rightarrow>
          if sb_break_kind t = ''fixed'' \<and> break_end_text t \<noteq> None
          then Some (max 0 (minutes_between (wall_clock_on tz breakEnd z (the (break_end_text t))) breakEnd))
          else if sb_break_kind t = ''flexible'' then Some (max 0 (durationMins - sb_break_minutes t))
          else None)"

definition close_break :: "tzdb \<Rightarrow> string \<Rightarrow> shift_break list \<Rightarrow> instant \<Rightarrow> break_row \<Rightarrow> break_row" where
  "close_break tz z templates t b =
     (let mins = max 0 (minutes_between (br_break_start b) t)
      in b\<lparr>br_break_end := Some t, br_duration_mins := Some mins, br_auto_ended := True,
           br_late_return_minutes := calcLateReturnMins tz z (template_of templates b) t mins, br_wifi_on_at_end := None\<rparr>)"

definition close_open :: "tzdb \<Rightarrow> string \<Rightarrow> shift_break list \<Rightarrow> id \<Rightarrow> instant \<Rightarrow> break_row list \<Rightarrow> break_row list" where
  "close_open tz z templates attendanceId t rows =
     update_where (\<lambda>b. br_attendance_id b = attendanceId \<and> br_break_end b = None) (close_break tz z templates t) rows"

definition work_start :: "instant \<Rightarrow> break_attendance \<Rightarrow> instant" where
  "work_start checkIn a =
     (case ba_scheduled_start a of None \<Rightarrow> checkIn | Some s \<Rightarrow> if checkIn < s then s else checkIn)"

definition work_end :: "instant \<Rightarrow> break_attendance \<Rightarrow> instant" where
  "work_end t a = (case ba_scheduled_end a of None \<Rightarrow> t | Some e \<Rightarrow> if e < t then e else t)"

definition break_applies :: "day \<Rightarrow> shift_break \<Rightarrow> bool" where
  "break_applies date t \<longleftrightarrow>
     \<not> ((sb_applies_days t \<noteq> [] \<and> weekdayOf date \<notin> set (sb_applies_days t)) \<or>
        (sb_exception_dates t \<noteq> [] \<and> date \<notin> set (sb_exception_dates t)))"

text \<open>The minutes a template demands by instant \<open>t\<close>: \<open>None\<close> when one of the conditions skips it.\<close>

definition eligible_minutes :: "tzdb \<Rightarrow> string \<Rightarrow> instant \<Rightarrow> instant \<Rightarrow> break_attendance \<Rightarrow> shift_break \<Rightarrow> int option" where
  "eligible_minutes tz z t checkIn a s =
     (if \<not> break_applies (ba_date a) s \<or> sb_break_kind s = ''flexible'' \<or> \<not> coalesce (sb_deduct_if_skipped s) True \<or> sb_is_paid s
      then None
      else case break_end_text s of
             None \<Rightarrow> if minutes_between checkIn t \<le> sb_after_minutes s then None else Some (sb_break_minutes s)
           | Some hhmm \<Rightarrow>
               (let fin = wall_clock_on tz t z hhmm; start = fin - sb_break_minutes s * 60000;
                    ws = work_start checkIn a; we = work_end t a
                in if t \<le> fin \<or> fin \<le> ws \<or> we \<le> start then None
                   else Some (max 0 (minutes_between (max start ws) (min fin we)))))"

definition taken_for :: "id \<Rightarrow> break_row list \<Rightarrow> int" where
  "taken_for templateId all =
     sum_list (map (\<lambda>b. coalesce (br_duration_mins b) 0) (filter (\<lambda>b. br_shift_break_id b = Some templateId) all))"

definition missing_minutes :: "tzdb \<Rightarrow> string \<Rightarrow> instant \<Rightarrow> instant \<Rightarrow> break_attendance \<Rightarrow> break_row list \<Rightarrow> shift_break \<Rightarrow> int" where
  "missing_minutes tz z t checkIn a all s =
     (case eligible_minutes tz z t checkIn a s of None \<Rightarrow> 0 | Some m \<Rightarrow> max 0 (m - taken_for (sb_id s) all))"

text \<open>The ids of the records that a settlement creates come from the database: \<open>newId k\<close> is the id of
  the \<open>k\<close>-th one.\<close>

definition deducted_break :: "instant \<Rightarrow> id \<Rightarrow> id \<Rightarrow> id \<Rightarrow> int \<Rightarrow> break_row" where
  "deducted_break t attendanceId newId templateId mins =
     \<lparr>br_id = newId, br_attendance_id = attendanceId, br_shift_break_id = Some templateId, br_break_start = t - mins * 60000,
      br_break_end = Some t, br_duration_mins = Some mins, br_is_paid = False, br_counted_as_extra = False,
      br_break_type = ''auto_deducted'', br_auto_started = True, br_auto_ended = True, br_late_return_minutes = None,
      br_limit_exceeded = False, br_source = ''manual'', br_wifi_on_at_end = None, br_start_key = None, br_start_hash = None,
      br_end_key = None, br_end_hash = None\<rparr>"

definition deduct_skipped :: "tzdb \<Rightarrow> string \<Rightarrow> (nat \<Rightarrow> id) \<Rightarrow> instant \<Rightarrow> break_attendance \<Rightarrow> break_row list \<Rightarrow> break_row list" where
  "deduct_skipped tz z newId t a rows =
     (case (ba_shift_breaks a, ba_check_in_at a) of
        (Some breaks, Some checkIn) \<Rightarrow>
          (let all = ended_breaks (ba_id a) rows
           in map (\<lambda>(k, s). deducted_break t (ba_id a) (newId k) (sb_id s) (missing_minutes tz z t checkIn a all s))
                (enumerate 0 (filter (\<lambda>s. 0 < missing_minutes tz z t checkIn a all s) breaks)))
      | _ \<Rightarrow> [])"

definition settleBreaks :: "tzdb \<Rightarrow> string \<Rightarrow> (nat \<Rightarrow> id) \<Rightarrow> shift_break list \<Rightarrow> instant \<Rightarrow> break_attendance \<Rightarrow> break_row list \<Rightarrow> break_settlement \<times> break_row list" where
  "settleBreaks tz z newId templates t a rows =
     (let rows1 = close_open tz z templates (ba_id a) t rows;
          totals = calculateBreakTotals templates (ba_id a) rows1;
          new = deduct_skipped tz z newId t a rows1;
          missingUnpaid = sum_list (map (\<lambda>b. coalesce (br_duration_mins b) 0) new)
      in (settlement (paidMins totals) (unpaidMins totals + missingUnpaid), rows1 @ new))"

subsection \<open>Time after the shift and net hours\<close>

definition unpaid_overlap :: "shift_break list \<Rightarrow> instant \<Rightarrow> instant \<Rightarrow> break_row \<Rightarrow> int" where
  "unpaid_overlap templates fin checkOutAt b =
     (let unpaidStart = br_break_start b + paid_part templates b * 60000;
          start = (if fin < unpaidStart then unpaidStart else fin);
          stop = (case br_break_end b of None \<Rightarrow> checkOutAt | Some e \<Rightarrow> if e < checkOutAt then e else checkOutAt)
      in if start < stop then minutes_between start stop else 0)"

definition netExtraMinutesAfterShift :: "shift_break list \<Rightarrow> id \<Rightarrow> instant \<Rightarrow> instant option \<Rightarrow> break_row list \<Rightarrow> int" where
  "netExtraMinutesAfterShift templates attendanceId checkOutAt scheduledEnd rows =
     (case scheduledEnd of None \<Rightarrow> 0
      | Some fin \<Rightarrow>
          if checkOutAt \<le> fin then 0
          else max 0 (minutes_between fin checkOutAt -
                 sum_list (map (unpaid_overlap templates fin checkOutAt) (ended_breaks attendanceId rows))))"

definition netHoursWorked :: "rat \<Rightarrow> int \<Rightarrow> rat" where
  "netHoursWorked grossHours unpaidBreakMins = toFixed2 (max 0 (grossHours - of_int unpaidBreakMins / 60))"

subsection \<open>Settling twice\<close>

lemma closed_breaks: "\<forall>b\<in>set (close_open tz z ts i t rows). br_attendance_id b = i \<longrightarrow> br_break_end b \<noteq> None"
proof (intro ballI impI)
  fix b
  let ?p = "\<lambda>b. br_attendance_id b = i \<and> br_break_end b = None"
  assume "b \<in> set (close_open tz z ts i t rows)" and i: "br_attendance_id b = i"
  then obtain x where x: "b = (if ?p x then close_break tz z ts t x else x)"
    unfolding close_open_def update_where_def set_map by (elim imageE)
  show "br_break_end b \<noteq> None" using i x by (cases "?p x") (simp_all add: close_break_def Let_def)
qed

lemma close_idle:
  "\<forall>b\<in>set rows. br_attendance_id b = i \<longrightarrow> br_break_end b \<noteq> None \<Longrightarrow> close_open tz z ts i t rows = rows"
  unfolding close_open_def update_where_def by (rule map_idI, rule if_not_P) blast

lemma deducted_fields [simp]:
  "br_attendance_id (deducted_break t i n s m) = i" "br_break_end (deducted_break t i n s m) = Some t"
  "br_duration_mins (deducted_break t i n s m) = Some m" "br_is_paid (deducted_break t i n s m) = False"
  "br_shift_break_id (deducted_break t i n s m) = Some s"
  by (simp_all add: deducted_break_def)

lemma in_enumerate: "(k, x) \<in> set (enumerate n xs) \<Longrightarrow> x \<in> set xs"
  by (induction xs arbitrary: n) auto

lemma ex_enumerate: "x \<in> set xs \<Longrightarrow> \<exists>k. (k, x) \<in> set (enumerate n xs)"
  by (induction xs arbitrary: n) auto

lemma deduct_shape:
  "b \<in> set (deduct_skipped tz z newId t a rows) \<Longrightarrow>
   br_attendance_id b = ba_id a \<and> br_break_end b = Some t \<and> \<not> br_is_paid b \<and> 0 \<le> coalesce (br_duration_mins b) 0"
  by (auto simp: deduct_skipped_def Let_def dest!: in_enumerate split: option.splits)

lemma ended_append: "ended_breaks i (xs @ ys) = ended_breaks i xs @ ended_breaks i ys"
  by (simp add: ended_breaks_def)

lemma ended_deducted: "ended_breaks (ba_id a) (deduct_skipped tz z newId t a rows) = deduct_skipped tz z newId t a rows"
  using deduct_shape by (fastforce simp: ended_breaks_def filter_id_conv)

lemma totals_after:
  "calculateBreakTotals ts (ba_id a) (rows @ deduct_skipped tz z newId t a rows) =
   settlement (paidMins (calculateBreakTotals ts (ba_id a) rows))
     (unpaidMins (calculateBreakTotals ts (ba_id a) rows) + sum_list (map (\<lambda>b. coalesce (br_duration_mins b) 0) (deduct_skipped tz z newId t a rows)))"
proof -
  have "paid_part ts b = 0" if "b \<in> set (deduct_skipped tz z newId t a rows)" for b
    using deduct_shape[OF that] by (simp add: paid_part_def)
  then have "map (paid_part ts) (deduct_skipped tz z newId t a rows) = map (\<lambda>_. 0) (deduct_skipped tz z newId t a rows)"
    "map (\<lambda>b. coalesce (br_duration_mins b) 0 - paid_part ts b) (deduct_skipped tz z newId t a rows) =
     map (\<lambda>b. coalesce (br_duration_mins b) 0) (deduct_skipped tz z newId t a rows)"
    by simp_all
  note sums = this[THEN arg_cong[of _ _ sum_list]]
  show ?thesis
    by (simp add: calculateBreakTotals_def Let_def ended_append ended_deducted settlement_def sums)
qed

lemma taken_append: "taken_for s (xs @ ys) = taken_for s xs + taken_for s ys"
  by (simp add: taken_for_def)

lemma taken_deducted:
  assumes "ba_shift_breaks a = Some breaks" "ba_check_in_at a = Some checkIn" "s \<in> set breaks"
  shows "missing_minutes tz z t checkIn a (ended_breaks (ba_id a) rows) s \<le> taken_for (sb_id s) (deduct_skipped tz z newId t a rows)"
proof -
  let ?all = "ended_breaks (ba_id a) rows"
  let ?m = "missing_minutes tz z t checkIn a ?all"
  let ?new = "deduct_skipped tz z newId t a rows"
  let ?durs = "map (\<lambda>b. coalesce (br_duration_mins b) 0) (filter (\<lambda>b. br_shift_break_id b = Some (sb_id s)) ?new)"
  have nonneg: "x \<in> set ?durs \<Longrightarrow> 0 \<le> x" for x using deduct_shape by auto
  show ?thesis
  proof (cases "0 < ?m s")
    case False
    then show ?thesis using sum_list_nonneg[of ?durs] nonneg by (simp add: taken_for_def)
  next
    case True
    then obtain k where "(k, s) \<in> set (enumerate 0 (filter (\<lambda>s. 0 < ?m s) breaks))"
      using assms(3) ex_enumerate[of s "filter (\<lambda>s. 0 < ?m s) breaks"] by auto
    then have "deducted_break t (ba_id a) (newId k) (sb_id s) (?m s) \<in> set ?new"
      using assms(1,2) by (force simp: deduct_skipped_def Let_def)
    then have "?m s \<in> set ?durs" by force
    then show ?thesis using member_le_sum_list[of "?m s" ?durs] nonneg by (simp add: taken_for_def)
  qed
qed

lemma nothing_more_missing:
  assumes "ba_shift_breaks a = Some breaks" "ba_check_in_at a = Some checkIn" "s \<in> set breaks"
  shows "missing_minutes tz z t checkIn a (ended_breaks (ba_id a) (rows @ deduct_skipped tz z newId t a rows)) s = 0"
  using taken_deducted[OF assms, of tz z t rows newId]
  by (auto simp: missing_minutes_def ended_append ended_deducted taken_append split: option.splits)

lemma deduct_idle: "deduct_skipped tz z newId t a (rows @ deduct_skipped tz z newId t a rows) = []"
proof (cases "ba_shift_breaks a")
  case (Some breaks)
  show ?thesis
  proof (cases "ba_check_in_at a")
    case (Some checkIn)
    then show ?thesis using \<open>ba_shift_breaks a = Some breaks\<close> nothing_more_missing
      by (simp add: deduct_skipped_def[of tz z newId t a "rows @ deduct_skipped tz z newId t a rows"] Let_def filter_empty_conv)
  qed (simp add: deduct_skipped_def split: option.splits)
qed (simp add: deduct_skipped_def)

text \<open>The settlement of a checkout closes every open break, its totals are those of the
  break records it leaves behind (the deductions for skipped breaks included), and settling again at
  the same instant returns the same totals and adds no record.\<close>

theorem settle_breaks_consistent:
  assumes "settleBreaks tz z newId templates t a rows = (totals, rows')"
  shows "(\<forall>b\<in>set rows'. br_attendance_id b = ba_id a \<longrightarrow> br_break_end b \<noteq> None) \<and>
    totals = calculateBreakTotals templates (ba_id a) rows' \<and>
    totalMins totals = sum_list (map (\<lambda>b. coalesce (br_duration_mins b) 0) (ended_breaks (ba_id a) rows')) \<and>
    settleBreaks tz z newId templates t a rows' = (totals, rows')"
proof -
  define rows1 where "rows1 = close_open tz z templates (ba_id a) t rows"
  let ?new = "deduct_skipped tz z newId t a rows1"
  have r: "rows' = rows1 @ ?new" and tot: "totals = calculateBreakTotals templates (ba_id a) rows'"
    using assms totals_after[of templates a rows1 tz z newId t] by (auto simp: settleBreaks_def Let_def rows1_def)
  have closed: "\<forall>b\<in>set rows'. br_attendance_id b = ba_id a \<longrightarrow> br_break_end b \<noteq> None"
    using closed_breaks[of tz z templates "ba_id a" t rows] deduct_shape[of _ tz z newId t a rows1]
    by (fastforce simp: r rows1_def)
  have "totalMins totals = sum_list (map (\<lambda>b. coalesce (br_duration_mins b) 0) (ended_breaks (ba_id a) rows'))"
    by (simp add: tot calculateBreakTotals_def Let_def settlement_def sum_list_subtractf)
  moreover have "close_open tz z templates (ba_id a) t rows' = rows'" by (rule close_idle[OF closed])
  then have "settleBreaks tz z newId templates t a rows' = (totals, rows')"
    using deduct_idle[of tz z newId t a rows1] by (simp add: settleBreaks_def Let_def tot flip: r) (simp add: calculateBreakTotals_def Let_def settlement_def)
  ultimately show ?thesis using closed tot by blast
qed

definition br_shift :: shift_break where
  "br_shift = \<lparr>sb_id = ''lunch'', sb_name = ''lunch'', sb_break_kind = ''fixed'', sb_break_minutes = 30, sb_break_start_time = None, sb_break_end_time = None, sb_after_minutes = 240,
     sb_is_paid = False, sb_paid_within_limit = True, sb_allowed_count_per_shift = 1, sb_allow_extra_breaks = False, sb_deduct_extra_time = False, sb_auto_start = False, sb_deduct_if_skipped = None, sb_applies_days = [], sb_exception_dates = []\<rparr>"

definition br_open :: break_row where
  "br_open = \<lparr>br_id = ''b'', br_attendance_id = ''a'', br_shift_break_id = Some ''lunch'', br_break_start = 17400000, br_break_end = None,
     br_duration_mins = None, br_is_paid = False, br_counted_as_extra = False, br_break_type = ''lunch'', br_auto_started = False,
     br_auto_ended = False, br_late_return_minutes = None, br_limit_exceeded = False, br_source = ''manual'', br_wifi_on_at_end = None,
     br_start_key = None, br_start_hash = None, br_end_key = None, br_end_hash = None\<rparr>"

definition br_attendance :: break_attendance where
  "br_attendance = \<lparr>ba_id = ''a'', ba_date = 0, ba_check_in_at = Some 0, ba_scheduled_start = None, ba_scheduled_end = None,
     ba_shift_breaks = Some [br_shift], ba_break_minutes = 0, ba_paid_break_minutes = 0\<rparr>"

theorem settle_breaks_consistent_witness:
  "\<exists>totals rows'. settleBreaks \<lparr>toZonedTime = (\<lambda>t z. t), fromZonedTime = (\<lambda>w z. w)\<rparr> ''UTC'' (\<lambda>_. ''n'') [br_shift] 18000000 br_attendance [br_open] = (totals, rows') \<and>
     length rows' = 2 \<and> totalMins totals = 30 \<and>
     settleBreaks \<lparr>toZonedTime = (\<lambda>t z. t), fromZonedTime = (\<lambda>w z. w)\<rparr> ''UTC'' (\<lambda>_. ''n'') [br_shift] 18000000 br_attendance rows' = (totals, rows')"
proof -
  let ?s = "settleBreaks \<lparr>toZonedTime = (\<lambda>t z. t), fromZonedTime = (\<lambda>w z. w)\<rparr> ''UTC'' (\<lambda>_. ''n'') [br_shift] 18000000 br_attendance"
  have v: "length (snd (?s [br_open])) = 2 \<and> totalMins (fst (?s [br_open])) = 30" by code_simp
  have "?s (snd (?s [br_open])) = (fst (?s [br_open]), snd (?s [br_open]))"
    using settle_breaks_consistent[of "\<lparr>toZonedTime = (\<lambda>t z. t), fromZonedTime = (\<lambda>w z. w)\<rparr>" "''UTC''" "\<lambda>_. ''n''" "[br_shift]" 18000000
        br_attendance "[br_open]" "fst (?s [br_open])" "snd (?s [br_open])", THEN conjunct2, THEN conjunct2, THEN conjunct2] by simp
  with v show ?thesis by (metis prod.collapse)
qed

end
