(* ===== verification/Network.thy ===== *)
theory Network
  imports Prelude
begin

unbundle bit_operations_syntax

text \<open>
  Office network matching: \<open>ipMatchesEntry\<close> and \<open>isOfficeNetwork\<close> of \<^verbatim>\<open>src/src/utils/auth.ts\<close>.
  JavaScript's bit operators work on 32 bits, so the addresses and the mask are words of that
  width; \<open>>>> 0\<close> turns \<open>NaN\<close> (here \<open>None\<close>) into 0.
\<close>

definition ipToNum :: "string \<Rightarrow> 32 word" where
  "ipToNum ip =
     (case fold (\<lambda>octet acc. Option.bind acc (\<lambda>a. map_option (\<lambda>v. a * 256 + v) (js_parse_int octet)))
         (split_on (CHR ''.'') ip) (Some 0) of
        None \<Rightarrow> 0
      | Some n \<Rightarrow> word_of_int n)"

definition cidr_mask :: "nat \<Rightarrow> 32 word" where
  "cidr_mask bits = (if bits = 0 then 0 else push_bit (32 - bits) (NOT 0))"

definition ipMatchesEntry :: "string \<Rightarrow> string \<Rightarrow> bool" where
  "ipMatchesEntry deviceIp entry =
     (if CHR ''/'' \<notin> set entry then deviceIp = entry
      else (let parts = split_on (CHR ''/'') entry; range = parts ! 0; bitsStr = parts ! 1
            in case js_parse_int bitsStr of
                 None \<Rightarrow> False
               | Some bits \<Rightarrow>
                   if bits < 0 \<or> 32 < bits then False
                   else (ipToNum deviceIp AND cidr_mask (nat bits)) = (ipToNum range AND cidr_mask (nat bits))))"

definition isOfficeNetwork :: "string option \<Rightarrow> string option \<Rightarrow> string list \<Rightarrow> string list \<Rightarrow> bool" where
  "isOfficeNetwork deviceIp deviceSsid officeIps officeSsids \<longleftrightarrow>
     (case deviceSsid of None \<Rightarrow> False | Some s \<Rightarrow> s \<noteq> [] \<and> s \<in> set officeSsids) \<or>
     (case deviceIp of None \<Rightarrow> False | Some ip \<Rightarrow> ip \<noteq> [] \<and> (\<exists>e\<in>set officeIps. ipMatchesEntry ip e))"

subsection \<open>Masks and prefixes\<close>

lemma split_on_pair: "c \<notin> set a \<Longrightarrow> c \<notin> set b \<Longrightarrow> split_on c (a @ c # b) = [a, b]"
proof -
  have one: "c \<notin> set b \<Longrightarrow> split_on c b = [b]" by (induction b) auto
  show "c \<notin> set a \<Longrightarrow> c \<notin> set b \<Longrightarrow> split_on c (a @ c # b) = [a, b]"
    by (induction a) (auto simp: one)
qed

lemma mask_bit: "n \<le> 32 \<Longrightarrow> i < 32 \<Longrightarrow> bit (cidr_mask n) i \<longleftrightarrow> 32 - n \<le> i"
  by (auto simp: cidr_mask_def bit_push_bit_iff bit_not_iff bit_mask_iff)

lemma masked_eq_prefix:
  fixes a b :: "32 word"
  assumes "n \<le> 32"
  shows "(a AND cidr_mask n) = (b AND cidr_mask n) \<longleftrightarrow> drop_bit (32 - n) a = drop_bit (32 - n) b"
proof -
  have "(a AND cidr_mask n) = (b AND cidr_mask n) \<longleftrightarrow> (\<forall>i<32. 32 - n \<le> i \<longrightarrow> bit a i = bit b i)"
    using assms by (auto simp: bit_eq_iff bit_and_iff mask_bit)
  also have "\<dots> \<longleftrightarrow> (\<forall>j<32. bit a (32 - n + j) = bit b (32 - n + j))"
  proof
    assume h: "\<forall>i<32. 32 - n \<le> i \<longrightarrow> bit a i = bit b i"
    show "\<forall>j<32. bit a (32 - n + j) = bit b (32 - n + j)"
    proof (intro allI impI)
      fix j :: nat
      show "bit a (32 - n + j) = bit b (32 - n + j)"
        using h by (cases "32 - n + j < 32") (auto dest: bit_imp_le_length)
    qed
  next
    assume h: "\<forall>j<32. bit a (32 - n + j) = bit b (32 - n + j)"
    show "\<forall>i<32. 32 - n \<le> i \<longrightarrow> bit a i = bit b i"
    proof (intro allI impI)
      fix i :: nat
      assume "i < 32" "32 - n \<le> i"
      then have "i - (32 - n) < 32" "32 - n + (i - (32 - n)) = i" by linarith+
      then show "bit a i = bit b i" using h by metis
    qed
  qed
  also have "\<dots> \<longleftrightarrow> drop_bit (32 - n) a = drop_bit (32 - n) b"
    by (simp add: bit_eq_iff bit_drop_bit_eq)
  finally show ?thesis .
qed

definition dotted_quad :: "string \<Rightarrow> (int \<times> int \<times> int \<times> int) option" where
  "dotted_quad s =
     (case map js_parse_int (split_on (CHR ''.'') s) of
        [Some a, Some b, Some c, Some d] \<Rightarrow> if list_all (\<lambda>x. 0 \<le> x \<and> x < 256) [a, b, c, d] then Some (a, b, c, d) else None
      | _ \<Rightarrow> None)"

definition quad_value :: "int \<times> int \<times> int \<times> int \<Rightarrow> int" where
  "quad_value q = (case q of (a, b, c, d) \<Rightarrow> ((a * 256 + b) * 256 + c) * 256 + d)"

lemma quad_parts:
  assumes "dotted_quad s = Some (a, b, c, d)"
  shows "\<exists>p q r t. split_on (CHR ''.'') s = [p, q, r, t] \<and> js_parse_int p = Some a \<and> js_parse_int q = Some b \<and>
    js_parse_int r = Some c \<and> js_parse_int t = Some d \<and> list_all (\<lambda>x. 0 \<le> x \<and> x < 256) [a, b, c, d]"
  using assms by (auto simp: dotted_quad_def map_eq_Cons_conv split: list.splits option.splits if_splits)

lemma quad_num:
  assumes "dotted_quad s = Some q"
  shows "ipToNum s = word_of_int (quad_value q)" "0 \<le> quad_value q" "quad_value q < 2 ^ 32"
proof -
  obtain a b c d where q: "q = (a, b, c, d)" by (cases q)
  from quad_parts[OF assms[unfolded q]] show "ipToNum s = word_of_int (quad_value q)" "0 \<le> quad_value q" "quad_value q < 2 ^ 32"
    by (auto simp: ipToNum_def quad_value_def q)
qed

lemma drop_bit_value:
  assumes "0 \<le> x" "x < 2 ^ 32"
  shows "uint (drop_bit k (word_of_int x :: 32 word)) = x div 2 ^ k"
proof -
  have "uint (word_of_int x :: 32 word) = x" using assms by (simp add: uint_word_of_int take_bit_int_eq_self)
  moreover have "take_bit LENGTH(32) x = x" using assms by (simp add: take_bit_int_eq_self)
  ultimately show ?thesis unfolding unsigned_drop_bit_eq by (simp only: drop_bit_eq_div)
qed

text \<open>For addresses in dotted form a CIDR entry matches a device exactly when the two
  addresses, read as 32-bit numbers, have the same leading \<open>n\<close> bits; the computation with shifts and masks
  does not overflow, prefixes 0 and 32 included.\<close>

theorem cidr_match_prefix:
  assumes ip: "dotted_quad deviceIp = Some p" and net: "dotted_quad net = Some q"
    and entry: "CHR ''/'' \<notin> set net" "CHR ''/'' \<notin> set bits" "js_parse_int bits = Some (int n)" "n \<le> 32"
  shows "ipMatchesEntry deviceIp (net @ CHR ''/'' # bits) \<longleftrightarrow> quad_value p div 2 ^ (32 - n) = quad_value q div 2 ^ (32 - n)"
proof -
  have "ipMatchesEntry deviceIp (net @ CHR ''/'' # bits) \<longleftrightarrow> (ipToNum deviceIp AND cidr_mask n) = (ipToNum net AND cidr_mask n)"
    using split_on_pair[OF entry(1,2)] entry(3,4) by (simp add: ipMatchesEntry_def)
  also have "\<dots> \<longleftrightarrow> drop_bit (32 - n) (ipToNum deviceIp) = drop_bit (32 - n) (ipToNum net)"
    by (rule masked_eq_prefix[OF entry(4)])
  also have "\<dots> \<longleftrightarrow> quad_value p div 2 ^ (32 - n) = quad_value q div 2 ^ (32 - n)"
    unfolding word_uint_eq_iff quad_num(1)[OF ip] quad_num(1)[OF net]
    by (simp only: drop_bit_value[OF quad_num(2,3)[OF ip]] drop_bit_value[OF quad_num(2,3)[OF net]])
  finally show ?thesis .
qed

theorem cidr_match_prefix_witness:
  "dotted_quad ''192.168.1.77'' = Some (192, 168, 1, 77) \<and> ipMatchesEntry ''192.168.1.77'' ''192.168.1.0/24'' \<and>
   \<not> ipMatchesEntry ''192.168.2.77'' ''192.168.1.0/24''"
proof -
  have q: "dotted_quad ''192.168.1.77'' = Some (192, 168, 1, 77)" "dotted_quad ''192.168.2.77'' = Some (192, 168, 2, 77)"
    "dotted_quad ''192.168.1.0'' = Some (192, 168, 1, 0)" "js_parse_int ''24'' = Some (int 24)" by code_simp+
  show ?thesis
    using cidr_match_prefix[OF q(1,3) _ _ q(4)] cidr_match_prefix[OF q(2,3) _ _ q(4)] q(1) by (simp add: quad_value_def)
qed

end
