(* ===== verification/QrCode.thy ===== *)
theory QrCode
  imports ShiftTime Json
begin

text \<open>
  The signed check-in codes of \<^verbatim>\<open>src/src/services/qrcode.ts\<close>.  \<open>hmac\<close> stands for
  HMAC-SHA256 under \<open>QR_SECRET\<close> in hexadecimal; rendering the code as an image and storing it is left
  out.
\<close>

definition qr_data :: "id \<Rightarrow> string \<Rightarrow> string" where
  "qr_data orgId expiresAt = ''attenda'' @ CHR '':'' # orgId @ CHR '':'' # expiresAt"

definition generateQrPayload :: "(string \<Rightarrow> string) \<Rightarrow> id \<Rightarrow> instant \<Rightarrow> string" where
  "generateQrPayload hmac orgId now =
     (let ts = now div 1000; expiresAt = ts + 86400; data = qr_data orgId (dec_string (nat expiresAt)); sig = take 16 (hmac data)
      in data @ CHR '':'' # sig)"

definition verifyQrCode :: "(string \<Rightarrow> string) \<Rightarrow> string \<Rightarrow> id \<Rightarrow> instant \<Rightarrow> bool" where
  "verifyQrCode hmac qrValue orgId now =
     (case split_on (CHR '':'') qrValue of
        [tag, qrOrgId, expiresAt, sig] \<Rightarrow>
          if tag \<noteq> ''attenda'' then False
          else if qrOrgId \<noteq> orgId then False
          else if (case js_parse_int expiresAt of None \<Rightarrow> False | Some t \<Rightarrow> t < now div 1000) then False
          else sig = take 16 (hmac (qr_data qrOrgId expiresAt))
      | _ \<Rightarrow> False)"

lemma digits_plain:
  assumes "list_all is_digit s" "s \<noteq> []"
  shows "js_parse_int s = Some (int (dec_value s))" "CHR '':'' \<notin> set s"
proof -
  obtain c r where s: "s = c # r" "is_digit c" using assms by (cases s) auto
  have "\<not> is_space c" "c \<noteq> CHR ''-''" "c \<noteq> CHR ''+''" using s(2) by (auto simp: is_digit_def is_space_def)
  then have "split_sign (dropWhile is_space s) = (False, s)" by (simp add: s split_sign_def)
  moreover have "takeWhile is_digit s = s" using assms(1) by (simp add: takeWhile_eq_all_conv list_all_iff)
  ultimately show "js_parse_int s = Some (int (dec_value s))" using assms(2) by (simp only: js_parse_int_def Let_def prod.case if_False)
  show "CHR '':'' \<notin> set s" using assms(1) by (auto simp: list_all_iff is_digit_def)
qed

text \<open>A generated code is accepted at the organisation it was made for until its 24
  hours are over, and by no other organisation.  The identifiers and the hexadecimal signatures
  contain no colon.\<close>

theorem qr_roundtrip:
  assumes "CHR '':'' \<notin> set orgId" "\<And>s. CHR '':'' \<notin> set (hmac s)" "0 \<le> now"
  shows "verifyQrCode hmac (generateQrPayload hmac orgId now) orgId' later \<longleftrightarrow>
    orgId' = orgId \<and> later div 1000 \<le> now div 1000 + 86400"
proof -
  define e where "e = dec_string (nat (now div 1000 + 86400))"
  define sig where "sig = take 16 (hmac (qr_data orgId e))"
  have e: "js_parse_int e = Some (now div 1000 + 86400)" "CHR '':'' \<notin> set e"
    using digits_plain[OF dec_string_digits dec_string_nonempty] assms(3)
    by (simp_all add: e_def dec_string_value pos_imp_zdiv_nonneg_iff)
  have "CHR '':'' \<notin> set sig" using assms(2) by (auto simp: sig_def dest: in_set_takeD)
  moreover have "generateQrPayload hmac orgId now = ''attenda'' @ CHR '':'' # orgId @ CHR '':'' # e @ CHR '':'' # sig"
    by (simp add: generateQrPayload_def Let_def qr_data_def sig_def e_def)
  ultimately have "split_on (CHR '':'') (generateQrPayload hmac orgId now) = [''attenda'', orgId, e, sig]"
    using assms(1) e(2) by (simp only: split_on_append split_on_no_sep) (simp add: split_on_append split_on_no_sep)
  then show ?thesis using e(1) by (auto simp: verifyQrCode_def sig_def)
qed

definition ex_hmac :: "string \<Rightarrow> string" where
  "ex_hmac s = dec_string (length s)"

theorem qr_roundtrip_witness:
  "verifyQrCode ex_hmac (generateQrPayload ex_hmac ''acme'' 5000) ''acme'' 86405999 \<and>
   \<not> verifyQrCode ex_hmac (generateQrPayload ex_hmac ''acme'' 5000) ''acme'' 86406000 \<and>
   \<not> verifyQrCode ex_hmac (generateQrPayload ex_hmac ''acme'' 5000) ''other'' 6000"
  using digits_plain(2)[OF dec_string_digits dec_string_nonempty]
  by (simp add: qr_roundtrip ex_hmac_def)

end
