(* ===== verification/Devices.thy ===== *)
theory Devices
  imports Json "HOL-Library.List_Lexorder" "HOL-Library.Char_ord" "HOL-Library.Multiset"
begin

text \<open>
  Trusted attendance devices: \<^verbatim>\<open>src/src/routes/attendance-devices.ts\<close> (enrolment with proof of key
  ownership, approval, revocation, check-in challenges) and the verification of a device proof by
  \<^verbatim>\<open>POST /attendance/checkin\<close> in \<^verbatim>\<open>src/src/routes/attendance.ts\<close>.

  Node's crypto module is a parameter: the digest, the reading of a P-256 public key and the
  verification of a signature.  \<open>JSON.parse\<close> and the rendering of JSON leaves are parameters too; the
  canonical form \<open>stableJson\<close> is the one of the source.  Random challenges and row ids are arguments.
\<close>

subsection \<open>Canonical JSON\<close>

record json_io =
  json_parse :: "string \<Rightarrow> json option"
  json_leaf :: "json \<Rightarrow> string"

fun join_with :: "string \<Rightarrow> string list \<Rightarrow> string" where
  "join_with sep [] = []"
| "join_with sep [s] = s"
| "join_with sep (s # t # ts) = s @ sep @ join_with sep (t # ts)"

primrec stableJson :: "(json \<Rightarrow> string) \<Rightarrow> json \<Rightarrow> string" where
  "stableJson leaf JNull = leaf JNull"
| "stableJson leaf (JBool b) = leaf (JBool b)"
| "stableJson leaf (JNum n) = leaf (JNum n)"
| "stableJson leaf (JStr s) = leaf (JStr s)"
| "stableJson leaf (JArr xs) = ''['' @ join_with '','' (map (stableJson leaf) xs) @ '']''"
| "stableJson leaf (JObj kvs) =
     ''{'' @ join_with '','' (map (\<lambda>(k, v). leaf (JStr k) @ '':'' @ v)
       (sort_key fst (map (map_prod id (stableJson leaf)) kvs))) @ ''}''"

definition is_object :: "json \<Rightarrow> bool" where
  "is_object v = (case v of JObj _ \<Rightarrow> True | _ \<Rightarrow> False)"

subsection \<open>State\<close>

record att_device =
  dv_id :: id
  dv_org_id :: id
  dv_user_id :: id
  dv_label :: string
  dv_platform :: string
  dv_public_key :: string
  dv_fingerprint :: string
  dv_status :: string
  dv_enrollment_challenge_hash :: "string option"
  dv_challenge_expires_at :: "instant option"
  dv_key_proven_at :: "instant option"
  dv_approved_by :: "id option"
  dv_approved_at :: "instant option"
  dv_revoked_at :: "instant option"
  dv_last_used_at :: "instant option"

record device_challenge =
  dc_id :: id
  dc_org_id :: id
  dc_user_id :: id
  dc_device_id :: id
  dc_challenge_hash :: string
  dc_expires_at :: instant
  dc_consumed_at :: "instant option"

record device_db =
  dd_devices :: "att_device list"
  dd_challenges :: "device_challenge list"

text \<open>\<open>key_der\<close> is \<open>publicKeyFromBase64\<close>: the DER bytes of a P-256 key, \<open>None\<close> for anything else.
  \<open>verify_sig message key signature\<close> reads key and signature in base64.\<close>

record device_crypto =
  key_der :: "string \<Rightarrow> string option"
  digest :: "string \<Rightarrow> string"
  verify_sig :: "string \<Rightarrow> string \<Rightarrow> string \<Rightarrow> bool"

subsection \<open>Enrolment\<close>

definition active_devices :: "id \<Rightarrow> att_device list \<Rightarrow> nat" where
  "active_devices user ds = count_where (\<lambda>d. dv_user_id d = user \<and> dv_status d \<in> {''pending'', ''approved''}) ds"

definition new_device :: "id \<Rightarrow> id \<Rightarrow> id \<Rightarrow> string \<Rightarrow> string \<Rightarrow> string \<Rightarrow> string \<Rightarrow> string \<Rightarrow> instant \<Rightarrow> att_device" where
  "new_device i org user label platform key fp h expires =
     \<lparr>dv_id = i, dv_org_id = org, dv_user_id = user, dv_label = label, dv_platform = platform, dv_public_key = key,
      dv_fingerprint = fp, dv_status = ''pending'', dv_enrollment_challenge_hash = Some h, dv_challenge_expires_at = Some expires,
      dv_key_proven_at = None, dv_approved_by = None, dv_approved_at = None, dv_revoked_at = None, dv_last_used_at = None\<rparr>"

definition enroll_start ::
    "device_crypto \<Rightarrow> id \<Rightarrow> id \<Rightarrow> string \<Rightarrow> string \<Rightarrow> string \<Rightarrow> id \<Rightarrow> string \<Rightarrow> instant \<Rightarrow> device_db \<Rightarrow> (id \<times> device_db) result" where
  "enroll_start cr org user label platform key newId challenge now db =
     (case key_der cr key of None \<Rightarrow> Inl ValidationError
      | Some der \<Rightarrow>
          (let fp = digest cr der;
               mine = (\<lambda>d. dv_user_id d = user \<and> dv_fingerprint d = fp);
               h = digest cr challenge;
               expires = now + 5 * 60000;
               drop = (\<lambda>i. filter (\<lambda>c. dc_device_id c \<noteq> i) (dd_challenges db))
           in case find_first mine (dd_devices db) of
                None \<Rightarrow>
                  require (active_devices user (dd_devices db) < 5) (AppError 409 ''DEVICE_LIMIT_REACHED'')
                    (Inr (newId, \<lparr>dd_devices = dd_devices db @ [new_device newId org user label platform key fp h expires],
                                  dd_challenges = drop newId\<rparr>))
              | Some d \<Rightarrow>
                  Inr (dv_id d,
                    \<lparr>dd_devices = update_where mine (\<lambda>d. d\<lparr>dv_org_id := org, dv_label := label, dv_platform := platform,
                        dv_public_key := key, dv_status := ''pending'', dv_enrollment_challenge_hash := Some h,
                        dv_challenge_expires_at := Some expires, dv_key_proven_at := None, dv_approved_by := None,
                        dv_approved_at := None, dv_revoked_at := None\<rparr>) (dd_devices db),
                     dd_challenges = drop (dv_id d)\<rparr>)))"

definition own_device :: "id \<Rightarrow> id \<Rightarrow> id \<Rightarrow> att_device \<Rightarrow> bool" where
  "own_device i org user d \<longleftrightarrow> dv_id d = i \<and> dv_org_id d = org \<and> dv_user_id d = user"

definition still_pending :: "id \<Rightarrow> id \<Rightarrow> id \<Rightarrow> string \<Rightarrow> instant \<Rightarrow> att_device \<Rightarrow> bool" where
  "still_pending i org user h now d \<longleftrightarrow> own_device i org user d \<and> dv_status d = ''pending'' \<and>
     dv_enrollment_challenge_hash d = Some h \<and> (case dv_challenge_expires_at d of None \<Rightarrow> False | Some e \<Rightarrow> now < e)"

definition enroll_confirm ::
    "device_crypto \<Rightarrow> id \<Rightarrow> id \<Rightarrow> id \<Rightarrow> string \<Rightarrow> string \<Rightarrow> instant \<Rightarrow> device_db \<Rightarrow> device_db result" where
  "enroll_confirm cr org user i challenge signature now db =
     (case find_first (\<lambda>d. own_device i org user d \<and> dv_status d = ''pending'') (dd_devices db) of
        None \<Rightarrow> Inl (AppError 409 ''DEVICE_CHALLENGE_EXPIRED'')
      | Some d \<Rightarrow>
          (case (dv_enrollment_challenge_hash d, dv_challenge_expires_at d) of
             (Some h, Some expires) \<Rightarrow>
               require (now < expires) (AppError 409 ''DEVICE_CHALLENGE_EXPIRED'')
                 (require (digest cr challenge = h) (AppError 409 ''DEVICE_CHALLENGE_INVALID'')
                   (require (key_der cr (dv_public_key d) \<noteq> None) ValidationError
                     (require (verify_sig cr challenge (dv_public_key d) signature) (AppError 403 ''DEVICE_PROOF_INVALID'')
                       (let held = still_pending i org user h now
                        in require (0 < count_where held (dd_devices db)) (AppError 409 ''DEVICE_CHALLENGE_USED'')
                             (Inr (db\<lparr>dd_devices := update_where held (\<lambda>x. x\<lparr>dv_enrollment_challenge_hash := None,
                                dv_challenge_expires_at := None, dv_key_proven_at := Some now\<rparr>) (dd_devices db)\<rparr>))))))
           | _ \<Rightarrow> Inl (AppError 409 ''DEVICE_CHALLENGE_EXPIRED'')))"

subsection \<open>Check-in challenges, approval and revocation\<close>

definition pending_challenges :: "instant \<Rightarrow> id \<Rightarrow> device_challenge list \<Rightarrow> nat" where
  "pending_challenges now i cs = count_where (\<lambda>c. dc_device_id c = i \<and> dc_consumed_at c = None \<and> now < dc_expires_at c) cs"

definition swept_challenges :: "instant \<Rightarrow> id \<Rightarrow> device_challenge list \<Rightarrow> device_challenge list" where
  "swept_challenges now i cs = filter (\<lambda>c. \<not> (dc_device_id c = i \<and> (dc_expires_at c \<le> now \<or> dc_consumed_at c \<noteq> None))) cs"

text \<open>The sweep of spent challenges happens before the limit is checked and stays when it is exceeded,
  so the state is returned next to the verdict.\<close>

definition checkin_challenge ::
    "device_crypto \<Rightarrow> id \<Rightarrow> id \<Rightarrow> id \<Rightarrow> id \<Rightarrow> string \<Rightarrow> instant \<Rightarrow> device_db \<Rightarrow> unit result \<times> device_db" where
  "checkin_challenge cr org user i newId challenge now db =
     (case find_first (\<lambda>d. own_device i org user d \<and> dv_status d = ''approved'') (dd_devices db) of
        None \<Rightarrow> (Inl NotFoundError, db)
      | Some _ \<Rightarrow>
          (let cs = swept_challenges now i (dd_challenges db) in
           if 20 \<le> pending_challenges now i cs then (Inl (AppError 429 ''DEVICE_CHALLENGE_LIMIT''), db\<lparr>dd_challenges := cs\<rparr>)
           else (Inr (), db\<lparr>dd_challenges := cs @ [\<lparr>dc_id = newId, dc_org_id = org, dc_user_id = user, dc_device_id = i,
                  dc_challenge_hash = digest cr challenge, dc_expires_at = now + 12 * 60 * 60000, dc_consumed_at = None\<rparr>]\<rparr>)))"

definition revoke_row :: "instant \<Rightarrow> att_device \<Rightarrow> att_device" where
  "revoke_row now d = d\<lparr>dv_status := ''revoked'', dv_revoked_at := Some now, dv_enrollment_challenge_hash := None,
     dv_challenge_expires_at := None\<rparr>"

definition revoke_own :: "id \<Rightarrow> id \<Rightarrow> id \<Rightarrow> instant \<Rightarrow> device_db \<Rightarrow> device_db result" where
  "revoke_own org user i now db =
     (let live = (\<lambda>d. own_device i org user d \<and> dv_status d \<noteq> ''revoked'')
      in case find_first live (dd_devices db) of None \<Rightarrow> Inl NotFoundError
         | Some _ \<Rightarrow> Inr \<lparr>dd_devices = update_where live (revoke_row now) (dd_devices db),
                         dd_challenges = filter (\<lambda>c. dc_device_id c \<noteq> i) (dd_challenges db)\<rparr>)"

definition approve_device :: "id \<Rightarrow> id \<Rightarrow> id \<Rightarrow> instant \<Rightarrow> device_db \<Rightarrow> device_db result" where
  "approve_device org actor i now db =
     (let proven = (\<lambda>d. dv_id d = i \<and> dv_org_id d = org \<and> dv_status d = ''pending'' \<and> dv_key_proven_at d \<noteq> None)
      in case find_first proven (dd_devices db) of None \<Rightarrow> Inl NotFoundError
         | Some _ \<Rightarrow>
             require (0 < count_where proven (dd_devices db)) (AppError 409 ''DEVICE_REVIEW_STALE'')
               (Inr (db\<lparr>dd_devices := update_where proven (\<lambda>d. d\<lparr>dv_status := ''approved'', dv_approved_by := Some actor,
                  dv_approved_at := Some now\<rparr>) (dd_devices db)\<rparr>)))"

definition revoke_device :: "id \<Rightarrow> id \<Rightarrow> instant \<Rightarrow> device_db \<Rightarrow> device_db result" where
  "revoke_device org i now db =
     (let live = (\<lambda>d. dv_id d = i \<and> dv_org_id d = org \<and> dv_status d \<noteq> ''revoked'')
      in case find_first live (dd_devices db) of None \<Rightarrow> Inl NotFoundError
         | Some _ \<Rightarrow> Inr \<lparr>dd_devices = update_where live (revoke_row now) (dd_devices db),
                         dd_challenges = filter (\<lambda>c. \<not> (dc_device_id c = i \<and> dc_org_id c = org)) (dd_challenges db)\<rparr>)"

subsection \<open>The device proof of a check-in\<close>

record device_proof =
  dp_device_id :: id
  dp_challenge :: string
  dp_signature :: string
  dp_signed_payload :: string

record proof_verdict =
  pv_status :: string
  pv_device :: "id option"
  pv_signature_verified :: bool
  pv_review :: bool
  pv_challenge :: "id option"

definition proof_message :: "id \<Rightarrow> id \<Rightarrow> id \<Rightarrow> device_proof \<Rightarrow> string" where
  "proof_message org user deviceId p =
     join_with [CHR 0x0A] [''attenda-checkin-v2'', org, user, deviceId, dp_challenge p, ''''] @ dp_signed_payload p"

definition payload_matches :: "json_io \<Rightarrow> device_proof \<Rightarrow> (string \<times> json) list \<Rightarrow> bool" where
  "payload_matches io p request =
     (case json_parse io (dp_signed_payload p) of None \<Rightarrow> False
      | Some v \<Rightarrow> is_object v \<and> stableJson (json_leaf io) v = stableJson (json_leaf io) (JObj request))"

definition proof_request :: "(string \<times> json) list \<Rightarrow> (string \<times> json) list" where
  "proof_request body = sort_key fst (filter (\<lambda>(k, _). k \<noteq> ''offline'' \<and> k \<noteq> ''device_proof'') body)"

definition claims_challenge :: "id \<Rightarrow> id \<Rightarrow> id \<Rightarrow> id \<Rightarrow> instant \<Rightarrow> device_challenge \<Rightarrow> bool" where
  "claims_challenge c org user deviceId receivedAt x \<longleftrightarrow> dc_id x = c \<and> dc_org_id x = org \<and> dc_user_id x = user \<and>
     dc_device_id x = deviceId \<and> dc_consumed_at x = None \<and> receivedAt < dc_expires_at x"

definition proof_used :: "id \<Rightarrow> id \<Rightarrow> id \<Rightarrow> id \<Rightarrow> instant \<Rightarrow> device_db \<Rightarrow> device_db" where
  "proof_used deviceId c org user receivedAt db =
     \<lparr>dd_devices = update_where (\<lambda>x. dv_id x = deviceId) (\<lambda>x. x\<lparr>dv_last_used_at := Some receivedAt\<rparr>) (dd_devices db),
      dd_challenges = update_where (claims_challenge c org user deviceId receivedAt) (\<lambda>x. x\<lparr>dc_consumed_at := Some receivedAt\<rparr>) (dd_challenges db)\<rparr>"

text \<open>\<open>verifyDeviceProof\<close> is the block of the check-in handler: it reads device and challenge, checks
  payload, freshness and signature, and consumes the challenge by a conditional update.  The field
  \<open>pv_challenge\<close> of the verdict records which challenge was consumed.\<close>

definition verifyDeviceProof ::
    "device_crypto \<Rightarrow> json_io \<Rightarrow> id \<Rightarrow> id \<Rightarrow> (string \<times> json) list \<Rightarrow> device_proof option \<Rightarrow> instant \<Rightarrow> device_db \<Rightarrow> proof_verdict \<times> device_db" where
  "verifyDeviceProof cr io org user body proof receivedAt db =
     (case proof of
        None \<Rightarrow> (\<lparr>pv_status = ''missing'', pv_device = None, pv_signature_verified = False, pv_review = False, pv_challenge = None\<rparr>, db)
      | Some p \<Rightarrow>
          (let refuse = (\<lambda>s. (\<lparr>pv_status = s, pv_device = None, pv_signature_verified = False, pv_review = True, pv_challenge = None\<rparr>, db));
               device = find_first (\<lambda>d. own_device (dp_device_id p) org user d \<and> dv_status d = ''approved'') (dd_devices db)
           in case device of None \<Rightarrow> refuse ''untrusted''
              | Some d \<Rightarrow>
                 (case find_first (\<lambda>c. dc_org_id c = org \<and> dc_user_id c = user \<and> dc_device_id c = dv_id d \<and>
                          dc_challenge_hash c = digest cr (dp_challenge p)) (dd_challenges db) of
                    None \<Rightarrow> refuse ''invalid''
                  | Some c \<Rightarrow>
                     (let fresh = (dc_consumed_at c = None \<and> receivedAt < dc_expires_at c);
                          ok = (payload_matches io p (proof_request body) \<and> fresh \<and>
                                verify_sig cr (proof_message org user (dv_id d) p) (dv_public_key d) (dp_signature p));
                          claim = claims_challenge (dc_id c) org user (dv_id d) receivedAt
                      in if ok then
                           (if 0 < count_where claim (dd_challenges db)
                            then (\<lparr>pv_status = ''verified'', pv_device = Some (dv_id d), pv_signature_verified = True, pv_review = False,
                                   pv_challenge = Some (dc_id c)\<rparr>,
                                  proof_used (dv_id d) (dc_id c) org user receivedAt db)
                            else refuse ''replayed'')
                         else refuse (if dc_consumed_at c \<noteq> None then ''replayed'' else if \<not> fresh then ''expired'' else ''invalid'')))))"

subsection \<open>Canonical form\<close>

text \<open>Keys may be reordered freely: the canonical form only depends on the set of entries.\<close>

lemma stable_key_order:
  assumes "distinct (map fst kvs)" "mset kvs = mset kvs'"
  shows "stableJson leaf (JObj kvs) = stableJson leaf (JObj kvs')"
proof -
  let ?f = "map_prod id (stableJson leaf)"
  have "inj_on fst (set (map ?f kvs))" using assms(1) by (auto simp: distinct_map inj_on_def)
  then have "sort_key fst (map ?f kvs) = sort_key fst (map ?f kvs')"
    using assms(2) by (intro sort_key_inj_key_eq) auto
  then show ?thesis by simp
qed

subsection \<open>Runs\<close>

inductive device_run :: "device_crypto \<Rightarrow> json_io \<Rightarrow> id list \<Rightarrow> id set \<Rightarrow> device_db \<Rightarrow> bool" for cr io where
  start: "device_run cr io [] {} \<lparr>dd_devices = [], dd_challenges = []\<rparr>"
| enroll: "device_run cr io spent used db \<Longrightarrow> newId \<notin> used \<Longrightarrow>
    enroll_start cr org user label platform key newId challenge now db = Inr (i, db') \<Longrightarrow> device_run cr io spent (insert newId used) db'"
| confirm: "device_run cr io spent used db \<Longrightarrow> enroll_confirm cr org user i challenge signature now db = Inr db' \<Longrightarrow>
    device_run cr io spent used db'"
| issue: "device_run cr io spent used db \<Longrightarrow> newId \<notin> used \<Longrightarrow>
    checkin_challenge cr org user i newId challenge now db = (r, db') \<Longrightarrow> device_run cr io spent (insert newId used) db'"
| drop_own: "device_run cr io spent used db \<Longrightarrow> revoke_own org user i now db = Inr db' \<Longrightarrow> device_run cr io spent used db'"
| approve: "device_run cr io spent used db \<Longrightarrow> approve_device org actor i now db = Inr db' \<Longrightarrow> device_run cr io spent used db'"
| drop_any: "device_run cr io spent used db \<Longrightarrow> revoke_device org i now db = Inr db' \<Longrightarrow> device_run cr io spent used db'"
| used_proof: "device_run cr io spent used db \<Longrightarrow> verifyDeviceProof cr io org user body p receivedAt db = (v, db') \<Longrightarrow>
    device_run cr io (case pv_challenge v of None \<Rightarrow> spent | Some c \<Rightarrow> c # spent) used db'"

definition key_owned :: "device_crypto \<Rightarrow> att_device \<Rightarrow> bool" where
  "key_owned cr d \<longleftrightarrow> (\<exists>challenge signature. verify_sig cr challenge (dv_public_key d) signature)"

definition device_ok :: "device_crypto \<Rightarrow> att_device \<Rightarrow> bool" where
  "device_ok cr d \<longleftrightarrow> (dv_key_proven_at d \<noteq> None \<longrightarrow> key_owned cr d) \<and>
     (dv_status d = ''approved'' \<longrightarrow> dv_key_proven_at d \<noteq> None \<and> dv_approved_by d \<noteq> None)"

definition devices_inv :: "device_crypto \<Rightarrow> id set \<Rightarrow> att_device list \<Rightarrow> bool" where
  "devices_inv cr used ds \<longleftrightarrow> distinct (map dv_id ds) \<and> set (map dv_id ds) \<subseteq> used \<and> (\<forall>d\<in>set ds. device_ok cr d)"

definition challenges_inv :: "id list \<Rightarrow> id set \<Rightarrow> device_challenge list \<Rightarrow> bool" where
  "challenges_inv spent used cs \<longleftrightarrow> distinct (map dc_id cs) \<and> set (map dc_id cs) \<subseteq> used \<and> set spent \<subseteq> used \<and> distinct spent \<and>
     (\<forall>c\<in>set cs. dc_consumed_at c = None \<longrightarrow> dc_id c \<notin> set spent)"

lemma devices_update:
  assumes "devices_inv cr used ds" "\<And>d. dv_id (f d) = dv_id d" "\<And>d. d \<in> set ds \<Longrightarrow> p d \<Longrightarrow> device_ok cr d \<Longrightarrow> device_ok cr (f d)"
  shows "devices_inv cr used (update_where p f ds)"
proof -
  have "map dv_id (update_where p f ds) = map dv_id ds" using assms(2) by (simp add: update_where_def)
  moreover have "\<forall>d\<in>set (update_where p f ds). device_ok cr d"
    using assms(1,3) by (auto simp: set_update_where devices_inv_def)
  ultimately show ?thesis using assms(1) unfolding devices_inv_def by metis
qed

lemma challenges_filter: "challenges_inv spent used cs \<Longrightarrow> challenges_inv spent used (filter p cs)"
  by (auto simp: challenges_inv_def distinct_map_filter)

lemma devices_widen: "devices_inv cr used ds \<Longrightarrow> devices_inv cr (insert x used) ds"
  by (auto simp: devices_inv_def)

lemma challenges_widen: "challenges_inv spent used cs \<Longrightarrow> challenges_inv spent (insert x used) cs"
  by (auto simp: challenges_inv_def)

definition device_state_ok :: "device_crypto \<Rightarrow> id list \<Rightarrow> id set \<Rightarrow> device_db \<Rightarrow> bool" where
  "device_state_ok cr spent used db \<longleftrightarrow> devices_inv cr used (dd_devices db) \<and> challenges_inv spent used (dd_challenges db)"

lemma enroll_ok:
  assumes "device_state_ok cr spent used db" "newId \<notin> used"
    "enroll_start cr org user label platform key newId challenge now db = Inr (i, db')"
  shows "device_state_ok cr spent (insert newId used) db'"
proof -
  have inv: "devices_inv cr (insert newId used) (dd_devices db)" "challenges_inv spent (insert newId used) (dd_challenges db)"
    using assms(1) by (auto simp: device_state_ok_def intro: devices_widen challenges_widen)
  have fresh: "newId \<notin> set (map dv_id (dd_devices db))" using assms(1,2) by (auto simp: device_state_ok_def devices_inv_def)
  let ?mine = "\<lambda>d. dv_user_id d = user \<and> dv_fingerprint d = digest cr (the (key_der cr key))"
  let ?f = "\<lambda>d. d\<lparr>dv_org_id := org, dv_label := label, dv_platform := platform,
    dv_public_key := key, dv_status := ''pending'', dv_enrollment_challenge_hash := Some (digest cr challenge),
    dv_challenge_expires_at := Some (now + 5 * 60000), dv_key_proven_at := None, dv_approved_by := None,
    dv_approved_at := None, dv_revoked_at := None\<rparr>"
  have up: "devices_inv cr (insert newId used) (update_where ?mine ?f (dd_devices db))"
    by (rule devices_update[OF inv(1)]) (simp_all add: device_ok_def)
  have new: "devices_inv cr (insert newId used)
      (dd_devices db @ [new_device newId org user label platform key (digest cr (the (key_der cr key))) (digest cr challenge) (now + 5 * 60000)])"
    using inv(1) fresh by (auto simp: devices_inv_def new_device_def device_ok_def)
  show ?thesis using assms(3) up new challenges_filter[OF inv(2)]
    by (auto simp: enroll_start_def Let_def device_state_ok_def split: option.splits)
qed

lemma confirm_ok:
  assumes "device_state_ok cr spent used db" "enroll_confirm cr org user i challenge signature now db = Inr db'"
  shows "device_state_ok cr spent used db'"
proof -
  obtain d h where d: "d \<in> set (dd_devices db)" "own_device i org user d" "verify_sig cr challenge (dv_public_key d) signature"
    and db': "db' = db\<lparr>dd_devices := update_where (still_pending i org user h now)
        (\<lambda>x. x\<lparr>dv_enrollment_challenge_hash := None, dv_challenge_expires_at := None, dv_key_proven_at := Some now\<rparr>) (dd_devices db)\<rparr>"
    using assms(2) by (auto simp: enroll_confirm_def Let_def split: option.splits dest!: find_first_Some)
  have same: "x = d" if "x \<in> set (dd_devices db)" "own_device i org user x" for x
    using that d assms(1) by (auto simp: device_state_ok_def devices_inv_def own_device_def distinct_map inj_on_def)
  have "device_ok cr (x\<lparr>dv_enrollment_challenge_hash := None, dv_challenge_expires_at := None, dv_key_proven_at := Some now\<rparr>)"
    if "x \<in> set (dd_devices db)" "still_pending i org user h now x" "device_ok cr x" for x
    using same[OF that(1)] that(2,3) d(3) by (auto simp: still_pending_def device_ok_def key_owned_def)
  then have "devices_inv cr used (dd_devices db')"
    using assms(1) unfolding db' by (simp add: device_state_ok_def devices_update)
  then show ?thesis using assms(1) db' by (simp add: device_state_ok_def)
qed

lemma issue_ok:
  assumes "device_state_ok cr spent used db" "newId \<notin> used" "checkin_challenge cr org user i newId challenge now db = (r, db')"
  shows "device_state_ok cr spent (insert newId used) db'"
proof -
  have inv: "devices_inv cr (insert newId used) (dd_devices db)" "challenges_inv spent (insert newId used) (swept_challenges now i (dd_challenges db))"
    "challenges_inv spent (insert newId used) (dd_challenges db)"
    using assms(1) by (auto simp: device_state_ok_def swept_challenges_def intro: devices_widen challenges_widen challenges_filter)
  have fresh: "newId \<notin> set (map dc_id (dd_challenges db))" "newId \<notin> set spent"
    using assms(1,2) by (auto simp: device_state_ok_def challenges_inv_def)
  let ?c = "\<lparr>dc_id = newId, dc_org_id = org, dc_user_id = user, dc_device_id = i,
                  dc_challenge_hash = digest cr challenge, dc_expires_at = now + 12 * 60 * 60000, dc_consumed_at = None\<rparr>"
  have "challenges_inv spent (insert newId used) (swept_challenges now i (dd_challenges db) @ [?c])"
    using inv(2) fresh by (auto simp: challenges_inv_def swept_challenges_def)
  then show ?thesis using assms(3) inv
    by (auto simp: checkin_challenge_def Let_def device_state_ok_def split: option.splits if_splits)
qed

lemma revoke_ok: "devices_inv cr used ds \<Longrightarrow> devices_inv cr used (update_where p (revoke_row now) ds)"
  by (rule devices_update) (auto simp: revoke_row_def device_ok_def key_owned_def)

lemma verified_elim:
  assumes "verifyDeviceProof cr io org user body proof receivedAt db = (v, db')" "pv_challenge v = Some c"
  obtains p d where "proof = Some p" "d \<in> set (dd_devices db)" "own_device (dp_device_id p) org user d" "dv_status d = ''approved''"
    "payload_matches io p (proof_request body)"
    "verify_sig cr (proof_message org user (dv_id d) p) (dv_public_key d) (dp_signature p)"
    "\<exists>x\<in>set (dd_challenges db). claims_challenge c org user (dv_id d) receivedAt x \<and> dc_challenge_hash x = digest cr (dp_challenge p)"
    "0 < count_where (claims_challenge c org user (dv_id d) receivedAt) (dd_challenges db)"
    "db' = proof_used (dv_id d) c org user receivedAt db" "pv_status v = ''verified''" "pv_device v = Some (dv_id d)"
proof -
  obtain p where p: "proof = Some p" using assms by (auto simp: verifyDeviceProof_def split: option.splits)
  obtain d where d: "find_first (\<lambda>d. own_device (dp_device_id p) org user d \<and> dv_status d = ''approved'') (dd_devices db) = Some d"
    using assms p by (cases "find_first (\<lambda>d. own_device (dp_device_id p) org user d \<and> dv_status d = ''approved'') (dd_devices db)")
      (auto simp: verifyDeviceProof_def)
  let ?q = "\<lambda>c. dc_org_id c = org \<and> dc_user_id c = user \<and> dc_device_id c = dv_id d \<and> dc_challenge_hash c = digest cr (dp_challenge p)"
  obtain x where x: "find_first ?q (dd_challenges db) = Some x"
    using assms p d by (cases "find_first ?q (dd_challenges db)") (auto simp: verifyDeviceProof_def)
  note r = assms(1)[unfolded verifyDeviceProof_def p option.case Let_def d x]
  have "dc_id x = c" using r assms(2) by (auto split: if_splits)
  then show ?thesis
    using r assms(2) find_first_Some[OF d] find_first_Some[OF x] p by (intro that[of p d]) (auto split: if_splits simp: claims_challenge_def)
qed

lemma proof_ok:
  assumes "device_state_ok cr spent used db" "verifyDeviceProof cr io org user body p receivedAt db = (v, db')"
  shows "device_state_ok cr (case pv_challenge v of None \<Rightarrow> spent | Some c \<Rightarrow> c # spent) used db'"
proof (cases "pv_challenge v")
  case None
  then have "db' = db" using assms(2) by (auto simp: verifyDeviceProof_def Let_def split: option.splits if_splits)
  then show ?thesis using None assms(1) by simp
next
  case (Some c)
  let ?claim = "\<lambda>dev. claims_challenge c org user dev receivedAt"
  obtain d :: att_device where n: "0 < count_where (?claim (dv_id d)) (dd_challenges db)" and
    db': "db' = proof_used (dv_id d) c org user receivedAt db"
    by (rule verified_elim[OF assms(2) Some]) (rule that)
  obtain x where x: "x \<in> set (dd_challenges db)" "?claim (dv_id d) x"
    using n count_where_zero[of "?claim (dv_id d)" "dd_challenges db"] by auto
  have inv: "challenges_inv spent used (dd_challenges db)" using assms(1) by (simp add: device_state_ok_def)
  have "devices_inv cr used (dd_devices db')"
    unfolding db' proof_used_def using assms(1)
    unfolding device_state_ok_def device_db.simps by (elim conjE, intro devices_update) (simp_all add: device_ok_def key_owned_def)
  moreover have "map dc_id (dd_challenges db') = map dc_id (dd_challenges db)" by (simp add: db' proof_used_def update_where_def)
  moreover have "dc_id y \<noteq> c \<and> dc_id y \<notin> set spent" if y: "y \<in> set (dd_challenges db')" "dc_consumed_at y = None" for y
  proof -
    have "y \<in> set (dd_challenges db)" "\<not> ?claim (dv_id d) y"
      using y by (auto simp: db' proof_used_def set_update_where)
    moreover have "y = x" if "dc_id y = c"
      using inv that \<open>y \<in> set (dd_challenges db)\<close> x by (simp add: challenges_inv_def claims_challenge_def distinct_map inj_on_def)
    ultimately show ?thesis using x(2) y(2) inv by (auto simp: challenges_inv_def)
  qed
  ultimately show ?thesis using Some inv x
    by (fastforce simp: device_state_ok_def challenges_inv_def claims_challenge_def)
qed

lemma run_ok: "device_run cr io spent used db \<Longrightarrow> device_state_ok cr spent used db"
proof (induction rule: device_run.induct)
  case start
  show ?case by (simp add: device_state_ok_def devices_inv_def challenges_inv_def)
next
  case (drop_own spent used db org user i now db')
  then show ?case by (auto simp: revoke_own_def Let_def device_state_ok_def intro: revoke_ok challenges_filter split: option.splits)
next
  case (drop_any spent used db org i now db')
  then show ?case by (auto simp: revoke_device_def Let_def device_state_ok_def intro: revoke_ok challenges_filter split: option.splits)
next
  case (approve spent used db org actor i now db')
  then show ?case
    by (auto simp: approve_device_def Let_def device_state_ok_def device_ok_def key_owned_def intro!: devices_update split: option.splits)
qed (auto intro: enroll_ok confirm_ok issue_ok proof_ok)

text \<open>C14: in every run of enrolments, approvals, revocations and check-ins no
  challenge is ever accepted twice, and every approved device was approved by somebody and has
  proven, by a signature, that it holds its private key; since its key cannot change without a new
  enrolment, that is the key its check-ins are verified with.\<close>

theorem device_challenge_once:
  assumes "device_run cr io spent used db"
  shows "distinct spent \<and>
    (\<forall>d\<in>set (dd_devices db). dv_status d = ''approved'' \<longrightarrow>
       dv_approved_by d \<noteq> None \<and> (\<exists>challenge signature. verify_sig cr challenge (dv_public_key d) signature))"
  using run_ok[OF assms]
  by (auto simp: device_state_ok_def challenges_inv_def devices_inv_def device_ok_def key_owned_def)

subsection \<open>Soundness of the proof check\<close>

lemma refused_proof:
  assumes "verifyDeviceProof cr io org user body (Some p) receivedAt db = (v, db')" "pv_challenge v = None"
  shows "pv_status v \<noteq> ''verified'' \<and> pv_review v \<and> pv_device v = None \<and> \<not> pv_signature_verified v \<and> db' = db"
  using assms by (auto simp: verifyDeviceProof_def Let_def split: option.splits if_splits)

text \<open>C15: a check-in counts as verified by a device only if the device is an approved
  one of the same user and organisation, the challenge was issued to it and is neither used nor
  expired, the signed payload is the request itself up to the order of its keys, and the signature
  over organisation, user, device, challenge and payload verifies.  Every other proof that is
  presented sends the check-in to review and changes nothing.\<close>

theorem device_proof_sound:
  assumes "verifyDeviceProof cr io org user body (Some p) receivedAt db = (v, db')"
  shows "(pv_status v = ''verified'' \<longrightarrow>
      (\<exists>d\<in>set (dd_devices db). \<exists>x\<in>set (dd_challenges db). own_device (dp_device_id p) org user d \<and> dv_status d = ''approved'' \<and>
         dc_device_id x = dv_id d \<and> dc_challenge_hash x = digest cr (dp_challenge p) \<and> dc_consumed_at x = None \<and> receivedAt < dc_expires_at x \<and>
         payload_matches io p (proof_request body) \<and>
         verify_sig cr (proof_message org user (dv_id d) p) (dv_public_key d) (dp_signature p) \<and> pv_device v = Some (dv_id d))) \<and>
    (pv_status v \<noteq> ''verified'' \<longrightarrow> pv_review v \<and> pv_device v = None \<and> \<not> pv_signature_verified v \<and> db' = db)"
proof (cases "pv_challenge v")
  case None
  then show ?thesis using refused_proof[OF assms] by simp
next
  case (Some c)
  show ?thesis
  proof (rule verified_elim[OF assms Some])
    fix q d
    assume q: "Some p = Some q" "d \<in> set (dd_devices db)" "own_device (dp_device_id q) org user d" "dv_status d = ''approved''"
      "payload_matches io q (proof_request body)" "verify_sig cr (proof_message org user (dv_id d) q) (dv_public_key d) (dp_signature q)"
      "\<exists>x\<in>set (dd_challenges db). claims_challenge c org user (dv_id d) receivedAt x \<and> dc_challenge_hash x = digest cr (dp_challenge q)"
      "pv_status v = ''verified''" "pv_device v = Some (dv_id d)"
    then obtain x where "x \<in> set (dd_challenges db)" "claims_challenge c org user (dv_id d) receivedAt x" "dc_challenge_hash x = digest cr (dp_challenge p)"
      by blast
    then show ?thesis using q by (auto simp: claims_challenge_def intro!: bexI[of _ d] bexI[of _ x])
  qed
qed

subsection \<open>A worked example\<close>

definition ex_crypto :: device_crypto where
  "ex_crypto = \<lparr>key_der = (\<lambda>k. if take 1 k = ''K'' then Some k else None), digest = (\<lambda>s. CHR ''#'' # s),
     verify_sig = (\<lambda>m k s. s = k @ m)\<rparr>"

definition ex_json :: json_io where
  "ex_json = \<lparr>json_parse = (\<lambda>s. if s = ''{}'' then Some (JObj []) else None), json_leaf = (\<lambda>_. [])\<rparr>"

definition ex_proof :: device_proof where
  "ex_proof = \<lparr>dp_device_id = ''d'', dp_challenge = ''n'',
     dp_signature = ''K1'' @ join_with [CHR 0x0A] [''attenda-checkin-v2'', ''o'', ''u'', ''d'', ''n'', []] @ ''{}'', dp_signed_payload = ''{}''\<rparr>"

definition no_devices :: device_db where
  "no_devices = \<lparr>dd_devices = [], dd_challenges = []\<rparr>"

definition or_same :: "'a \<Rightarrow> 'a result \<Rightarrow> 'a" where
  "or_same x r = (case r of Inr y \<Rightarrow> y | Inl e \<Rightarrow> x)"

definition ex_pending :: device_db where
  "ex_pending = snd (or_same ([], no_devices) (enroll_start ex_crypto ''o'' ''u'' ''phone'' ''android'' ''K1'' ''d'' ''e'' 0 no_devices))"

definition ex_proven :: device_db where
  "ex_proven = or_same ex_pending (enroll_confirm ex_crypto ''o'' ''u'' ''d'' ''e'' ''K1e'' 1 ex_pending)"

definition ex_approved :: device_db where
  "ex_approved = or_same ex_pending (approve_device ''o'' ''admin'' ''d'' 2 ex_proven)"

definition ex_ready :: device_db where
  "ex_ready = snd (checkin_challenge ex_crypto ''o'' ''u'' ''d'' ''c'' ''n'' 3 ex_approved)"

lemma or_same_step: "Option.is_none (case r of Inl _ \<Rightarrow> None | Inr _ \<Rightarrow> Some ()) = False \<Longrightarrow> r = Inr (or_same x r)"
  by (cases r) (simp_all add: or_same_def)

lemma ex_ready_run: "device_run ex_crypto ex_json [] {''d'', ''c''} ex_ready"
proof -
  have "enroll_start ex_crypto ''o'' ''u'' ''phone'' ''android'' ''K1'' ''d'' ''e'' 0 no_devices =
      Inr (fst (or_same ([], no_devices) (enroll_start ex_crypto ''o'' ''u'' ''phone'' ''android'' ''K1'' ''d'' ''e'' 0 no_devices)), ex_pending)"
    unfolding ex_pending_def prod.collapse by (rule or_same_step) code_simp
  then have "device_run ex_crypto ex_json [] {''d''} ex_pending"
    unfolding no_devices_def by (rule device_run.enroll[OF device_run.start, rotated]) simp
  moreover have "enroll_confirm ex_crypto ''o'' ''u'' ''d'' ''e'' ''K1e'' 1 ex_pending = Inr ex_proven"
    unfolding ex_proven_def by (rule or_same_step) code_simp
  ultimately have "device_run ex_crypto ex_json [] {''d''} ex_proven" by (rule device_run.confirm)
  moreover have "approve_device ''o'' ''admin'' ''d'' 2 ex_proven = Inr ex_approved"
    unfolding ex_approved_def by (rule or_same_step) code_simp
  ultimately have a: "device_run ex_crypto ex_json [] {''d''} ex_approved" by (rule device_run.approve)
  have "checkin_challenge ex_crypto ''o'' ''u'' ''d'' ''c'' ''n'' 3 ex_approved =
     (fst (checkin_challenge ex_crypto ''o'' ''u'' ''d'' ''c'' ''n'' 3 ex_approved), ex_ready)"
    by (simp add: ex_ready_def)
  from device_run.issue[OF a _ this] have "device_run ex_crypto ex_json [] (insert ''c'' {''d''}) ex_ready" by simp
  then show ?thesis by (simp add: insert_commute)
qed

lemma ex_ready_verified: "pv_status (fst (verifyDeviceProof ex_crypto ex_json ''o'' ''u'' [] (Some ex_proof) 4 ex_ready)) = ''verified''"
  by code_simp

theorem device_challenge_once_witness:
  "device_run ex_crypto ex_json [] {''d'', ''c''} ex_ready \<and> map dv_status (dd_devices ex_ready) = [''approved''] \<and>
   list_all (\<lambda>d. dv_approved_by d \<noteq> None) (dd_devices ex_ready)"
proof -
  have a: "map dv_status (dd_devices ex_ready) = [''approved'']" by code_simp
  then have "\<forall>d\<in>set (dd_devices ex_ready). dv_status d = ''approved''" by auto
  then have "list_all (\<lambda>d. dv_approved_by d \<noteq> None) (dd_devices ex_ready)"
    using device_challenge_once[OF ex_ready_run] by (simp add: list_all_iff)
  with a ex_ready_run show ?thesis by blast
qed

theorem device_proof_sound_witness:
  "\<exists>v db'. verifyDeviceProof ex_crypto ex_json ''o'' ''u'' [] (Some ex_proof) 4 ex_ready = (v, db') \<and> pv_status v = ''verified'' \<and>
     (\<exists>d\<in>set (dd_devices ex_ready). pv_device v = Some (dv_id d))"
proof -
  obtain v db' where r: "verifyDeviceProof ex_crypto ex_json ''o'' ''u'' [] (Some ex_proof) 4 ex_ready = (v, db')" by (rule prod.exhaust)
  then have "pv_status v = ''verified''" using ex_ready_verified by simp
  then show ?thesis using device_proof_sound[OF r] r by blast
qed

text \<open>The limit of five devices is only applied to keys that are new to the user: a revoked device that
  is enrolled again becomes active whatever the count.\<close>

definition ex_device :: "string \<Rightarrow> string \<Rightarrow> att_device" where
  "ex_device k status = (new_device k ''o'' ''u'' ''phone'' ''android'' k (CHR ''#'' # k) [] 0)\<lparr>dv_status := status\<rparr>"

definition ex_five :: device_db where
  "ex_five = \<lparr>dd_devices = map (\<lambda>k. ex_device k ''approved'') [''K1'', ''K2'', ''K3'', ''K4'', ''K5''] @ [ex_device ''K6'' ''revoked''],
     dd_challenges = []\<rparr>"

lemma device_limit_bypassed:
  "active_devices ''u'' (dd_devices ex_five) = 5 \<and>
   active_devices ''u'' (dd_devices (snd (or_same ([], no_devices)
     (enroll_start ex_crypto ''o'' ''u'' ''phone'' ''android'' ''K6'' ''x'' ''e'' 0 ex_five)))) = 6"
  by code_simp

end
