(* ===== verification/Geofence.thy ===== *)
theory Geofence
  imports Devices
begin

text \<open>
  Location checks of a check-in: \<^verbatim>\<open>src/src/utils/attendanceSecurity.ts\<close>.  A policy is parsed from the
  JSON column of the organisation (legacy circle) or of the branch; the evidence of a check-in is
  measured against a circle (great-circle distance) or a polygon (even-odd rule and distance to the
  boundary, on a plane tangent at the position).  Distances are real numbers.
\<close>

subsection \<open>Policies\<close>

record geofence_vertex =
  gv_latitude :: real
  gv_longitude :: real

datatype geo_shape = Circle | Polygon
datatype geo_enforcement = Block | Warn

record geo_policy =
  gp_geofence_enabled :: bool
  gp_shape :: geo_shape
  gp_latitude :: "real option"
  gp_longitude :: "real option"
  gp_vertices :: "geofence_vertex list"
  gp_radius_m :: real
  gp_enforcement :: geo_enforcement
  gp_require_location :: bool
  gp_block_mock_location :: bool
  gp_max_accuracy_m :: real

text \<open>\<open>Number(v)\<close> of a JSON value; \<open>None\<close> is \<open>NaN\<close>.  An array or object is read as \<open>NaN\<close>: the
  arrays \<open>[]\<close> and \<open>[n]\<close>, which JavaScript coerces to a number, are outside the settings the editors
  write.  A missing key (\<open>undefined\<close>) is no entry of the object.\<close>

definition json_number :: "json \<Rightarrow> real option" where
  "json_number v =
     (case v of JNull \<Rightarrow> Some 0 | JBool b \<Rightarrow> Some (if b then 1 else 0) | JNum n \<Rightarrow> Some (of_rat n)
      | JStr s \<Rightarrow> map_option of_rat (js_number s) | JArr _ \<Rightarrow> None | JObj _ \<Rightarrow> None)"

definition json_num :: "json option \<Rightarrow> real option" where
  "json_num v = (case v of Some (JNum n) \<Rightarrow> Some (of_rat n) | _ \<Rightarrow> None)"

definition nullish :: "json option \<Rightarrow> bool" where
  "nullish v \<longleftrightarrow> v = None \<or> v = Some JNull"

definition in_range :: "real \<Rightarrow> real \<Rightarrow> real option \<Rightarrow> bool" where
  "in_range lo hi x = (case x of None \<Rightarrow> False | Some v \<Rightarrow> lo \<le> v \<and> v \<le> hi)"

definition validPoint :: "json \<Rightarrow> bool" where
  "validPoint v =
     (case v of JObj kvs \<Rightarrow> in_range (- 90) 90 (json_num (map_of kvs ''latitude'')) \<and>
                            in_range (- 180) 180 (json_num (map_of kvs ''longitude''))
      | _ \<Rightarrow> False)"

definition vertex_of :: "json \<Rightarrow> geofence_vertex" where
  "vertex_of v =
     (case v of JObj kvs \<Rightarrow> \<lparr>gv_latitude = coalesce (json_num (map_of kvs ''latitude'')) 0,
                             gv_longitude = coalesce (json_num (map_of kvs ''longitude'')) 0\<rparr>
      | _ \<Rightarrow> \<lparr>gv_latitude = 0, gv_longitude = 0\<rparr>)"

definition parsePolicy :: "json option \<Rightarrow> bool \<Rightarrow> geo_policy option" where
  "parsePolicy raw legacy =
     (case raw of Some (JObj kvs) \<Rightarrow>
        (case map_of kvs (if legacy then ''geofence_enabled'' else ''enabled'') of Some (JBool enabled) \<Rightarrow>
           (let get = map_of kvs;
                shape = (if get ''shape'' = Some (JStr ''polygon'') then Polygon else Circle);
                coord = (\<lambda>k. if nullish (get k) then None else json_number (the (get k)));
                latitude = coord ''latitude''; longitude = coord ''longitude'';
                radius = (if nullish (get ''radius_m'') then Some 150 else json_number (the (get ''radius_m'')));
                vertices = (case get ''vertices'' of Some (JArr vs) \<Rightarrow> vs | _ \<Rightarrow> []);
                maxAccuracy = (if nullish (get ''max_accuracy_m'') then Some 200 else json_number (the (get ''max_accuracy_m'')))
            in if \<not> in_range 25 5000 radius \<or> \<not> in_range 10 2000 maxAccuracy then None
               else if shape = Circle \<and> enabled \<and> \<not> (in_range (- 90) 90 latitude \<and> in_range (- 180) 180 longitude) then None
               else if shape = Polygon \<and> enabled \<and> (length vertices < 3 \<or> 100 < length vertices \<or> \<not> list_all validPoint vertices) then None
               else Some \<lparr>gp_geofence_enabled = enabled, gp_shape = shape, gp_latitude = latitude, gp_longitude = longitude,
                          gp_vertices = map vertex_of vertices, gp_radius_m = the radius,
                          gp_enforcement = (if get ''enforcement'' = Some (JStr ''block'') then Block else Warn),
                          gp_require_location = (get ''require_location'' = Some (JBool True)),
                          gp_block_mock_location = (get ''block_mock_location'' = Some (JBool True)),
                          gp_max_accuracy_m = the maxAccuracy\<rparr>)
         | _ \<Rightarrow> None)
      | _ \<Rightarrow> None)"

definition parseAttendanceSecurity :: "json option \<Rightarrow> geo_policy option" where
  "parseAttendanceSecurity raw = parsePolicy raw True"

definition parseLocationGeofence :: "json option \<Rightarrow> geo_policy option" where
  "parseLocationGeofence raw = parsePolicy raw False"

definition validateLocationGeofence :: "json \<Rightarrow> geo_policy option result" where
  "validateLocationGeofence raw =
     (if raw = JNull then Inr None
      else case parseLocationGeofence (Some raw) of None \<Rightarrow> Inl ValidationError | Some p \<Rightarrow> Inr (Some p))"

subsection \<open>Distances\<close>

definition radians :: "real \<Rightarrow> real" where
  "radians degrees = degrees * pi / 180"

definition earth_m :: real where
  "earth_m = 6371000"

text \<open>\<open>Math.atan2\<close> for the non-negative arguments the code passes.\<close>

definition atan2_pos :: "real \<Rightarrow> real \<Rightarrow> real" where
  "atan2_pos y x = (if x = 0 then (if y = 0 then 0 else pi / 2) else arctan (y / x))"

definition haversine :: "real \<Rightarrow> real \<Rightarrow> real \<Rightarrow> real \<Rightarrow> real" where
  "haversine lat1 lon1 lat2 lon2 =
     (sin (radians (lat2 - lat1) / 2))\<^sup>2 +
     cos (radians lat1) * cos (radians lat2) * (sin (radians (lon2 - lon1) / 2))\<^sup>2"

definition distanceMeters :: "real \<Rightarrow> real \<Rightarrow> real \<Rightarrow> real \<Rightarrow> real" where
  "distanceMeters lat1 lon1 lat2 lon2 =
     (let a = haversine lat1 lon1 lat2 lon2 in earth_m * 2 * atan2_pos (sqrt a) (sqrt (1 - a)))"

definition project :: "geofence_vertex \<Rightarrow> geofence_vertex \<Rightarrow> real \<times> real" where
  "project point v =
     ((gv_longitude v - gv_longitude point) * (pi / 180) * earth_m * cos (gv_latitude point * (pi / 180)),
      (gv_latitude v - gv_latitude point) * (pi / 180) * earth_m)"

text \<open>One edge, from vertex \<open>a\<close> to vertex \<open>b\<close>, seen from the origin: whether the ray to the right
  crosses it, and its distance.\<close>

definition edge_crosses :: "real \<times> real \<Rightarrow> real \<times> real \<Rightarrow> bool" where
  "edge_crosses a b \<longleftrightarrow> (snd a > 0) \<noteq> (snd b > 0) \<and>
     0 < (fst b - fst a) * (0 - snd a) / (snd b - snd a) + fst a"

definition edge_distance :: "real \<times> real \<Rightarrow> real \<times> real \<Rightarrow> real" where
  "edge_distance a b =
     (let dx = fst b - fst a; dy = snd b - snd a;
          lengthSquared = dx * dx + dy * dy;
          t = (if lengthSquared = 0 then 0 else max 0 (min 1 (((0 - fst a) * dx + (0 - snd a) * dy) / lengthSquared)))
      in sqrt ((0 - (fst a + t * dx))\<^sup>2 + (0 - (snd a + t * dy))\<^sup>2))"

fun edge_walk :: "geofence_vertex \<Rightarrow> geofence_vertex \<Rightarrow> geofence_vertex list \<Rightarrow> bool \<times> real option \<Rightarrow> bool \<times> real option" where
  "edge_walk point prev [] acc = acc"
| "edge_walk point prev (v # vs) (inside, minDistance) =
     (let a = project point prev; b = project point v; d = edge_distance a b
      in edge_walk point v vs
           (if edge_crosses a b then \<not> inside else inside,
            Some (case minDistance of None \<Rightarrow> d | Some m \<Rightarrow> min m d)))"

text \<open>\<open>None\<close> as a distance is \<open>Infinity\<close>, the result for no vertices.\<close>

definition polygonMetrics :: "geofence_vertex \<Rightarrow> geofence_vertex list \<Rightarrow> bool \<times> real option" where
  "polygonMetrics point vertices = (if vertices = [] then (False, None) else edge_walk point (last vertices) vertices (False, None))"

text \<open>Sine and cosine of real numbers do not compute; concrete examples evaluate around the two distances.\<close>

declare distanceMeters_def [code del]
declare polygonMetrics_def [code del]

subsection \<open>The decision\<close>

record location_evidence =
  le_latitude :: "real option"
  le_longitude :: "real option"
  le_accuracy_m :: "real option"
  le_is_mocked :: bool

record location_check =
  lc_status :: string
  lc_distance :: "real option"

definition evaluateCheckinLocation :: "geo_policy option \<Rightarrow> location_evidence \<Rightarrow> location_check option result" where
  "evaluateCheckinLocation policy e =
     (case policy of None \<Rightarrow> Inr None
      | Some p \<Rightarrow>
        if \<not> gp_geofence_enabled p then Inr None
        else case (le_latitude e, le_longitude e) of
          (Some lat, Some lon) \<Rightarrow>
            (let accuracy = (case le_accuracy_m e of None \<Rightarrow> 0 | Some a \<Rightarrow> max 0 a);
                 lowAccuracy = (gp_max_accuracy_m p < accuracy)
             in require (\<not> (le_is_mocked e \<and> gp_block_mock_location p)) (AppError 403 ''MOCK_LOCATION_BLOCKED'')
               (require (\<not> (gp_enforcement p = Block \<and> lowAccuracy)) (AppError 422 ''LOCATION_ACCURACY_LOW'')
                 (let (distance, clearlyInside, clearlyOutside) =
                    (case gp_shape p of
                       Polygon \<Rightarrow>
                         (case polygonMetrics \<lparr>gv_latitude = lat, gv_longitude = lon\<rparr> (gp_vertices p) of (inside, d) \<Rightarrow>
                            (let far = (case d of None \<Rightarrow> True | Some m \<Rightarrow> accuracy < m) in (d, inside \<and> far, \<not> inside \<and> far)))
                     | Circle \<Rightarrow>
                         (let d = distanceMeters lat lon (coalesce (gp_latitude p) 0) (coalesce (gp_longitude p) 0)
                          in (Some d, d + accuracy \<le> gp_radius_m p, gp_radius_m p < d - accuracy)))
                  in require (\<not> (clearlyOutside \<and> gp_enforcement p = Block)) (AppError 403 ''OUTSIDE_GEOFENCE'')
                       (Inr (Some \<lparr>lc_status = (if le_is_mocked e then ''mocked'' else if lowAccuracy then ''low_accuracy''
                            else if clearlyOutside then ''outside'' else if clearlyInside then ''inside'' else ''edge''),
                          lc_distance = map_option (\<lambda>d. of_int \<lfloor>d + 1 / 2\<rfloor>) distance\<rparr>)))))
        | _ \<Rightarrow> require (\<not> gp_require_location p) ValidationError (Inr (Some \<lparr>lc_status = ''missing'', lc_distance = None\<rparr>)))"

subsection \<open>The parser yields well-formed policies\<close>

definition policy_wf :: "geo_policy \<Rightarrow> bool" where
  "policy_wf p \<longleftrightarrow> 25 \<le> gp_radius_m p \<and> gp_radius_m p \<le> 5000 \<and> 10 \<le> gp_max_accuracy_m p \<and> gp_max_accuracy_m p \<le> 2000 \<and>
     (gp_geofence_enabled p \<longrightarrow> (case gp_shape p of
        Circle \<Rightarrow> in_range (- 90) 90 (gp_latitude p) \<and> in_range (- 180) 180 (gp_longitude p)
      | Polygon \<Rightarrow> 3 \<le> length (gp_vertices p) \<and> length (gp_vertices p) \<le> 100 \<and>
          (\<forall>v\<in>set (gp_vertices p). - 90 \<le> gv_latitude v \<and> gv_latitude v \<le> 90 \<and> - 180 \<le> gv_longitude v \<and> gv_longitude v \<le> 180)))"

lemma if_None_Some: "(if c then None else x) = Some y \<longleftrightarrow> \<not> c \<and> x = Some y"
  by simp

lemma in_range_the: "in_range lo hi x \<Longrightarrow> lo \<le> the x \<and> the x \<le> hi"
  by (auto simp: in_range_def split: option.splits)

lemma vertex_valid:
  "validPoint v \<Longrightarrow> - 90 \<le> gv_latitude (vertex_of v) \<and> gv_latitude (vertex_of v) \<le> 90 \<and>
     - 180 \<le> gv_longitude (vertex_of v) \<and> gv_longitude (vertex_of v) \<le> 180"
  by (auto simp: validPoint_def vertex_of_def in_range_def split: json.splits option.splits)

text \<open>C23: whatever JSON the column holds, a policy that is parsed from it has a radius of 25 to
  5000 metres, an accuracy limit of 10 to 2000 metres, and, when the fence is switched on, a centre
  with valid coordinates or 3 to 100 valid vertices.  So the non-null assertions of the evaluation
  hold, and what the editor accepts can be evaluated.\<close>

theorem parsed_policy_wf:
  assumes "parsePolicy raw legacy = Some p"
  shows "policy_wf p"
proof -
  obtain kvs enabled where raw: "raw = Some (JObj kvs)" "map_of kvs (if legacy then ''geofence_enabled'' else ''enabled'') = Some (JBool enabled)"
    using assms by (auto simp: parsePolicy_def split: option.splits json.splits)
  define get where "get = map_of kvs"
  define vertices where "vertices = (case get ''vertices'' of Some (JArr vs) \<Rightarrow> vs | _ \<Rightarrow> [])"
  define radius where "radius = (if nullish (get ''radius_m'') then Some 150 else json_number (the (get ''radius_m'')))"
  define acc where "acc = (if nullish (get ''max_accuracy_m'') then Some 200 else json_number (the (get ''max_accuracy_m'')))"
  note r = assms[unfolded parsePolicy_def raw option.case json.case Let_def if_None_Some,
      folded get_def, folded vertices_def radius_def acc_def]
  have range: "in_range 25 5000 radius" "in_range 10 2000 acc" and
    vs: "gp_shape p = Polygon \<longrightarrow> gp_geofence_enabled p \<longrightarrow> 3 \<le> length vertices \<and> length vertices \<le> 100 \<and> list_all validPoint vertices" and
    ctr: "gp_shape p = Circle \<longrightarrow> gp_geofence_enabled p \<longrightarrow> in_range (- 90) 90 (gp_latitude p) \<and> in_range (- 180) 180 (gp_longitude p)" and
    p: "gp_radius_m p = the radius" "gp_max_accuracy_m p = the acc" "gp_vertices p = map vertex_of vertices"
    using r by (auto simp: not_less not_le)
  show ?thesis
    unfolding policy_wf_def p using in_range_the[OF range(1)] in_range_the[OF range(2)] vs ctr vertex_valid p(3)
    by (auto simp: list_all_iff split: geo_shape.split)
qed

definition ex_fence :: json where
  "ex_fence = JObj [(''enabled'', JBool True), (''latitude'', JNum 50), (''longitude'', JNum 8), (''enforcement'', JStr ''block'')]"

definition ex_policy :: geo_policy where
  "ex_policy = \<lparr>gp_geofence_enabled = True, gp_shape = Circle, gp_latitude = Some 50, gp_longitude = Some 8, gp_vertices = [],
     gp_radius_m = 150, gp_enforcement = Block, gp_require_location = False, gp_block_mock_location = False, gp_max_accuracy_m = 200\<rparr>"

lemma ex_fence_parsed: "parseLocationGeofence (Some ex_fence) = Some ex_policy"
  by (simp add: parseLocationGeofence_def parsePolicy_def ex_fence_def ex_policy_def nullish_def json_number_def in_range_def Let_def)

theorem parsed_policy_wf_witness: "parsePolicy (Some ex_fence) False = Some ex_policy \<and> policy_wf ex_policy"
  using parsed_policy_wf[of "Some ex_fence" False ex_policy] ex_fence_parsed by (simp add: parseLocationGeofence_def)

subsection \<open>The distance is the great-circle distance\<close>

definition sphere_dot :: "real \<Rightarrow> real \<Rightarrow> real \<Rightarrow> real \<Rightarrow> real" where
  "sphere_dot lat1 lon1 lat2 lon2 =
     sin (radians lat1) * sin (radians lat2) + cos (radians lat1) * cos (radians lat2) * cos (radians lon2 - radians lon1)"

lemma sin_half_sq: "(sin (x / 2))\<^sup>2 = (1 - cos x) / 2" for x :: real
  using cos_double_sin[of "x / 2"] by simp

lemma radians_diff: "radians (a - b) = radians a - radians b"
  by (simp add: radians_def field_simps)

lemma haversine_dot: "haversine lat1 lon1 lat2 lon2 = (1 - sphere_dot lat1 lon1 lat2 lon2) / 2"
  unfolding haversine_def sphere_dot_def radians_diff sin_half_sq cos_diff[of "radians lat2" "radians lat1"]
  by (simp add: field_simps)

lemma dot_le_1: "\<bar>sphere_dot lat1 lon1 lat2 lon2\<bar> \<le> 1"
proof -
  define a b c d where v: "a = sin (radians lat1)" "b = sin (radians lat2)" "c = cos (radians lat1)" "d = cos (radians lat2)"
  let ?k = "cos (radians lon2 - radians lon1)"
  have "\<bar>c * d * ?k\<bar> \<le> \<bar>c * d\<bar>" by (simp add: abs_mult mult_left_le)
  then have "\<bar>a * b + c * d * ?k\<bar> \<le> \<bar>a * b\<bar> + \<bar>c * d\<bar>" by linarith
  also have "\<bar>a * b\<bar> \<le> (a\<^sup>2 + b\<^sup>2) / 2" using sum_squares_bound[of "\<bar>a\<bar>" "\<bar>b\<bar>"] by (simp add: abs_mult)
  also have "\<bar>c * d\<bar> \<le> (c\<^sup>2 + d\<^sup>2) / 2" using sum_squares_bound[of "\<bar>c\<bar>" "\<bar>d\<bar>"] by (simp add: abs_mult)
  also have "(a\<^sup>2 + b\<^sup>2) / 2 + (c\<^sup>2 + d\<^sup>2) / 2 = 1"
    unfolding v sin_squared_eq by argo
  finally show ?thesis by (simp add: sphere_dot_def v)
qed

lemma atan2_half:
  assumes "0 \<le> t" "t \<le> pi"
  shows "atan2_pos (sqrt ((1 - cos t) / 2)) (sqrt (1 - (1 - cos t) / 2)) = t / 2"
proof -
  have s: "sqrt ((1 - cos t) / 2) = sin (t / 2)"
    unfolding sin_half_sq[symmetric] using assms by (intro real_sqrt_abs[THEN trans] abs_of_nonneg sin_ge_zero) auto
  have "1 - (1 - cos t) / 2 = (cos (t / 2))\<^sup>2" using cos_double_cos[of "t / 2"] by (simp add: field_simps)
  moreover have "0 \<le> cos (t / 2)" using assms by (intro cos_ge_zero) auto
  ultimately have c: "sqrt (1 - (1 - cos t) / 2) = cos (t / 2)" by simp
  show ?thesis
  proof (cases "t = pi")
    case True
    then show ?thesis unfolding s c by (simp add: atan2_pos_def)
  next
    case False
    then have "0 < cos (t / 2)" using assms by (intro cos_gt_zero_pi) auto
    moreover have "arctan (tan (t / 2)) = t / 2" using assms False by (intro arctan_tan) auto
    ultimately show ?thesis unfolding s c by (simp add: atan2_pos_def tan_def)
  qed
qed

lemma distance_arccos: "distanceMeters lat1 lon1 lat2 lon2 = earth_m * arccos (sphere_dot lat1 lon1 lat2 lon2)"
proof -
  let ?c = "sphere_dot lat1 lon1 lat2 lon2"
  have "- 1 \<le> ?c" "?c \<le> 1" using dot_le_1[of lat1 lon1 lat2 lon2] by (simp_all add: abs_le_iff)
  then show ?thesis
    using atan2_half[of "arccos ?c"] arccos_lbound[of ?c] arccos_ubound[of ?c]
    by (simp add: distanceMeters_def haversine_dot Let_def)
qed

lemma dot_sym: "sphere_dot lat1 lon1 lat2 lon2 = sphere_dot lat2 lon2 lat1 lon1"
  using cos_minus[of "radians lon2 - radians lon1"] by (simp add: sphere_dot_def mult.commute)

text \<open>The haversine formula of the source computes the great-circle distance, that is
  the radius of the earth times the angle between the two positions; so it is symmetric and lies
  between 0 and half the circumference.\<close>

theorem distance_great_circle:
  "distanceMeters lat1 lon1 lat2 lon2 = earth_m * arccos (sphere_dot lat1 lon1 lat2 lon2) \<and>
   distanceMeters lat1 lon1 lat2 lon2 = distanceMeters lat2 lon2 lat1 lon1 \<and>
   0 \<le> distanceMeters lat1 lon1 lat2 lon2 \<and> distanceMeters lat1 lon1 lat2 lon2 \<le> earth_m * pi"
  using distance_arccos[of lat1 lon1 lat2 lon2] distance_arccos[of lat2 lon2 lat1 lon1] dot_sym[of lat1 lon1 lat2 lon2]
    arccos_lbound[of "sphere_dot lat1 lon1 lat2 lon2"] arccos_ubound[of "sphere_dot lat1 lon1 lat2 lon2"]
    dot_le_1[of lat1 lon1 lat2 lon2]
  by (simp add: earth_m_def abs_le_iff)

subsection \<open>Inside means inside\<close>

text \<open>The angle between directions satisfies the triangle inequality: the Gram determinant of three
  vectors of space is a square.\<close>

lemma gram_nonneg:
  fixes x1 :: real
  assumes "x1\<^sup>2 + y1\<^sup>2 + z1\<^sup>2 = 1" "x2\<^sup>2 + y2\<^sup>2 + z2\<^sup>2 = 1" "x3\<^sup>2 + y3\<^sup>2 + z3\<^sup>2 = 1"
    and "a = x1 * x2 + y1 * y2 + z1 * z2" "b = x2 * x3 + y2 * y3 + z2 * z3" "c = x1 * x3 + y1 * y3 + z1 * z3"
  shows "(c - a * b)\<^sup>2 \<le> (1 - a\<^sup>2) * (1 - b\<^sup>2)"
proof -
  let ?u = "x1\<^sup>2 + y1\<^sup>2 + z1\<^sup>2" and ?v = "x2\<^sup>2 + y2\<^sup>2 + z2\<^sup>2" and ?w = "x3\<^sup>2 + y3\<^sup>2 + z3\<^sup>2"
  have "?u * ?v * ?w + 2 * a * b * c - ?u * b\<^sup>2 - ?v * c\<^sup>2 - ?w * a\<^sup>2 =
    (x1 * (y2 * z3 - z2 * y3) - y1 * (x2 * z3 - z2 * x3) + z1 * (x2 * y3 - y2 * x3))\<^sup>2"
    unfolding assms(4-6) by algebra
  then have "0 \<le> 1 + 2 * a * b * c - b\<^sup>2 - c\<^sup>2 - a\<^sup>2" unfolding assms(1-3) by simp
  moreover have "(1 - a\<^sup>2) * (1 - b\<^sup>2) - (c - a * b)\<^sup>2 = 1 + 2 * a * b * c - b\<^sup>2 - c\<^sup>2 - a\<^sup>2" by algebra
  ultimately show ?thesis by linarith
qed

lemma dot_cartesian:
  "sphere_dot lat1 lon1 lat2 lon2 =
     (cos (radians lat1) * cos (radians lon1)) * (cos (radians lat2) * cos (radians lon2)) +
     (cos (radians lat1) * sin (radians lon1)) * (cos (radians lat2) * sin (radians lon2)) +
     sin (radians lat1) * sin (radians lat2)"
  unfolding sphere_dot_def cos_diff by algebra

lemma unit_cartesian:
  "(cos (radians lat) * cos (radians lon))\<^sup>2 + (cos (radians lat) * sin (radians lon))\<^sup>2 + (sin (radians lat))\<^sup>2 = 1"
proof -
  have "(cos (radians lat) * cos (radians lon))\<^sup>2 + (cos (radians lat) * sin (radians lon))\<^sup>2 =
      (cos (radians lat))\<^sup>2 * ((cos (radians lon))\<^sup>2 + (sin (radians lon))\<^sup>2)"
    by (simp add: power_mult_distrib distrib_left del: sin_cos_squared_add sin_cos_squared_add2)
  then show ?thesis by simp
qed

lemma dot_gram:
  "(sphere_dot lat1 lon1 lat3 lon3 - sphere_dot lat1 lon1 lat2 lon2 * sphere_dot lat2 lon2 lat3 lon3)\<^sup>2 \<le>
   (1 - (sphere_dot lat1 lon1 lat2 lon2)\<^sup>2) * (1 - (sphere_dot lat2 lon2 lat3 lon3)\<^sup>2)"
  by (rule gram_nonneg[OF unit_cartesian[of lat1 lon1] unit_cartesian[of lat2 lon2] unit_cartesian[of lat3 lon3]
        dot_cartesian dot_cartesian dot_cartesian])

lemma arccos_triangle:
  fixes a b c :: real
  assumes "\<bar>a\<bar> \<le> 1" "\<bar>b\<bar> \<le> 1" "\<bar>c\<bar> \<le> 1" "(c - a * b)\<^sup>2 \<le> (1 - a\<^sup>2) * (1 - b\<^sup>2)"
  shows "arccos c \<le> arccos a + arccos b"
proof (cases "arccos a + arccos b \<le> pi")
  case True
  have bounds: "- 1 \<le> a" "a \<le> 1" "- 1 \<le> b" "b \<le> 1" "- 1 \<le> c" "c \<le> 1" using assms by (auto simp: abs_le_iff)
  have sins: "sin (arccos a) = sqrt (1 - a\<^sup>2)" "sin (arccos b) = sqrt (1 - b\<^sup>2)" using bounds by (simp_all add: sin_arccos)
  have "a * b - c \<le> sqrt ((1 - a\<^sup>2) * (1 - b\<^sup>2))"
    using assms(4) by (intro real_le_rsqrt) (simp add: power2_commute)
  then have "cos (arccos a + arccos b) \<le> c"
    using bounds by (simp add: cos_add sins real_sqrt_mult)
  then have "cos (arccos a + arccos b) \<le> cos (arccos c)" using bounds by simp
  then show ?thesis
    using True bounds arccos_lbound[of a] arccos_lbound[of b] arccos_lbound[of c] arccos_ubound[of c]
    by (subst (asm) cos_mono_le_eq) auto
next
  case False
  then show ?thesis using arccos_ubound[of c] assms(3) by (simp add: abs_le_iff)
qed

lemma distance_triangle:
  "distanceMeters lat1 lon1 lat3 lon3 \<le> distanceMeters lat1 lon1 lat2 lon2 + distanceMeters lat2 lon2 lat3 lon3"
  using arccos_triangle[OF dot_le_1[of lat1 lon1 lat2 lon2] dot_le_1[of lat2 lon2 lat3 lon3] dot_le_1[of lat1 lon1 lat3 lon3] dot_gram]
  by (simp add: distance_arccos earth_m_def)

lemma distance_sym: "distanceMeters lat1 lon1 lat2 lon2 = distanceMeters lat2 lon2 lat1 lon1"
  by (simp add: distance_arccos dot_sym[of lat1])

text \<open>The distance of a reading to the centre of a circular fence.\<close>

definition fence_distance :: "geo_policy \<Rightarrow> real \<Rightarrow> real \<Rightarrow> real" where
  "fence_distance p lat lon = distanceMeters lat lon (coalesce (gp_latitude p) 0) (coalesce (gp_longitude p) 0)"

definition stated_accuracy :: "location_evidence \<Rightarrow> real" where
  "stated_accuracy e = (case le_accuracy_m e of None \<Rightarrow> 0 | Some a \<Rightarrow> max 0 a)"

lemma circle_status:
  assumes "evaluateCheckinLocation (Some p) e = Inr (Some c)" "gp_geofence_enabled p" "gp_shape p = Circle"
    "le_latitude e = Some lat" "le_longitude e = Some lon"
  shows "(lc_status c = ''inside'' \<longrightarrow> fence_distance p lat lon + stated_accuracy e \<le> gp_radius_m p \<and> stated_accuracy e \<le> gp_max_accuracy_m p \<and> \<not> le_is_mocked e) \<and>
    (lc_status c = ''outside'' \<longrightarrow> gp_radius_m p < fence_distance p lat lon - stated_accuracy e \<and> gp_enforcement p = Warn)"
  using assms by (auto simp: evaluateCheckinLocation_def Let_def fence_distance_def stated_accuracy_def split: if_splits)
    (use geo_enforcement.exhaust in blast)

text \<open>C24: when a check-in is reported inside a circular fence, every position within the
  accuracy that the device claims lies in the circle, and the position was neither mocked nor less
  accurate than the policy allows; when it is reported outside, no such position lies in the circle,
  and then the policy only warns.\<close>

theorem circle_classification_sound:
  assumes "evaluateCheckinLocation (Some p) e = Inr (Some c)" "gp_geofence_enabled p" "gp_shape p = Circle"
    "le_latitude e = Some lat" "le_longitude e = Some lon"
    and near: "distanceMeters lat' lon' lat lon \<le> stated_accuracy e"
  shows "(lc_status c = ''inside'' \<longrightarrow> fence_distance p lat' lon' \<le> gp_radius_m p \<and> stated_accuracy e \<le> gp_max_accuracy_m p \<and> \<not> le_is_mocked e) \<and>
    (lc_status c = ''outside'' \<longrightarrow> gp_radius_m p < fence_distance p lat' lon' \<and> gp_enforcement p = Warn)"
proof -
  let ?clat = "coalesce (gp_latitude p) 0" and ?clon = "coalesce (gp_longitude p) 0"
  have "fence_distance p lat' lon' \<le> stated_accuracy e + fence_distance p lat lon"
    using distance_triangle[of lat' lon' ?clat ?clon lat lon] near by (simp add: fence_distance_def)
  moreover have "fence_distance p lat lon \<le> stated_accuracy e + fence_distance p lat' lon'"
    using distance_triangle[of lat lon ?clat ?clon lat' lon'] near by (simp add: fence_distance_def distance_sym[of lat])
  ultimately show ?thesis using circle_status[OF assms(1-5)] by auto
qed

theorem circle_classification_sound_witness:
  "\<exists>c. evaluateCheckinLocation (Some ex_policy) \<lparr>le_latitude = Some 50, le_longitude = Some 8, le_accuracy_m = Some 20, le_is_mocked = False\<rparr> = Inr (Some c) \<and>
     lc_status c = ''inside'' \<and> fence_distance ex_policy 50 8 \<le> gp_radius_m ex_policy"
proof -
  let ?e = "\<lparr>le_latitude = Some 50, le_longitude = Some 8, le_accuracy_m = Some 20, le_is_mocked = False\<rparr>"
  have d: "distanceMeters 50 8 50 8 = 0" by (simp add: distanceMeters_def haversine_def radians_def atan2_pos_def)
  then have r: "evaluateCheckinLocation (Some ex_policy) ?e = Inr (Some \<lparr>lc_status = ''inside'', lc_distance = Some 0\<rparr>)"
    by (simp add: evaluateCheckinLocation_def ex_policy_def Let_def)
  have "fence_distance ex_policy 50 8 \<le> gp_radius_m ex_policy"
    using circle_classification_sound[OF r, of 50 8 50 8] d by (simp add: ex_policy_def stated_accuracy_def)
  with r show ?thesis by force
qed

end
