(* ===== verification/AttendanceBase.thy ===== *)
theory AttendanceBase
  imports Breaks Network Geofence QrCode
begin

text \<open>
  The data of the attendance routes (\<^verbatim>\<open>src/src/routes/attendance.ts\<close>) and the helpers at the top of that
  file: the rows an attendance day is made of, the time context of an employee, the shift that applies
  on a day, the scheduled window adjusted for partial leave, and the break that stands for an absence
  between an automatic checkout and the return.

  Columns that only echo the request (coordinates, clock readings) are grouped in small records.  Rows
  that other parts of the system own (leave, shifts, assignments, locations) appear with the columns
  these routes read.
\<close>

subsection \<open>Rows\<close>

record att_shift =
  as_id :: id
  as_org_id :: id
  as_core :: shift_like
  as_overtime_enabled :: bool
  as_overtime_requires_approval :: bool
  as_is_org_wide :: bool
  as_is_default :: bool
  as_is_published :: bool
  as_active_days :: "int list"
  as_breaks :: "shift_break list"

record att_trust =
  ct_request_hash :: "string option"
  ct_source :: "string option"
  ct_requires_review :: bool
  ct_review_reason :: "string option"
  ct_device_id :: "id option"
  ct_device_proof_status :: "string option"
  ct_device_signature_verified :: bool

record att_clock =
  ck_device_uptime_ms :: "int option"
  ck_server_anchor_uptime_ms :: "int option"
  ck_server_anchor_at :: "instant option"
  ck_clock_epoch :: "string option"

record att_geo =
  ag_latitude :: "real option"
  ag_longitude :: "real option"
  ag_accuracy_m :: "real option"
  ag_mock_detected :: bool
  ag_status :: "string option"
  ag_distance_m :: "real option"

record att_review =
  rv_at :: "instant option"
  rv_by :: "id option"
  rv_decision :: "string option"
  rv_note :: "string option"

record att_row =
  ar_id :: id
  ar_user_id :: id
  ar_org_id :: id
  ar_location_id :: "id option"
  ar_date :: day
  ar_check_in_at :: "instant option"
  ar_check_out_at :: "instant option"
  ar_check_in_type :: string
  ar_status :: string
  ar_shift_id :: "id option"
  ar_scheduled_start :: "instant option"
  ar_scheduled_end :: "instant option"
  ar_late_minutes :: int
  ar_early_checkin_minutes :: int
  ar_early_out_minutes :: rat
  ar_hours_worked :: "rat option"
  ar_net_hours_worked :: "rat option"
  ar_overtime_hours :: rat
  ar_extra_office_minutes :: int
  ar_break_minutes :: int
  ar_paid_break_minutes :: int
  ar_adherence_score :: "int option"
  ar_auto_checked_out :: bool
  ar_last_heartbeat_at :: "instant option"
  ar_last_heartbeat_ssid :: "string option"
  ar_ip_checkout_pending_at :: "instant option"
  ar_trust :: att_trust
  ar_clock :: att_clock
  ar_geo :: att_geo
  ar_review :: att_review
  ar_checkin_key :: "string option"
  ar_client_checkin_at :: "instant option"
  ar_checkin_received_at :: "instant option"
  ar_offline_reconciled :: bool
  ar_checkout_key :: "string option"
  ar_checkout_hash :: "string option"
  ar_ip_detected :: "string option"
  ar_late_notice_id :: "id option"
  ar_is_on_approved_leave :: bool
  ar_is_overridden :: bool
  ar_override_by :: "id option"
  ar_override_reason :: "string option"

record att_timer =
  tm_id :: id
  tm_org_id :: id
  tm_user_id :: id
  tm_started_at :: instant
  tm_ended_at :: "instant option"
  tm_status :: string
  tm_minutes :: "int option"
  tm_attendance_id :: "id option"

record att_notice =
  nt_id :: id
  nt_user_id :: id
  nt_org_id :: id
  nt_date :: day
  nt_expected_time :: string
  nt_reason :: string
  nt_status :: string
  nt_acknowledged_by :: "id option"
  nt_acknowledged_at :: "instant option"

record att_alert =
  alr_id :: id
  alr_org_id :: id
  alr_action_id :: id
  alr_type :: string
  alr_title :: string
  alr_created_at :: instant
  alr_resolved_at :: "instant option"

record att_remote =
  rs_attendance_id :: id
  rs_user_id :: id
  rs_status :: string
  rs_duration_type :: string

record att_leave =
  al_user_id :: id
  al_status :: string
  al_start_date :: day
  al_end_date :: day
  al_is_half_day :: bool
  al_half_day_period :: "string option"
  al_leave_start_time :: "string option"
  al_leave_end_time :: "string option"

record att_location =
  loc_id :: id
  loc_org_id :: id
  loc_timezone :: "string option"
  loc_office_ips :: "string list"
  loc_office_ssids :: "string list"
  loc_geofence :: "json option"
  loc_is_main :: bool
  loc_is_active :: bool

record att_user =
  us_id :: id
  us_org_id :: id
  us_primary_location :: "att_location option"
  us_manager_id :: "id option"

record att_org =
  og_id :: id
  og_timezone :: "string option"
  og_late_threshold :: "int option"
  og_gap_forgiveness_mins :: "int option"
  og_attendance_security :: "json option"
  og_wifi_auto_checkin :: bool
  og_wifi_auto_checkout :: bool
  og_heartbeat_grace_mins :: "int option"

record att_db =
  at_orgs :: "att_org list"
  at_users :: "att_user list"
  at_locations :: "att_location list"
  at_shifts :: "att_shift list"
  at_assignments :: "(id \<times> day \<times> id) list"
  at_leaves :: "att_leave list"
  at_rows :: "att_row list"
  at_breaks :: "break_row list"
  at_timers :: "att_timer list"
  at_notices :: "att_notice list"
  at_remote :: "att_remote list"
  at_alerts :: "att_alert list"
  at_devices :: device_db
  at_log :: "effect list"

text \<open>The services the routes call that are not part of the repository.  \<open>ae_stringify\<close> is
  \<open>JSON.stringify\<close> and \<open>ae_qr_hmac\<close> the signature of the QR codes.\<close>

record att_env =
  ae_tz :: tzdb
  ae_clock :: clock_crypto
  ae_device :: device_crypto
  ae_json :: json_io
  ae_stringify :: "json \<Rightarrow> string"
  ae_qr_hmac :: "string \<Rightarrow> string"

subsection \<open>Lookups\<close>

definition shift_by_id :: "att_db \<Rightarrow> id option \<Rightarrow> att_shift option" where
  "shift_by_id db i = Option.bind i (\<lambda>i. find_first (\<lambda>s. as_id s = i) (at_shifts db))"

definition all_templates :: "att_db \<Rightarrow> shift_break list" where
  "all_templates db = concat (map as_breaks (at_shifts db))"

definition breaks_of :: "att_db \<Rightarrow> id \<Rightarrow> break_row list" where
  "breaks_of db i = filter (\<lambda>b. br_attendance_id b = i) (at_breaks db)"

definition row_of_day :: "att_db \<Rightarrow> id \<Rightarrow> day \<Rightarrow> att_row option" where
  "row_of_day db userId date = find_first (\<lambda>r. ar_user_id r = userId \<and> ar_date r = date) (at_rows db)"

text \<open>The latest open record that was checked in by the time of an offline event.\<close>

definition open_row_at :: "att_db \<Rightarrow> id \<Rightarrow> id \<Rightarrow> instant \<Rightarrow> att_row option" where
  "open_row_at db orgId userId t =
     find_desc (\<lambda>r. coalesce (ar_check_in_at r) 0)
       (\<lambda>r. ar_org_id r = orgId \<and> ar_user_id r = userId \<and> ar_check_out_at r = None \<and>
            (case ar_check_in_at r of None \<Rightarrow> False | Some c \<Rightarrow> c \<le> t)) (at_rows db)"

definition approved_leave :: "att_db \<Rightarrow> id \<Rightarrow> day \<Rightarrow> att_leave option" where
  "approved_leave db userId date =
     find_first (\<lambda>l. al_user_id l = userId \<and> al_status l = ''approved'' \<and> al_start_date l \<le> date \<and> date \<le> al_end_date l) (at_leaves db)"

definition update_row :: "id \<Rightarrow> (att_row \<Rightarrow> att_row) \<Rightarrow> att_db \<Rightarrow> att_db" where
  "update_row i f db = db\<lparr>at_rows := update_where (\<lambda>r. ar_id r = i) f (at_rows db)\<rparr>"

definition row_view :: "att_db \<Rightarrow> att_row \<Rightarrow> break_attendance" where
  "row_view db r =
     \<lparr>ba_id = ar_id r, ba_date = ar_date r, ba_check_in_at = ar_check_in_at r, ba_scheduled_start = ar_scheduled_start r,
      ba_scheduled_end = ar_scheduled_end r, ba_shift_breaks = map_option as_breaks (shift_by_id db (ar_shift_id r)),
      ba_break_minutes = ar_break_minutes r, ba_paid_break_minutes = ar_paid_break_minutes r\<rparr>"

definition log_effect :: "effect \<Rightarrow> att_db \<Rightarrow> att_db" where
  "log_effect e db = db\<lparr>at_log := e # at_log db\<rparr>"

definition manager_of :: "att_db \<Rightarrow> id \<Rightarrow> id option" where
  "manager_of db userId = Option.bind (find_first (\<lambda>u. us_id u = userId) (at_users db)) us_manager_id"

definition notify_manager :: "id \<Rightarrow> string \<Rightarrow> id \<Rightarrow> att_db \<Rightarrow> att_db" where
  "notify_manager userId kind action db = (case manager_of db userId of None \<Rightarrow> db | Some m \<Rightarrow> log_effect (Notify m kind action) db)"

definition notifyOfflineAttendanceReview :: "id \<Rightarrow> id \<Rightarrow> att_db \<Rightarrow> att_db" where
  "notifyOfflineAttendanceReview userId recordId db = notify_manager userId ''attendance_checkin_review'' recordId db"

subsection \<open>Time context, shift and window\<close>

text \<open>An arrival resolves the no-show alerts of its work date.  Of their texts only the titles the code
  compares are kept; the middle dot is a single character.\<close>

definition resolved_mark :: string where
  "resolved_mark = ''Resolved '' @ [CHR 0xB7] @ '' ''"

definition is_no_show :: "att_alert \<Rightarrow> bool" where
  "is_no_show a \<longleftrightarrow>
     alr_title a \<in> {''Employee late'', ''Employee late (past expected time)'', ''1-hour late escalation'', ''Employee absent''}"

definition resolvePriorNoShowAlerts :: "tzdb \<Rightarrow> id \<Rightarrow> id \<Rightarrow> id \<Rightarrow> day \<Rightarrow> string \<Rightarrow> instant \<Rightarrow> att_db \<Rightarrow> att_db" where
  "resolvePriorNoShowAlerts tz user org recordId date z now db =
     (let start = fromZonedTime tz (date * day_ms) z; end = fromZonedTime tz ((date + 1) * day_ms) z;
          alerts = take 100 (filter (\<lambda>a. alr_org_id a = org \<and> alr_action_id a = user \<and>
            alr_type a \<in> {''attendance_late'', ''attendance_late_escalation'', ''attendance_absent''} \<and>
            start \<le> alr_created_at a \<and> alr_created_at a < end) (at_alerts db));
          ids = map alr_id (filter (\<lambda>a. take (length resolved_mark) (alr_title a) \<noteq> resolved_mark) (filter is_no_show alerts));
          db1 = db\<lparr>at_alerts := update_where (\<lambda>a. alr_id a \<in> set ids)
            (\<lambda>a. a\<lparr>alr_title := resolved_mark @ alr_title a, alr_resolved_at := Some now\<rparr>) (at_alerts db)\<rparr>
      in if ids = [] then db1 else log_effect (Audit ''attendance.no_show_alerts.resolved'' recordId) db1)"

record time_context =
  tc_org :: "att_org option"
  tc_location :: "att_location option"
  tc_timezone :: string
  tc_today :: day

definition orgTimeContext :: "tzdb \<Rightarrow> id \<Rightarrow> id option \<Rightarrow> instant \<Rightarrow> att_db \<Rightarrow> time_context" where
  "orgTimeContext tz orgId userId now db =
     (let org = find_first (\<lambda>o'. og_id o' = orgId) (at_orgs db);
          employee = Option.bind userId (\<lambda>u. find_first (\<lambda>x. us_id x = u \<and> us_org_id x = orgId) (at_users db));
          primary = Option.bind employee us_primary_location;
          mainLocation = (if primary = None
            then find_first (\<lambda>l. loc_org_id l = orgId \<and> loc_is_main l \<and> loc_is_active l) (at_locations db) else None);
          location = coalesce_opt primary mainLocation;
          timezone = coalesce (coalesce_opt (Option.bind location loc_timezone) (Option.bind org og_timezone)) ''UTC''
      in \<lparr>tc_org = org, tc_location = location, tc_timezone = timezone, tc_today = dateOnlyInTz tz now (Some timezone)\<rparr>)"

text \<open>The shape \<open>YYYY-MM-DD\<close> and a date \<open>new Date\<close> understands: it takes any day up to 31 and lets the
  overflow run into the next month.\<close>

definition parseDateOnly :: "string \<Rightarrow> day result" where
  "parseDateOnly value =
     (case value of [y1, y2, y3, y4, h1, m1, m2, h2, d1, d2] \<Rightarrow>
        require (list_all is_digit [y1, y2, y3, y4, m1, m2, d1, d2] \<and> h1 = CHR ''-'' \<and> h2 = CHR ''-'') ValidationError
         (let m = int (dec_value [m1, m2]); d = int (dec_value [d1, d2])
          in require (1 \<le> m \<and> m \<le> 12 \<and> 1 \<le> d \<and> d \<le> 31) ValidationError (Inr (civil_day (int (dec_value [y1, y2, y3, y4])) m d)))
      | _ \<Rightarrow> Inl ValidationError)"

definition dayMatchesBreak :: "shift_break \<Rightarrow> day \<Rightarrow> bool" where
  "dayMatchesBreak b date \<longleftrightarrow>
     (sb_applies_days b = [] \<or> weekdayOf date \<in> set (sb_applies_days b)) \<and>
     (sb_exception_dates b = [] \<or> date \<in> set (sb_exception_dates b))"

definition effectiveShiftForUser :: "id \<Rightarrow> id \<Rightarrow> day \<Rightarrow> att_db \<Rightarrow> att_shift option" where
  "effectiveShiftForUser userId orgId date db =
     (let assigned = Option.bind (find_first (\<lambda>(u, d, s). u = userId \<and> d = date) (at_assignments db))
            (\<lambda>(u, d, s). shift_by_id db (Some s));
          published = (\<lambda>p. find_first (\<lambda>s. as_org_id s = orgId \<and> p s \<and> weekdayOf date \<in> set (as_active_days s) \<and> as_is_published s) (at_shifts db))
      in coalesce_opt assigned (coalesce_opt (published as_is_org_wide) (published as_is_default)))"

text \<open>A wall-clock minute of the local day of \<open>base\<close>; minutes from 1440 on fall on the next day.\<close>

definition minutesToDateOnShiftDay :: "tzdb \<Rightarrow> rat \<Rightarrow> instant \<Rightarrow> string \<Rightarrow> instant" where
  "minutesToDateOnShiftDay tz minutes base z =
     (let h = \<lfloor>minutes / 60\<rfloor> mod 24; m = minutes - 60 * of_int \<lfloor>minutes / 60\<rfloor>;
          t = fromZonedTime tz (dateOnlyInTz tz base (Some z) * day_ms + h * 3600000 + \<lfloor>m * 60000\<rfloor>) (zone (Some z))
      in if 1440 \<le> minutes then t + 24 * 60 * 60 * 1000 else t)"

definition rat_mod :: "rat \<Rightarrow> rat \<Rightarrow> rat" where
  "rat_mod x m = x - m * of_int \<lfloor>x / m\<rfloor>"

definition present :: "string option \<Rightarrow> bool" where
  "present s \<longleftrightarrow> (case s of None \<Rightarrow> False | Some t \<Rightarrow> t \<noteq> [])"

definition adjustedWindowForLeave :: "tzdb \<Rightarrow> shift_like \<Rightarrow> string \<Rightarrow> instant \<Rightarrow> att_leave option \<Rightarrow> instant \<times> instant" where
  "adjustedWindowForLeave tz shift z t leave =
     (let win = scheduledWindow tz shift (Some z) t in
      case leave of None \<Rightarrow> win
      | Some l \<Rightarrow>
          if \<not> al_is_half_day l \<and> \<not> present (al_leave_start_time l) then win
          else (let startMins = hhmmToMins (start_time shift); endMinsRaw = hhmmToMins (end_time shift);
                    endMins = (if endMinsRaw \<le> startMins then endMinsRaw + 1440 else endMinsRaw);
                    midpoint = startMins + of_int (js_round ((endMins - startMins) / 2));
                    mid = minutesToDateOnShiftDay tz (rat_mod midpoint 1440) t z
                in if present (al_leave_start_time l) \<and> present (al_leave_end_time l) then
                     (let leaveStart = hhmmToMins (the (al_leave_start_time l)); leaveEnd = hhmmToMins (the (al_leave_end_time l))
                      in (if leaveStart \<le> startMins then minutesToDateOnShiftDay tz leaveEnd t z else fst win,
                          if endMinsRaw \<le> leaveEnd then minutesToDateOnShiftDay tz leaveStart t z else snd win))
                   else if al_is_half_day l \<and> al_half_day_period l = Some ''morning'' then (mid, snd win)
                   else if al_is_half_day l \<and> al_half_day_period l = Some ''afternoon'' then (fst win, mid)
                   else win))"

subsection \<open>Coming back after an automatic checkout\<close>

definition break_paid :: "shift_break option \<Rightarrow> bool \<Rightarrow> bool" where
  "break_paid policy limitExceeded =
     (case policy of None \<Rightarrow> False
      | Some p \<Rightarrow> sb_is_paid p \<and> (if limitExceeded then \<not> sb_deduct_extra_time p else sb_paid_within_limit p))"

definition away_policy :: "att_db \<Rightarrow> att_row \<Rightarrow> bool \<Rightarrow> string option \<Rightarrow> shift_break option" where
  "away_policy db r countAsBreak shiftBreakId =
     (if countAsBreak \<and> present shiftBreakId \<and> ar_shift_id r \<noteq> None
      then find_first (\<lambda>s. Some (sb_id s) = shiftBreakId) (case shift_by_id db (ar_shift_id r) of None \<Rightarrow> [] | Some s \<Rightarrow> as_breaks s)
      else None)"

definition createAwayGapBreak :: "id \<Rightarrow> att_row \<Rightarrow> instant \<Rightarrow> bool \<Rightarrow> string option \<Rightarrow> att_db \<Rightarrow> int \<times> bool \<times> att_db" where
  "createAwayGapBreak newId r reentryTime countAsBreak shiftBreakId db =
     (let out = coalesce (ar_check_out_at r) reentryTime;
          gapMins = max 1 (minutes_between out reentryTime);
          policy = away_policy db r countAsBreak shiftBreakId;
          previousCount = (case policy of None \<Rightarrow> 0
            | Some p \<Rightarrow> int (count_where (\<lambda>b. br_attendance_id b = ar_id r \<and> br_shift_break_id b = Some (sb_id p)) (at_breaks db)));
          limitExceeded = (case policy of None \<Rightarrow> False | Some p \<Rightarrow> sb_allowed_count_per_shift p \<le> previousCount)
      in (gapMins, limitExceeded, db\<lparr>at_breaks := at_breaks db @
           [\<lparr>br_id = newId, br_attendance_id = ar_id r, br_shift_break_id = map_option sb_id policy, br_break_start = out,
             br_break_end = Some reentryTime, br_duration_mins = Some gapMins, br_is_paid = break_paid policy limitExceeded,
             br_counted_as_extra = limitExceeded, br_break_type = (case policy of None \<Rightarrow> ''away'' | Some p \<Rightarrow> sb_name p),
             br_auto_started = False, br_auto_ended = False, br_late_return_minutes = None, br_limit_exceeded = limitExceeded,
             br_source = (if policy = None then ''away'' else ''away_choice''), br_wifi_on_at_end = None,
             br_start_key = None, br_start_hash = None, br_end_key = None, br_end_hash = None\<rparr>]\<rparr>))"

definition payloadHash :: "att_env \<Rightarrow> (string \<times> json) list \<Rightarrow> string" where
  "payloadHash env body = digest (ae_device env) (ae_stringify env (JObj (filter (\<lambda>(k, _). k \<noteq> ''offline'') body)))"

end
