(* ===== verification/Attendance.thy ===== *)
theory Attendance
  imports AttendanceBase
begin

text \<open>
  The handlers of \<^verbatim>\<open>src/src/routes/attendance.ts\<close> that change state.  Check-in, checkout and the two break
  actions first read (the \<open>plan\<close> functions) and then write (the \<open>commit\<close> functions, one transaction
  each): a request is a plan followed by a commit, and other requests may commit in between.  The Wi-Fi
  events, the override and the review of a flagged check-in are single steps.
\<close>

subsection \<open>Requests\<close>

record action_request =
  aq_user :: id
  aq_org :: id
  aq_header_key :: "string option"
  aq_event :: offline_event
  aq_body :: "(string \<times> json) list"

definition aq_offline :: "action_request \<Rightarrow> bool" where
  "aq_offline rq = offline (aq_event rq)"

definition aq_key :: "action_request \<Rightarrow> string option" where
  "aq_key rq = (if idempotency_key (aq_event rq) = [] then None else Some (idempotency_key (aq_event rq)))"

definition aq_hash :: "att_env \<Rightarrow> action_request \<Rightarrow> string option" where
  "aq_hash env rq = map_option (\<lambda>_. payloadHash env (aq_body rq)) (aq_key rq)"

definition actionEventTime :: "att_env \<Rightarrow> action_request \<Rightarrow> instant \<Rightarrow> resolved_event result" where
  "actionEventTime env rq receivedAt =
     require (\<not> (aq_offline rq \<and> aq_header_key rq \<noteq> aq_key rq)) (AppError 400 ''IDEMPOTENCY_KEY_REQUIRED'')
       (resolveAttendanceEventTime (ae_clock env) (aq_event rq) (aq_user rq) (aq_org rq) receivedAt)"

definition active_row :: "att_db \<Rightarrow> id \<Rightarrow> id \<Rightarrow> id \<Rightarrow> att_row option" where
  "active_row db i org user =
     find_first (\<lambda>r. ar_id r = i \<and> ar_org_id r = org \<and> ar_user_id r = user \<and> ar_check_out_at r = None) (at_rows db)"

text \<open>\<open>Recorded\<close> is the answer to a request whose key was used before: the stored row.\<close>

datatype ('a, 'b) planned = Recorded 'a | Planned 'b

subsection \<open>POST /attendance/break/start\<close>

record start_plan =
  bp_row :: id
  bp_policy :: "shift_break option"
  bp_type :: string
  bp_at :: instant
  bp_review :: bool

definition same_origin :: "att_db \<Rightarrow> action_request \<Rightarrow> break_row \<Rightarrow> bool" where
  "same_origin db rq b \<longleftrightarrow> (case find_first (\<lambda>r. ar_id r = br_attendance_id b) (at_rows db) of None \<Rightarrow> False
     | Some r \<Rightarrow> ar_user_id r = aq_user rq \<and> ar_org_id r = aq_org rq)"

definition break_start_plan ::
    "att_env \<Rightarrow> action_request \<Rightarrow> string \<Rightarrow> string option \<Rightarrow> instant \<Rightarrow> att_db \<Rightarrow> (break_row, start_plan) planned result" where
  "break_start_plan env rq break_type shift_break_id now db =
     (let today = tc_today (orgTimeContext (ae_tz env) (aq_org rq) None now db) in
      bind_result (actionEventTime env rq now) (\<lambda>ev.
        case (if aq_key rq = None then None else find_first (\<lambda>b. br_start_key b = aq_key rq) (at_breaks db)) of
          Some previous \<Rightarrow>
            require (br_start_hash previous = aq_hash env rq \<and> same_origin db rq previous) (AppError 409 ''IDEMPOTENCY_KEY_REUSED'')
              (Inr (Recorded previous))
        | None \<Rightarrow>
            (case (if aq_offline rq then open_row_at db (aq_org rq) (aq_user rq) (eventAt ev) else row_of_day db (aq_user rq) today) of
               None \<Rightarrow> Inl (AppError 400 ''NOT_CHECKED_IN'')
             | Some r \<Rightarrow>
                 (case ar_check_in_at r of None \<Rightarrow> Inl (AppError 400 ''NOT_CHECKED_IN'')
                  | Some checkIn \<Rightarrow>
                     require (ar_check_out_at r = None) (AppError 400 ''CHECKED_OUT'')
                      (require (checkIn \<le> eventAt ev) (AppError 409 ''OFFLINE_EVENT_REVIEW'')
                       (require (\<forall>b\<in>set (breaks_of db (ar_id r)). br_break_end b \<noteq> None) (AppError 400 ''BREAK_IN_PROGRESS'')
                        (let shift = coalesce_opt (shift_by_id db (ar_shift_id r)) (effectiveShiftForUser (aq_user rq) (aq_org rq) today db);
                             available = filter (\<lambda>b. dayMatchesBreak b (if aq_offline rq then ar_date r else today))
                               (case shift of None \<Rightarrow> [] | Some s \<Rightarrow> as_breaks s);
                             policy = (if present shift_break_id then find_first (\<lambda>b. Some (sb_id b) = shift_break_id) available
                               else find_first (\<lambda>b. sb_name b = break_type \<or> sb_id b = break_type) available)
                         in require (\<not> (present shift_break_id \<and> policy = None)) (AppError 400 ''INVALID_BREAK'')
                              (Inr (Planned \<lparr>bp_row = ar_id r, bp_policy = policy, bp_type = break_type, bp_at = eventAt ev,
                                 bp_review = requiresReview ev\<rparr>)))))))))"

definition limit_exceeded :: "start_plan \<Rightarrow> break_row list \<Rightarrow> bool" where
  "limit_exceeded p current =
     (case bp_policy p of None \<Rightarrow> False
      | Some t \<Rightarrow> sb_break_kind t = ''flexible'' \<and>
          sb_allowed_count_per_shift t \<le> int (count_where (\<lambda>b. br_shift_break_id b = Some (sb_id t)) current))"

definition extra_refused :: "start_plan \<Rightarrow> bool" where
  "extra_refused p = (case bp_policy p of None \<Rightarrow> False | Some t \<Rightarrow> \<not> sb_allow_extra_breaks t)"

definition new_break :: "att_env \<Rightarrow> action_request \<Rightarrow> id \<Rightarrow> start_plan \<Rightarrow> bool \<Rightarrow> break_row" where
  "new_break env rq newId p exceeded =
     \<lparr>br_id = newId, br_attendance_id = bp_row p, br_shift_break_id = map_option sb_id (bp_policy p), br_break_start = bp_at p,
      br_break_end = None, br_duration_mins = None, br_is_paid = break_paid (bp_policy p) exceeded,
      br_counted_as_extra = exceeded, br_break_type = (case bp_policy p of None \<Rightarrow> bp_type p | Some t \<Rightarrow> sb_name t),
      br_auto_started = False, br_auto_ended = False, br_late_return_minutes = None, br_limit_exceeded = exceeded,
      br_source = (if aq_offline rq then ''offline'' else ''manual''), br_wifi_on_at_end = None,
      br_start_key = aq_key rq, br_start_hash = aq_hash env rq, br_end_key = None, br_end_hash = None\<rparr>"

definition mark_offline :: "action_request \<Rightarrow> bool \<Rightarrow> att_row \<Rightarrow> att_row" where
  "mark_offline rq review r =
     (if aq_offline rq then r\<lparr>ar_offline_reconciled := True,
        ar_trust := (ar_trust r)\<lparr>ct_requires_review := ct_requires_review (ar_trust r) \<or> review\<rparr>\<rparr> else r)"

definition tell_reviewer :: "action_request \<Rightarrow> bool \<Rightarrow> id \<Rightarrow> att_db \<Rightarrow> att_db" where
  "tell_reviewer rq review i db = (if aq_offline rq \<and> review then notifyOfflineAttendanceReview (aq_user rq) i db else db)"

definition break_start_commit ::
    "att_env \<Rightarrow> action_request \<Rightarrow> id \<Rightarrow> start_plan \<Rightarrow> att_db \<Rightarrow> (break_row \<times> att_db) result" where
  "break_start_commit env rq newId p db =
     (let current = breaks_of db (bp_row p); exceeded = limit_exceeded p current; b = new_break env rq newId p exceeded
      in require (active_row db (bp_row p) (aq_org rq) (aq_user rq) \<noteq> None) (AppError 409 ''CHECKED_OUT'')
          (require (\<forall>x\<in>set current. br_break_end x \<noteq> None) (AppError 409 ''BREAK_IN_PROGRESS'')
           (require (\<not> (exceeded \<and> extra_refused p)) (AppError 400 ''BREAK_LIMIT_REACHED'')
            (Inr (b, tell_reviewer rq (bp_review p) (bp_row p)
               (update_row (bp_row p) (mark_offline rq (bp_review p)) (db\<lparr>at_breaks := at_breaks db @ [b]\<rparr>)))))))"

subsection \<open>POST /attendance/break/end\<close>

record end_plan =
  ep_row :: att_row
  ep_break :: break_row
  ep_at :: instant
  ep_late_return :: "int option"
  ep_review :: bool

definition break_end_plan :: "att_env \<Rightarrow> action_request \<Rightarrow> instant \<Rightarrow> att_db \<Rightarrow> (break_row, end_plan) planned result" where
  "break_end_plan env rq received db =
     (let ctx = orgTimeContext (ae_tz env) (aq_org rq) None received db in
      bind_result (actionEventTime env rq received) (\<lambda>ev.
        case (if aq_key rq = None then None else find_first (\<lambda>b. br_end_key b = aq_key rq) (at_breaks db)) of
          Some previous \<Rightarrow>
            require (br_end_hash previous = aq_hash env rq \<and> same_origin db rq previous) (AppError 409 ''IDEMPOTENCY_KEY_REUSED'')
              (Inr (Recorded previous))
        | None \<Rightarrow>
            (case (if aq_offline rq then open_row_at db (aq_org rq) (aq_user rq) (eventAt ev) else row_of_day db (aq_user rq) (tc_today ctx)) of
               None \<Rightarrow> Inl (AppError 400 ''NOT_CHECKED_IN'')
             | Some r \<Rightarrow>
                 (case find_first (\<lambda>b. br_break_end b = None) (breaks_of db (ar_id r)) of
                    None \<Rightarrow> Inl (AppError 400 ''NO_BREAK'')
                  | Some b \<Rightarrow>
                     require (br_break_start b < eventAt ev) (AppError 409 ''OFFLINE_EVENT_REVIEW'')
                      (Inr (Planned \<lparr>ep_row = r, ep_break = b, ep_at = eventAt ev,
                         ep_late_return = calcLateReturnMins (ae_tz env) (tc_timezone ctx) (template_of (all_templates db) b) (eventAt ev)
                           (max 0 (minutes_between (br_break_start b) (eventAt ev))),
                         ep_review = requiresReview ev\<rparr>))))))"

definition is_open_break :: "end_plan \<Rightarrow> break_row \<Rightarrow> bool" where
  "is_open_break p b \<longleftrightarrow> br_id b = br_id (ep_break p) \<and> br_attendance_id b = ar_id (ep_row p) \<and> br_break_end b = None"

definition ended_break :: "att_env \<Rightarrow> action_request \<Rightarrow> bool option \<Rightarrow> end_plan \<Rightarrow> int \<Rightarrow> break_row \<Rightarrow> break_row" where
  "ended_break env rq wifi p mins b =
     b\<lparr>br_break_end := Some (ep_at p), br_duration_mins := Some mins, br_late_return_minutes := ep_late_return p,
       br_wifi_on_at_end := wifi, br_end_key := coalesce_opt (aq_key rq) (br_end_key b),
       br_end_hash := (if aq_key rq = None then br_end_hash b else aq_hash env rq),
       br_source := (if aq_offline rq then ''offline'' else br_source b)\<rparr>"

definition end_figures :: "end_plan \<Rightarrow> break_settlement \<Rightarrow> att_row \<Rightarrow> att_row" where
  "end_figures p totals r =
     (let total = (case ar_check_in_at (ep_row p) of None \<Rightarrow> 0 | Some c \<Rightarrow> minutes_between c (ep_at p)) in
      r\<lparr>ar_break_minutes := totalMins totals, ar_paid_break_minutes := paidMins totals,
        ar_net_hours_worked := Some (toFixed2 (of_int (total - unpaidMins totals) / 60))\<rparr>)"

definition break_end_commit ::
    "att_env \<Rightarrow> action_request \<Rightarrow> bool option \<Rightarrow> end_plan \<Rightarrow> att_db \<Rightarrow> att_db result" where
  "break_end_commit env rq wifi p db =
     (let i = ar_id (ep_row p) in
      require (active_row db i (aq_org rq) (aq_user rq) \<noteq> None) (AppError 409 ''CHECKED_OUT'')
       (case find_first (is_open_break p) (at_breaks db) of
          None \<Rightarrow> Inl (AppError 409 ''BREAK_ALREADY_ENDED'')
        | Some b \<Rightarrow>
            require (br_break_start b < ep_at p) (AppError 409 ''OFFLINE_EVENT_REVIEW'')
             (let mins = max 0 (minutes_between (br_break_start b) (ep_at p));
                  rows = update_where (is_open_break p) (ended_break env rq wifi p mins) (at_breaks db);
                  totals = calculateBreakTotals (all_templates db) i rows
              in Inr (tell_reviewer rq (ep_review p) i
                   (update_row i (\<lambda>r. mark_offline rq (ep_review p) (end_figures p totals r)) (db\<lparr>at_breaks := rows\<rparr>))))))"

subsection \<open>POST /attendance/checkout\<close>

record checkout_data =
  cp_row :: att_row
  cp_check_in :: instant
  cp_at :: instant
  cp_review :: bool
  cp_scheduled_end :: "instant option"
  cp_early_mins :: int
  cp_score :: "int option"
  cp_auto_overtime :: bool
  cp_timezone :: string
  cp_alert :: bool

definition checkout_plan :: "att_env \<Rightarrow> action_request \<Rightarrow> instant \<Rightarrow> att_db \<Rightarrow> (att_row, checkout_data) planned result" where
  "checkout_plan env rq receivedAt db =
     (let ctx = orgTimeContext (ae_tz env) (aq_org rq) (Some (aq_user rq)) receivedAt db in
      bind_result (actionEventTime env rq receivedAt) (\<lambda>ev.
        let now = eventAt ev in
        case (if aq_key rq = None then None else find_first (\<lambda>r. ar_user_id r = aq_user rq \<and> ar_checkout_key r = aq_key rq) (at_rows db)) of
          Some previous \<Rightarrow>
            require (ar_checkout_hash previous = aq_hash env rq) (AppError 409 ''IDEMPOTENCY_KEY_REUSED'') (Inr (Recorded previous))
        | None \<Rightarrow>
            (case (if aq_offline rq then open_row_at db (aq_org rq) (aq_user rq) now else row_of_day db (aq_user rq) (tc_today ctx)) of
               None \<Rightarrow> Inl ValidationError
             | Some r \<Rightarrow>
                 (case ar_check_in_at r of None \<Rightarrow> Inl ValidationError
                  | Some checkIn \<Rightarrow>
                     require (ar_check_out_at r = None) ValidationError
                      (require (checkIn \<le> now) (AppError 409 ''OFFLINE_EVENT_REVIEW'')
                       (let shift = shift_by_id db (ar_shift_id r);
                            scheduledEnd = coalesce_opt (ar_scheduled_end r)
                              (map_option (\<lambda>s. snd (adjustedWindowForLeave (ae_tz env) (as_core s) (tc_timezone ctx) now
                                 (approved_leave db (aq_user rq) (tc_today ctx)))) shift);
                            rawEarlyMins = (case scheduledEnd of None \<Rightarrow> 0 | Some e \<Rightarrow> max 0 (minutes_between now e));
                            earlyTolerance = coalesce (Option.bind shift (\<lambda>s. early_checkout_tolerance_mins (as_core s))) 15;
                            earlyMins = max 0 (rawEarlyMins - earlyTolerance)
                        in Inr (Planned \<lparr>cp_row = r, cp_check_in = checkIn, cp_at = now, cp_review = requiresReview ev,
                             cp_scheduled_end = scheduledEnd, cp_early_mins = earlyMins,
                             cp_score = adherenceScore (of_int (ar_late_minutes r)) (of_int earlyMins) (map_option as_core shift),
                             cp_auto_overtime = (case shift of None \<Rightarrow> False | Some s \<Rightarrow> as_overtime_enabled s \<and> \<not> as_overtime_requires_approval s),
                             cp_timezone = tc_timezone ctx, cp_alert = (earlyTolerance < rawEarlyMins)\<rparr>)))))))"

definition claimed_row :: "att_env \<Rightarrow> action_request \<Rightarrow> checkout_data \<Rightarrow> att_row \<Rightarrow> att_row" where
  "claimed_row env rq p r =
     r\<lparr>ar_check_out_at := Some (cp_at p), ar_status := ''out'',
       ar_checkout_key := coalesce_opt (aq_key rq) (ar_checkout_key r),
       ar_checkout_hash := (if aq_key rq = None then ar_checkout_hash r else aq_hash env rq)\<rparr>"

definition stop_timer :: "id \<Rightarrow> id \<Rightarrow> instant \<Rightarrow> id \<Rightarrow> att_timer list \<Rightarrow> id option \<times> att_timer list" where
  "stop_timer org user now attendanceId ts =
     (case find_desc tm_started_at (\<lambda>t. tm_org_id t = org \<and> tm_user_id t = user \<and> tm_ended_at t = None \<and> tm_status t = ''draft'') ts of
        None \<Rightarrow> (None, ts)
      | Some t \<Rightarrow> (Some (tm_id t), update_where (\<lambda>x. tm_id x = tm_id t \<and> tm_ended_at x = None \<and> tm_status x = ''draft'')
          (\<lambda>x. x\<lparr>tm_ended_at := Some now, tm_minutes := Some (max 1 (minutes_between (tm_started_at t) now)), tm_attendance_id := Some attendanceId\<rparr>) ts))"

definition is_claimable :: "action_request \<Rightarrow> id \<Rightarrow> att_row \<Rightarrow> bool" where
  "is_claimable rq i r \<longleftrightarrow> ar_id r = i \<and> ar_org_id r = aq_org rq \<and> ar_user_id r = aq_user rq \<and> ar_check_out_at r = None"

text \<open>The figures that a checkout writes, from the settlement of the breaks.\<close>

definition checkout_figures :: "checkout_data \<Rightarrow> bool \<Rightarrow> break_settlement \<Rightarrow> int \<Rightarrow> att_row \<Rightarrow> att_row" where
  "checkout_figures p off breaks extra r =
     (let hours = calcHoursWorked (cp_check_in p) (cp_at p) in
      r\<lparr>ar_hours_worked := Some hours, ar_net_hours_worked := Some (netHoursWorked hours (unpaidMins breaks)),
        ar_overtime_hours := (if cp_auto_overtime p then toFixed2 (of_int extra / 60) else 0),
        ar_extra_office_minutes := (if cp_auto_overtime p then 0 else extra),
        ar_break_minutes := totalMins breaks, ar_paid_break_minutes := paidMins breaks, ar_early_out_minutes := of_int (cp_early_mins p),
        ar_offline_reconciled := ar_offline_reconciled r \<or> off,
        ar_trust := (if off then (ar_trust r)\<lparr>ct_requires_review := ct_requires_review (ar_trust (cp_row p)) \<or> cp_review p\<rparr> else ar_trust r),
        ar_adherence_score := coalesce_opt (cp_score p) (ar_adherence_score r)\<rparr>)"

definition checkout_commit :: "att_env \<Rightarrow> action_request \<Rightarrow> (nat \<Rightarrow> id) \<Rightarrow> checkout_data \<Rightarrow> att_db \<Rightarrow> att_db result" where
  "checkout_commit env rq newId p db =
     (let i = ar_id (cp_row p); off = aq_offline rq in
      case find_first (is_claimable rq i) (at_rows db) of
        None \<Rightarrow> Inl (AppError 409 ''ALREADY_CHECKED_OUT'')
      | Some r0 \<Rightarrow>
         (let db1 = db\<lparr>at_rows := update_where (is_claimable rq i) (claimed_row env rq p) (at_rows db)\<rparr>;
              (breaks, rows) = settleBreaks (ae_tz env) (cp_timezone p) newId (all_templates db) (cp_at p) (row_view db1 (claimed_row env rq p r0)) (at_breaks db1);
              extra = netExtraMinutesAfterShift (all_templates db) i (cp_at p) (cp_scheduled_end p) rows;
              db2 = update_row i (checkout_figures p off breaks extra) (db1\<lparr>at_breaks := rows\<rparr>);
              (stopped, timers) = stop_timer (aq_org rq) (aq_user rq) (cp_at p) i (at_timers db2);
              db3 = db2\<lparr>at_timers := timers\<rparr>;
              db4 = (case stopped of None \<Rightarrow> db3 | Some t \<Rightarrow> log_effect (Audit ''time.timer.auto_stop'' t) db3);
              db5 = (if off \<and> cp_review p then notifyOfflineAttendanceReview (aq_user rq) i db4 else db4);
              db6 = (if cp_alert p then notify_manager (aq_user rq) ''attendance_early_out'' (aq_user rq) db5 else db5)
          in Inr (log_effect (OrgEvent ''attendance_changed'') db6)))"

end
