(* ===== verification/CheckIn.thy ===== *)
theory CheckIn
  imports Attendance
begin

text \<open>
  Check-in (\<^verbatim>\<open>POST /attendance/checkin\<close>), the Wi-Fi events (\<^verbatim>\<open>POST /attendance/heartbeat\<close> and
  \<^verbatim>\<open>POST /attendance/ip-event\<close>), the override and the review of a flagged check-in, and the late
  notices, from \<^verbatim>\<open>src/src/routes/attendance.ts\<close>.  The reconciliation of earlier no-show notifications
  and the WhatsApp messages have no effect on the rows and are not modelled.
\<close>

subsection \<open>The evidence of a check-in\<close>

record checkin_request =
  ci_user :: id
  ci_org :: id
  ci_type :: string
  ci_qr_code :: "string option"
  ci_duration_type :: string
  ci_count_away_as_break :: bool
  ci_away_shift_break_id :: "string option"
  ci_event :: offline_event
  ci_location :: location_evidence
  ci_device_proof :: "device_proof option"
  ci_body :: "(string \<times> json) list"
  ci_ip :: "string option"

definition ci_offline :: "checkin_request \<Rightarrow> bool" where
  "ci_offline rq = offline (ci_event rq)"

definition ci_key :: "checkin_request \<Rightarrow> string option" where
  "ci_key rq = (if idempotency_key (ci_event rq) = [] then None else Some (idempotency_key (ci_event rq)))"

definition ci_client_at :: "checkin_request \<Rightarrow> instant option" where
  "ci_client_at rq = coalesce (client_event_at (ci_event rq)) None"

definition ci_hash :: "att_env \<Rightarrow> checkin_request \<Rightarrow> string option" where
  "ci_hash env rq = map_option (\<lambda>_. digest (ae_device env)
     (ae_stringify env (JObj (sort_key fst (filter (\<lambda>(k, _). k \<noteq> ''offline'') (ci_body rq)))))) (ci_key rq)"

text \<open>When a check-in happened, and whether the clock evidence sends it to review.\<close>

definition checkin_time :: "clock_crypto \<Rightarrow> checkin_request \<Rightarrow> instant \<Rightarrow> (instant \<times> bool) result" where
  "checkin_time k rq receivedAt =
     (let e = ci_event rq in
      if \<not> offline e then Inr (receivedAt, False)
      else case (ci_client_at rq, device_uptime_ms e, server_anchor_uptime_ms e) of
        (Some client, Some up, Some anchor_up) \<Rightarrow>
          require (idempotency_key e \<noteq> [] \<and> attendance_clock_anchor e \<noteq> [] \<and> clock_epoch e \<noteq> [] \<and> server_anchor_epoch e \<noteq> [])
            (AppError 409 ''OFFLINE_CHECKIN_REVIEW'')
            (bind_result (verifyAttendanceClockAnchor k (attendance_clock_anchor e) (ci_user rq) (ci_org rq)) (\<lambda>anchor.
               let elapsedMs = up - anchor_up; anchorAgeMs = receivedAt - anchor;
                   monotonicValid = (clock_epoch e = server_anchor_epoch e \<and> 0 \<le> elapsedMs \<and> elapsedMs \<le> 12 * 60 * 60000 \<and>
                      0 \<le> anchorAgeMs \<and> anchorAgeMs \<le> 12 * 60 * 60000);
                   ev = anchor + elapsedMs
               in if \<not> monotonicValid then Inr (receivedAt, True)
                  else require (ev \<le> receivedAt + 2 * 60000) (AppError 409 ''OFFLINE_CHECKIN_REVIEW'')
                    (Inr (ev, 2 * 60000 < \<bar>ev - client\<bar> \<or> 10 * 60000 < receivedAt - ev \<or> 10 * 60000 < anchorAgeMs))))
      | _ \<Rightarrow> Inl (AppError 409 ''OFFLINE_CHECKIN_REVIEW''))"

text \<open>What a check-in leaves on the row besides the times: key, clock, trust and location columns.\<close>

record evidence_data =
  ev_key :: "string option"
  ev_client_at :: "instant option"
  ev_received_at :: instant
  ev_offline :: bool
  ev_trust :: att_trust
  ev_clock :: "att_clock option"
  ev_fenced :: bool
  ev_location :: location_evidence
  ev_check :: "location_check option"

definition record_evidence :: "evidence_data \<Rightarrow> att_row \<Rightarrow> att_row" where
  "record_evidence e r =
     r\<lparr>ar_checkin_key := coalesce_opt (ev_key e) (ar_checkin_key r),
       ar_client_checkin_at := coalesce_opt (ev_client_at e) (ar_client_checkin_at r),
       ar_checkin_received_at := Some (ev_received_at e), ar_offline_reconciled := ev_offline e, ar_trust := ev_trust e,
       ar_clock := coalesce (ev_clock e) (ar_clock r),
       ar_geo := (let g = ar_geo r; keep = (\<lambda>new old. if ev_fenced e then coalesce_opt new old else old) in
         \<lparr>ag_latitude = keep (le_latitude (ev_location e)) (ag_latitude g),
          ag_longitude = keep (le_longitude (ev_location e)) (ag_longitude g),
          ag_accuracy_m = keep (le_accuracy_m (ev_location e)) (ag_accuracy_m g),
          ag_mock_detected = (ev_fenced e \<and> le_is_mocked (ev_location e)),
          ag_status = coalesce_opt (map_option lc_status (ev_check e)) (ag_status g),
          ag_distance_m = coalesce_opt (Option.bind (ev_check e) lc_distance) (ag_distance_m g)\<rparr>)\<rparr>"

definition location_policy :: "time_context \<Rightarrow> geo_policy option" where
  "location_policy ctx = coalesce_opt (parseLocationGeofence (Option.bind (tc_location ctx) loc_geofence))
     (parseAttendanceSecurity (Option.bind (tc_org ctx) og_attendance_security))"

definition policy_enabled :: "geo_policy option \<Rightarrow> bool" where
  "policy_enabled p = (case p of None \<Rightarrow> False | Some q \<Rightarrow> gp_geofence_enabled q)"

definition location_reason :: "geo_policy option \<Rightarrow> location_check option \<Rightarrow> string option" where
  "location_reason p c =
     (case c of None \<Rightarrow> None
      | Some x \<Rightarrow> if policy_enabled p \<and> lc_status x \<noteq> ''inside'' then Some (''geofence_'' @ lc_status x) else None)"

definition anchor_time :: "att_env \<Rightarrow> checkin_request \<Rightarrow> instant option" where
  "anchor_time env rq =
     (case verifyAttendanceClockAnchor (ae_clock env) (attendance_clock_anchor (ci_event rq)) (ci_user rq) (ci_org rq) of
        Inl _ \<Rightarrow> None | Inr t \<Rightarrow> Some t)"

definition checkin_evidence ::
    "att_env \<Rightarrow> checkin_request \<Rightarrow> instant \<Rightarrow> bool \<Rightarrow> proof_verdict \<Rightarrow> geo_policy option \<Rightarrow> location_check option \<Rightarrow> evidence_data" where
  "checkin_evidence env rq receivedAt clockReview v policy check =
     (let reason = location_reason policy check in
      \<lparr>ev_key = ci_key rq, ev_client_at = ci_client_at rq, ev_received_at = receivedAt, ev_offline = ci_offline rq,
       ev_trust = \<lparr>ct_request_hash = ci_hash env rq, ct_source = Some (if ci_offline rq then ''offline'' else ci_type rq),
          ct_requires_review = (clockReview \<or> pv_review v \<or> reason \<noteq> None), ct_review_reason = reason, ct_device_id = pv_device v,
          ct_device_proof_status = Some (pv_status v), ct_device_signature_verified = pv_signature_verified v\<rparr>,
       ev_clock = (if \<not> ci_offline rq then None else Some \<lparr>ck_device_uptime_ms = device_uptime_ms (ci_event rq),
          ck_server_anchor_uptime_ms = server_anchor_uptime_ms (ci_event rq), ck_server_anchor_at = anchor_time env rq,
          ck_clock_epoch = Some (clock_epoch (ci_event rq))\<rparr>),
       ev_fenced = policy_enabled policy, ev_location = ci_location rq, ev_check = check\<rparr>)"

subsection \<open>Lateness\<close>

record lateness =
  lt_status :: string
  lt_late_minutes :: int
  lt_early_minutes :: int
  lt_start :: "instant option"
  lt_end :: "instant option"
  lt_shift :: "id option"

definition no_schedule :: "string \<Rightarrow> lateness" where
  "no_schedule status = \<lparr>lt_status = status, lt_late_minutes = 0, lt_early_minutes = 0, lt_start = None, lt_end = None, lt_shift = None\<rparr>"

definition assess_arrival :: "tzdb \<Rightarrow> att_org option \<Rightarrow> string \<Rightarrow> instant \<Rightarrow> att_leave option \<Rightarrow> att_shift option \<Rightarrow> lateness" where
  "assess_arrival tz org z now leave shift =
     (case shift of None \<Rightarrow> no_schedule ''in''
      | Some s \<Rightarrow>
          (let (start, end) = adjustedWindowForLeave tz (as_core s) z now leave;
               rawLateMins = max 0 (minutes_between start now);
               lateThreshold = lateThresholdFor (Some (late_tolerance_mins (as_core s))) (map_option og_late_threshold org)
           in \<lparr>lt_status = (if lateThreshold < rawLateMins then ''late'' else ''in''), lt_late_minutes = max 0 (rawLateMins - lateThreshold),
               lt_early_minutes = (if now < start then minutes_between now start else 0),
               lt_start = Some start, lt_end = Some end, lt_shift = Some (as_id s)\<rparr>))"

definition with_arrival :: "instant \<Rightarrow> string \<Rightarrow> lateness \<Rightarrow> att_row \<Rightarrow> att_row" where
  "with_arrival now kind l r =
     r\<lparr>ar_check_in_at := Some now, ar_check_in_type := kind, ar_status := lt_status l, ar_late_minutes := lt_late_minutes l,
       ar_early_checkin_minutes := lt_early_minutes l, ar_shift_id := coalesce_opt (lt_shift l) (ar_shift_id r),
       ar_scheduled_start := coalesce_opt (lt_start l) (ar_scheduled_start r),
       ar_scheduled_end := coalesce_opt (lt_end l) (ar_scheduled_end r)\<rparr>"

text \<open>The column defaults of a row that is created.\<close>

definition blank_row :: "id \<Rightarrow> id \<Rightarrow> id \<Rightarrow> id option \<Rightarrow> day \<Rightarrow> att_row" where
  "blank_row i user org loc date =
     \<lparr>ar_id = i, ar_user_id = user, ar_org_id = org, ar_location_id = loc, ar_date = date, ar_check_in_at = None, ar_check_out_at = None,
      ar_check_in_type = [], ar_status = [], ar_shift_id = None, ar_scheduled_start = None, ar_scheduled_end = None, ar_late_minutes = 0,
      ar_early_checkin_minutes = 0, ar_early_out_minutes = 0, ar_hours_worked = None, ar_net_hours_worked = None, ar_overtime_hours = 0,
      ar_extra_office_minutes = 0, ar_break_minutes = 0, ar_paid_break_minutes = 0, ar_adherence_score = None, ar_auto_checked_out = False,
      ar_last_heartbeat_at = None, ar_last_heartbeat_ssid = None, ar_ip_checkout_pending_at = None,
      ar_trust = \<lparr>ct_request_hash = None, ct_source = None, ct_requires_review = False, ct_review_reason = None, ct_device_id = None,
        ct_device_proof_status = None, ct_device_signature_verified = False\<rparr>,
      ar_clock = \<lparr>ck_device_uptime_ms = None, ck_server_anchor_uptime_ms = None, ck_server_anchor_at = None, ck_clock_epoch = None\<rparr>,
      ar_geo = \<lparr>ag_latitude = None, ag_longitude = None, ag_accuracy_m = None, ag_mock_detected = False, ag_status = None, ag_distance_m = None\<rparr>,
      ar_review = \<lparr>rv_at = None, rv_by = None, rv_decision = None, rv_note = None\<rparr>,
      ar_checkin_key = None, ar_client_checkin_at = None, ar_checkin_received_at = None, ar_offline_reconciled = False,
      ar_checkout_key = None, ar_checkout_hash = None, ar_ip_detected = None, ar_late_notice_id = None, ar_is_on_approved_leave = False,
      ar_is_overridden = False, ar_override_by = None, ar_override_reason = None\<rparr>"

subsection \<open>Re-entry\<close>

definition reopened_status :: "att_row \<Rightarrow> string" where
  "reopened_status r = (if 0 < ar_late_minutes r then ''late'' else ''in'')"

definition reopen_row :: "att_row \<Rightarrow> att_row \<Rightarrow> att_row" where
  "reopen_row seen r =
     r\<lparr>ar_check_out_at := None, ar_hours_worked := None, ar_net_hours_worked := None, ar_early_out_minutes := 0, ar_adherence_score := None,
       ar_auto_checked_out := False, ar_status := reopened_status seen\<rparr>"

definition gap_forgiven :: "att_org option \<Rightarrow> att_row \<Rightarrow> instant \<Rightarrow> bool" where
  "gap_forgiven org r t \<longleftrightarrow>
     minutes_between (coalesce (ar_check_out_at r) t) t \<le> coalesce (Option.bind org og_gap_forgiveness_mins) 15"

definition away_reopen :: "id \<Rightarrow> att_row \<Rightarrow> instant \<Rightarrow> bool \<Rightarrow> string option \<Rightarrow> (att_row \<Rightarrow> att_row) \<Rightarrow> att_db \<Rightarrow> int \<times> bool \<times> att_db" where
  "away_reopen newId seen t countAsBreak shiftBreakId stamp db =
     (case createAwayGapBreak newId seen t countAsBreak shiftBreakId db of (gapMins, limitExceeded, db1) \<Rightarrow>
        (let totals = calculateBreakTotals (all_templates db1) (ar_id seen) (at_breaks db1)
         in (gapMins, limitExceeded, update_row (ar_id seen)
              (\<lambda>r. stamp ((reopen_row seen r)\<lparr>ar_break_minutes := totalMins totals, ar_paid_break_minutes := paidMins totals\<rparr>)) db1)))"

definition was_auto_out :: "att_row option \<Rightarrow> bool" where
  "was_auto_out existing = (case existing of None \<Rightarrow> False
     | Some r \<Rightarrow> ar_check_in_at r \<noteq> None \<and> ar_check_out_at r \<noteq> None \<and> ar_auto_checked_out r)"

subsection \<open>POST /attendance/checkin\<close>

datatype checkin_answer =
    AlreadyRecorded att_row bool
  | ReEntered int bool
  | CheckoutPrompt att_row
  | CheckedIn id

record fresh_plan =
  fp_existing :: "att_row option"
  fp_date :: day
  fp_at :: instant
  fp_location_id :: "id option"
  fp_zone :: string
  fp_evidence :: evidence_data
  fp_lateness :: lateness
  fp_notice :: "id option"
  fp_on_leave :: bool

datatype checkin_choice =
    Duplicate att_row
  | Stitch att_row "id option" instant evidence_data
  | Away att_row instant evidence_data
  | Prompt att_row
  | Fresh fresh_plan

definition checkin_lateness :: "att_env \<Rightarrow> checkin_request \<Rightarrow> time_context \<Rightarrow> day \<Rightarrow> instant \<Rightarrow> att_db \<Rightarrow> lateness" where
  "checkin_lateness env rq ctx date now db =
     (if ci_type rq = ''remote'' then no_schedule ''remote''
      else assess_arrival (ae_tz env) (tc_org ctx) (tc_timezone ctx) now (approved_leave db (ci_user rq) date)
             (effectiveShiftForUser (ci_user rq) (ci_org rq) date db))"

definition checkin_plan ::
    "att_env \<Rightarrow> bool \<Rightarrow> checkin_request \<Rightarrow> instant \<Rightarrow> proof_verdict \<Rightarrow> instant \<times> bool \<Rightarrow> att_db \<Rightarrow> checkin_choice result" where
  "checkin_plan env qr_ok rq receivedAt v tm db =
     (let ctx = orgTimeContext (ae_tz env) (ci_org rq) (Some (ci_user rq)) receivedAt db;
          checkInAt = fst tm;
          date = dateOnlyInTz (ae_tz env) checkInAt (Some (tc_timezone ctx));
          duplicate = (if ci_key rq = None then None
            else find_first (\<lambda>r. ar_user_id r = ci_user rq \<and> ar_checkin_key r = ci_key rq) (at_rows db))
      in case duplicate of
           Some r \<Rightarrow>
             require (\<not> (present (ct_request_hash (ar_trust r)) \<and> ct_request_hash (ar_trust r) \<noteq> ci_hash env rq))
               (AppError 409 ''IDEMPOTENCY_KEY_REUSED'') (Inr (Duplicate r))
         | None \<Rightarrow>
             (let policy = (if ci_type rq = ''remote'' then None else location_policy ctx) in
              bind_result (evaluateCheckinLocation policy (ci_location rq)) (\<lambda>check.
                let e = checkin_evidence env rq receivedAt (snd tm) v policy check;
                    existing = row_of_day db (ci_user rq) date;
                    leave = approved_leave db (ci_user rq) date
                in if was_auto_out existing then
                     (if gap_forgiven (tc_org ctx) (the existing) checkInAt
                      then Inr (Stitch (the existing) (map_option loc_id (tc_location ctx)) checkInAt e)
                      else Inr (Away (the existing) checkInAt e))
                   else if (case existing of None \<Rightarrow> False | Some r \<Rightarrow> ar_check_in_at r \<noteq> None) then
                     (if ci_type rq = ''qr'' then Inr (Prompt (the existing)) else Inl ValidationError)
                   else require (ci_type rq = ''qr'' \<longrightarrow> present (ci_qr_code rq) \<and> qr_ok) ValidationError
                     (Inr (Fresh \<lparr>fp_existing = existing, fp_date = date, fp_at = checkInAt, fp_location_id = map_option loc_id (tc_location ctx),
                        fp_zone = tc_timezone ctx,
                        fp_evidence = e, fp_lateness = checkin_lateness env rq ctx date checkInAt db,
                        fp_notice = Option.bind (find_first (\<lambda>n. nt_user_id n = ci_user rq \<and> nt_date n = date) (at_notices db))
                          (\<lambda>n. if nt_status n \<noteq> ''cancelled'' then Some (nt_id n) else None),
                        fp_on_leave = (case leave of None \<Rightarrow> False | Some l \<Rightarrow> \<not> al_is_half_day l)\<rparr>)))))"

definition checked_in_row :: "checkin_request \<Rightarrow> fresh_plan \<Rightarrow> att_row \<Rightarrow> att_row" where
  "checked_in_row rq p r =
     (record_evidence (fp_evidence p) (with_arrival (fp_at p) (ci_type rq) (fp_lateness p) r))
       \<lparr>ar_ip_detected := coalesce_opt (ci_ip rq) (ar_ip_detected r), ar_late_notice_id := coalesce_opt (fp_notice p) (ar_late_notice_id r),
        ar_is_on_approved_leave := ar_is_on_approved_leave r \<or> fp_on_leave p\<rparr>"

text \<open>Prisma's unique constraints on (user, date) and (user, check-in key).\<close>

definition key_taken :: "checkin_request \<Rightarrow> id option \<Rightarrow> att_db \<Rightarrow> bool" where
  "key_taken rq self db \<longleftrightarrow>
     (ci_key rq \<noteq> None \<and> (\<exists>r\<in>set (at_rows db). ar_user_id r = ci_user rq \<and> ar_checkin_key r = ci_key rq \<and> Some (ar_id r) \<noteq> self))"

definition checkin_effects :: "att_env \<Rightarrow> checkin_request \<Rightarrow> fresh_plan \<Rightarrow> id \<Rightarrow> att_db \<Rightarrow> att_db" where
  "checkin_effects env rq p i db =
     (let u = ci_user rq; remote = (ci_type rq = ''remote'');
          db0 = (if remote then db
            else resolvePriorNoShowAlerts (ae_tz env) u (ci_org rq) i (fp_date p) (fp_zone p) (ev_received_at (fp_evidence p)) db);
          db1 = (if ct_requires_review (ev_trust (fp_evidence p)) then notify_manager u ''attendance_checkin_review'' i db0 else db0);
          db2 = (if fp_on_leave p then notify_manager u ''leave_checkin_override'' u db1 else db1);
          db3 = (if remote \<and> (\<forall>s\<in>set (at_remote db2). rs_attendance_id s \<noteq> i)
            then db2\<lparr>at_remote := at_remote db2 @ [\<lparr>rs_attendance_id = i, rs_user_id = u, rs_status = ''pending'', rs_duration_type = ci_duration_type rq\<rparr>]\<rparr>
            else db2);
          db4 = (if lt_status (fp_lateness p) = ''late'' \<and> \<not> remote then notify_manager u ''attendance_late'' u db3 else db3);
          db5 = (if 30 < lt_early_minutes (fp_lateness p) \<and> \<not> remote then notify_manager u ''attendance_early_in'' u db4 else db4)
      in log_effect (OrgEvent ''attendance_changed'') db5)"

definition concurrent_answer :: "att_env \<Rightarrow> checkin_request \<Rightarrow> fresh_plan \<Rightarrow> att_db \<Rightarrow> (checkin_answer \<times> att_db) result" where
  "concurrent_answer env rq p db =
     (case row_of_day db (ci_user rq) (fp_date p) of None \<Rightarrow> Inl PlainError
      | Some r \<Rightarrow>
          require (ar_check_in_at r \<noteq> None) PlainError
           (let same = (ci_key rq \<noteq> None \<and> ar_checkin_key r = ci_key rq)
            in require (\<not> (same \<and> present (ct_request_hash (ar_trust r)) \<and> ct_request_hash (ar_trust r) \<noteq> ci_hash env rq))
                 (AppError 409 ''IDEMPOTENCY_KEY_REUSED'') (Inr (AlreadyRecorded r same, db))))"

fun checkin_commit :: "att_env \<Rightarrow> checkin_request \<Rightarrow> id \<Rightarrow> checkin_choice \<Rightarrow> att_db \<Rightarrow> (checkin_answer \<times> att_db) result" where
  "checkin_commit env rq newId (Duplicate r) db = Inr (AlreadyRecorded r True, db)"
| "checkin_commit env rq newId (Prompt r) db = Inr (CheckoutPrompt r, db)"
| "checkin_commit env rq newId (Stitch seen loc t e) db =
     Inr (ReEntered (minutes_between (coalesce (ar_check_out_at seen) t) t) True,
       update_row (ar_id seen) (\<lambda>r. record_evidence e ((reopen_row seen r)\<lparr>ar_location_id := coalesce_opt loc (ar_location_id seen),
         ar_last_heartbeat_at := None\<rparr>)) db)"
| "checkin_commit env rq newId (Away seen t e) db =
     (case away_reopen newId seen t (ci_count_away_as_break rq) (ci_away_shift_break_id rq)
             (\<lambda>r. record_evidence e (r\<lparr>ar_last_heartbeat_at := None\<rparr>)) db of
        (gap, _, db') \<Rightarrow> Inr (ReEntered gap False, db'))"
| "checkin_commit env rq newId (Fresh p) db =
     (case fp_existing p of
        Some x \<Rightarrow>
          if key_taken rq (Some (ar_id x)) db then concurrent_answer env rq p db
          else Inr (CheckedIn (ar_id x), checkin_effects env rq p (ar_id x) (update_row (ar_id x) (checked_in_row rq p) db))
      | None \<Rightarrow>
          if row_of_day db (ci_user rq) (fp_date p) \<noteq> None \<or> key_taken rq None db then concurrent_answer env rq p db
          else Inr (CheckedIn newId, checkin_effects env rq p newId
                 (db\<lparr>at_rows := at_rows db @ [checked_in_row rq p (blank_row newId (ci_user rq) (ci_org rq) (fp_location_id p) (fp_date p))]\<rparr>)))"

text \<open>The handler.  A device proof is consumed before the rest of the request is checked and stays
  consumed when that fails, so the state comes with the verdict.\<close>

definition checkin :: "att_env \<Rightarrow> bool \<Rightarrow> checkin_request \<Rightarrow> id \<Rightarrow> instant \<Rightarrow> att_db \<Rightarrow> checkin_answer result \<times> att_db" where
  "checkin env remote_enabled rq newId receivedAt db =
     (if ci_type rq = ''remote'' \<and> \<not> remote_enabled then (Inl ForbiddenError, db)
      else case checkin_time (ae_clock env) rq receivedAt of
        Inl e \<Rightarrow> (Inl e, db)
      | Inr tm \<Rightarrow>
          (case verifyDeviceProof (ae_device env) (ae_json env) (ci_org rq) (ci_user rq) (ci_body rq) (ci_device_proof rq) receivedAt (at_devices db) of
             (v, devices) \<Rightarrow>
               (let db1 = db\<lparr>at_devices := devices\<rparr>;
                    qr_ok = (case ci_qr_code rq of None \<Rightarrow> False | Some q \<Rightarrow> verifyQrCode (ae_qr_hmac env) q (ci_org rq) receivedAt)
                in case bind_result (checkin_plan env qr_ok rq receivedAt v tm db1) (\<lambda>p. checkin_commit env rq newId p db1) of
                     Inl e \<Rightarrow> (Inl e, db1)
                   | Inr (a, db2) \<Rightarrow> (Inr a, db2))))"

subsection \<open>Wi-Fi events\<close>

definition heartbeat :: "att_env \<Rightarrow> id \<Rightarrow> id \<Rightarrow> string option \<Rightarrow> string option \<Rightarrow> instant \<Rightarrow> att_db \<Rightarrow> (string \<times> att_db) result" where
  "heartbeat env org user ip ssid now db =
     require (present ip \<or> present ssid) ValidationError
      (let ctx = orgTimeContext (ae_tz env) org (Some user) now db;
           ips = (case tc_location ctx of None \<Rightarrow> [] | Some l \<Rightarrow> loc_office_ips l);
           ssids = (case tc_location ctx of None \<Rightarrow> [] | Some l \<Rightarrow> loc_office_ssids l)
       in if ips = [] \<and> ssids = [] then Inr (''no_networks_configured'', db)
          else if \<not> isOfficeNetwork ip ssid ips ssids then Inr (''not_on_office_network'', db)
          else case row_of_day db user (tc_today ctx) of
                 None \<Rightarrow> Inr (''not_checked_in'', db)
               | Some r \<Rightarrow>
                   if ar_check_in_at r = None \<or> ar_check_out_at r \<noteq> None then Inr (''not_checked_in'', db)
                   else Inr (''heartbeat_accepted'', update_row (ar_id r) (\<lambda>x. x\<lparr>ar_last_heartbeat_at := Some now,
                          ar_last_heartbeat_ssid := ssid, ar_ip_checkout_pending_at := None\<rparr>) db))"

definition ip_checkin :: "att_env \<Rightarrow> id \<Rightarrow> id \<Rightarrow> string option \<Rightarrow> string option \<Rightarrow> id \<Rightarrow> instant \<Rightarrow> time_context \<Rightarrow> att_row option \<Rightarrow> att_db \<Rightarrow> string \<times> att_db" where
  "ip_checkin env org user ip ssid newId now ctx existing db =
     (if \<not> (case tc_org ctx of None \<Rightarrow> False | Some o' \<Rightarrow> og_wifi_auto_checkin o') then (''disabled'', db)
      else if policy_enabled (location_policy ctx) then (''manual_checkin_required'', db)
      else (let l = assess_arrival (ae_tz env) (tc_org ctx) (tc_timezone ctx) now (approved_leave db user (tc_today ctx))
                      (effectiveShiftForUser user org (tc_today ctx) db);
                stamp = (\<lambda>r. (with_arrival now ''auto_ip'' l r)\<lparr>ar_ip_detected := coalesce_opt ip (ar_ip_detected r), ar_last_heartbeat_at := Some now,
                   ar_last_heartbeat_ssid := ssid, ar_location_id := coalesce_opt (map_option loc_id (tc_location ctx)) (ar_location_id r)\<rparr>);
                db1 = (case existing of
                   Some r \<Rightarrow> update_row (ar_id r) stamp db
                 | None \<Rightarrow> db\<lparr>at_rows := at_rows db @ [stamp (blank_row newId user org None (tc_today ctx))]\<rparr>);
                db2 = (if lt_status l = ''late'' then notify_manager user ''attendance_late'' user db1 else db1);
                db3 = (if 30 < lt_early_minutes l then notify_manager user ''attendance_early_in'' user db2 else db2)
            in (''checked_in'', log_effect (OrgEvent ''attendance_changed'') db3)))"

definition ip_event ::
    "att_env \<Rightarrow> id \<Rightarrow> id \<Rightarrow> string \<Rightarrow> string option \<Rightarrow> string option \<Rightarrow> bool \<Rightarrow> string option \<Rightarrow> id \<Rightarrow> instant \<Rightarrow> att_db \<Rightarrow> (string \<times> att_db) result" where
  "ip_event env org user event ip ssid countAway awayId newId now db =
     require (event \<noteq> []) ValidationError (require (present ip \<or> present ssid) ValidationError
      (let ctx = orgTimeContext (ae_tz env) org (Some user) now db;
           ips = (case tc_location ctx of None \<Rightarrow> [] | Some l \<Rightarrow> loc_office_ips l);
           ssids = (case tc_location ctx of None \<Rightarrow> [] | Some l \<Rightarrow> loc_office_ssids l);
           existing = row_of_day db user (tc_today ctx);
           stamp = (\<lambda>r. r\<lparr>ar_last_heartbeat_at := Some now, ar_last_heartbeat_ssid := ssid\<rparr>);
           changed = log_effect (OrgEvent ''attendance_changed'')
       in if ips = [] \<and> ssids = [] then Inr (''no_networks_configured'', db)
          else if \<not> isOfficeNetwork ip ssid ips ssids \<or> event \<noteq> ''match'' then Inr (''none'', db)
          else if (case existing of None \<Rightarrow> True | Some r \<Rightarrow> ar_check_in_at r = None)
          then Inr (ip_checkin env org user ip ssid newId now ctx existing db)
          else (let r = the existing in
            if was_auto_out existing then
              (if gap_forgiven (tc_org ctx) r now
               then Inr (''re_entered'', changed (update_row (ar_id r) (\<lambda>x. stamp (reopen_row r x)) db))
               else (case away_reopen newId r now countAway awayId stamp db of (_, _, db') \<Rightarrow> Inr (''re_entered'', changed db')))
            else Inr (''already_in'', update_row (ar_id r) (\<lambda>x. (stamp x)\<lparr>ar_ip_checkout_pending_at := None\<rparr>) db))))"

subsection \<open>Override and review\<close>

definition override_row :: "id \<Rightarrow> string \<Rightarrow> instant option \<Rightarrow> instant option \<Rightarrow> att_row \<Rightarrow> att_row" where
  "override_row actor reason inAt outAt r =
     (let checkIn = coalesce_opt inAt (ar_check_in_at r) in
      r\<lparr>ar_is_overridden := True, ar_override_by := Some actor, ar_override_reason := Some reason, ar_check_in_at := checkIn,
        ar_check_out_at := coalesce_opt outAt (ar_check_out_at r),
        ar_hours_worked := (case (outAt, checkIn) of (Some t, Some c) \<Rightarrow> Some (calcHoursWorked c t) | _ \<Rightarrow> ar_hours_worked r)\<rparr>)"

definition override_attendance :: "id \<Rightarrow> id \<Rightarrow> id \<Rightarrow> string \<Rightarrow> instant option \<Rightarrow> instant option \<Rightarrow> att_db \<Rightarrow> att_db result" where
  "override_attendance org actor i reason inAt outAt db =
     require (reason \<noteq> []) ValidationError
      (case find_first (\<lambda>r. ar_id r = i \<and> ar_org_id r = org) (at_rows db) of None \<Rightarrow> Inl NotFoundError
       | Some r \<Rightarrow> Inr (log_effect (OrgEvent ''attendance_changed'') (log_effect (Audit ''attendance.override'' i)
           (update_row i (override_row actor reason inAt outAt) db))))"

definition resolve_review :: "id \<Rightarrow> id \<Rightarrow> id \<Rightarrow> string \<Rightarrow> string \<Rightarrow> instant \<Rightarrow> att_db \<Rightarrow> att_db result" where
  "resolve_review org actor i decision note now db =
     (let flagged = (\<lambda>r. ar_id r = i \<and> ar_org_id r = org \<and> ct_requires_review (ar_trust r)) in
      case find_first flagged (at_rows db) of None \<Rightarrow> Inl NotFoundError
      | Some r \<Rightarrow>
          require (0 < count_where flagged (at_rows db)) (AppError 409 ''STALE_REVIEW'')
           (Inr (log_effect (OrgEvent ''attendance_changed'') (log_effect (Notify (ar_user_id r) ''attendance_checkin_review'' i)
             (log_effect (Audit (''attendance.checkin_review.'' @ decision) i)
               (db\<lparr>at_rows := update_where flagged (\<lambda>x. x\<lparr>ar_trust := (ar_trust x)\<lparr>ct_requires_review := False\<rparr>,
                  ar_review := \<lparr>rv_at = Some now, rv_by = Some actor, rv_decision = Some decision, rv_note = Some note\<rparr>\<rparr>) (at_rows db)\<rparr>))))))"

subsection \<open>Late notices\<close>

definition submit_notice :: "att_env \<Rightarrow> id \<Rightarrow> id \<Rightarrow> id \<Rightarrow> string \<Rightarrow> string \<Rightarrow> string \<Rightarrow> instant \<Rightarrow> att_db \<Rightarrow> att_db result" where
  "submit_notice env org user newId date expected reason now db =
     require (date \<noteq> [] \<and> expected \<noteq> [] \<and> reason \<noteq> []) ValidationError
      (require (5 \<le> length (trim reason)) ValidationError
       (bind_result (parseDateOnly date) (\<lambda>d.
          require (case split_on (CHR '':'') expected of [h, m] \<Rightarrow> length h \<in> {1, 2} \<and> length m = 2 \<and> list_all is_digit h \<and> list_all is_digit m
                     | _ \<Rightarrow> False) ValidationError
           (require (tc_today (orgTimeContext (ae_tz env) org None now db) \<le> d) ValidationError
             (let mine = (\<lambda>n. nt_user_id n = user \<and> nt_date n = d);
                  db1 = (if find_first mine (at_notices db) = None
                    then db\<lparr>at_notices := at_notices db @ [\<lparr>nt_id = newId, nt_user_id = user, nt_org_id = org, nt_date = d,
                       nt_expected_time = expected, nt_reason = trim reason, nt_status = ''pending'', nt_acknowledged_by = None, nt_acknowledged_at = None\<rparr>]\<rparr>
                    else db\<lparr>at_notices := update_where mine (\<lambda>n. n\<lparr>nt_expected_time := expected, nt_reason := trim reason,
                       nt_status := ''pending'', nt_acknowledged_by := None, nt_acknowledged_at := None\<rparr>) (at_notices db)\<rparr>)
              in Inr (notify_manager user ''late_notice'' user db1))))))"

definition acknowledge_notice :: "id \<Rightarrow> id \<Rightarrow> id \<Rightarrow> instant \<Rightarrow> att_db \<Rightarrow> att_db result" where
  "acknowledge_notice org actor i now db =
     (case find_first (\<lambda>n. nt_id n = i \<and> nt_org_id n = org) (at_notices db) of None \<Rightarrow> Inl NotFoundError
      | Some n \<Rightarrow>
          require (nt_status n \<noteq> ''cancelled'') ValidationError
           (Inr (log_effect (Notify (nt_user_id n) ''late_notice_ack'' i)
             (db\<lparr>at_notices := update_where (\<lambda>x. nt_id x = i) (\<lambda>x. x\<lparr>nt_status := ''acknowledged'', nt_acknowledged_by := Some actor, nt_acknowledged_at := Some now\<rparr>) (at_notices db)\<rparr>))))"

definition cancel_notice :: "id \<Rightarrow> id \<Rightarrow> att_db \<Rightarrow> att_db result" where
  "cancel_notice user i db =
     (case find_first (\<lambda>n. nt_id n = i \<and> nt_user_id n = user) (at_notices db) of None \<Rightarrow> Inl NotFoundError
      | Some n \<Rightarrow>
          require (nt_status n \<noteq> ''acknowledged'') ValidationError
           (Inr (db\<lparr>at_notices := update_where (\<lambda>x. nt_id x = i) (\<lambda>x. x\<lparr>nt_status := ''cancelled''\<rparr>) (at_notices db)\<rparr>)))"

end
