(* ===== verification/AttendanceJobs.thy ===== *)
theory AttendanceJobs
  imports CheckIn
begin

text \<open>
  The background jobs of \<^verbatim>\<open>src/src/jobs/scheduler.ts\<close> that end attendance days and manage breaks: the
  expiry of heartbeats, the automatic checkout at the end of a shift, the sweep of records that were
  never checked out, and the automatic start and end of fixed breaks.  A job reads its candidates once
  and then works through them; every record is one step on the current state.
\<close>

subsection \<open>Helpers\<close>

definition truthy :: "string option \<Rightarrow> string option" where
  "truthy s = (if present s then s else None)"

definition user_row :: "att_db \<Rightarrow> id \<Rightarrow> att_user option" where
  "user_row db u = find_first (\<lambda>x. us_id x = u) (at_users db)"

definition org_row :: "att_db \<Rightarrow> id \<Rightarrow> att_org option" where
  "org_row db i = find_first (\<lambda>x. og_id x = i) (at_orgs db)"

definition user_org :: "att_db \<Rightarrow> att_row \<Rightarrow> att_org option" where
  "user_org db r = Option.bind (user_row db (ar_user_id r)) (\<lambda>u. org_row db (us_org_id u))"

definition record_zone :: "att_db \<Rightarrow> att_row \<Rightarrow> string" where
  "record_zone db r =
     coalesce (coalesce_opt (truthy (Option.bind (Option.bind (ar_location_id r) (\<lambda>i. find_first (\<lambda>l. loc_id l = i) (at_locations db))) loc_timezone))
       (coalesce_opt (truthy (Option.bind (Option.bind (user_row db (ar_user_id r)) us_primary_location) loc_timezone))
         (truthy (Option.bind (user_org db r) og_timezone)))) ''UTC''"

definition resolveScheduledEnd :: "tzdb \<Rightarrow> att_db \<Rightarrow> att_row \<Rightarrow> string \<Rightarrow> instant \<Rightarrow> instant option" where
  "resolveScheduledEnd tz db r z checkOut =
     coalesce_opt (ar_scheduled_end r) (map_option (\<lambda>s. snd (scheduledWindow tz (as_core s) (Some z) checkOut)) (shift_by_id db (ar_shift_id r)))"

definition activeBreakDueAt :: "tzdb \<Rightarrow> att_db \<Rightarrow> att_row \<Rightarrow> string \<Rightarrow> instant option" where
  "activeBreakDueAt tz db r z =
     (case find_first (\<lambda>b. br_break_end b = None) (breaks_of db (ar_id r)) of None \<Rightarrow> None
      | Some active \<Rightarrow>
          (case template_of (all_templates db) active of None \<Rightarrow> None
           | Some p \<Rightarrow>
               if sb_break_kind p = ''fixed'' \<and> present (sb_break_end_time p) then
                 (let fin = the (sb_break_end_time p); dueAt = scheduledInstant tz (ar_date r) fin (Some z)
                  in Some (if present (sb_break_start_time p) \<and> hhmmToMins fin \<le> hhmmToMins (the (sb_break_start_time p))
                           then dueAt + 24 * 60 * 60 * 1000 else dueAt))
               else if sb_break_kind p = ''flexible'' \<and> sb_break_minutes p \<noteq> 0
               then Some (br_break_start active + sb_break_minutes p * 60000) else None))"

definition auto_overtime :: "att_shift option \<Rightarrow> bool" where
  "auto_overtime s = (case s of None \<Rightarrow> False | Some x \<Rightarrow> as_overtime_enabled x \<and> \<not> as_overtime_requires_approval x)"

text \<open>Breaks are settled first, in their own writes; then the row is updated from the settlement.\<close>

definition settle_for :: "att_env \<Rightarrow> (nat \<Rightarrow> id) \<Rightarrow> att_row \<Rightarrow> string \<Rightarrow> instant \<Rightarrow> att_db \<Rightarrow> break_settlement \<times> att_db" where
  "settle_for env newId r z checkOut db =
     (case find_first (\<lambda>x. ar_id x = ar_id r) (at_rows db) of
        None \<Rightarrow> (settlement 0 0, db)
      | Some cur \<Rightarrow>
          (case settleBreaks (ae_tz env) z newId (all_templates db) checkOut (row_view db cur) (at_breaks db) of
             (b, rows) \<Rightarrow> (b, db\<lparr>at_breaks := rows\<rparr>)))"

definition auto_out :: "att_env \<Rightarrow> att_db \<Rightarrow> att_row \<Rightarrow> string \<Rightarrow> instant \<Rightarrow> instant \<Rightarrow> break_settlement \<Rightarrow> att_row \<Rightarrow> att_row" where
  "auto_out env db r z checkIn checkOut breaks x =
     (let hours = of_int (checkOut - checkIn) / 3600000;
          extra = netExtraMinutesAfterShift (all_templates db) (ar_id r) checkOut (resolveScheduledEnd (ae_tz env) db r z checkOut) (at_breaks db);
          counted = auto_overtime (shift_by_id db (ar_shift_id r))
      in x\<lparr>ar_check_out_at := Some checkOut, ar_hours_worked := Some (toFixed2 hours), ar_status := ''out'',
           ar_net_hours_worked := Some (netHoursWorked hours (unpaidMins breaks)),
           ar_overtime_hours := (if counted then toFixed2 (of_int extra / 60) else 0),
           ar_extra_office_minutes := (if counted then 0 else extra),
           ar_break_minutes := totalMins breaks, ar_paid_break_minutes := paidMins breaks, ar_auto_checked_out := True,
           ar_last_heartbeat_at := None\<rparr>)"

definition auto_early :: "att_env \<Rightarrow> att_db \<Rightarrow> att_row \<Rightarrow> string \<Rightarrow> instant \<Rightarrow> att_row \<Rightarrow> att_row" where
  "auto_early env db r z checkOut x =
     (let shift = map_option as_core (shift_by_id db (ar_shift_id r));
          early = max 0 (earlyOutMinutes (ae_tz env) checkOut shift (Some z) -
            of_int (coalesce (Option.bind shift early_checkout_tolerance_mins) 0))
      in x\<lparr>ar_early_out_minutes := early,
           ar_adherence_score := coalesce_opt (adherenceScore (of_int (ar_late_minutes r)) early shift) (ar_adherence_score x)\<rparr>)"

subsection \<open>Heartbeat expiry\<close>

definition heartbeat_candidate :: "instant \<Rightarrow> att_db \<Rightarrow> att_row \<Rightarrow> bool" where
  "heartbeat_candidate now db r \<longleftrightarrow> ar_check_out_at r = None \<and> ar_status r \<in> {''in'', ''late''} \<and>
     (case ar_last_heartbeat_at r of None \<Rightarrow> False | Some h \<Rightarrow> h \<le> now - 10 * 60000) \<and>
     (case user_org db r of None \<Rightarrow> False | Some o' \<Rightarrow> og_wifi_auto_checkout o')"

definition heartbeat_due :: "att_env \<Rightarrow> instant \<Rightarrow> att_db \<Rightarrow> att_row \<Rightarrow> instant option" where
  "heartbeat_due env now db r =
     (let z = record_zone db r; grace = coalesce (Option.bind (user_org db r) og_heartbeat_grace_mins) 20 in
      case ar_last_heartbeat_at r of None \<Rightarrow> None
      | Some h \<Rightarrow>
          if ar_date r \<noteq> dateOnlyInTz (ae_tz env) now (Some z) \<or> now - h < grace * 60000 then None
          else (let due = activeBreakDueAt (ae_tz env) db r z; expiry = h + grace * 60000 in
                case due of None \<Rightarrow> Some expiry
                | Some d \<Rightarrow> if now < d + grace * 60000 then None else Some (if expiry < d then d else expiry)))"

definition heartbeat_expire :: "att_env \<Rightarrow> (nat \<Rightarrow> id) \<Rightarrow> instant \<Rightarrow> att_row \<Rightarrow> att_db \<Rightarrow> att_db" where
  "heartbeat_expire env newId now r db =
     (case (heartbeat_due env now db r, ar_check_in_at r) of
        (Some checkOut, Some checkIn) \<Rightarrow>
          (let z = record_zone db r;
               (breaks, db1) = settle_for env newId r z checkOut db;
               still = (\<lambda>x. ar_id x = ar_id r \<and> ar_check_out_at x = None \<and> ar_last_heartbeat_at x = ar_last_heartbeat_at r \<and>
                          (case user_org db x of None \<Rightarrow> False | Some o' \<Rightarrow> og_wifi_auto_checkout o'))
           in db1\<lparr>at_rows := update_where still
                (\<lambda>x. (auto_early env db1 r z checkOut (auto_out env db1 r z checkIn checkOut breaks x))\<lparr>ar_ip_checkout_pending_at := None\<rparr>) (at_rows db1)\<rparr>)
      | _ \<Rightarrow> db)"

fun run_over :: "(nat \<Rightarrow> 'r \<Rightarrow> 's \<Rightarrow> 's) \<Rightarrow> nat \<Rightarrow> 'r list \<Rightarrow> 's \<Rightarrow> 's" where
  "run_over f k [] s = s"
| "run_over f k (r # rs) s = run_over f (Suc k) rs (f k r s)"

definition heartbeat_job :: "att_env \<Rightarrow> (nat \<Rightarrow> nat \<Rightarrow> id) \<Rightarrow> instant \<Rightarrow> att_db \<Rightarrow> att_db" where
  "heartbeat_job env newId now db =
     run_over (\<lambda>k r. heartbeat_expire env (newId k) now r) 0 (filter (heartbeat_candidate now db) (at_rows db)) db"

subsection \<open>Checkout at the end of the shift\<close>

definition near_today :: "instant \<Rightarrow> int \<Rightarrow> int \<Rightarrow> att_row \<Rightarrow> bool" where
  "near_today now before after r \<longleftrightarrow> day_of_instant now - before \<le> ar_date r \<and> ar_date r \<le> day_of_instant now + after"

definition shift_out_candidate :: "instant \<Rightarrow> att_row \<Rightarrow> bool" where
  "shift_out_candidate now r \<longleftrightarrow> near_today now 1 1 r \<and> ar_check_out_at r = None \<and> ar_check_in_at r \<noteq> None \<and>
     ar_status r \<in> {''in'', ''late'', ''remote''} \<and> ar_shift_id r \<noteq> None"

definition shift_auto_checkout :: "att_env \<Rightarrow> (nat \<Rightarrow> id) \<Rightarrow> instant \<Rightarrow> att_row \<Rightarrow> att_db \<Rightarrow> att_db" where
  "shift_auto_checkout env newId now r db =
     (let z = record_zone db r; shift = map_option as_core (shift_by_id db (ar_shift_id r)) in
      case (shift, ar_check_in_at r) of
        (Some s, Some checkIn) \<Rightarrow>
          if ar_date r \<noteq> dateOnlyInTz (ae_tz env) now (Some z) \<or> \<not> shiftAutoCheckoutDue (ae_tz env) shift (Some z) now then db
          else (let sched = snd (scheduledWindow (ae_tz env) s (Some z) now);
                    checkOut = (if checkIn < sched then sched else now);
                    (breaks, db1) = settle_for env newId r z checkOut db
                in update_row (ar_id r) (\<lambda>x. auto_early env db1 r z checkOut (auto_out env db1 r z checkIn checkOut breaks x)) db1)
      | _ \<Rightarrow> db)"

definition shift_out_job :: "att_env \<Rightarrow> (nat \<Rightarrow> nat \<Rightarrow> id) \<Rightarrow> instant \<Rightarrow> att_db \<Rightarrow> att_db" where
  "shift_out_job env newId now db =
     run_over (\<lambda>k r. shift_auto_checkout env (newId k) now r) 0 (filter (shift_out_candidate now) (at_rows db)) db"

subsection \<open>Records that were never checked out\<close>

definition stale_candidate :: "instant \<Rightarrow> att_row \<Rightarrow> bool" where
  "stale_candidate now r \<longleftrightarrow> near_today now 2 0 r \<and> ar_check_in_at r \<noteq> None \<and> ar_check_out_at r = None"

definition stale_checkout :: "att_env \<Rightarrow> (nat \<Rightarrow> id) \<Rightarrow> instant \<Rightarrow> att_row \<Rightarrow> att_db \<Rightarrow> att_db" where
  "stale_checkout env newId now r db =
     (let z = record_zone db r; yesterday = dateOnlyInTz (ae_tz env) (now - 24 * 60 * 60000) (Some z) in
      case ar_check_in_at r of None \<Rightarrow> db
      | Some checkIn \<Rightarrow>
          if ar_date r \<noteq> yesterday then db
          else (let checkOut = coalesce (ar_scheduled_end r) (yesterday * day_ms + 23 * 3600000 + 59 * 60000);
                    effectiveOut = (if checkIn < checkOut then checkOut else checkIn);
                    (breaks, db1) = settle_for env newId r z effectiveOut db
                in update_row (ar_id r) (auto_out env db1 r z checkIn effectiveOut breaks) db1))"

definition stale_job :: "att_env \<Rightarrow> (nat \<Rightarrow> nat \<Rightarrow> id) \<Rightarrow> instant \<Rightarrow> att_db \<Rightarrow> att_db" where
  "stale_job env newId now db =
     run_over (\<lambda>k r. stale_checkout env (newId k) now r) 0 (filter (stale_candidate now) (at_rows db)) db"

subsection \<open>Automatic fixed breaks\<close>

definition auto_break_candidate :: "instant \<Rightarrow> att_row \<Rightarrow> bool" where
  "auto_break_candidate now r \<longleftrightarrow> near_today now 1 1 r \<and> ar_check_in_at r \<noteq> None \<and> ar_check_out_at r = None \<and>
     ar_status r \<in> {''in'', ''late'', ''remote''} \<and> ar_shift_id r \<noteq> None"

text \<open>One template of one record.  \<open>seen\<close> are the breaks of the record as they were read with it: they are
  not read again between the templates of a record.\<close>

definition auto_break :: "att_env \<Rightarrow> id \<Rightarrow> instant \<Rightarrow> att_row \<Rightarrow> break_row list \<Rightarrow> shift_break \<Rightarrow> att_db \<Rightarrow> att_db" where
  "auto_break env newId now r seen t db =
     (let z = record_zone db r; today = dateOnlyInTz (ae_tz env) now (Some z); nowMins = minutesOfDayInTz (ae_tz env) now (Some z) in
      if (sb_applies_days t \<noteq> [] \<and> weekdayOf today \<notin> set (sb_applies_days t)) \<or> (sb_exception_dates t \<noteq> [] \<and> today \<in> set (sb_exception_dates t)) \<or>
         sb_break_kind t = ''flexible'' \<or> \<not> present (sb_break_start_time t) \<or> \<not> present (sb_break_end_time t) then db
      else (let bStart = hhmmToMins (the (sb_break_start_time t)); bEnd = hhmmToMins (the (sb_break_end_time t)) in
            case find_first (\<lambda>b. br_shift_break_id b = Some (sb_id t)) seen of
              None \<Rightarrow>
                if bStart \<le> nowMins \<and> nowMins < bEnd \<and> sb_auto_start t \<and> (\<forall>b\<in>set seen. br_break_end b \<noteq> None)
                then db\<lparr>at_breaks := at_breaks db @ [\<lparr>br_id = newId, br_attendance_id = ar_id r, br_shift_break_id = Some (sb_id t),
                  br_break_start = now, br_break_end = None, br_duration_mins = None, br_is_paid = sb_is_paid t, br_counted_as_extra = False,
                  br_break_type = (if sb_name t = [] then ''shift_break'' else sb_name t), br_auto_started = True, br_auto_ended = False,
                  br_late_return_minutes = None, br_limit_exceeded = False, br_source = ''system'', br_wifi_on_at_end = None,
                  br_start_key = None, br_start_hash = None, br_end_key = None, br_end_hash = None\<rparr>]\<rparr>
                else db
            | Some b \<Rightarrow>
                if br_auto_started b \<and> br_break_end b = None \<and> bEnd \<le> nowMins
                then (let rows = update_where (\<lambda>x. br_id x = br_id b) (\<lambda>x. x\<lparr>br_break_end := Some now,
                          br_duration_mins := Some (max 0 (minutes_between (br_break_start b) now)), br_auto_ended := True\<rparr>) (at_breaks db);
                          totals = calculateBreakTotals (all_templates db) (ar_id r) rows
                      in update_row (ar_id r) (\<lambda>x. x\<lparr>ar_break_minutes := totalMins totals, ar_paid_break_minutes := paidMins totals\<rparr>)
                           (db\<lparr>at_breaks := rows\<rparr>))
                else db))"

definition auto_break_record :: "att_env \<Rightarrow> (nat \<Rightarrow> id) \<Rightarrow> instant \<Rightarrow> att_row \<Rightarrow> break_row list \<Rightarrow> att_db \<Rightarrow> att_db" where
  "auto_break_record env newId now r seen db =
     (if ar_date r \<noteq> dateOnlyInTz (ae_tz env) now (Some (record_zone db r)) then db
      else run_over (\<lambda>k t. auto_break env (newId k) now r seen t) 0
             (case shift_by_id db (ar_shift_id r) of None \<Rightarrow> [] | Some s \<Rightarrow> as_breaks s) db)"

definition auto_break_job :: "att_env \<Rightarrow> (nat \<Rightarrow> nat \<Rightarrow> id) \<Rightarrow> instant \<Rightarrow> att_db \<Rightarrow> att_db" where
  "auto_break_job env newId now db =
     run_over (\<lambda>k r. auto_break_record env (newId k) now r (breaks_of db (ar_id r))) 0 (filter (auto_break_candidate now) (at_rows db)) db"

end
