(* ===== verification/AttendanceInv.thy ===== *)
theory AttendanceInv
  imports AttendanceJobs
begin

text \<open>
  What holds of attendance days whatever requests and jobs do to them.  A step is the commit of a
  request with any plan (so any stale read is covered), a Wi-Fi event, an override, a review, or one
  record of a checkout job.
\<close>

subsection \<open>The invariant\<close>

definition day_key :: "att_row \<Rightarrow> id \<times> day" where
  "day_key r = (ar_user_id r, ar_date r)"

definition is_open_for :: "id \<Rightarrow> break_row \<Rightarrow> bool" where
  "is_open_for i b \<longleftrightarrow> br_attendance_id b = i \<and> br_break_end b = None"

definition row_ok :: "break_row list \<Rightarrow> att_row \<Rightarrow> bool" where
  "row_ok bs r \<longleftrightarrow> (ar_check_out_at r \<noteq> None \<and> \<not> ar_is_overridden r \<longrightarrow> count_where (is_open_for (ar_id r)) bs = 0) \<and>
     (ar_auto_checked_out r \<longrightarrow> ar_check_out_at r \<noteq> None)"

definition day_inv :: "att_db \<Rightarrow> bool" where
  "day_inv db \<longleftrightarrow> distinct (map day_key (at_rows db)) \<and> distinct (map ar_id (at_rows db)) \<and>
     (\<forall>i. count_where (is_open_for i) (at_breaks db) \<le> 1) \<and> (\<forall>r\<in>set (at_rows db). row_ok (at_breaks db) r)"

definition same_row :: "(att_row \<Rightarrow> att_row) \<Rightarrow> bool" where
  "same_row f \<longleftrightarrow> (\<forall>r. ar_id (f r) = ar_id r \<and> ar_user_id (f r) = ar_user_id r \<and> ar_date (f r) = ar_date r)"

lemma day_inv_cong:
  "at_rows db' = at_rows db \<Longrightarrow> at_breaks db' = at_breaks db \<Longrightarrow> day_inv db' = day_inv db"
  by (simp add: day_inv_def)

lemma day_inv_map:
  assumes inv: "day_inv db" and f: "same_row f" and rows: "at_rows db' = update_where p f (at_rows db)"
    and opens: "\<And>i. count_where (is_open_for i) (at_breaks db') \<le> count_where (is_open_for i) (at_breaks db)"
    and ok: "\<And>r. r \<in> set (at_rows db) \<Longrightarrow> p r \<Longrightarrow> row_ok (at_breaks db) r \<Longrightarrow> row_ok (at_breaks db') (f r)"
  shows "day_inv db'"
proof -
  have keys: "map day_key (at_rows db') = map day_key (at_rows db)" "map ar_id (at_rows db') = map ar_id (at_rows db)"
    using f by (auto simp: rows update_where_def day_key_def same_row_def)
  have keep: "row_ok (at_breaks db') r" if "row_ok (at_breaks db) r" for r
    using that opens[of "ar_id r"] by (auto simp: row_ok_def)
  have "\<forall>r\<in>set (at_rows db'). row_ok (at_breaks db') r"
  proof
    fix r' assume "r' \<in> set (at_rows db')"
    then obtain r where r: "r \<in> set (at_rows db)" "r' = (if p r then f r else r)"
      unfolding rows update_where_def set_map by (elim imageE)
    then have "row_ok (at_breaks db) r" using inv by (simp add: day_inv_def)
    then show "row_ok (at_breaks db') r'" using r ok keep by simp
  qed
  then show ?thesis using inv opens order_trans unfolding day_inv_def keys by blast
qed

lemma day_inv_update:
  assumes "day_inv db" "same_row f" "\<And>r. r \<in> set (at_rows db) \<Longrightarrow> ar_id r = i \<Longrightarrow> row_ok (at_breaks db) r \<Longrightarrow> row_ok (at_breaks db) (f r)"
  shows "day_inv (update_row i f db)"
  by (rule day_inv_map[OF assms(1,2), where p = "\<lambda>r. ar_id r = i"]) (use assms(3) in \<open>auto simp: update_row_def\<close>)

lemma day_inv_breaks:
  assumes "day_inv db" "\<And>i. count_where (is_open_for i) bs \<le> count_where (is_open_for i) (at_breaks db)"
  shows "day_inv (db\<lparr>at_breaks := bs\<rparr>)"
  by (rule day_inv_map[OF assms(1), of "\<lambda>r. r" _ "\<lambda>_. False"]) (use assms(2) in \<open>auto simp: same_row_def update_where_def\<close>)

lemma day_inv_new:
  assumes "day_inv db" "ar_id r \<notin> ar_id ` set (at_rows db)" "row_of_day db (ar_user_id r) (ar_date r) = None"
    "ar_check_out_at r = None" "\<not> ar_auto_checked_out r"
  shows "day_inv (db\<lparr>at_rows := at_rows db @ [r]\<rparr>)"
  using assms by (auto simp: day_inv_def row_of_day_def find_first_None day_key_def row_ok_def)

lemma count_update:
  assumes "\<And>b. b \<in> set bs \<Longrightarrow> p b \<Longrightarrow> q (f b) \<Longrightarrow> q b"
  shows "count_where q (update_where p f bs) \<le> count_where q bs"
  using assms
proof (induction bs)
  case (Cons b bs)
  have "count_where q (update_where p f bs) \<le> count_where q bs" using Cons by simp
  moreover have "q (if p b then f b else b) \<Longrightarrow> q b" using Cons.prems by (simp split: if_splits)
  ultimately show ?case by (auto simp: count_where_def update_where_def)
qed (simp add: count_where_def update_where_def)

lemma count_append: "count_where q (xs @ ys) = count_where q xs + count_where q ys"
  by (simp add: count_where_def)

lemma log_simps [simp]:
  "at_rows (log_effect e db) = at_rows db" "at_breaks (log_effect e db) = at_breaks db"
  "at_rows (notify_manager u k a db) = at_rows db" "at_breaks (notify_manager u k a db) = at_breaks db"
  "at_rows (notifyOfflineAttendanceReview u i db) = at_rows db" "at_breaks (notifyOfflineAttendanceReview u i db) = at_breaks db"
  by (simp_all add: log_effect_def notify_manager_def notifyOfflineAttendanceReview_def split: option.splits)

lemma log_inv [simp]:
  "day_inv (log_effect e db) = day_inv db" "day_inv (notify_manager u k a db) = day_inv db"
  "day_inv (notifyOfflineAttendanceReview u i db) = day_inv db"
  by (rule day_inv_cong; simp)+

subsection \<open>Breaks\<close>

lemma settle_open:
  assumes "settleBreaks tz z newId ts t a rows = (b, rows')"
  shows "count_where (is_open_for i) rows' \<le> count_where (is_open_for i) rows" "count_where (is_open_for (ba_id a)) rows' = 0"
proof -
  have rows': "rows' = close_open tz z ts (ba_id a) t rows @ deduct_skipped tz z newId t a (close_open tz z ts (ba_id a) t rows)"
    using assms by (simp add: settleBreaks_def Let_def split: prod.splits)
  have new: "count_where (is_open_for j) (deduct_skipped tz z newId t a rs) = 0" for j rs
    by (auto simp: count_where_zero is_open_for_def dest!: deduct_shape)
  have "count_where (is_open_for i) (close_open tz z ts (ba_id a) t rows) \<le> count_where (is_open_for i) rows"
    unfolding close_open_def by (rule count_update) (simp add: is_open_for_def close_break_def Let_def)
  then show "count_where (is_open_for i) rows' \<le> count_where (is_open_for i) rows" by (simp add: rows' count_append new)
  have "count_where (is_open_for (ba_id a)) (close_open tz z ts (ba_id a) t rows) = 0"
    using closed_breaks[of tz z ts "ba_id a" t rows] by (auto simp: count_where_zero is_open_for_def)
  then show "count_where (is_open_for (ba_id a)) rows' = 0" by (simp add: rows' count_append new)
qed

definition harmless :: "(att_row \<Rightarrow> att_row) \<Rightarrow> bool" where
  "harmless f \<longleftrightarrow> same_row f \<and> (\<forall>r. ar_check_out_at (f r) = ar_check_out_at r \<and> ar_is_overridden (f r) = ar_is_overridden r \<and>
     ar_auto_checked_out (f r) = ar_auto_checked_out r)"

lemma settle_totals:
  assumes "settleBreaks tz z newId ts t a rows = (b, rows')"
  shows "b = calculateBreakTotals ts (ba_id a) rows'"
  using assms totals_after[of ts a "close_open tz z ts (ba_id a) t rows" tz z newId t]
  by (auto simp: settleBreaks_def Let_def)

lemma harmless_ok: "harmless f \<Longrightarrow> row_ok bs (f r) = row_ok bs r"
  by (simp add: harmless_def row_ok_def same_row_def)

lemma harmless_inv: "day_inv db \<Longrightarrow> harmless f \<Longrightarrow> day_inv (update_row i f db)"
  by (rule day_inv_update) (auto simp: harmless_ok harmless_def)

lemma mark_harmless [simp]: "harmless (mark_offline rq review)" "harmless (\<lambda>r. mark_offline rq review (end_figures p totals r))"
  by (simp_all add: harmless_def same_row_def mark_offline_def end_figures_def Let_def)

lemma tell_inv [simp]: "day_inv (tell_reviewer rq review i db) = day_inv db"
  by (simp add: tell_reviewer_def)

lemma start_inv:
  assumes inv: "day_inv db" and c: "break_start_commit env rq newId p db = Inr (b, db')"
  shows "day_inv db'"
proof -
  define db1 where "db1 = db\<lparr>at_breaks := at_breaks db @ [b]\<rparr>"
  have act: "active_row db (bp_row p) (aq_org rq) (aq_user rq) \<noteq> None"
    and none: "\<forall>x\<in>set (breaks_of db (bp_row p)). br_break_end x \<noteq> None"
    and b: "br_attendance_id b = bp_row p"
    and db': "db' = tell_reviewer rq (bp_review p) (bp_row p) (update_row (bp_row p) (mark_offline rq (bp_review p)) db1)"
    using c by (auto simp: break_start_commit_def Let_def new_break_def db1_def)
  obtain r where r: "r \<in> set (at_rows db)" "ar_id r = bp_row p" "ar_check_out_at r = None"
    using act find_first_Some unfolding active_row_def by fastforce
  have zero: "count_where (is_open_for (bp_row p)) (at_breaks db) = 0"
    using none by (auto simp: count_where_zero is_open_for_def breaks_of_def)
  have others: "count_where (is_open_for i) (at_breaks db1) = count_where (is_open_for i) (at_breaks db)" if "i \<noteq> bp_row p" for i
    using that b by (simp add: db1_def count_where_def is_open_for_def)
  have "row_ok (at_breaks db1) x" if x: "x \<in> set (at_rows db)" for x
  proof (cases "ar_id x = bp_row p")
    case True
    then have "x = r" using x r inv by (simp add: day_inv_def distinct_map inj_on_def)
    then show ?thesis using r(3) inv r(1) by (auto simp: row_ok_def day_inv_def)
  next
    case False
    then show ?thesis using inv x others[OF False] by (simp add: row_ok_def day_inv_def)
  qed
  moreover have "count_where (is_open_for i) (at_breaks db1) \<le> 1" for i
  proof (cases "i = bp_row p")
    case True
    then show ?thesis using zero by (simp add: db1_def count_where_def)
  next
    case False
    then show ?thesis using inv others[OF False] by (simp add: day_inv_def)
  qed
  ultimately have "day_inv db1" using inv by (simp add: day_inv_def db1_def)
  then show ?thesis by (simp add: db' harmless_inv)
qed

lemma end_inv:
  assumes inv: "day_inv db" and c: "break_end_commit env rq wifi p db = Inr db'"
  shows "day_inv db'"
proof -
  obtain b where b: "find_first (is_open_break p) (at_breaks db) = Some b"
    using c by (auto simp: break_end_commit_def Let_def split: option.splits)
  define rows where "rows = update_where (is_open_break p) (ended_break env rq wifi p (max 0 (minutes_between (br_break_start b) (ep_at p)))) (at_breaks db)"
  have "day_inv (db\<lparr>at_breaks := rows\<rparr>)"
    unfolding rows_def by (rule day_inv_breaks[OF inv], rule count_update) (simp add: is_open_for_def ended_break_def)
  then show ?thesis using c by (auto simp: break_end_commit_def Let_def b harmless_inv simp flip: rows_def)
qed

subsection \<open>Checkout\<close>

lemma row_ok_closed: "count_where (is_open_for (ar_id r)) bs = 0 \<Longrightarrow> (ar_auto_checked_out r \<longrightarrow> ar_check_out_at r \<noteq> None) \<Longrightarrow> row_ok bs r"
  by (simp add: row_ok_def)

lemma row_view_id [simp]: "ba_id (row_view db r) = ar_id r"
  by (simp add: row_view_def)

lemma update_twice:
  "(\<And>x. p x \<Longrightarrow> q (f x)) \<Longrightarrow> (\<And>x. p x \<Longrightarrow> q x) \<Longrightarrow>
   update_where q g (update_where p f xs) = update_where q (\<lambda>x. g (if p x then f x else x)) xs"
  by (induction xs) (auto simp: update_where_def)

lemma figures_same [simp]:
  "ar_id (checkout_figures p off b e r) = ar_id r" "ar_user_id (checkout_figures p off b e r) = ar_user_id r"
  "ar_date (checkout_figures p off b e r) = ar_date r" "ar_check_out_at (checkout_figures p off b e r) = ar_check_out_at r"
  "ar_auto_checked_out (checkout_figures p off b e r) = ar_auto_checked_out r" "ar_is_overridden (checkout_figures p off b e r) = ar_is_overridden r"
  by (simp_all add: checkout_figures_def Let_def)

lemma claimed_same [simp]:
  "ar_id (claimed_row env rq p r) = ar_id r" "ar_user_id (claimed_row env rq p r) = ar_user_id r" "ar_date (claimed_row env rq p r) = ar_date r"
  "ar_check_out_at (claimed_row env rq p r) = Some (cp_at p)" "ar_auto_checked_out (claimed_row env rq p r) = ar_auto_checked_out r"
  by (simp_all add: claimed_row_def)

text \<open>What a successful checkout writes to the rows and the breaks.\<close>

lemma checkout_shape:
  assumes c: "checkout_commit env rq newId p db = Inr db'"
  obtains r0 breaks rows extra where "find_first (is_claimable rq (ar_id (cp_row p))) (at_rows db) = Some r0"
    "settleBreaks (ae_tz env) (cp_timezone p) newId (all_templates db) (cp_at p)
       (row_view (db\<lparr>at_rows := update_where (is_claimable rq (ar_id (cp_row p))) (claimed_row env rq p) (at_rows db)\<rparr>) (claimed_row env rq p r0))
       (at_breaks db) = (breaks, rows)"
    "extra = netExtraMinutesAfterShift (all_templates db) (ar_id (cp_row p)) (cp_at p) (cp_scheduled_end p) rows"
    "at_rows db' = update_where (\<lambda>x. ar_id x = ar_id (cp_row p)) (checkout_figures p (aq_offline rq) breaks extra)
       (update_where (is_claimable rq (ar_id (cp_row p))) (claimed_row env rq p) (at_rows db))"
    "at_breaks db' = rows"
proof -
  let ?i = "ar_id (cp_row p)"
  let ?db1 = "db\<lparr>at_rows := update_where (is_claimable rq ?i) (claimed_row env rq p) (at_rows db)\<rparr>"
  obtain r0 where r0: "find_first (is_claimable rq ?i) (at_rows db) = Some r0"
    using c by (auto simp: checkout_commit_def Let_def split: option.splits)
  obtain breaks rows where s: "settleBreaks (ae_tz env) (cp_timezone p) newId (all_templates db) (cp_at p) (row_view ?db1 (claimed_row env rq p r0)) (at_breaks db) = (breaks, rows)"
    by (rule prod.exhaust)
  show ?thesis
    by (rule that[OF r0 s refl]) (use c in \<open>auto simp: checkout_commit_def r0 s Let_def update_row_def split: prod.splits option.splits if_splits\<close>)
qed

lemma checkout_inv:
  assumes inv: "day_inv db" and c: "checkout_commit env rq newId p db = Inr db'"
  shows "day_inv db'"
proof (rule checkout_shape[OF c])
  let ?i = "ar_id (cp_row p)"
  fix r0 breaks rows extra
  assume r0: "find_first (is_claimable rq ?i) (at_rows db) = Some r0"
    and s: "settleBreaks (ae_tz env) (cp_timezone p) newId (all_templates db) (cp_at p)
       (row_view (db\<lparr>at_rows := update_where (is_claimable rq ?i) (claimed_row env rq p) (at_rows db)\<rparr>) (claimed_row env rq p r0))
       (at_breaks db) = (breaks, rows)"
    and rows': "at_rows db' = update_where (\<lambda>x. ar_id x = ?i) (checkout_figures p (aq_offline rq) breaks extra)
       (update_where (is_claimable rq ?i) (claimed_row env rq p) (at_rows db))"
    and breaks': "at_breaks db' = rows"
  have i: "ar_id r0 = ?i" using find_first_Some[OF r0] by (simp add: is_claimable_def)
  have merged: "at_rows db' = update_where (\<lambda>x. ar_id x = ?i)
      (\<lambda>x. checkout_figures p (aq_offline rq) breaks extra (if is_claimable rq ?i x then claimed_row env rq p x else x)) (at_rows db)"
    unfolding rows' by (rule update_twice) (simp_all add: is_claimable_def)
  have closed: "count_where (is_open_for ?i) rows = 0" using settle_open(2)[OF s] i by simp
  show ?thesis
  proof (rule day_inv_map[OF inv _ merged])
    show "same_row (\<lambda>x. checkout_figures p (aq_offline rq) breaks extra (if is_claimable rq ?i x then claimed_row env rq p x else x))"
      by (simp add: same_row_def)
    show "count_where (is_open_for j) (at_breaks db') \<le> count_where (is_open_for j) (at_breaks db)" for j
      unfolding breaks' by (rule settle_open(1)[OF s])
    show "row_ok (at_breaks db') (checkout_figures p (aq_offline rq) breaks extra (if is_claimable rq ?i r then claimed_row env rq p r else r))"
      if "ar_id r = ?i" "row_ok (at_breaks db) r" for r
      using that closed by (intro row_ok_closed) (simp_all add: breaks' row_ok_def)
  qed
qed

subsection \<open>Check-in and Wi-Fi events\<close>

lemma evidence_same [simp]:
  "ar_id (record_evidence e r) = ar_id r" "ar_user_id (record_evidence e r) = ar_user_id r" "ar_date (record_evidence e r) = ar_date r"
  "ar_check_out_at (record_evidence e r) = ar_check_out_at r" "ar_auto_checked_out (record_evidence e r) = ar_auto_checked_out r"
  "ar_is_overridden (record_evidence e r) = ar_is_overridden r" "ar_check_in_at (record_evidence e r) = ar_check_in_at r"
  "ar_status (record_evidence e r) = ar_status r" "ar_late_minutes (record_evidence e r) = ar_late_minutes r"
  by (simp_all add: record_evidence_def)

lemma arrival_same [simp]:
  "ar_id (with_arrival t k l r) = ar_id r" "ar_user_id (with_arrival t k l r) = ar_user_id r" "ar_date (with_arrival t k l r) = ar_date r"
  "ar_check_out_at (with_arrival t k l r) = ar_check_out_at r" "ar_auto_checked_out (with_arrival t k l r) = ar_auto_checked_out r"
  "ar_is_overridden (with_arrival t k l r) = ar_is_overridden r"
  by (simp_all add: with_arrival_def)

lemma reopen_ok: "row_ok bs (reopen_row seen r)"
  by (simp add: row_ok_def reopen_row_def)

lemma blank_open [simp]:
  "ar_check_out_at (blank_row i u o' l d) = None" "ar_auto_checked_out (blank_row i u o' l d) = False"
  "ar_id (blank_row i u o' l d) = i" "ar_user_id (blank_row i u o' l d) = u" "ar_date (blank_row i u o' l d) = d"
  by (simp_all add: blank_row_def)

definition reopens :: "(att_row \<Rightarrow> att_row) \<Rightarrow> bool" where
  "reopens f \<longleftrightarrow> same_row f \<and> (\<forall>r. ar_check_out_at (f r) = None \<and> \<not> ar_auto_checked_out (f r))"

lemma reopens_inv: "day_inv db \<Longrightarrow> reopens f \<Longrightarrow> day_inv (update_row i f db)"
  by (rule day_inv_update) (auto simp: reopens_def row_ok_def)

lemma away_inv:
  assumes "day_inv db" "away_reopen newId seen t c s stamp db = (gap, over, db')" "harmless stamp"
  shows "day_inv db'"
proof -
  obtain g l db1 where a: "createAwayGapBreak newId seen t c s db = (g, l, db1)" by (rule prod_cases3)
  have "day_inv db1" using a assms(1)
    by (auto simp: createAwayGapBreak_def Let_def intro!: day_inv_breaks)
      (simp_all add: count_where_def is_open_for_def)
  moreover have "reopens (\<lambda>r. stamp ((reopen_row seen r)\<lparr>ar_break_minutes := x, ar_paid_break_minutes := y\<rparr>))" for x y
    using assms(3) by (simp add: reopens_def harmless_def same_row_def reopen_row_def)
  ultimately show ?thesis using assms(2) by (auto simp: away_reopen_def a Let_def reopens_inv)
qed

lemma resolve_alerts_rows [simp]:
  "at_rows (resolvePriorNoShowAlerts tz user org i date z now db) = at_rows db"
  "at_breaks (resolvePriorNoShowAlerts tz user org i date z now db) = at_breaks db"
  by (simp_all add: resolvePriorNoShowAlerts_def Let_def)

lemma effects_inv [simp]: "day_inv (checkin_effects env rq p i db) = day_inv db"
  by (rule day_inv_cong)
    (simp_all add: checkin_effects_def Let_def if_distrib[of at_rows] if_distrib[of at_breaks] split del: if_split cong: if_cong)

lemma concurrent_same: "concurrent_answer env rq p db = Inr (a, db') \<Longrightarrow> db' = db"
  by (auto simp: concurrent_answer_def Let_def split: option.splits)

lemma checked_in_harmless: "harmless (checked_in_row rq p)"
  by (simp add: harmless_def same_row_def checked_in_row_def)

lemma checkin_inv:
  assumes "day_inv db" "checkin_commit env rq newId plan db = Inr (a, db')" "newId \<notin> ar_id ` set (at_rows db)"
  shows "day_inv db'"
proof (cases plan)
  case (Stitch seen loc t e)
  have "reopens (\<lambda>r. record_evidence e ((reopen_row seen r)\<lparr>ar_location_id := coalesce_opt loc (ar_location_id seen), ar_last_heartbeat_at := None\<rparr>))"
    by (simp add: reopens_def same_row_def reopen_row_def)
  then show ?thesis using assms Stitch by (auto intro: reopens_inv)
next
  case (Away seen t e)
  let ?stamp = "\<lambda>r. record_evidence e (r\<lparr>ar_last_heartbeat_at := None\<rparr>)"
  obtain gap over d where a: "away_reopen newId seen t (ci_count_away_as_break rq) (ci_away_shift_break_id rq) ?stamp db = (gap, over, d)"
    by (rule prod_cases3)
  have "day_inv d" by (rule away_inv[OF assms(1) a]) (simp add: harmless_def same_row_def)
  then show ?thesis using assms(2) Away a by simp
next
  case (Fresh p)
  have new: "day_inv (db\<lparr>at_rows := at_rows db @ [checked_in_row rq p (blank_row newId (ci_user rq) (ci_org rq) (fp_location_id p) (fp_date p))]\<rparr>)"
    if "row_of_day db (ci_user rq) (fp_date p) = None"
    by (rule day_inv_new[OF assms(1)]) (use that assms(3) in \<open>simp_all add: checked_in_row_def\<close>)
  show ?thesis using assms(1,2) Fresh new
    by (auto split: option.splits if_splits dest: concurrent_same intro: harmless_inv[OF _ checked_in_harmless])
qed (use assms in auto)

lemma heartbeat_inv:
  assumes "day_inv db" "heartbeat env org user ip ssid now db = Inr (a, db')"
  shows "day_inv db'"
proof -
  have "harmless (\<lambda>x. x\<lparr>ar_last_heartbeat_at := t, ar_last_heartbeat_ssid := s, ar_ip_checkout_pending_at := None\<rparr>)" for t s
    by (simp add: harmless_def same_row_def)
  then show ?thesis using assms by (auto simp: heartbeat_def Let_def split: if_splits option.splits intro: harmless_inv)
qed

lemma ip_checkin_inv:
  assumes "day_inv db" "ip_checkin env org user ip ssid newId now ctx (row_of_day db user (tc_today ctx)) db = (a, db')"
    "newId \<notin> ar_id ` set (at_rows db)"
  shows "day_inv db'"
proof -
  let ?stamp = "\<lambda>l r. (with_arrival now ''auto_ip'' l r)\<lparr>ar_ip_detected := coalesce_opt ip (ar_ip_detected r), ar_last_heartbeat_at := Some now,
     ar_last_heartbeat_ssid := ssid, ar_location_id := coalesce_opt (map_option loc_id (tc_location ctx)) (ar_location_id r)\<rparr>"
  have h: "harmless (?stamp l)" for l by (simp add: harmless_def same_row_def)
  have new: "day_inv (db\<lparr>at_rows := at_rows db @ [?stamp l (blank_row newId user org None (tc_today ctx))]\<rparr>)"
    if "row_of_day db user (tc_today ctx) = None" for l
    by (rule day_inv_new[OF assms(1)]) (use that assms(3) in simp_all)
  show ?thesis using assms(1,2) new
    by (auto simp: ip_checkin_def Let_def split: option.splits if_splits intro: harmless_inv[OF _ h])
qed

lemma ip_event_inv:
  assumes "day_inv db" "ip_event env org user event ip ssid c s newId now db = Inr (a, db')" "newId \<notin> ar_id ` set (at_rows db)"
  shows "day_inv db'"
proof -
  let ?stamp = "\<lambda>r. r\<lparr>ar_last_heartbeat_at := Some now, ar_last_heartbeat_ssid := ssid\<rparr>"
  have h: "harmless ?stamp" "harmless (\<lambda>x. (?stamp x)\<lparr>ar_ip_checkout_pending_at := None\<rparr>)"
    and o: "reopens (\<lambda>x. ?stamp (reopen_row r x))" for r
    by (simp_all add: harmless_def reopens_def same_row_def reopen_row_def)
  show ?thesis using assms(1,2) ip_checkin_inv[OF assms(1) _ assms(3)] away_inv[OF assms(1) _ h(1)]
    by (auto simp: ip_event_def Let_def simp del: split_paired_All split: if_splits prod.splits
        intro: harmless_inv[OF _ h(2)] reopens_inv[OF _ o])
qed

subsection \<open>Override, review and jobs\<close>

lemma override_inv:
  assumes "day_inv db" "override_attendance org actor i reason inAt outAt db = Inr db'"
  shows "day_inv db'"
proof -
  have "day_inv (update_row i (override_row actor reason inAt outAt) db)"
    by (rule day_inv_update[OF assms(1)])
      (auto simp: same_row_def override_row_def row_ok_def Let_def coalesce_opt_def split: option.split)
  then show ?thesis using assms(2) by (auto simp: override_attendance_def split: option.splits)
qed

lemma review_inv:
  assumes "day_inv db" "resolve_review org actor i decision note now db = Inr db'"
  shows "day_inv db'"
proof -
  have "day_inv (db\<lparr>at_rows := update_where q (\<lambda>x. x\<lparr>ar_trust := (ar_trust x)\<lparr>ct_requires_review := False\<rparr>, ar_review := v\<rparr>) (at_rows db)\<rparr>)" for q v
    by (rule day_inv_map[OF assms(1), of "\<lambda>x. x\<lparr>ar_trust := (ar_trust x)\<lparr>ct_requires_review := False\<rparr>, ar_review := v\<rparr>" _ q])
      (auto simp: row_ok_def same_row_def)
  then show ?thesis using assms(2) by (auto simp: resolve_review_def Let_def split: option.splits)
qed

lemma auto_out_same [simp]:
  "ar_id (auto_out env db r z ci co b x) = ar_id x" "ar_user_id (auto_out env db r z ci co b x) = ar_user_id x"
  "ar_date (auto_out env db r z ci co b x) = ar_date x" "ar_check_out_at (auto_out env db r z ci co b x) = Some co"
  "ar_id (auto_early env db r z co x) = ar_id x" "ar_user_id (auto_early env db r z co x) = ar_user_id x"
  "ar_date (auto_early env db r z co x) = ar_date x" "ar_check_out_at (auto_early env db r z co x) = ar_check_out_at x"
  by (simp_all add: auto_out_def auto_early_def Let_def)

text \<open>After the breaks of a row are settled, any rewriting that leaves the row checked out is fine.\<close>

lemma settled_inv:
  assumes inv: "day_inv db" and s: "settle_for env newId r z t db = (b, db1)"
    and f: "same_row f" "\<And>x. ar_check_out_at (f x) \<noteq> None"
    and rows: "at_rows db' = update_where p f (at_rows db1)" "at_breaks db' = at_breaks db1" and p: "\<And>x. p x \<Longrightarrow> ar_id x = ar_id r"
  shows "day_inv db'"
proof (cases "find_first (\<lambda>x. ar_id x = ar_id r) (at_rows db)")
  case None
  then have d: "db1 = db" using s by (simp add: settle_for_def)
  have "\<forall>x\<in>set (at_rows db). \<not> p x" using None p by (auto simp: find_first_None)
  then have "at_rows db' = at_rows db" unfolding rows d update_where_def by (intro map_idI) auto
  then show ?thesis using inv day_inv_cong[of db' db] rows(2) d by simp
next
  case (Some cur)
  obtain b' bs where st: "settleBreaks (ae_tz env) z newId (all_templates db) t (row_view db cur) (at_breaks db) = (b', bs)" by (rule prod.exhaust)
  then have d: "db1 = db\<lparr>at_breaks := bs\<rparr>" using s Some by (simp add: settle_for_def)
  have i: "ar_id cur = ar_id r" using find_first_Some[OF Some] by simp
  show ?thesis
  proof (rule day_inv_map[OF inv f(1), of db' p])
    show "at_rows db' = update_where p f (at_rows db)" using rows(1) d by simp
    show "count_where (is_open_for j) (at_breaks db') \<le> count_where (is_open_for j) (at_breaks db)" for j
      using settle_open(1)[OF st] rows(2) d by simp
    show "row_ok (at_breaks db') (f x)" if "p x" for x
      using settle_open(2)[OF st] rows(2) d p[OF that] f i by (intro row_ok_closed) (simp_all add: same_row_def)
  qed
qed

lemma expire_inv:
  assumes "day_inv db" shows "day_inv (heartbeat_expire env newId now r db)"
proof (cases "heartbeat_due env now db r")
  case (Some co)
  show ?thesis
  proof (cases "ar_check_in_at r")
    case ci: (Some ci)
    obtain b db1 where s: "settle_for env newId r (record_zone db r) co db = (b, db1)" by (rule prod.exhaust)
    show ?thesis unfolding heartbeat_expire_def Some ci prod.case option.case Let_def s
      by (rule settled_inv[OF assms s, where f = "\<lambda>x. (auto_early env db1 r (record_zone db r) co
            (auto_out env db1 r (record_zone db r) ci co b x))\<lparr>ar_ip_checkout_pending_at := None\<rparr>" and
            p = "\<lambda>x. ar_id x = ar_id r \<and> ar_check_out_at x = None \<and> ar_last_heartbeat_at x = ar_last_heartbeat_at r \<and>
              (case user_org db x of None \<Rightarrow> False | Some o' \<Rightarrow> og_wifi_auto_checkout o')"]) (auto simp: same_row_def)
  qed (simp add: heartbeat_expire_def Some assms)
qed (simp add: heartbeat_expire_def assms)

lemma shift_out_inv:
  assumes "day_inv db" shows "day_inv (shift_auto_checkout env newId now r db)"
proof -
  have step: "day_inv (update_row (ar_id r) (\<lambda>x. auto_early env db1 r z co (auto_out env db1 r z ci co b x)) db1)"
    if "settle_for env newId r z co db = (b, db1)" for z co ci b db1
    by (rule settled_inv[OF assms that, where f = "\<lambda>x. auto_early env db1 r z co (auto_out env db1 r z ci co b x)"])
      (auto simp: same_row_def update_row_def)
  show ?thesis using assms step by (auto simp: shift_auto_checkout_def Let_def split: option.splits prod.splits)
qed

lemma stale_inv:
  assumes "day_inv db" shows "day_inv (stale_checkout env newId now r db)"
proof -
  have step: "day_inv (update_row (ar_id r) (auto_out env db1 r z ci co b) db1)"
    if "settle_for env newId r z co db = (b, db1)" for z co ci b db1
    by (rule settled_inv[OF assms that, where f = "auto_out env db1 r z ci co b"]) (auto simp: same_row_def update_row_def)
  show ?thesis using assms step by (auto simp: stale_checkout_def Let_def split: option.splits prod.splits)
qed

subsection \<open>All steps\<close>

inductive day_step :: "att_db \<Rightarrow> att_db \<Rightarrow> bool" where
  check_in: "checkin_commit env rq newId plan db = Inr (a, db') \<Longrightarrow> newId \<notin> ar_id ` set (at_rows db) \<Longrightarrow> day_step db db'"
| check_out: "checkout_commit env rq newIds cplan db = Inr db' \<Longrightarrow> day_step db db'"
| break_start: "break_start_commit env rq' newId splan db = Inr (b, db') \<Longrightarrow> day_step db db'"
| break_end: "break_end_commit env rq' wifi eplan db = Inr db' \<Longrightarrow> day_step db db'"
| beat: "heartbeat env org user ip ssid now db = Inr (answer, db') \<Longrightarrow> day_step db db'"
| wifi_event: "ip_event env org user event ip ssid c s newId now db = Inr (answer, db') \<Longrightarrow> newId \<notin> ar_id ` set (at_rows db) \<Longrightarrow> day_step db db'"
| override: "override_attendance org actor i reason inAt outAt db = Inr db' \<Longrightarrow> day_step db db'"
| review: "resolve_review org actor i decision note now db = Inr db' \<Longrightarrow> day_step db db'"
| expire: "day_step db (heartbeat_expire env newIds now r db)"
| shift_end: "day_step db (shift_auto_checkout env newIds now r db)"
| stale: "day_step db (stale_checkout env newIds now r db)"

inductive_cases day_stepE: "day_step db db'"

lemma day_step_inv: "day_step db db' \<Longrightarrow> day_inv db \<Longrightarrow> day_inv db'"
proof (induction rule: day_step.induct)
  case check_in then show ?case by (blast intro: checkin_inv)
next
  case wifi_event then show ?case by (blast intro: ip_event_inv)
qed (blast intro: checkout_inv start_inv end_inv heartbeat_inv override_inv review_inv expire_inv shift_out_inv stale_inv)+

lemma day_run_inv: "day_step\<^sup>*\<^sup>* db db' \<Longrightarrow> day_inv db \<Longrightarrow> day_inv db'"
  by (induction rule: rtranclp_induct) (auto intro: day_step_inv)


subsection \<open>A worked day\<close>

definition day_env :: att_env where
  "day_env = \<lparr>ae_tz = \<lparr>toZonedTime = (\<lambda>t z. t), fromZonedTime = (\<lambda>w z. w)\<rparr>,
     ae_clock = \<lparr>cc_signature = (\<lambda>_. []), cc_encode = (\<lambda>_. []), cc_decode = (\<lambda>_. None)\<rparr>,
     ae_device = ex_crypto, ae_json = ex_json, ae_stringify = (\<lambda>_. []), ae_qr_hmac = (\<lambda>_. [])\<rparr>"

definition ex_lunch :: shift_break where
  "ex_lunch = \<lparr>sb_id = ''lunch'', sb_name = ''lunch'', sb_break_kind = ''fixed'', sb_break_minutes = 30, sb_break_start_time = Some ''12:00'',
     sb_break_end_time = Some ''12:30'', sb_after_minutes = 0, sb_is_paid = False, sb_paid_within_limit = True, sb_allowed_count_per_shift = 1,
     sb_allow_extra_breaks = True, sb_deduct_extra_time = True, sb_auto_start = True, sb_deduct_if_skipped = None, sb_applies_days = [],
     sb_exception_dates = []\<rparr>"

definition ex_shift :: att_shift where
  "ex_shift = \<lparr>as_id = ''s'', as_org_id = ''o'',
     as_core = \<lparr>start_time = ''09:00'', end_time = ''17:00'', late_tolerance_mins = None, early_checkout_tolerance_mins = None,
       auto_checkout = True, auto_checkout_buffer_mins = None\<rparr>,
     as_overtime_enabled = False, as_overtime_requires_approval = False, as_is_org_wide = True, as_is_default = False, as_is_published = True,
     as_active_days = [0, 1, 2, 3, 4, 5, 6], as_breaks = [ex_lunch]\<rparr>"

definition ex_office :: att_location where
  "ex_office = \<lparr>loc_id = ''l'', loc_org_id = ''o'', loc_timezone = None, loc_office_ips = [], loc_office_ssids = [''office''], loc_geofence = None,
     loc_is_main = True, loc_is_active = True\<rparr>"

definition ex_db :: att_db where
  "ex_db = \<lparr>at_orgs = [\<lparr>og_id = ''o'', og_timezone = None, og_late_threshold = None, og_gap_forgiveness_mins = None, og_attendance_security = None,
       og_wifi_auto_checkin = True, og_wifi_auto_checkout = True, og_heartbeat_grace_mins = None\<rparr>],
     at_users = [\<lparr>us_id = ''u'', us_org_id = ''o'', us_primary_location = Some ex_office, us_manager_id = Some ''m''\<rparr>],
     at_locations = [ex_office], at_shifts = [ex_shift], at_assignments = [], at_leaves = [], at_rows = [], at_breaks = [], at_timers = [],
     at_notices = [], at_remote = [], at_alerts = [], at_devices = no_devices, at_log = []\<rparr>"

text \<open>Minute \<open>m\<close> of 5 January 1970, a Monday.\<close>

definition ex_time :: "int \<Rightarrow> instant" where
  "ex_time m = 4 * 86400000 + m * 60000"

definition ex_online :: offline_event where
  "ex_online = \<lparr>offline = False, idempotency_key = [], client_event_at = None, attendance_clock_anchor = [], device_uptime_ms = None,
     server_anchor_uptime_ms = None, clock_epoch = [], server_anchor_epoch = []\<rparr>"

definition ex_checkin :: checkin_request where
  "ex_checkin = \<lparr>ci_user = ''u'', ci_org = ''o'', ci_type = ''manual'', ci_qr_code = None, ci_duration_type = ''full_day'',
     ci_count_away_as_break = False, ci_away_shift_break_id = None, ci_event = ex_online,
     ci_location = \<lparr>le_latitude = None, le_longitude = None, le_accuracy_m = None, le_is_mocked = False\<rparr>, ci_device_proof = None, ci_body = [],
     ci_ip = None\<rparr>"

definition ex_action :: action_request where
  "ex_action = \<lparr>aq_user = ''u'', aq_org = ''o'', aq_header_key = None, aq_event = ex_online, aq_body = []\<rparr>"

text \<open>Check-in at 9:20.\<close>

definition ex_in_plan :: checkin_choice where
  "ex_in_plan = (case checkin_plan day_env False ex_checkin (ex_time 560)
     \<lparr>pv_status = ''missing'', pv_device = None, pv_signature_verified = False, pv_review = False, pv_challenge = None\<rparr> (ex_time 560, False) ex_db of
     Inr p \<Rightarrow> p | Inl _ \<Rightarrow> Prompt (blank_row [] [] [] None 0))"

definition ex_in :: att_db where
  "ex_in = (case checkin_commit day_env ex_checkin ''r'' ex_in_plan ex_db of Inl _ \<Rightarrow> ex_db | Inr (a, d) \<Rightarrow> d)"

lemma ex_in_value: "map (\<lambda>r. (ar_status r, ar_late_minutes r, ar_scheduled_end r)) (at_rows ex_in) = [(''late'', 5, Some (ex_time 1020))]"
  by code_simp

text \<open>A break from 10:00.\<close>

definition ex_start_plan :: start_plan where
  "ex_start_plan = \<lparr>bp_row = ''r'', bp_policy = None, bp_type = ''rest'', bp_at = ex_time 600, bp_review = False\<rparr>"

definition ex_break :: att_db where
  "ex_break = (case break_start_commit day_env ex_action ''b'' ex_start_plan ex_in of Inr (b, d) \<Rightarrow> d | Inl _ \<Rightarrow> ex_db)"

definition succeeds :: "'a result \<Rightarrow> bool" where
  "succeeds r = (case r of Inl _ \<Rightarrow> False | Inr _ \<Rightarrow> True)"

lemma ex_break_run: "day_step\<^sup>*\<^sup>* ex_db ex_break"
proof -
  have s: "succeeds (checkin_commit day_env ex_checkin ''r'' ex_in_plan ex_db)"
    "succeeds (break_start_commit day_env ex_action ''b'' ex_start_plan ex_in)" by code_simp+
  obtain a where "checkin_commit day_env ex_checkin ''r'' ex_in_plan ex_db = Inr (a, ex_in)"
    using s(1) by (auto simp: succeeds_def ex_in_def split: sum.splits prod.splits)
  then have "day_step ex_db ex_in" by (rule day_step.check_in) (simp add: ex_db_def)
  moreover obtain b where "break_start_commit day_env ex_action ''b'' ex_start_plan ex_in = Inr (b, ex_break)"
    using s(2) by (auto simp: succeeds_def ex_break_def split: sum.splits prod.splits)
  then have "day_step ex_in ex_break" by (rule day_step.break_start)
  ultimately show ?thesis by (meson converse_rtranclp_into_rtranclp rtranclp.rtrancl_refl)
qed


end
