(* ===== verification/AttendanceProps.thy ===== *)
theory AttendanceProps
  imports AttendanceInv
begin

text \<open>
  What the attendance handlers promise: a record is checked out once and its figures agree with its
  breaks, the late flag and the late minutes never disagree, and what the handlers do on days that
  start before midnight, after an override and after an automatic checkout.
\<close>

subsection \<open>Checkout\<close>

definition close_day :: "id \<Rightarrow> id \<Rightarrow> id \<Rightarrow> att_env \<times> action_request \<times> (nat \<Rightarrow> id) \<times> checkout_data \<Rightarrow> att_db \<Rightarrow> att_db result" where
  "close_day org user i a db =
     (case a of (env, rq, newId, p) \<Rightarrow>
        require (aq_org rq = org \<and> aq_user rq = user \<and> ar_id (cp_row p) = i) NotFoundError (checkout_commit env rq newId p db))"

definition still_in :: "id \<Rightarrow> id \<Rightarrow> id \<Rightarrow> att_db \<Rightarrow> bool" where
  "still_in org user i db \<longleftrightarrow> (\<exists>r\<in>set (at_rows db). ar_id r = i \<and> ar_org_id r = org \<and> ar_user_id r = user \<and> ar_check_out_at r = None)"

lemma figures_org [simp]: "ar_org_id (checkout_figures p off b e r) = ar_org_id r" "ar_org_id (claimed_row env rq p r) = ar_org_id r"
  by (simp_all add: checkout_figures_def claimed_row_def Let_def)

lemma checkout_consumes:
  assumes c: "checkout_commit env rq newId p db = Inr db'"
  shows "still_in (aq_org rq) (aq_user rq) (ar_id (cp_row p)) db \<and> \<not> still_in (aq_org rq) (aq_user rq) (ar_id (cp_row p)) db'"
proof (rule checkout_shape[OF c])
  let ?i = "ar_id (cp_row p)"
  fix r0 breaks rows extra
  assume r0: "find_first (is_claimable rq ?i) (at_rows db) = Some r0"
    and rows': "at_rows db' = update_where (\<lambda>x. ar_id x = ?i) (checkout_figures p (aq_offline rq) breaks extra)
       (update_where (is_claimable rq ?i) (claimed_row env rq p) (at_rows db))"
  have "still_in (aq_org rq) (aq_user rq) ?i db" using find_first_Some[OF r0] by (auto simp: still_in_def is_claimable_def)
  moreover have "ar_check_out_at r \<noteq> None" if r: "r \<in> set (at_rows db')" "ar_id r = ?i" "ar_org_id r = aq_org rq" "ar_user_id r = aq_user rq" for r
  proof -
    obtain x where "x \<in> set (at_rows db)"
      "r = (let y = (if is_claimable rq ?i x then claimed_row env rq p x else x)
            in if ar_id y = ?i then checkout_figures p (aq_offline rq) breaks extra y else y)"
      using r(1) unfolding rows' update_where_def map_map comp_def set_map Let_def by (elim imageE)
    then show ?thesis using r(2-4) by (auto simp: Let_def is_claimable_def split: if_splits)
  qed
  ultimately show ?thesis unfolding still_in_def by blast
qed

interpretation day_end: single_shot "close_day org user i" "still_in org user i" for org user i
proof
  fix a db db'
  assume "close_day org user i a db = Inr db'"
  then show "still_in org user i db \<and> \<not> still_in org user i db'"
    using checkout_consumes by (auto simp: close_day_def split: prod.splits)
qed

lemma checkout_row:
  assumes c: "checkout_commit env rq newId p db = Inr db'" and r: "r \<in> set (at_rows db')" "ar_id r = ar_id (cp_row p)"
  shows "\<exists>extra. let totals = calculateBreakTotals (all_templates db) (ar_id r) (at_breaks db'); hours = calcHoursWorked (cp_check_in p) (cp_at p) in
    ar_hours_worked r = Some hours \<and> ar_net_hours_worked r = Some (netHoursWorked hours (unpaidMins totals)) \<and>
    ar_break_minutes r = totalMins totals \<and> ar_paid_break_minutes r = paidMins totals \<and> count_where (is_open_for (ar_id r)) (at_breaks db') = 0 \<and>
    ar_overtime_hours r = (if cp_auto_overtime p then toFixed2 (of_int extra / 60) else 0) \<and>
    ar_extra_office_minutes r = (if cp_auto_overtime p then 0 else extra) \<and>
    extra = netExtraMinutesAfterShift (all_templates db) (ar_id r) (cp_at p) (cp_scheduled_end p) (at_breaks db')"
proof (rule checkout_shape[OF c])
  let ?i = "ar_id (cp_row p)"
  fix r0 breaks rows extra
  assume r0: "find_first (is_claimable rq ?i) (at_rows db) = Some r0"
    and s: "settleBreaks (ae_tz env) (cp_timezone p) newId (all_templates db) (cp_at p)
       (row_view (db\<lparr>at_rows := update_where (is_claimable rq ?i) (claimed_row env rq p) (at_rows db)\<rparr>) (claimed_row env rq p r0))
       (at_breaks db) = (breaks, rows)"
    and extra: "extra = netExtraMinutesAfterShift (all_templates db) ?i (cp_at p) (cp_scheduled_end p) rows"
    and rows': "at_rows db' = update_where (\<lambda>x. ar_id x = ?i) (checkout_figures p (aq_offline rq) breaks extra)
       (update_where (is_claimable rq ?i) (claimed_row env rq p) (at_rows db))"
    and breaks': "at_breaks db' = rows"
  have i: "ar_id r0 = ?i" using find_first_Some[OF r0] by (simp add: is_claimable_def)
  have tot: "breaks = calculateBreakTotals (all_templates db) ?i rows"
    using settle_totals[OF s] i by simp
  obtain y where "r = checkout_figures p (aq_offline rq) breaks extra y"
    using r unfolding rows' update_where_def[of "\<lambda>x. ar_id x = ?i"] set_map by (elim imageE) (auto split: if_splits)
  then show ?thesis using r(2) tot extra breaks' settle_open(2)[OF s] i
    by (intro exI[of _ extra]) (simp add: checkout_figures_def Let_def)
qed

text \<open>C12: of any number of checkouts of a record, online, offline or concurrent, at most
  one succeeds; and a successful one leaves the record with no break in progress, with break minutes
  and net hours computed from exactly the break records that are stored, and with time after the shift
  counted either as overtime or as extra office time but not as both.\<close>

theorem checkout_once_settled:
  "fst (attempts (close_day org user i) acts db0) \<le> 1 \<and>
   (checkout_commit env rq newId p db = Inr db' \<and> r \<in> set (at_rows db') \<and> ar_id r = ar_id (cp_row p) \<longrightarrow>
      (let totals = calculateBreakTotals (all_templates db) (ar_id r) (at_breaks db') in
       (\<forall>b\<in>set (at_breaks db'). br_attendance_id b = ar_id r \<longrightarrow> br_break_end b \<noteq> None) \<and>
       ar_break_minutes r = totalMins totals \<and> ar_paid_break_minutes r = paidMins totals \<and>
       ar_net_hours_worked r = Some (netHoursWorked (calcHoursWorked (cp_check_in p) (cp_at p)) (unpaidMins totals)) \<and>
       (ar_overtime_hours r = 0 \<or> ar_extra_office_minutes r = 0)))"
proof (intro conjI impI)
  show "fst (attempts (close_day org user i) acts db0) \<le> 1" by (rule day_end.at_most_one)
  assume a: "checkout_commit env rq newId p db = Inr db' \<and> r \<in> set (at_rows db') \<and> ar_id r = ar_id (cp_row p)"
  show "let totals = calculateBreakTotals (all_templates db) (ar_id r) (at_breaks db') in
       (\<forall>b\<in>set (at_breaks db'). br_attendance_id b = ar_id r \<longrightarrow> br_break_end b \<noteq> None) \<and>
       ar_break_minutes r = totalMins totals \<and> ar_paid_break_minutes r = paidMins totals \<and>
       ar_net_hours_worked r = Some (netHoursWorked (calcHoursWorked (cp_check_in p) (cp_at p)) (unpaidMins totals)) \<and>
       (ar_overtime_hours r = 0 \<or> ar_extra_office_minutes r = 0)"
    using checkout_row[of env rq newId p db db' r] a
    by (auto simp: Let_def count_where_zero is_open_for_def split: if_splits)
qed

subsection \<open>Lateness\<close>

text \<open>A check-in is flagged late exactly when it carries late minutes, and these are the
  minutes beyond the tolerance; an early arrival is never late; and reopening the record after an
  automatic checkout restores the same flag.\<close>

theorem late_flag_consistent:
  assumes l: "l = assess_arrival tz org z now leave (Some s)"
    and tol: "0 \<le> lateThresholdFor (Some (late_tolerance_mins (as_core s))) (map_option og_late_threshold org)"
  shows "(lt_status l = ''late'' \<longleftrightarrow> 0 < lt_late_minutes l) \<and>
    lt_late_minutes l = max 0 (max 0 (minutes_between (fst (adjustedWindowForLeave tz (as_core s) z now leave)) now) -
      lateThresholdFor (Some (late_tolerance_mins (as_core s))) (map_option og_late_threshold org)) \<and>
    (0 < lt_early_minutes l \<longrightarrow> lt_status l = ''in'') \<and>
    reopened_status (with_arrival now kind l r) = ar_status (with_arrival now kind l r)"
proof -
  obtain a b where w: "adjustedWindowForLeave tz (as_core s) z now leave = (a, b)" by (rule prod.exhaust)
  have early: "minutes_between a now \<le> 0" if "now < a"
  proof -
    have "of_int (now - a) / (60000 :: rat) \<le> 0" using that by (simp add: divide_le_0_iff)
    then have "of_int (now - a) / (60000 :: rat) + 1 / 2 < 1" by linarith
    then have "\<lfloor>of_int (now - a) / (60000 :: rat) + 1 / 2\<rfloor> < 1" by (simp only: floor_less_one)
    then show ?thesis unfolding minutes_between_def js_round_def by linarith
  qed
  show ?thesis using early tol
    by (auto simp: l assess_arrival_def w Let_def reopened_status_def with_arrival_def split: if_splits)
qed

theorem late_flag_consistent_witness:
  "lt_status (assess_arrival (ae_tz day_env) None ''UTC'' (ex_time 560) None (Some ex_shift)) = ''late'' \<and>
   0 < lt_late_minutes (assess_arrival (ae_tz day_env) None ''UTC'' (ex_time 560) None (Some ex_shift))"
proof -
  have "lt_status (assess_arrival (ae_tz day_env) None ''UTC'' (ex_time 560) None (Some ex_shift)) = ''late''" by code_simp
  moreover have "0 \<le> lateThresholdFor (Some (late_tolerance_mins (as_core ex_shift))) (map_option og_late_threshold None)" by code_simp
  ultimately show ?thesis using late_flag_consistent[OF refl, of ex_shift None] by blast
qed

subsection \<open>An open record of another day\<close>

text \<open>A checkout that is not an offline event only looks at the record of the current
  local day; when there is none it is refused, whatever records of earlier days are still open.  An
  employee whose shift crosses midnight therefore cannot check out (or start or end a break) online
  after midnight.\<close>

theorem overnight_checkout_refused:
  assumes "\<not> aq_offline rq" "aq_key rq = None"
    and "\<forall>r\<in>set (at_rows db). ar_user_id r = aq_user rq \<longrightarrow>
       ar_date r \<noteq> tc_today (orgTimeContext (ae_tz env) (aq_org rq) (Some (aq_user rq)) now db)"
  shows "checkout_plan env rq now db = Inl ValidationError"
proof -
  have "row_of_day db (aq_user rq) (tc_today (orgTimeContext (ae_tz env) (aq_org rq) (Some (aq_user rq)) now db)) = None"
    using assms(3) by (auto simp: row_of_day_def find_first_None)
  moreover have "actionEventTime env rq now = Inr \<lparr>eventAt = now, requiresReview = False, anchorAt = None\<rparr>"
    using assms(1) by (simp add: actionEventTime_def resolveAttendanceEventTime_def aq_offline_def)
  ultimately show ?thesis using assms(1,2) by (simp add: checkout_plan_def Let_def)
qed

text \<open>A night shift: checked in on 5 January at 22:00, still open on 6 January at 6:00.\<close>

definition ex_night_row :: att_row where
  "ex_night_row = (blank_row ''r'' ''u'' ''o'' None 4)\<lparr>ar_check_in_at := Some (ex_time 1320), ar_status := ''in'', ar_check_in_type := ''manual''\<rparr>"

definition ex_night :: att_db where
  "ex_night = ex_db\<lparr>at_rows := [ex_night_row], at_shifts := []\<rparr>"

theorem overnight_checkout_refused_witness:
  "map ar_check_out_at (at_rows ex_night) = [None] \<and> map ar_user_id (at_rows ex_night) = [aq_user ex_action] \<and>
   checkout_plan day_env ex_action (ex_time 1800) ex_night = Inl ValidationError"
proof -
  have today: "tc_today (orgTimeContext (ae_tz day_env) (aq_org ex_action) (Some (aq_user ex_action)) (ex_time 1800) ex_night) = 5" by code_simp
  have "\<not> aq_offline ex_action" "aq_key ex_action = None" by code_simp+
  then have "checkout_plan day_env ex_action (ex_time 1800) ex_night = Inl ValidationError"
    by (rule overnight_checkout_refused) (simp add: today, simp add: ex_night_def ex_night_row_def blank_row_def)
  then show ?thesis by (simp add: ex_night_def ex_night_row_def blank_row_def ex_action_def)
qed

subsection \<open>A checkout that succeeds\<close>

definition ex_open_break :: break_row where
  "ex_open_break = new_break day_env ex_action ''b'' ex_start_plan False"

definition ex_day :: att_db where
  "ex_day = ex_db\<lparr>at_rows := [(blank_row ''r'' ''u'' ''o'' None 4)\<lparr>ar_check_in_at := Some (ex_time 540), ar_status := ''in''\<rparr>],
     at_breaks := [ex_open_break], at_shifts := []\<rparr>"

definition ex_close :: checkout_data where
  "ex_close = \<lparr>cp_row = blank_row ''r'' ''u'' ''o'' None 4, cp_check_in = ex_time 540, cp_at = ex_time 660, cp_review = False,
     cp_scheduled_end = None, cp_early_mins = 0, cp_score = None, cp_auto_overtime = False, cp_timezone = ''UTC'', cp_alert = False\<rparr>"

theorem checkout_once_settled_witness:
  "\<exists>db'. checkout_commit day_env ex_action (\<lambda>_. ''n'') ex_close ex_day = Inr db' \<and> map ar_id (at_rows db') = [''r''] \<and>
     list_all (\<lambda>r. ar_break_minutes r = totalMins (calculateBreakTotals (all_templates ex_day) (ar_id r) (at_breaks db'))) (at_rows db')"
proof -
  have s: "succeeds (checkout_commit day_env ex_action (\<lambda>_. ''n'') ex_close ex_day)" by code_simp
  then obtain db' where c: "checkout_commit day_env ex_action (\<lambda>_. ''n'') ex_close ex_day = Inr db'"
    by (auto simp: succeeds_def split: sum.splits)
  have ids: "map ar_id (at_rows db') = [''r'']"
  proof (rule checkout_shape[OF c])
    fix r0 breaks rows extra
    assume "at_rows db' = update_where (\<lambda>x. ar_id x = ar_id (cp_row ex_close)) (checkout_figures ex_close (aq_offline ex_action) breaks extra)
       (update_where (is_claimable ex_action (ar_id (cp_row ex_close))) (claimed_row day_env ex_action ex_close) (at_rows ex_day))"
    then show ?thesis by (simp add: update_where_def ex_day_def)
  qed
  have "ar_break_minutes r = totalMins (calculateBreakTotals (all_templates ex_day) (ar_id r) (at_breaks db'))" if r: "r \<in> set (at_rows db')" for r
  proof -
    have "ar_id r = ar_id (cp_row ex_close)" using ids r by (auto simp: map_eq_Cons_conv ex_close_def)
    then show ?thesis
      using checkout_once_settled[of "''o''" "''u''" "''r''" "[]" ex_day day_env ex_action "\<lambda>_. ''n''" ex_close ex_day db' r] c r
      by (simp add: Let_def)
  qed
  then show ?thesis using c ids by (auto simp: list_all_iff)
qed

subsection \<open>After an override, and after an automatic checkout\<close>

text \<open>Setting a checkout time by override leaves a running break open; from then on nobody can end it.\<close>

lemma override_strands_break:
  assumes "distinct (map ar_id (at_rows db))" "override_attendance org actor i reason inAt (Some t) db = Inr db'"
  shows "at_breaks db' = at_breaks db \<and>
    (\<forall>env rq wifi p. ar_id (ep_row p) = i \<longrightarrow> break_end_commit env rq wifi p db' = Inl (AppError 409 ''CHECKED_OUT''))"
proof -
  have rows: "at_rows db' = update_where (\<lambda>r. ar_id r = i) (override_row actor reason inAt (Some t)) (at_rows db)" and b: "at_breaks db' = at_breaks db"
    using assms(2) by (auto simp: override_attendance_def update_row_def split: option.splits)
  have "ar_check_out_at r = Some t" if r: "r \<in> set (at_rows db')" "ar_id r = i" for r
  proof -
    obtain x where "r = (if ar_id x = i then override_row actor reason inAt (Some t) x else x)"
      using r(1) unfolding rows update_where_def set_map by (elim imageE)
    then show ?thesis using r(2) by (cases "ar_id x = i") (simp_all add: override_row_def Let_def)
  qed
  then have "active_row db' i o' u = None" for o' u by (auto simp: active_row_def find_first_None)
  then show ?thesis using b by (simp add: break_end_commit_def Let_def)
qed

text \<open>Stitching a short gap restores the row but not the breaks: what the automatic checkout closed or
  deducted stays.\<close>

lemma stitch_keeps_deductions:
  "checkin_commit env rq newId (Stitch seen loc t e) db = Inr (a, db') \<Longrightarrow>
     at_breaks db' = at_breaks db \<and> map ar_break_minutes (at_rows db') = map ar_break_minutes (at_rows db)"
  by (auto simp: update_row_def update_where_def record_evidence_def reopen_row_def)

text \<open>An absence that is closed by coming back counts as unpaid break time in full, also when it lies after
  the end of the shift, where the next automatic checkout counts no work.\<close>

lemma away_is_unpaid:
  assumes "createAwayGapBreak newId r t False s db = (gap, over, db')"
  shows "unpaidMins (calculateBreakTotals ts (ar_id r) (at_breaks db')) = unpaidMins (calculateBreakTotals ts (ar_id r) (at_breaks db)) + gap"
  using assms by (auto simp: createAwayGapBreak_def away_policy_def Let_def calculateBreakTotals_def ended_breaks_def settlement_def
      paid_part_def break_paid_def)

text \<open>The expiry of a heartbeat settles the breaks before it checks that the heartbeat is still stale: when
  a new heartbeat has arrived the employee stays checked in, but the running break is closed.\<close>

lemma expire_settles_anyway:
  assumes due: "heartbeat_due env now db r = Some co" and ci: "ar_check_in_at r = Some ci"
    and row: "cur \<in> set (at_rows db)" "ar_id cur = ar_id r"
    and beat: "\<forall>x\<in>set (at_rows db). ar_id x = ar_id r \<longrightarrow> ar_last_heartbeat_at x \<noteq> ar_last_heartbeat_at r"
  shows "at_rows (heartbeat_expire env newId now r db) = at_rows db \<and>
    count_where (is_open_for (ar_id r)) (at_breaks (heartbeat_expire env newId now r db)) = 0"
proof -
  obtain c where c: "find_first (\<lambda>x. ar_id x = ar_id r) (at_rows db) = Some c"
    using row find_first_None[of "\<lambda>x. ar_id x = ar_id r" "at_rows db"] by (cases "find_first (\<lambda>x. ar_id x = ar_id r) (at_rows db)") auto
  obtain b bs where s: "settleBreaks (ae_tz env) (record_zone db r) newId (all_templates db) co (row_view db c) (at_breaks db) = (b, bs)"
    by (rule prod.exhaust)
  have "ar_id c = ar_id r" using find_first_Some[OF c] by simp
  then have "count_where (is_open_for (ar_id r)) bs = 0" using settle_open(2)[OF s] by simp
  moreover have "update_where (\<lambda>x. ar_id x = ar_id r \<and> q x \<and> ar_last_heartbeat_at x = ar_last_heartbeat_at r \<and> q' x) f (at_rows db) = at_rows db" for q q' f
    unfolding update_where_def by (rule map_idI) (use beat in auto)
  ultimately show ?thesis by (simp add: heartbeat_expire_def due ci settle_for_def c s Let_def)
qed

text \<open>Two automatic breaks whose windows overlap are both started in the same run, because the breaks are
  read once per record: the record has two breaks in progress.\<close>

definition ex_two_breaks :: att_db where
  "ex_two_breaks = ex_db\<lparr>at_shifts := [ex_shift\<lparr>as_breaks := [ex_lunch, ex_lunch\<lparr>sb_id := ''pray'', sb_name := ''pray''\<rparr>]\<rparr>],
     at_rows := [(blank_row ''r'' ''u'' ''o'' None 4)\<lparr>ar_check_in_at := Some (ex_time 540), ar_status := ''in'', ar_shift_id := Some ''s''\<rparr>]\<rparr>"

lemma auto_breaks_overlap:
  "length (filter (\<lambda>b. br_break_end b = None) (at_breaks (auto_break_job day_env (\<lambda>k j. ''n'') (ex_time 725) ex_two_breaks))) = 2"
  by code_simp

end
