(* ===== verification/Coordination.thy ===== *)
theory Coordination
  imports ShiftTime
begin

text \<open>
  The leases that keep work from overlapping across API instances: \<^verbatim>\<open>src/src/utils/redisLease.ts\<close>,
  \<^verbatim>\<open>src/src/services/payrollCoordination.ts\<close>, the job lock and the job wrapper of
  \<^verbatim>\<open>src/src/jobs/scheduler.ts\<close>, and the notification markers of \<^verbatim>\<open>src/src/services/schedulerState.ts\<close>.

  Redis is a map from keys to a token and the instant it expires; the scripts the code evaluates are
  atomic.  Tokens are random UUIDs: in the step relation they are fresh.
\<close>

subsection \<open>Leases\<close>

type_synonym redis = "string \<Rightarrow> (id \<times> instant) option"

definition redis_get :: "instant \<Rightarrow> string \<Rightarrow> redis \<Rightarrow> id option" where
  "redis_get now key s = (case s key of None \<Rightarrow> None | Some (token, expires) \<Rightarrow> if now < expires then Some token else None)"

text \<open>\<open>SET key token PX ttl NX\<close> and the two scripts that renew and release.\<close>

definition set_nx :: "instant \<Rightarrow> string \<Rightarrow> id \<Rightarrow> int \<Rightarrow> redis \<Rightarrow> bool \<times> redis" where
  "set_nx now key token ttl s = (if redis_get now key s = None then (True, s(key \<mapsto> (token, now + ttl))) else (False, s))"

definition renew_lease :: "instant \<Rightarrow> string \<Rightarrow> id \<Rightarrow> int \<Rightarrow> redis \<Rightarrow> bool \<times> redis" where
  "renew_lease now key token ttl s =
     (if redis_get now key s = Some token then (True, s(key \<mapsto> (token, now + ttl))) else (False, s))"

definition release_lease :: "instant \<Rightarrow> string \<Rightarrow> id \<Rightarrow> redis \<Rightarrow> redis" where
  "release_lease now key token s = (if redis_get now key s = Some token then s(key := None) else s)"

definition acquireRedisLease :: "instant \<Rightarrow> string \<Rightarrow> id \<Rightarrow> int \<Rightarrow> redis \<Rightarrow> bool \<times> redis" where
  "acquireRedisLease now key token ttlMs s = set_nx now key token ttlMs s"

definition acquirePayrollConfigurationLease_redis :: "bool \<Rightarrow> instant \<Rightarrow> id \<Rightarrow> id \<Rightarrow> redis \<Rightarrow> redis result" where
  "acquirePayrollConfigurationLease_redis up now orgId token s =
     require up (AppError 503 ''PAYROLL_COORDINATION_UNAVAILABLE'')
      (case acquireRedisLease now (''payroll-config:'' @ orgId) token (30 * 60000) s of (got, s') \<Rightarrow>
         require got (AppError 409 ''PAYROLL_CONFIGURATION_BUSY'') (Inr s'))"

definition acquireJobLock :: "bool \<Rightarrow> instant \<Rightarrow> string \<Rightarrow> id \<Rightarrow> redis \<Rightarrow> redis option" where
  "acquireJobLock up now name token s =
     (if \<not> up then None
      else case set_nx now (''cronlock:'' @ name) token (15 * 60000) s of (got, s') \<Rightarrow> if got then Some s' else None)"

text \<open>One tick of a scheduled job.  The handler works on the rest of the state and may fail.\<close>

record job_row =
  jb_key :: string
  jb_started_at :: "instant option"
  jb_success_at :: "instant option"
  jb_error :: "string option"

definition job_started :: "string \<Rightarrow> instant \<Rightarrow> job_row list \<Rightarrow> job_row list" where
  "job_started name t rows =
     (if find_first (\<lambda>r. jb_key r = name) rows = None
      then rows @ [\<lparr>jb_key = name, jb_started_at = Some t, jb_success_at = None, jb_error = None\<rparr>]
      else update_where (\<lambda>r. jb_key r = name) (\<lambda>r. r\<lparr>jb_started_at := Some t, jb_error := None\<rparr>) rows)"

definition scheduledJob ::
    "(instant option \<Rightarrow> instant \<Rightarrow> 's \<Rightarrow> string + 's) \<Rightarrow> bool \<Rightarrow> string \<Rightarrow> id \<Rightarrow> instant \<Rightarrow> instant \<Rightarrow> redis \<times> job_row list \<times> 's \<Rightarrow> redis \<times> job_row list \<times> 's" where
  "scheduledJob handler up name token startedAt endedAt st =
     (case st of (s, rows, w) \<Rightarrow>
       (case acquireJobLock up startedAt name token s of None \<Rightarrow> st
        | Some s1 \<Rightarrow>
           (let since = Option.bind (find_first (\<lambda>r. jb_key r = name) rows) jb_success_at;
                rows1 = job_started name startedAt rows;
                s2 = release_lease endedAt (''cronlock:'' @ name) token s1
            in case handler since startedAt w of
                 Inl e \<Rightarrow> (s2, update_where (\<lambda>r. jb_key r = name) (\<lambda>r. r\<lparr>jb_error := Some (take 4000 e)\<rparr>) rows1, w)
               | Inr w1 \<Rightarrow> (s2, update_where (\<lambda>r. jb_key r = name) (\<lambda>r. r\<lparr>jb_success_at := Some endedAt, jb_error := None\<rparr>) rows1, w1))))"

text \<open>The holders of leases.  \<open>ho_until\<close> is what a holder knows: the end of the lease it last took or
  renewed.  A holder works on until it releases, whether or not its renewals got through.\<close>

record holder =
  ho_key :: string
  ho_token :: id
  ho_until :: instant

record lease_world =
  lw_now :: instant
  lw_redis :: redis
  lw_holders :: "holder list"
  lw_used :: "id set"

inductive lease_step :: "lease_world \<Rightarrow> lease_world \<Rightarrow> bool" where
  Tick: "lw_now w \<le> t \<Longrightarrow> lease_step w (w\<lparr>lw_now := t\<rparr>)"
| Acquire: "token \<notin> lw_used w \<Longrightarrow> acquireRedisLease (lw_now w) key token ttl (lw_redis w) = (True, s) \<Longrightarrow>
    lease_step w (w\<lparr>lw_redis := s, lw_holders := lw_holders w @ [\<lparr>ho_key = key, ho_token = token, ho_until = lw_now w + ttl\<rparr>],
      lw_used := insert token (lw_used w)\<rparr>)"
| Renew: "h \<in> set (lw_holders w) \<Longrightarrow> renew_lease (lw_now w) (ho_key h) (ho_token h) ttl (lw_redis w) = (ok, s) \<Longrightarrow>
    lease_step w (w\<lparr>lw_redis := s, lw_holders := update_where (\<lambda>x. ok \<and> ho_token x = ho_token h) (\<lambda>x. x\<lparr>ho_until := lw_now w + ttl\<rparr>) (lw_holders w)\<rparr>)"
| Release: "h \<in> set (lw_holders w) \<Longrightarrow>
    lease_step w (w\<lparr>lw_redis := release_lease (lw_now w) (ho_key h) (ho_token h) (lw_redis w),
      lw_holders := filter (\<lambda>x. ho_token x \<noteq> ho_token h) (lw_holders w)\<rparr>)"

text \<open>Every holder whose lease has not run out is the one Redis knows.\<close>

definition lease_inv :: "lease_world \<Rightarrow> bool" where
  "lease_inv w \<longleftrightarrow> distinct (map ho_token (lw_holders w)) \<and> ho_token ` set (lw_holders w) \<subseteq> lw_used w \<and>
     (\<forall>h\<in>set (lw_holders w). lw_now w < ho_until h \<longrightarrow> lw_redis w (ho_key h) = Some (ho_token h, ho_until h))"

lemma same_token: "lease_inv w \<Longrightarrow> a \<in> set (lw_holders w) \<Longrightarrow> b \<in> set (lw_holders w) \<Longrightarrow> ho_token a = ho_token b \<Longrightarrow> a = b"
  by (auto simp: lease_inv_def distinct_map inj_on_def)

lemma live_known: "lease_inv w \<Longrightarrow> a \<in> set (lw_holders w) \<Longrightarrow> lw_now w < ho_until a \<Longrightarrow> lw_redis w (ho_key a) = Some (ho_token a, ho_until a)"
  by (auto simp: lease_inv_def)

lemma lease_step_inv:
  assumes "lease_step w w'" "lease_inv w"
  shows "lease_inv w'"
  using assms
proof (induction rule: lease_step.induct)
  case (Tick w t)
  then show ?case by (auto simp: lease_inv_def)
next
  case (Acquire token w key ttl s)
  then have free: "redis_get (lw_now w) key (lw_redis w) = None" and s: "s = (lw_redis w)(key \<mapsto> (token, lw_now w + ttl))"
    by (auto simp: acquireRedisLease_def set_nx_def split: if_splits)
  have other: "ho_key a \<noteq> key" if a: "a \<in> set (lw_holders w)" "lw_now w < ho_until a" for a
    using live_known[OF Acquire.prems a] free a(2) by (auto simp: redis_get_def)
  show ?case using Acquire.prems Acquire.hyps(1) other by (auto simp: lease_inv_def s)
next
  case (Renew h w ttl ok s)
  note inv = Renew.prems
  show ?case
  proof (cases ok)
    case False
    then have "s = lw_redis w" using Renew.hyps(2) by (auto simp: renew_lease_def split: if_splits)
    then show ?thesis using inv False by (simp add: lease_inv_def update_where_def)
  next
    case True
    then have known: "redis_get (lw_now w) (ho_key h) (lw_redis w) = Some (ho_token h)"
      and s: "s = (lw_redis w)(ho_key h \<mapsto> (ho_token h, lw_now w + ttl))"
      using Renew.hyps(2) by (auto simp: renew_lease_def split: if_splits)
    have other: "ho_key a \<noteq> ho_key h" if a: "a \<in> set (lw_holders w)" "lw_now w < ho_until a" "ho_token a \<noteq> ho_token h" for a
      using live_known[OF inv a(1,2)] known a(2,3) by (auto simp: redis_get_def split: option.splits if_splits)
    have toks: "map ho_token (update_where (\<lambda>x. ok \<and> ho_token x = ho_token h) (\<lambda>x. x\<lparr>ho_until := lw_now w + ttl\<rparr>) (lw_holders w)) =
      map ho_token (lw_holders w)" by (simp add: update_where_def)
    have key: "ho_key a = ho_key h" if a: "a \<in> set (lw_holders w)" "ho_token a = ho_token h" for a
      using same_token[OF inv a(1) Renew.hyps(1) a(2)] by simp
    have "lw_now w < ho_until x \<longrightarrow> s (ho_key x) = Some (ho_token x, ho_until x)"
      if x: "x \<in> set (update_where (\<lambda>x. ok \<and> ho_token x = ho_token h) (\<lambda>x. x\<lparr>ho_until := lw_now w + ttl\<rparr>) (lw_holders w))" for x
    proof -
      from x obtain a where a: "a \<in> set (lw_holders w)" "x = (if ho_token a = ho_token h then a\<lparr>ho_until := lw_now w + ttl\<rparr> else a)"
        using True by (auto simp: update_where_def)
      show ?thesis
      proof (cases "ho_token a = ho_token h")
        case True
        then show ?thesis using key[OF a(1) True] by (simp add: a(2) s)
      next
        case False
        then show ?thesis using other[OF a(1) _ False] live_known[OF inv a(1)] by (auto simp: a(2) s)
      qed
    qed
    moreover have "ho_token ` set (update_where (\<lambda>x. ok \<and> ho_token x = ho_token h) (\<lambda>x. x\<lparr>ho_until := lw_now w + ttl\<rparr>) (lw_holders w)) \<subseteq> lw_used w"
      using inv unfolding set_map[symmetric] toks by (simp add: lease_inv_def)
    ultimately show ?thesis using inv by (simp add: lease_inv_def toks)
  qed
next
  case (Release h w)
  note inv = Release.prems
  have "release_lease (lw_now w) (ho_key h) (ho_token h) (lw_redis w) (ho_key a) = lw_redis w (ho_key a)"
    if a: "a \<in> set (lw_holders w)" "ho_token a \<noteq> ho_token h" "lw_now w < ho_until a" for a
    using live_known[OF inv a(1,3)] a(2,3) by (auto simp: release_lease_def redis_get_def)
  then show ?case using inv by (auto simp: lease_inv_def distinct_map_filter)
qed

text \<open>C26: however the instances take, renew, lose and release their leases, two holders of the same
  key are never both within the lease they last took or renewed; in particular a holder whose lease
  has run out cannot release the lease of its successor.\<close>

theorem lease_exclusive:
  assumes "lease_step\<^sup>*\<^sup>* w0 w" "lw_holders w0 = []"
    and "h1 \<in> set (lw_holders w)" "h2 \<in> set (lw_holders w)" "ho_key h1 = ho_key h2"
    and "lw_now w < ho_until h1" "lw_now w < ho_until h2"
  shows "h1 = h2"
proof -
  from assms(1) have inv: "lease_inv w"
  proof (induction rule: rtranclp_induct)
    case base
    then show ?case using assms(2) by (simp add: lease_inv_def)
  next
    case (step y z)
    then show ?case using lease_step_inv by blast
  qed
  have "ho_token h1 = ho_token h2"
    using live_known[OF inv assms(3,6)] live_known[OF inv assms(4,7)] assms(5) by simp
  then show ?thesis by (rule same_token[OF inv assms(3,4)])
qed

definition ex_world :: "instant \<Rightarrow> lease_world" where
  "ex_world t = \<lparr>lw_now = t, lw_redis = Map.empty, lw_holders = [], lw_used = {}\<rparr>"

definition ex_held :: lease_world where
  "ex_held = (ex_world 5)\<lparr>lw_redis := [''cronlock:x'' \<mapsto> (''a'', 905)],
     lw_holders := [\<lparr>ho_key = ''cronlock:x'', ho_token = ''a'', ho_until = 905\<rparr>], lw_used := {''a''}\<rparr>"

theorem lease_exclusive_witness:
  "lease_step\<^sup>*\<^sup>* (ex_world 5) ex_held \<and> ex_held \<noteq> ex_world 5 \<and> hd (lw_holders ex_held) = last (lw_holders ex_held)"
proof -
  have "acquireRedisLease (lw_now (ex_world 5)) ''cronlock:x'' ''a'' 900 (lw_redis (ex_world 5)) = (True, [''cronlock:x'' \<mapsto> (''a'', 905)])"
    by (simp add: ex_world_def acquireRedisLease_def set_nx_def redis_get_def)
  from Acquire[OF _ this] have "lease_step (ex_world 5) ex_held" by (simp add: ex_world_def ex_held_def)
  then have run: "lease_step\<^sup>*\<^sup>* (ex_world 5) ex_held" by blast
  have "hd (lw_holders ex_held) = last (lw_holders ex_held)"
    by (rule lease_exclusive[OF run]) (simp_all add: ex_world_def ex_held_def)
  with run show ?thesis by (simp add: ex_world_def ex_held_def)
qed

subsection \<open>Markers of sent notifications\<close>

record job_marker =
  mk_id :: id
  mk_org_id :: id
  mk_job_key :: string
  mk_subject_id :: id
  mk_period_key :: string
  mk_status :: string
  mk_attempts :: nat
  mk_locked_at :: instant
  mk_sent_at :: "instant option"
  mk_last_error :: "string option"
  mk_created_at :: instant

type_synonym marker_key = "id \<times> string \<times> id \<times> string"

definition key_of_marker :: "job_marker \<Rightarrow> marker_key" where
  "key_of_marker m = (mk_org_id m, mk_job_key m, mk_subject_id m, mk_period_key m)"

definition MARKER_LEASE_MS :: int where
  "MARKER_LEASE_MS = 15 * 60000"

definition marker_free :: "instant \<Rightarrow> id \<Rightarrow> job_marker \<Rightarrow> bool" where
  "marker_free now i m \<longleftrightarrow> mk_id m = i \<and> mk_status m \<noteq> ''sent'' \<and>
     (mk_status m \<noteq> ''processing'' \<or> mk_locked_at m < now - MARKER_LEASE_MS)"

text \<open>The insertion fails on the unique key; then the existing marker is taken over by a conditional
  update.\<close>

definition claimSchedulerMarker :: "instant \<Rightarrow> marker_key \<Rightarrow> id \<Rightarrow> job_marker list \<Rightarrow> id option \<times> job_marker list" where
  "claimSchedulerMarker now key newId rows =
     (case find_first (\<lambda>m. key_of_marker m = key) rows of
        None \<Rightarrow>
          (case key of (org, job, subject, period) \<Rightarrow>
             (Some newId, rows @ [\<lparr>mk_id = newId, mk_org_id = org, mk_job_key = job, mk_subject_id = subject, mk_period_key = period,
                mk_status = ''processing'', mk_attempts = 1, mk_locked_at = now, mk_sent_at = None, mk_last_error = None, mk_created_at = now\<rparr>]))
      | Some m \<Rightarrow>
          if mk_status m = ''sent'' then (None, rows)
          else (if count_where (marker_free now (mk_id m)) rows = 1 then Some (mk_id m) else None,
                update_where (marker_free now (mk_id m)) (\<lambda>x. x\<lparr>mk_status := ''processing'', mk_attempts := mk_attempts x + 1,
                  mk_locked_at := now, mk_last_error := None\<rparr>) rows))"

definition completeSchedulerMarker :: "instant \<Rightarrow> id \<Rightarrow> job_marker list \<Rightarrow> job_marker list" where
  "completeSchedulerMarker now i = update_where (\<lambda>m. mk_id m = i \<and> mk_status m = ''processing'')
     (\<lambda>m. m\<lparr>mk_status := ''sent'', mk_sent_at := Some now, mk_last_error := None\<rparr>)"

definition retrySchedulerMarker :: "id \<Rightarrow> string \<Rightarrow> job_marker list \<Rightarrow> job_marker list" where
  "retrySchedulerMarker i err = update_where (\<lambda>m. mk_id m = i \<and> mk_status m = ''processing'')
     (\<lambda>m. m\<lparr>mk_status := ''pending'', mk_locked_at := 0, mk_last_error := Some (take 4000 err)\<rparr>)"

definition markerCleanup :: "instant \<Rightarrow> job_marker list \<Rightarrow> job_marker list" where
  "markerCleanup now rows = filter (\<lambda>m. \<not> mk_created_at m < now - 90 * 86400000) rows"

datatype marker_op = ClaimMarker instant marker_key id | CompleteMarker instant id | RetryMarker id string

fun marker_run :: "marker_op list \<Rightarrow> job_marker list \<Rightarrow> job_marker list" where
  "marker_run [] rows = rows"
| "marker_run (ClaimMarker t k i # ops) rows = marker_run ops (snd (claimSchedulerMarker t k i rows))"
| "marker_run (CompleteMarker t i # ops) rows = marker_run ops (completeSchedulerMarker t i rows)"
| "marker_run (RetryMarker i e # ops) rows = marker_run ops (retrySchedulerMarker i e rows)"

text \<open>A marker that is being processed within its lease, or is sent, can not be claimed.\<close>

definition taken :: "instant \<Rightarrow> job_marker \<Rightarrow> bool" where
  "taken t m \<longleftrightarrow> mk_status m = ''sent'' \<or> mk_status m = ''processing'' \<and> t - MARKER_LEASE_MS \<le> mk_locked_at m"

definition marker_held :: "instant \<Rightarrow> marker_key \<Rightarrow> id \<Rightarrow> job_marker list \<Rightarrow> bool" where
  "marker_held t key i rows \<longleftrightarrow>
     (\<exists>m. find_first (\<lambda>m. key_of_marker m = key) rows = Some m \<and> mk_id m = i \<and> taken t m \<and> (\<forall>x\<in>set rows. mk_id x = i \<longrightarrow> x = m))"

fun calm_op :: "instant \<Rightarrow> id \<Rightarrow> marker_op \<Rightarrow> bool" where
  "calm_op t i (ClaimMarker s k n) \<longleftrightarrow> s \<le> t \<and> n \<noteq> i"
| "calm_op t i (CompleteMarker s n) \<longleftrightarrow> True"
| "calm_op t i (RetryMarker n e) \<longleftrightarrow> n \<noteq> i"

lemma find_first_update:
  assumes "\<And>x. key (f x) = key x"
  shows "find_first (\<lambda>m. key m = k) (update_where p f rows) = map_option (\<lambda>m. if p m then f m else m) (find_first (\<lambda>m. key m = k) rows)"
  using assms by (induction rows) (auto simp: find_first_def update_where_def)

lemma find_first_append: "find_first p (xs @ ys) = (case find_first p xs of None \<Rightarrow> find_first p ys | Some x \<Rightarrow> Some x)"
  by (induction xs) (auto simp: find_first_def)

lemma taken_not_free: "taken t m \<Longrightarrow> s \<le> t \<Longrightarrow> \<not> marker_free s i m"
  by (auto simp: taken_def marker_free_def)

lemma held_refused:
  assumes "marker_held t key i rows" "s \<le> t"
  shows "fst (claimSchedulerMarker s key n rows) = None"
proof -
  obtain m where m: "find_first (\<lambda>m. key_of_marker m = key) rows = Some m" "mk_id m = i" "taken t m" "\<forall>x\<in>set rows. mk_id x = i \<longrightarrow> x = m"
    using assms(1) by (auto simp: marker_held_def)
  have "\<forall>x\<in>set rows. \<not> marker_free s (mk_id m) x" using m taken_not_free[OF m(3) assms(2)] by (auto simp: marker_free_def)
  then have "count_where (marker_free s (mk_id m)) rows = 0" by (simp add: count_where_def filter_empty_conv)
  then show ?thesis using m(1) by (simp add: claimSchedulerMarker_def)
qed

lemma held_update:
  assumes held: "marker_held t key i rows" and f: "\<And>x. key_of_marker (f x) = key_of_marker x" "\<And>x. mk_id (f x) = mk_id x"
    and keep: "\<And>m. mk_id m = i \<Longrightarrow> taken t m \<Longrightarrow> p m \<Longrightarrow> taken t (f m)"
  shows "marker_held t key i (update_where p f rows)"
proof -
  obtain m where m: "find_first (\<lambda>m. key_of_marker m = key) rows = Some m" "mk_id m = i" "taken t m" "\<forall>x\<in>set rows. mk_id x = i \<longrightarrow> x = m"
    using held by (auto simp: marker_held_def)
  let ?m = "if p m then f m else m"
  have "find_first (\<lambda>m. key_of_marker m = key) (update_where p f rows) = Some ?m" using find_first_update[of key_of_marker f, OF f(1)] m(1) by simp
  moreover have "mk_id ?m = i" "taken t ?m" using m f(2) keep by auto
  moreover have "\<forall>x\<in>set (update_where p f rows). mk_id x = i \<longrightarrow> x = ?m" using m(4) f(2) by (auto simp: update_where_def)
  ultimately show ?thesis by (auto simp: marker_held_def)
qed

lemma held_claim:
  assumes "marker_held t key i rows" "s \<le> t" "n \<noteq> i"
  shows "marker_held t key i (snd (claimSchedulerMarker s k n rows))"
proof (cases "find_first (\<lambda>m. key_of_marker m = k) rows")
  case None
  then show ?thesis using assms(1,3)
    by (cases k) (auto simp: claimSchedulerMarker_def marker_held_def find_first_append)
next
  case (Some x)
  have "marker_held t key i (update_where (marker_free s (mk_id x)) (\<lambda>y. y\<lparr>mk_status := ''processing'', mk_attempts := mk_attempts y + 1,
      mk_locked_at := s, mk_last_error := None\<rparr>) rows)"
    using taken_not_free[OF _ assms(2)] by (intro held_update[OF assms(1)]) (auto simp: key_of_marker_def)
  then show ?thesis using Some assms(1) by (simp add: claimSchedulerMarker_def)
qed

lemma held_run: "marker_held t key i rows \<Longrightarrow> list_all (calm_op t i) ops \<Longrightarrow> marker_held t key i (marker_run ops rows)"
proof (induction ops arbitrary: rows)
  case Nil
  then show ?case by simp
next
  case (Cons op ops)
  have "marker_held t key i (marker_run [op] rows)"
  proof (cases op)
    case (ClaimMarker s k n)
    then show ?thesis using held_claim[OF Cons.prems(1)] Cons.prems(2) by simp
  next
    case (CompleteMarker s n)
    then show ?thesis using held_update[OF Cons.prems(1)] by (simp add: completeSchedulerMarker_def key_of_marker_def taken_def)
  next
    case (RetryMarker n e)
    have "marker_held t key i (retrySchedulerMarker n e rows)"
      unfolding retrySchedulerMarker_def
      by (rule held_update[OF Cons.prems(1)]) (use Cons.prems(2) RetryMarker in \<open>auto simp: key_of_marker_def\<close>)
    then show ?thesis by (simp add: RetryMarker)
  qed
  then show ?case using Cons.IH Cons.prems(2) by (cases op) simp_all
qed

lemma claim_holds:
  assumes "claimSchedulerMarker s key n rows = (Some i, rows')" "distinct (map mk_id rows)" "n \<notin> mk_id ` set rows" "t \<le> s + MARKER_LEASE_MS"
  shows "marker_held t key i rows'"
proof (cases "find_first (\<lambda>m. key_of_marker m = key) rows")
  case None
  then show ?thesis using assms
    by (cases key) (auto simp: claimSchedulerMarker_def marker_held_def find_first_append key_of_marker_def taken_def)
next
  case (Some m)
  let ?f = "\<lambda>x. x\<lparr>mk_status := ''processing'', mk_attempts := mk_attempts x + 1, mk_locked_at := s, mk_last_error := None\<rparr>"
  have r: "mk_status m \<noteq> ''sent''" "i = mk_id m" "count_where (marker_free s i) rows = 1" "rows' = update_where (marker_free s i) ?f rows"
    using assms(1) Some by (auto simp: claimSchedulerMarker_def split: if_splits)
  have m: "m \<in> set rows" "\<And>x. x \<in> set rows \<Longrightarrow> mk_id x = i \<Longrightarrow> x = m"
    using find_first_Some[OF Some] assms(2) r(2) by (auto simp: distinct_map inj_on_def)
  have "marker_free s i m"
  proof (rule ccontr)
    assume "\<not> marker_free s i m"
    then have "filter (marker_free s i) rows = []" using m(2) by (auto simp: filter_empty_conv marker_free_def)
    then show False using r(3) by (simp add: count_where_def)
  qed
  then have "find_first (\<lambda>m. key_of_marker m = key) rows' = Some (?f m)"
    using find_first_update[of key_of_marker ?f] Some by (simp add: r(4) key_of_marker_def)
  moreover have "\<forall>x\<in>set rows'. mk_id x = i \<longrightarrow> x = ?f m"
    using m(2) \<open>marker_free s i m\<close> by (auto simp: r(4) update_where_def)
  ultimately show ?thesis using r(2) assms(4) by (auto simp: marker_held_def taken_def)
qed

text \<open>Once a worker has claimed the marker of a notification, no other worker gets it for
  the next fifteen minutes, whatever other markers are claimed, completed or put back, unless the
  marker itself is put back for a retry; and once it was completed nobody gets it at all.\<close>

theorem marker_claim_exclusive:
  assumes claim: "claimSchedulerMarker s key n rows = (Some i, rows')" and ids: "distinct (map mk_id rows)" "n \<notin> mk_id ` set rows"
    and ops: "list_all (calm_op t i) ops"
  shows "(t \<le> s + 15 * 60000 \<longrightarrow> fst (claimSchedulerMarker t key n' (marker_run ops rows')) = None) \<and>
    fst (claimSchedulerMarker t key n' (marker_run ops (completeSchedulerMarker s' i rows'))) = None"
proof -
  obtain m where m: "find_first (\<lambda>m. key_of_marker m = key) rows' = Some m" "mk_id m = i" "mk_status m = ''processing'' \<or> mk_status m = ''sent''"
    "\<forall>x\<in>set rows'. mk_id x = i \<longrightarrow> x = m"
    using claim_holds[OF claim ids, of s] by (auto simp: marker_held_def taken_def MARKER_LEASE_MS_def)
  let ?f = "\<lambda>m. m\<lparr>mk_status := ''sent'', mk_sent_at := Some s', mk_last_error := None\<rparr>" and ?p = "\<lambda>m. mk_id m = i \<and> mk_status m = ''processing''"
  have "find_first (\<lambda>m. key_of_marker m = key) (completeSchedulerMarker s' i rows') = Some (if ?p m then ?f m else m)"
    using find_first_update[of key_of_marker ?f] m(1) by (simp add: completeSchedulerMarker_def key_of_marker_def)
  moreover have "\<forall>x\<in>set (completeSchedulerMarker s' i rows'). mk_id x = i \<longrightarrow> x = (if ?p m then ?f m else m)"
    using m(4) by (auto simp: completeSchedulerMarker_def update_where_def)
  ultimately have "marker_held t key i (completeSchedulerMarker s' i rows')"
    using m(2,3) by (auto simp: marker_held_def taken_def)
  then show ?thesis
    using held_refused[OF held_run[OF claim_holds[OF claim ids] ops]] held_refused[OF held_run[OF _ ops]]
    by (simp add: MARKER_LEASE_MS_def)
qed

definition ex_marker :: marker_key where
  "ex_marker = (''o'', ''late'', ''u'', ''2026-01-05'')"

theorem marker_claim_exclusive_witness:
  "fst (claimSchedulerMarker 60000 ex_marker ''n'' (marker_run [CompleteMarker 50000 ''m''] (snd (claimSchedulerMarker 0 ex_marker ''m'' [])))) = None \<and>
   fst (claimSchedulerMarker 0 ex_marker ''m'' []) = Some ''m''"
  using marker_claim_exclusive[of 0 ex_marker "''m''" "[]" "''m''" "snd (claimSchedulerMarker 0 ex_marker ''m'' [])" 60000 "[CompleteMarker 50000 ''m'']" "''n''"]
  by (simp add: claimSchedulerMarker_def ex_marker_def)

text \<open>Completion and retry name the marker but not the claim: a worker whose lease has run out, and whose
  marker another worker is processing, still puts it back, and a third worker can claim it while the
  second is sending.\<close>

lemma stale_retry_reopens:
  "let rows1 = snd (claimSchedulerMarker 0 ex_marker ''m'' []);
       (second, rows2) = claimSchedulerMarker 1000000 ex_marker ''x'' rows1;
       rows3 = retrySchedulerMarker ''m'' ''timeout'' rows2
   in second = Some ''m'' \<and> fst (claimSchedulerMarker 1000001 ex_marker ''y'' rows3) = Some ''m''"
  by code_simp

end
