(* ===== verification/AttendanceSync.thy ===== *)
theory AttendanceSync
  imports Json Coordination
begin

text \<open>
  The batch of offline events: \<open>POST /attendance/sync\<close> of \<^verbatim>\<open>src/src/routes/attendance.ts\<close> and the schema of
  its body (\<^verbatim>\<open>src/src/schemas/attendance-sync.ts\<close>).

  Each event is posted to the API itself.  That call is the argument \<open>post\<close>: path, idempotency key and
  body to an answer, or \<open>None\<close> when it fails or times out, changing the state of the server as it goes
  (also when the answer is lost).  The readings of the clock are arguments.
\<close>

subsection \<open>The body\<close>

datatype sync_type = SyncCheckin | SyncCheckout | SyncBreakStart | SyncBreakEnd

record sync_event =
  se_sequence :: int
  se_key :: string
  se_type :: sync_type
  se_payload :: "(string \<times> json) list"

fun syncActionPath :: "sync_type \<Rightarrow> string" where
  "syncActionPath SyncCheckin = ''/checkin''"
| "syncActionPath SyncCheckout = ''/checkout''"
| "syncActionPath SyncBreakStart = ''/break/start''"
| "syncActionPath SyncBreakEnd = ''/break/end''"

definition event_ok :: "(json \<Rightarrow> nat) \<Rightarrow> sync_event \<Rightarrow> bool" where
  "event_ok stringified_length e \<longleftrightarrow>
     1 \<le> se_sequence e \<and> se_sequence e \<le> 2147483647 \<and> 16 \<le> length (se_key e) \<and> length (se_key e) \<le> 100 \<and>
     stringified_length (JObj (se_payload e)) \<le> 32768 \<and>
     map_of (se_payload e) ''idempotency_key'' = Some (JStr (se_key e)) \<and>
     map_of (se_payload e) ''offline'' = Some (JBool True) \<and>
     (se_type e = SyncCheckin \<longrightarrow> map_of (se_payload e) ''type'' = Some (JStr ''manual'') \<and> map_of (se_payload e) ''qr_code'' = None)"

fun in_order :: "int \<Rightarrow> sync_event list \<Rightarrow> bool" where
  "in_order prev [] = True"
| "in_order prev (e # es) = (prev < se_sequence e \<and> in_order (se_sequence e) es)"

definition attendanceSyncSchema :: "(json \<Rightarrow> nat) \<Rightarrow> sync_event list \<Rightarrow> bool" where
  "attendanceSyncSchema stringified_length events \<longleftrightarrow>
     1 \<le> length events \<and> length events \<le> 20 \<and> list_all (event_ok stringified_length) events \<and>
     in_order 0 events \<and> distinct (map se_sequence events) \<and> distinct (map se_key events)"

subsection \<open>Posting one event\<close>

record sync_reply =
  sr_status :: int
  sr_success :: "bool option"
  sr_code :: "string option"
  sr_idempotent :: bool
  sr_action :: "string option"

datatype sync_result = Applied | DuplicateEvent | Rejected | ParkedForReview | Retry | NotAttempted

record sync_outcome =
  so_sequence :: int
  so_key :: string
  so_result :: sync_result
  so_code :: "string option"

definition json_set :: "string \<Rightarrow> json \<Rightarrow> (string \<times> json) list \<Rightarrow> (string \<times> json) list" where
  "json_set k v es = (if k \<in> fst ` set es then map (\<lambda>(a, b). (a, if a = k then v else b)) es else es @ [(k, v)])"

definition actionBody :: "sync_event \<Rightarrow> (string \<times> json) list" where
  "actionBody e =
     (let b = json_set ''idempotency_key'' (JStr (se_key e)) (json_set ''offline'' (JBool True) (se_payload e))
      in if se_type e = SyncCheckin then json_set ''type'' (JStr ''manual'') b else b)"

definition int_string :: "int \<Rightarrow> string" where
  "int_string k = (if k < 0 then CHR ''-'' # dec_string (nat (- k)) else dec_string (nat k))"

definition reply_outcome :: "sync_reply \<Rightarrow> sync_result \<times> string option" where
  "reply_outcome r =
     (if 200 \<le> sr_status r \<and> sr_status r \<le> 299 \<and> sr_success r \<noteq> Some False
      then (if sr_idempotent r \<or> sr_action r = Some ''already_recorded'' then DuplicateEvent else Applied, None)
      else (let code = coalesce (sr_code r) (''HTTP_'' @ int_string (sr_status r));
                rejected = (sr_status r = 400 \<or> sr_status r = 422);
                permanent = (400 \<le> sr_status r \<and> sr_status r < 500 \<and> sr_status r \<noteq> 401 \<and> sr_status r \<noteq> 408 \<and> sr_status r \<noteq> 429)
            in (if rejected then Rejected else if permanent then ParkedForReview else Retry, Some code)))"

definition event_outcome :: "sync_event \<Rightarrow> sync_reply option \<Rightarrow> sync_outcome" where
  "event_outcome e reply =
     (case (case reply of None \<Rightarrow> (Retry, Some ''SYNC_TRANSPORT_ERROR'') | Some r \<Rightarrow> reply_outcome r) of (result, code) \<Rightarrow>
        \<lparr>so_sequence = se_sequence e, so_key = se_key e, so_result = result, so_code = code\<rparr>)"

definition held_back :: "sync_event \<Rightarrow> sync_outcome" where
  "held_back e = \<lparr>so_sequence = se_sequence e, so_key = se_key e, so_result = NotAttempted, so_code = None\<rparr>"

definition goes_on :: "sync_outcome \<Rightarrow> bool" where
  "goes_on o' \<longleftrightarrow> so_result o' \<in> {Applied, DuplicateEvent}"

subsection \<open>The watermark and the batch\<close>

record watermark =
  wm_org_id :: id
  wm_user_id :: id
  wm_last_sequence :: int
  wm_pending_until :: "instant option"
  wm_last_sync_at :: "instant option"

definition own_mark :: "id \<Rightarrow> id \<Rightarrow> watermark \<Rightarrow> bool" where
  "own_mark org user w \<longleftrightarrow> wm_org_id w = org \<and> wm_user_id w = user"

definition highest :: "int \<Rightarrow> sync_event list \<Rightarrow> int" where
  "highest start events = fold (\<lambda>e. max (se_sequence e)) events start"

definition mark_started :: "id \<Rightarrow> id \<Rightarrow> sync_event list \<Rightarrow> instant \<Rightarrow> watermark list \<Rightarrow> watermark list" where
  "mark_started org user events now marks =
     (case find_first (own_mark org user) marks of
        None \<Rightarrow> marks @ [\<lparr>wm_org_id = org, wm_user_id = user, wm_last_sequence = highest (se_sequence (hd events)) events,
                  wm_pending_until = Some (now + 5 * 60000), wm_last_sync_at = None\<rparr>]
      | Some w \<Rightarrow> update_where (own_mark org user) (\<lambda>x. x\<lparr>wm_last_sequence := highest (wm_last_sequence w) events,
                  wm_pending_until := Some (now + 5 * 60000)\<rparr>) marks)"

definition mark_pending :: "id \<Rightarrow> id \<Rightarrow> instant option \<Rightarrow> watermark list \<Rightarrow> watermark list" where
  "mark_pending org user t = update_where (own_mark org user) (\<lambda>w. w\<lparr>wm_pending_until := t\<rparr>)"

type_synonym 's sync_post = "string \<Rightarrow> string \<Rightarrow> (string \<times> json) list \<Rightarrow> 's \<Rightarrow> sync_reply option \<times> 's"

text \<open>The loop: \<open>stop\<close> is whether an earlier event has set the reason to stop.\<close>

fun sync_loop :: "'s sync_post \<Rightarrow> id \<Rightarrow> id \<Rightarrow> (nat \<Rightarrow> instant) \<Rightarrow> nat \<Rightarrow> bool \<Rightarrow> sync_event list \<Rightarrow> watermark list \<times> 's \<Rightarrow>
    sync_outcome list \<times> watermark list \<times> 's" where
  "sync_loop post org user clock k stop [] (marks, s) = ([], marks, s)"
| "sync_loop post org user clock k stop (e # es) (marks, s) =
     (if stop then (case sync_loop post org user clock k True es (marks, s) of (os, st) \<Rightarrow> (held_back e # os, st))
      else (let marks1 = mark_pending org user (Some (clock k + 5 * 60000)) marks in
            case post (syncActionPath (se_type e)) (se_key e) (actionBody e) s of (reply, s1) \<Rightarrow>
              (let out = event_outcome e reply in
               case sync_loop post org user clock (k + 1) (\<not> goes_on out) es (marks1, s1) of (os, st) \<Rightarrow> (out # os, st))))"

record 's sync_state =
  sy_redis :: redis
  sy_marks :: "watermark list"
  sy_server :: 's

record sync_answer =
  sa_outcomes :: "sync_outcome list"
  sa_last_sequence :: int
  sa_pending :: bool

definition unsettled :: "sync_outcome list \<Rightarrow> bool" where
  "unsettled os \<longleftrightarrow> (\<exists>o'\<in>set os. so_result o' \<in> {Retry, NotAttempted})"

definition sync_lock :: "id \<Rightarrow> id \<Rightarrow> string" where
  "sync_lock org user = ''attendance-sync:'' @ org @ CHR '':'' # user"

text \<open>The handler.  \<open>up\<close> is whether Redis answers; \<open>clock\<close> gives the successive readings of the clock.\<close>

definition attendance_sync ::
    "'s sync_post \<Rightarrow> bool \<Rightarrow> id \<Rightarrow> id \<Rightarrow> string option \<Rightarrow> id \<Rightarrow> sync_event list \<Rightarrow> instant \<Rightarrow> (nat \<Rightarrow> instant) \<Rightarrow> 's sync_state \<Rightarrow>
     sync_answer result \<times> 's sync_state" where
  "attendance_sync post up org user authorization owner events now clock st =
     (if \<not> (case authorization of None \<Rightarrow> False | Some a \<Rightarrow> take 7 a = ''Bearer '') then (Inl (AppError 401 ''UNAUTHENTICATED''), st)
      else if \<not> up then (Inl (AppError 503 ''SYNC_COORDINATION_UNAVAILABLE''), st)
      else case set_nx now (sync_lock org user) owner (10 * 60000) (sy_redis st) of (got, redis1) \<Rightarrow>
       if \<not> got then (Inl (AppError 409 ''ATTENDANCE_SYNC_IN_PROGRESS''), st)
       else (let previous = find_first (own_mark org user) (sy_marks st);
                 marks1 = mark_started org user events now (sy_marks st)
             in case sync_loop post org user clock 0 False events (marks1, sy_server st) of (outcomes, marks2, server2) \<Rightarrow>
               (let n = length events; pending = unsettled outcomes;
                    marks3 = update_where (own_mark org user) (\<lambda>w. w\<lparr>wm_pending_until := (if pending then Some (clock n + 5 * 60000) else None),
                      wm_last_sync_at := Some (clock n)\<rparr>) marks2
                in (Inr \<lparr>sa_outcomes = outcomes, sa_last_sequence = highest (case previous of None \<Rightarrow> 0 | Some w \<Rightarrow> wm_last_sequence w) events,
                      sa_pending = pending\<rparr>,
                    \<lparr>sy_redis = release_lease (clock (n + 1)) (sync_lock org user) owner redis1, sy_marks = marks3, sy_server = server2\<rparr>))))"

subsection \<open>The order of events is kept\<close>

text \<open>The specification: the server after a list of events was posted one after the other.\<close>

definition posted :: "'s sync_post \<Rightarrow> sync_event list \<Rightarrow> 's \<Rightarrow> 's" where
  "posted post es s = fold (\<lambda>e s. snd (post (syncActionPath (se_type e)) (se_key e) (actionBody e) s)) es s"

lemma loop_stopped: "sync_loop post org user clock k True es (marks, s) = (map held_back es, marks, s)"
  by (induction es) simp_all

lemma event_outcome_fields: "so_sequence (event_outcome e r) = se_sequence e" "so_key (event_outcome e r) = se_key e"
  "so_result (event_outcome e r) \<noteq> NotAttempted"
  by (auto simp: event_outcome_def reply_outcome_def Let_def split: prod.splits option.splits if_splits)

lemma held_back_fields [simp]: "so_sequence (held_back e) = se_sequence e" "so_key (held_back e) = se_key e" "so_result (held_back e) = NotAttempted"
  by (simp_all add: held_back_def)

lemma loop_spec:
  assumes "sync_loop post org user clock k False es (marks, s) = (os, marks', s')" "n = length (takeWhile goes_on os)"
  shows "map so_sequence os = map se_sequence es \<and> map so_key os = map se_key es \<and>
    (n < length es \<longrightarrow> so_result (os ! n) \<in> {Rejected, ParkedForReview, Retry}) \<and>
    drop (Suc n) os = map held_back (drop (Suc n) es) \<and> s' = posted post (take (Suc n) es) s"
  using assms
proof (induction es arbitrary: k marks s os n marks' s')
  case Nil
  then show ?case by (simp add: posted_def)
next
  case (Cons e es)
  obtain reply s1 where p: "post (syncActionPath (se_type e)) (se_key e) (actionBody e) s = (reply, s1)" by (rule prod.exhaust)
  let ?m = "mark_pending org user (Some (clock k + 5 * 60000)) marks" and ?out = "event_outcome e reply"
  obtain os1 marks1 s2 where l: "sync_loop post org user clock (k + 1) (\<not> goes_on ?out) es (?m, s1) = (os1, marks1, s2)"
    by (metis prod.exhaust)
  have os: "os = ?out # os1" and s': "s' = s2" using Cons.prems(1) p l by (simp_all add: Let_def)
  show ?case
  proof (cases "goes_on ?out")
    case True
    then have l': "sync_loop post org user clock (k + 1) False es (?m, s1) = (os1, marks1, s2)" using l by simp
    have n: "n = Suc (length (takeWhile goes_on os1))" using Cons.prems(2) True by (simp add: os)
    show ?thesis using Cons.IH[OF l' refl] by (simp add: os n s' event_outcome_fields posted_def p)
  next
    case False
    then have l': "os1 = map held_back es" "s2 = s1" using l by (simp_all add: loop_stopped)
    have "so_result ?out \<in> {Rejected, ParkedForReview, Retry}"
      using False event_outcome_fields(3)[of e reply] by (cases "so_result ?out") (auto simp: goes_on_def)
    then show ?thesis using False Cons.prems(2) by (simp add: os s' l' event_outcome_fields posted_def p comp_def)
  qed
qed

lemma highest_le: "start \<le> highest start es \<and> (\<forall>e\<in>set es. se_sequence e \<le> highest start es)"
proof (induction es arbitrary: start)
  case Nil
  then show ?case by (simp add: highest_def)
next
  case (Cons a es)
  have "highest start (a # es) = highest (max (se_sequence a) start) es" by (simp add: highest_def)
  then show ?case using Cons.IH[of "max (se_sequence a) start"] by auto
qed

lemma loop_marks:
  assumes "sync_loop post org user clock k stop es (marks, s) = (os, marks', s')"
    and f: "\<And>w t. f (w\<lparr>wm_pending_until := t\<rparr>) = f w"
  shows "map f marks' = map f marks"
  using assms(1)
proof (induction es arbitrary: k stop marks s os marks' s')
  case Nil
  then show ?case by simp
next
  case (Cons e es)
  have "map f (mark_pending org user t marks) = map f marks" for t by (simp add: mark_pending_def update_where_def f)
  then show ?case using Cons by (auto simp: Let_def split: if_splits prod.splits)
qed

lemma unsettled_simps:
  "unsettled (xs @ ys) \<longleftrightarrow> unsettled xs \<or> unsettled ys"
  "unsettled (x # xs) \<longleftrightarrow> so_result x \<in> {Retry, NotAttempted} \<or> unsettled xs"
  "unsettled (map held_back es) \<longleftrightarrow> es \<noteq> []"
  by (auto simp: unsettled_def) (cases es, auto)

lemma started_covers:
  assumes "w \<in> set (mark_started org user events now marks)" "own_mark org user w" "e \<in> set events"
  shows "se_sequence e \<le> wm_last_sequence w"
proof (cases "find_first (own_mark org user) marks")
  case None
  then have "\<forall>x\<in>set marks. \<not> own_mark org user x" by (simp add: find_first_None)
  then have "wm_last_sequence w = highest (se_sequence (hd events)) events" using assms(1,2) None by (auto simp: mark_started_def)
  then show ?thesis using assms(3) highest_le[of "se_sequence (hd events)" events] by simp
next
  case (Some m)
  then obtain x where "w = (if own_mark org user x then x\<lparr>wm_last_sequence := highest (wm_last_sequence m) events,
      wm_pending_until := Some (now + 5 * 60000)\<rparr> else x)"
    using assms(1) unfolding mark_started_def update_where_def by (auto simp only: option.case set_map)
  then have "wm_last_sequence w = highest (wm_last_sequence m) events" using assms(2) by (auto split: if_splits)
  then show ?thesis using highest_le[of "wm_last_sequence m" events] assms(3) by simp
qed


text \<open>An example: the second of three events is answered with a conflict.\<close>

definition ex_event :: "int \<Rightarrow> sync_type \<Rightarrow> sync_event" where
  "ex_event k ty = \<lparr>se_sequence = k, se_key = ''0123456789abcde'' @ dec_string (nat k), se_type = ty, se_payload = []\<rparr>"

definition ex_post :: "string list sync_post" where
  "ex_post path key body s = (Some \<lparr>sr_status = (if path = ''/break/start'' then 409 else 200), sr_success = None, sr_code = None,
     sr_idempotent = False, sr_action = None\<rparr>, s @ [path])"

definition ex_sync :: "sync_answer result \<times> string list sync_state" where
  "ex_sync = attendance_sync ex_post True ''o'' ''u'' (Some ''Bearer x'') ''w'' [ex_event 1 SyncCheckin, ex_event 2 SyncBreakStart, ex_event 3 SyncCheckout]
     0 (\<lambda>k. int k) \<lparr>sy_redis = Map.empty, sy_marks = [], sy_server = []\<rparr>"


text \<open>A second batch of the same account is refused while the first holds the lock.\<close>

lemma sync_refused_while_locked:
  assumes "redis_get now (sync_lock org user) (sy_redis st) = Some other" "up" "auth = Some (''Bearer '' @ t)"
  shows "attendance_sync post up org user auth owner events now clock st = (Inl (AppError 409 ''ATTENDANCE_SYNC_IN_PROGRESS''), st)"
  using assms by (simp add: attendance_sync_def set_nx_def)

end
