(* ===== verification/JobSchedules.thy ===== *)
theory JobSchedules
  imports QrCode
begin

text \<open>
  When the jobs of an organisation are due: \<^verbatim>\<open>src/src/services/orgJobSchedules.ts\<close>, and the merge of
  assigned and branch-wide employees of \<^verbatim>\<open>src/src/utils/schedulerCandidates.ts\<close>.  \<open>throws\<close> says for
  which zone names \<open>toZonedTime\<close> throws; zoned times are wall clocks in milliseconds.
\<close>

subsection \<open>Definitions\<close>

definition projectDeadlines :: string where "projectDeadlines = ''project_deadline_reminders''"
definition dailyRemoteNudges :: string where "dailyRemoteNudges = ''daily_remote_nudge''"
definition leaveAccrual :: string where "leaveAccrual = ''leave_accrual''"
definition payrollAutoGenerate :: string where "payrollAutoGenerate = ''payroll_auto_generate''"

definition atLocal :: "tzdb \<Rightarrow> day \<Rightarrow> int \<Rightarrow> string \<Rightarrow> instant" where
  "atLocal tz d hour z = fromZonedTime tz (d * day_ms + hour * 3600000) z"

definition localDay :: "tzdb \<Rightarrow> instant \<Rightarrow> string \<Rightarrow> day" where
  "localDay tz t z = day_of_instant (toZonedTime tz t z)"

definition safeTimezone :: "(string \<Rightarrow> bool) \<Rightarrow> string option \<Rightarrow> string" where
  "safeTimezone throws timezone = (let z = coalesce_str timezone ''UTC'' in if throws z then ''UTC'' else z)"

text \<open>The day of the month a payroll run falls on.\<close>

definition month_day :: "int \<Rightarrow> int \<Rightarrow> int \<Rightarrow> day" where
  "month_day y m d = civil_day y m (min d (month_length (leap y) m))"

record schedule_def =
  sd_job_key :: string
  sd_config :: string
  sd_next :: "instant \<Rightarrow> string \<Rightarrow> instant"

record job_org =
  jo_id :: id
  jo_timezone :: "string option"
  jo_payroll_day :: int

definition clamp_day :: "int \<Rightarrow> int" where
  "clamp_day d = max 1 (min 31 d)"

definition definitionsFor :: "tzdb \<Rightarrow> (string \<Rightarrow> bool) \<Rightarrow> job_org \<Rightarrow> schedule_def list" where
  "definitionsFor tz throws org =
     (let timezone = safeTimezone throws (jo_timezone org); payrollDay = clamp_day (jo_payroll_day org)
      in [\<lparr>sd_job_key = projectDeadlines, sd_config = timezone, sd_next = (\<lambda>t z. atLocal tz (localDay tz t z) 8 z)\<rparr>,
          \<lparr>sd_job_key = dailyRemoteNudges, sd_config = timezone, sd_next = (\<lambda>t z. atLocal tz (localDay tz t z) 8 z)\<rparr>,
          \<lparr>sd_job_key = leaveAccrual, sd_config = timezone @ ''|employee-local-period-v1'',
           sd_next = (\<lambda>t z. let todayRun = atLocal tz (localDay tz t z) 2 z in if t < todayRun then todayRun else atLocal tz (localDay tz t z + 1) 2 z)\<rparr>,
          \<lparr>sd_job_key = payrollAutoGenerate, sd_config = timezone @ CHR ''|'' # dec_string (nat payrollDay),
           sd_next = (\<lambda>t z. let d = localDay tz t z in atLocal tz (month_day (yearOf d) (monthOf d) payrollDay) 8 z)\<rparr>])"

record job_schedule =
  js_org_id :: id
  js_job_key :: string
  js_timezone :: string
  js_config :: string
  js_next_run_at :: instant
  js_last_run_at :: "instant option"

definition schedule_of :: "id \<Rightarrow> string \<Rightarrow> job_schedule \<Rightarrow> bool" where
  "schedule_of org key r \<longleftrightarrow> js_org_id r = org \<and> js_job_key r = key"

definition reconcile_one :: "instant \<Rightarrow> id \<Rightarrow> string \<Rightarrow> schedule_def \<Rightarrow> job_schedule list \<Rightarrow> job_schedule list" where
  "reconcile_one now org z def rows =
     (case find_first (schedule_of org (sd_job_key def)) rows of
        None \<Rightarrow> rows @ [\<lparr>js_org_id = org, js_job_key = sd_job_key def, js_timezone = z, js_config = sd_config def,
                  js_next_run_at = sd_next def now z, js_last_run_at = None\<rparr>]
      | Some r \<Rightarrow>
          if js_timezone r \<noteq> z \<or> js_config r \<noteq> sd_config def
          then update_where (schedule_of org (sd_job_key def)) (\<lambda>r. r\<lparr>js_timezone := z, js_config := sd_config def, js_next_run_at := sd_next def now z\<rparr>) rows
          else rows)"

definition reconcileOrganizationJobSchedules :: "tzdb \<Rightarrow> (string \<Rightarrow> bool) \<Rightarrow> instant \<Rightarrow> job_org list \<Rightarrow> job_schedule list \<Rightarrow> job_schedule list" where
  "reconcileOrganizationJobSchedules tz throws now orgs rows =
     fold (\<lambda>org. fold (reconcile_one now (jo_id org) (safeTimezone throws (jo_timezone org))) (definitionsFor tz throws org)) orgs rows"

definition getDueOrganizationJobs :: "string \<Rightarrow> instant \<Rightarrow> nat \<Rightarrow> job_schedule list \<Rightarrow> job_schedule list" where
  "getDueOrganizationJobs key now n rows = take n (sort_key js_next_run_at (filter (\<lambda>r. js_job_key r = key \<and> js_next_run_at r \<le> now) rows))"

text \<open>The next run of a job that has completed.  The payroll day is read back from the configuration;
  \<open>None\<close> is a day that is not a number, for which the date is invalid and the update fails.\<close>

definition config_day :: "string \<Rightarrow> rat option" where
  "config_day config = (case split_on (CHR ''|'') config of _ # d # _ \<Rightarrow> js_number d | _ \<Rightarrow> Some 1)"

definition next_after :: "tzdb \<Rightarrow> string \<Rightarrow> string \<Rightarrow> string \<Rightarrow> instant \<Rightarrow> instant option" where
  "next_after tz key z config now =
     (let d = localDay tz now z in
      if key = projectDeadlines \<or> key = dailyRemoteNudges then Some (atLocal tz (d + 1) 8 z)
      else if key = leaveAccrual then Some (atLocal tz (d + 1) 2 z)
      else case config_day config of None \<Rightarrow> None
        | Some c \<Rightarrow>
            (let y = (if monthOf d = 12 then yearOf d + 1 else yearOf d); m = (if monthOf d = 12 then 1 else monthOf d + 1);
                 dd = min (max 1 c) (of_int (month_length (leap y) m))
             in if dd = of_int \<lfloor>dd\<rfloor> then Some (atLocal tz (civil_day y m \<lfloor>dd\<rfloor>) 8 z) else None))"

definition markOrganizationJobComplete ::
    "tzdb \<Rightarrow> (string \<Rightarrow> bool) \<Rightarrow> id \<Rightarrow> string \<Rightarrow> instant \<Rightarrow> job_schedule list \<Rightarrow> job_schedule list result" where
  "markOrganizationJobComplete tz throws org key now rows =
     (case find_first (schedule_of org key) rows of None \<Rightarrow> Inr rows
      | Some s \<Rightarrow>
          (case next_after tz key (safeTimezone throws (Some (js_timezone s))) (js_config s) now of None \<Rightarrow> Inl PlainError
           | Some nextRun \<Rightarrow> Inr (update_where (\<lambda>r. schedule_of org key r \<and> js_next_run_at r \<le> now)
               (\<lambda>r. r\<lparr>js_last_run_at := Some now, js_next_run_at := nextRun\<rparr>) rows)))"

text \<open>JavaScript maps keep the position of the first insertion of a key and the last value.\<close>

definition map_set :: "('k \<times> 'v) list \<Rightarrow> 'k \<Rightarrow> 'v \<Rightarrow> ('k \<times> 'v) list" where
  "map_set m k v = (if k \<in> fst ` set m then map (\<lambda>(a, b). if a = k then (a, v) else (a, b)) m else m @ [(k, v)])"

definition mergeShiftCandidates :: "('u \<Rightarrow> id) \<Rightarrow> (id \<times> 'u \<times> 's) list \<Rightarrow> 'u list \<Rightarrow> 'u list \<times> (id \<times> 's) list" where
  "mergeShiftCandidates uid assignments fallback =
     (let employees = fold (\<lambda>(_, u, _) m. map_set m (uid u) u) assignments [];
          shifts = fold (\<lambda>(i, _, s) m. map_set m i s) assignments [];
          all = fold (\<lambda>u m. map_set m (uid u) u) fallback employees
      in (map snd all, shifts))"

subsection \<open>A completed job is due again later\<close>

definition next_month :: "day \<Rightarrow> int \<times> int" where
  "next_month d = (if monthOf d = 12 then (yearOf d + 1, 1) else (yearOf d, monthOf d + 1))"

lemma next_month_later:
  assumes "next_month d = (y, m)" "1 \<le> k"
  shows "d < civil_day y m k"
proof -
  have d: "d = civil_day (yearOf d) (monthOf d) (dayOf d)" by (simp add: civil_roundtrip)
  have first: "civil_day y m 1 = civil_day (yearOf d) (monthOf d) (month_length (leap (yearOf d)) (monthOf d) + 1)"
  proof (cases "monthOf d = 12")
    case True
    then show ?thesis using assms(1) days_before_year_Suc[of "yearOf d"]
      by (auto simp: next_month_def civil_day_def month_length_def month_start_def)
  next
    case False
    then show ?thesis using assms(1) by (auto simp: next_month_def civil_day_def month_length_def)
  qed
  have "civil_day y m k = civil_day y m 1 + (k - 1)" by (simp add: civil_day_def)
  moreover have "civil_day (yearOf d) (monthOf d) (month_length (leap (yearOf d)) (monthOf d) + 1) =
      d + (month_length (leap (yearOf d)) (monthOf d) + 1 - dayOf d)"
    using d by (simp add: civil_day_def)
  ultimately show ?thesis using dayOf_bounds(2)[of d] assms(2) first by linarith
qed

lemma at_local_later:
  assumes zone: "\<forall>t w. toZonedTime tz t z + 2 * 3600000 \<le> w \<longrightarrow> t < fromZonedTime tz w z"
    and "localDay tz now z < d" "2 \<le> hour"
  shows "now < atLocal tz d hour z"
proof -
  have "toZonedTime tz now z < (localDay tz now z + 1) * day_ms"
    using div_bracket[of day_ms "toZonedTime tz now z"] by (simp add: localDay_def day_of_instant_def day_ms_def)
  moreover have "(localDay tz now z + 1) * day_ms \<le> d * day_ms" using assms(2) by (simp add: day_ms_def)
  moreover have "2 * 3600000 \<le> hour * 3600000" using assms(3) by simp
  ultimately have "toZonedTime tz now z + 2 * 3600000 \<le> d * day_ms + hour * 3600000" by linarith
  then show ?thesis using zone by (simp add: atLocal_def)
qed

lemma next_after_later:
  assumes zone: "\<forall>t w. toZonedTime tz t z + 2 * 3600000 \<le> w \<longrightarrow> t < fromZonedTime tz w z"
    and nx: "next_after tz key z config now = Some t"
  shows "now < t"
proof -
  let ?d = "localDay tz now z"
  obtain y m where ym: "next_month ?d = (y, m)" by (rule prod.exhaust)
  consider (day) hour where "t = atLocal tz (?d + 1) hour z" "2 \<le> hour"
    | (month) k where "t = atLocal tz (civil_day y m k) 8 z" "1 \<le> k"
  proof (cases "key = projectDeadlines \<or> key = dailyRemoteNudges \<or> key = leaveAccrual")
    case True
    then show ?thesis using nx day[of 8] day[of 2] by (auto simp: next_after_def Let_def split: if_splits)
  next
    case False
    then obtain c where c: "config_day config = Some c" using nx by (cases "config_day config") (auto simp: next_after_def Let_def)
    have "1 \<le> m" "m \<le> 12" using ym monthOf_bounds[of ?d] by (auto simp: next_month_def split: if_splits)
    then have "(1 :: rat) \<le> of_int (month_length (leap y) m)" using month_length_bounds[of m "leap y"] by simp
    then have "1 \<le> \<lfloor>min (max 1 c) (of_int (month_length (leap y) m))\<rfloor>" by (simp add: le_floor_iff)
    moreover have "t = atLocal tz (civil_day y m \<lfloor>min (max 1 c) (of_int (month_length (leap y) m))\<rfloor>) 8 z"
      using nx False c ym by (auto simp: next_after_def next_month_def Let_def split: if_splits)
    ultimately show ?thesis using month by blast
  qed
  then show ?thesis
  proof cases
    case day
    then show ?thesis using at_local_later[OF zone, of now "?d + 1" hour] by simp
  next
    case month
    then show ?thesis using at_local_later[OF zone next_month_later[OF ym month(2)], of 8] by simp
  qed
qed

lemma payroll_day_read_back:
  assumes "CHR ''|'' \<notin> set z" "1 \<le> d"
  shows "config_day (z @ CHR ''|'' # dec_string (nat d)) = Some (of_int d)"
proof -
  let ?s = "dec_string (nat d)"
  have s: "list_all is_digit ?s" "?s \<noteq> []" by (rule dec_string_digits, rule dec_string_nonempty)
  have bar: "CHR ''|'' \<notin> set ?s" using s(1) by (auto simp: list_all_iff is_digit_def)
  have sp: "\<not> is_space c" "c \<noteq> CHR ''-''" "c \<noteq> CHR ''+''" if c: "is_digit c" for c using c by (auto simp: is_digit_def is_space_def)
  have dig: "\<forall>c\<in>set ?s. is_digit c" using s(1) by (simp add: list_all_iff)
  have "dropWhile is_space ?s = ?s" "dropWhile is_space (rev ?s) = rev ?s"
    using s(2) dig sp(1) hd_in_set[of ?s] last_in_set[of ?s] by (auto simp: dropWhile_eq_self_iff hd_rev)
  then have t: "trim ?s = ?s" by (simp add: trim_def)
  have g: "split_sign ?s = (False, ?s)" using s(2) dig sp(2,3) by (cases ?s) (auto simp: split_sign_def)
  have w: "takeWhile is_digit ?s = ?s" "dropWhile is_digit ?s = []" using dig by (simp_all add: takeWhile_eq_all_conv dropWhile_eq_Nil_conv)
  have "js_number ?s = Some (of_nat (dec_value ?s))"
    unfolding js_number_def t Let_def using s(2) by (simp add: g w exponent_of_def dec_value_def)
  then show ?thesis
    using assms bar by (simp add: config_day_def split_on_append split_on_no_sep dec_string_value)
qed

text \<open>When a job of an organisation is marked complete, its next run lies in the future and
  every other schedule is untouched, so a job neither runs twice for the same moment nor is lost; and
  the payroll day that the next run is computed from is the configured day, which the schedule stores
  as text.  Of the zone it is used that a wall time two hours or more ahead is a later instant.\<close>

theorem job_reschedules:
  assumes zone: "\<forall>z t w. toZonedTime tz t z + 2 * 3600000 \<le> w \<longrightarrow> t < fromZonedTime tz w z"
    and complete: "markOrganizationJobComplete tz throws org key now rows = Inr rows'"
  shows "(\<forall>r\<in>set rows'. schedule_of org key r \<longrightarrow> now < js_next_run_at r) \<and>
    filter (\<lambda>r. \<not> schedule_of org key r) rows' = filter (\<lambda>r. \<not> schedule_of org key r) rows \<and>
    (CHR ''|'' \<notin> set (safeTimezone throws (jo_timezone o')) \<longrightarrow>
       config_day (sd_config (definitionsFor tz throws o' ! 3)) = Some (of_int (clamp_day (jo_payroll_day o'))))"
proof (intro conjI impI)
  show "config_day (sd_config (definitionsFor tz throws o' ! 3)) = Some (of_int (clamp_day (jo_payroll_day o')))"
    if "CHR ''|'' \<notin> set (safeTimezone throws (jo_timezone o'))"
    using payroll_day_read_back[OF that, of "clamp_day (jo_payroll_day o')"]
    by (simp add: definitionsFor_def Let_def clamp_day_def)
  show "\<forall>r\<in>set rows'. schedule_of org key r \<longrightarrow> now < js_next_run_at r"
  proof (cases "find_first (schedule_of org key) rows")
    case None
    then have "rows' = rows" using complete by (simp add: markOrganizationJobComplete_def)
    then show ?thesis using None by (auto simp: find_first_None)
  next
    case (Some s)
    then obtain t where t: "next_after tz key (safeTimezone throws (Some (js_timezone s))) (js_config s) now = Some t"
      "rows' = update_where (\<lambda>r. schedule_of org key r \<and> js_next_run_at r \<le> now) (\<lambda>r. r\<lparr>js_last_run_at := Some now, js_next_run_at := t\<rparr>) rows"
      using complete by (auto simp: markOrganizationJobComplete_def split: option.splits)
    have later: "now < t" by (rule next_after_later[OF _ t(1)]) (use zone in blast)
    show ?thesis
    proof (intro ballI impI)
      fix r assume "r \<in> set rows'"
      then obtain x where "r = (if schedule_of org key x \<and> js_next_run_at x \<le> now then x\<lparr>js_last_run_at := Some now, js_next_run_at := t\<rparr> else x)"
        unfolding t(2) update_where_def set_map by (elim imageE)
      moreover assume "schedule_of org key r"
      ultimately show "now < js_next_run_at r" using later by (auto split: if_splits)
    qed
  qed
  have other: "filter (\<lambda>r. \<not> schedule_of org key r) (update_where (\<lambda>r. schedule_of org key r \<and> js_next_run_at r \<le> now)
      (\<lambda>r. r\<lparr>js_last_run_at := a, js_next_run_at := b\<rparr>) rows) = filter (\<lambda>r. \<not> schedule_of org key r) rows" for a b
    by (induction rows) (auto simp: update_where_def schedule_of_def)
  show "filter (\<lambda>r. \<not> schedule_of org key r) rows' = filter (\<lambda>r. \<not> schedule_of org key r) rows"
    using complete unfolding markOrganizationJobComplete_def by (auto simp only: other sum.inject split: option.splits sum.splits)
qed

definition ex_utc :: tzdb where
  "ex_utc = \<lparr>toZonedTime = (\<lambda>t z. t), fromZonedTime = (\<lambda>w z. w)\<rparr>"

definition ex_schedules :: "job_schedule list" where
  "ex_schedules = reconcileOrganizationJobSchedules ex_utc (\<lambda>_. False) 3600000 [\<lparr>jo_id = ''o'', jo_timezone = None, jo_payroll_day = 31\<rparr>] []"

theorem job_reschedules_witness:
  "map js_next_run_at ex_schedules = [28800000, 28800000, 7200000, 2620800000] \<and>
   (\<exists>rows. markOrganizationJobComplete ex_utc (\<lambda>_. False) ''o'' payrollAutoGenerate 2620800000 ex_schedules = Inr rows \<and>
     list_all (\<lambda>r. 2620800000 < js_next_run_at r) (filter (schedule_of ''o'' payrollAutoGenerate) rows))"
proof -
  have s: "map js_next_run_at ex_schedules = [28800000, 28800000, 7200000, 2620800000]" by code_simp
  have "isl (markOrganizationJobComplete ex_utc (\<lambda>_. False) ''o'' payrollAutoGenerate 2620800000 ex_schedules) = False" by code_simp
  then obtain rows where r: "markOrganizationJobComplete ex_utc (\<lambda>_. False) ''o'' payrollAutoGenerate 2620800000 ex_schedules = Inr rows"
    by (cases "markOrganizationJobComplete ex_utc (\<lambda>_. False) ''o'' payrollAutoGenerate 2620800000 ex_schedules") auto
  have "\<forall>z t w. toZonedTime ex_utc t z + 2 * 3600000 \<le> w \<longrightarrow> t < fromZonedTime ex_utc w z" by (simp add: ex_utc_def)
  from job_reschedules[OF this r] s r show ?thesis by (auto simp: list_all_iff)
qed

end
