(* ===== verification/Journal.thy ===== *)
theory Journal
  imports PayrollRun Json "HOL-Library.List_Lexorder" "HOL-Library.Product_Lexorder" "HOL-Library.Char_ord"
begin

text \<open>
  The accounting export of processed payroll, \<^verbatim>\<open>src/src/services/payrollJournal.ts\<close>.

  A source record has the columns the export reads; the two JSON columns hold the itemised
  contributions that the statutory calculation writes (\<open>line_item\<close>).  \<open>collate\<close> gives the sort key of a
  string under \<open>localeCompare\<close>.  Free texts (account names, descriptions) are left out.
\<close>

subsection \<open>Definitions\<close>

record journal_source =
  jr_month :: int
  jr_year :: int
  jr_gross_pay :: rat
  jr_tax_deduction :: rat
  jr_pension_deduction :: rat
  jr_net_pay :: rat
  jr_employee :: "line_item list"
  jr_employer :: "line_item list"
  jr_currency :: "string option"

record journal_line =
  jl_date :: day
  jl_period :: "int \<times> int"
  jl_currency :: string
  jl_account_code :: string
  jl_debit :: rat
  jl_credit :: rat
  jl_source_records :: nat

definition roundMoney :: "rat \<Rightarrow> rat" where
  "roundMoney v = of_int (js_round ((v + 1 / 2 ^ 52) * 100)) / 100"

definition to_upper :: "char \<Rightarrow> char" where
  "to_upper c = (let n = (of_char c :: nat) in if 97 \<le> n \<and> n \<le> 122 then char_of (n - 32) else c)"

definition journal_currency :: "string option \<Rightarrow> string" where
  "journal_currency c = map to_upper (coalesce_str c ''USD'')"

definition currency_ok :: "string \<Rightarrow> bool" where
  "currency_ok c \<longleftrightarrow> 3 \<le> length c \<and> length c \<le> 10 \<and> list_all is_upper c"

text \<open>\<open>accountSuffix\<close>: upper case, runs of other characters become one underscore, one underscore is
  dropped at either end, at most 24 characters.\<close>

fun squeeze :: "bool \<Rightarrow> string \<Rightarrow> string" where
  "squeeze gap [] = []"
| "squeeze gap (c # cs) =
     (if is_upper c \<or> is_digit c then c # squeeze False cs
      else if gap then squeeze True cs else CHR ''_'' # squeeze True cs)"

definition accountSuffix :: "string \<Rightarrow> string" where
  "accountSuffix key =
     (let s = squeeze False (map to_upper key);
          s1 = (if s \<noteq> [] \<and> hd s = CHR ''_'' then tl s else s);
          s2 = (if s1 \<noteq> [] \<and> last s1 = CHR ''_'' then butlast s1 else s1);
          s3 = take 24 s2
      in if s3 = [] then ''OTHER'' else s3)"

text \<open>Totals per key, in the order of first appearance; the first label wins.\<close>

definition add_item :: "line_item \<Rightarrow> line_item list \<Rightarrow> line_item list" where
  "add_item i acc =
     (let key = trim (li_key i); label = trim (li_label i) in
      if key = [] then acc
      else if \<exists>x\<in>set acc. li_key x = key
      then map (\<lambda>x. if li_key x = key then x\<lparr>li_amount := li_amount x + li_amount i\<rparr> else x) acc
      else acc @ [\<lparr>li_key = key, li_label = (if label = [] then key else label), li_amount = li_amount i\<rparr>])"

definition statutoryTotals :: "(journal_source \<Rightarrow> line_item list) \<Rightarrow> journal_source list \<Rightarrow> line_item list" where
  "statutoryTotals field grp =
     filter (\<lambda>x. 0 < li_amount x) (map (\<lambda>x. x\<lparr>li_amount := roundMoney (li_amount x)\<rparr>) (fold add_item (concat (map field grp)) []))"

definition sum_field :: "(journal_source \<Rightarrow> rat) \<Rightarrow> journal_source list \<Rightarrow> rat" where
  "sum_field field grp = roundMoney (sum_list (map field grp))"

text \<open>The postings of a group: account, debit, credit.\<close>

definition postings :: "journal_source list \<Rightarrow> (string \<times> rat \<times> rat) list" where
  "postings grp =
     [(''EXP-PAYROLL'', sum_field jr_gross_pay grp, 0),
      (''LIAB-INCOME-TAX'', 0, sum_field jr_tax_deduction grp),
      (''LIAB-PENSION'', 0, sum_field jr_pension_deduction grp)] @
     map (\<lambda>i. (''LIAB-EMP-'' @ accountSuffix (li_key i), 0, li_amount i)) (statutoryTotals jr_employee grp) @
     [(''LIAB-NET-PAY'', 0, sum_field jr_net_pay grp)] @
     concat (map (\<lambda>i. [(''EXP-ER-'' @ accountSuffix (li_key i), li_amount i, 0), (''LIAB-ER-'' @ accountSuffix (li_key i), 0, li_amount i)])
       (statutoryTotals jr_employer grp))"

definition group_key :: "journal_source \<Rightarrow> (int \<times> int) \<times> string" where
  "group_key r = ((jr_year r, jr_month r), journal_currency (jr_currency r))"

definition group_lines :: "(int \<times> int) \<times> string \<Rightarrow> journal_source list \<Rightarrow> journal_line list" where
  "group_lines key grp =
     (case key of ((y, m), currency) \<Rightarrow>
       concat (map (\<lambda>(code, debit, credit).
         let dr = roundMoney debit; cr = roundMoney credit
         in if dr \<noteq> 0 \<or> cr \<noteq> 0
            then [\<lparr>jl_date = utc_day y m 0, jl_period = (y, m), jl_currency = currency, jl_account_code = code,
                   jl_debit = dr, jl_credit = cr, jl_source_records = length grp\<rparr>]
            else []) (postings grp)))"

definition out_of_balance :: "journal_line list \<Rightarrow> bool" where
  "out_of_balance lines \<longleftrightarrow>
     1 / 100 < \<bar>roundMoney (sum_list (map jl_debit lines)) - roundMoney (sum_list (map jl_credit lines))\<bar>"

definition group_keys :: "journal_source list \<Rightarrow> ((int \<times> int) \<times> string) list" where
  "group_keys records = rev (remdups (rev (map group_key records)))"

definition line_order :: "(string \<Rightarrow> nat list) \<Rightarrow> journal_line \<Rightarrow> (int \<times> int) \<times> nat list \<times> nat list" where
  "line_order collate l = (jl_period l, collate (jl_currency l), collate (jl_account_code l))"

definition buildPayrollJournal :: "(string \<Rightarrow> nat list) \<Rightarrow> journal_source list \<Rightarrow> journal_line list result" where
  "buildPayrollJournal collate records =
     require (list_all (\<lambda>r. currency_ok (journal_currency (jr_currency r))) records) PlainError
      (let groups = map (\<lambda>k. group_lines k (filter (\<lambda>r. group_key r = k) records)) (group_keys records)
       in require (list_all (\<lambda>g. \<not> out_of_balance g) groups) PlainError (Inr (sort_key (line_order collate) (concat groups))))"

text \<open>\<open>GET /payroll/journal.csv\<close>: the processed records of a year or month.  \<open>None\<close> for the year stands for a
  value that is not an integer.\<close>

definition journal_source_of :: "payroll_db \<Rightarrow> id \<Rightarrow> payroll_record \<Rightarrow> journal_source" where
  "journal_source_of db org r =
     (let rate = Option.bind (pr_pay_rate_id r) (\<lambda>i. find_first (\<lambda>x. rt_id x = i) (db_rates db));
          own = find_first (\<lambda>o'. og_id o' = org) (db_orgs db);
          truthy = (\<lambda>s. case s of Some x \<Rightarrow> if x = [] then None else Some x | None \<Rightarrow> None)
      in \<lparr>jr_month = pr_period_month r, jr_year = pr_period_year r, jr_gross_pay = pr_gross_pay r, jr_tax_deduction = pr_tax_deduction r,
          jr_pension_deduction = pr_pension_deduction r, jr_net_pay = pr_net_pay r, jr_employee = pr_employee_statutory_deductions r,
          jr_employer = pr_employer_statutory_contributions r,
          jr_currency = coalesce_opt (truthy (map_option rt_currency rate)) (coalesce_opt (truthy (map_option og_currency own)) (Some ''USD''))\<rparr>)"

definition journal_csv :: "(string \<Rightarrow> nat list) \<Rightarrow> id \<Rightarrow> int option \<Rightarrow> int option option \<Rightarrow> payroll_db \<Rightarrow> (journal_line list \<times> payroll_db) result" where
  "journal_csv collate org year month db =
     (case year of None \<Rightarrow> Inl ValidationError
      | Some y \<Rightarrow>
        require (2000 \<le> y \<and> y \<le> 2200) ValidationError
        (require (case month of Some None \<Rightarrow> False | Some (Some m) \<Rightarrow> 1 \<le> m \<and> m \<le> 12 | None \<Rightarrow> True) ValidationError
         (let rows = sort_key (\<lambda>r. (pr_period_month r, pr_id r)) (filter (\<lambda>r. pr_org_id r = org \<and> pr_period_year r = y \<and> pr_status r = ''processed'' \<and>
                (case month of Some (Some m) \<Rightarrow> pr_period_month r = m | _ \<Rightarrow> True)) (db_records db))
          in require (rows \<noteq> []) NotFoundError
              (bind_result (buildPayrollJournal collate (map (journal_source_of db org) rows)) (\<lambda>lines.
                 Inr (lines, db\<lparr>db_log := Audit ''payroll.journal.export'' org # db_log db\<rparr>))))))"

subsection \<open>Cents\<close>

definition cents :: "rat \<Rightarrow> bool" where
  "cents x \<longleftrightarrow> x * 100 \<in> \<int>"

lemma cents_arith: "cents 0" "cents x \<Longrightarrow> cents y \<Longrightarrow> cents (x + y)" "(\<And>x. x \<in> set xs \<Longrightarrow> cents (f x)) \<Longrightarrow> cents (sum_list (map f xs))"
proof -
  show "cents 0" by (simp add: cents_def)
  show add: "cents x \<Longrightarrow> cents y \<Longrightarrow> cents (x + y)" for x y by (simp add: cents_def distrib_right)
  show "(\<And>x. x \<in> set xs \<Longrightarrow> cents (f x)) \<Longrightarrow> cents (sum_list (map f xs))"
    by (induction xs) (auto simp: cents_def intro: add[unfolded cents_def])
qed

lemma roundMoney_is_cents: "cents (roundMoney v)"
  by (simp add: cents_def roundMoney_def)

lemma roundMoney_id: "cents x \<Longrightarrow> roundMoney x = x"
proof -
  assume "cents x"
  then obtain k where k: "x * 100 = of_int k" by (auto simp: cents_def elim: Ints_cases)
  have "(x + 1 / 2 ^ 52) * 100 + 1 / 2 = of_int k + (100 / 2 ^ 52 + 1 / 2)" using k by (simp add: distrib_right)
  moreover have "\<lfloor>of_int k + (100 / 2 ^ 52 + 1 / 2 :: rat)\<rfloor> = k" by (rule floor_unique) simp_all
  ultimately have "js_round ((x + 1 / 2 ^ 52) * 100) = k" by (simp add: js_round_def)
  then show ?thesis using k by (simp add: roundMoney_def field_simps)
qed

lemma line_cents: "l \<in> set (group_lines k grp) \<Longrightarrow> cents (jl_debit l) \<and> cents (jl_credit l)"
  by (cases k) (auto simp: group_lines_def Let_def roundMoney_is_cents split: if_splits)

lemma balance_exact:
  "(\<And>l. l \<in> set lines \<Longrightarrow> cents (jl_debit l) \<and> cents (jl_credit l)) \<Longrightarrow>
   out_of_balance lines \<longleftrightarrow> 1 / 100 < \<bar>sum_list (map jl_debit lines) - sum_list (map jl_credit lines)\<bar>"
  by (simp add: out_of_balance_def roundMoney_id cents_arith(3))

subsection \<open>Grouping\<close>

definition of_group :: "(int \<times> int) \<times> string \<Rightarrow> journal_line list \<Rightarrow> journal_line list" where
  "of_group k lines = filter (\<lambda>l. (jl_period l, jl_currency l) = k) lines"

lemma lines_keyed: "l \<in> set (group_lines k grp) \<Longrightarrow> (jl_period l, jl_currency l) = k"
  by (cases k) (auto simp: group_lines_def Let_def split: if_splits)

lemma of_group_concat:
  "distinct ks \<Longrightarrow> of_group k (concat (map (\<lambda>k. group_lines k (g k)) ks)) = (if k \<in> set ks then group_lines k (g k) else [])"
proof (induction ks)
  case Nil
  then show ?case by (simp add: of_group_def)
next
  case (Cons a ks)
  have "of_group k (group_lines a (g a)) = (if k = a then group_lines a (g a) else [])"
  proof (cases "k = a")
    case True
    have "\<forall>l\<in>set (group_lines a (g a)). (jl_period l, jl_currency l) = a" using lines_keyed by blast
    then show ?thesis using True by (simp add: of_group_def filter_id_conv)
  next
    case False
    have "\<forall>l\<in>set (group_lines a (g a)). (jl_period l, jl_currency l) \<noteq> k" using lines_keyed False by blast
    then show ?thesis using False by (simp add: of_group_def filter_empty_conv)
  qed
  moreover have "of_group k (xs @ ys) = of_group k xs @ of_group k ys" for xs ys by (simp add: of_group_def)
  ultimately show ?case using Cons by auto
qed

lemma sum_of_group_sorted: "sum_list (map f (of_group k (sort_key o' xs))) = sum_list (map f (of_group k xs))" for f :: "journal_line \<Rightarrow> rat"
proof -
  have "mset (of_group k (sort_key o' xs)) = mset (of_group k xs)" by (simp add: of_group_def mset_filter)
  then show ?thesis by (metis mset_map sum_mset_sum_list)
qed

lemma group_keys_distinct: "distinct (group_keys records)"
  by (simp add: group_keys_def)

subsection \<open>Sums\<close>

definition item_ok :: "line_item \<Rightarrow> bool" where
  "item_ok i \<longleftrightarrow> trim (li_key i) \<noteq> [] \<and> 0 < li_amount i \<and> cents (li_amount i)"

text \<open>A record that accounts for its gross pay to the cent.\<close>

definition accounted :: "journal_source \<Rightarrow> bool" where
  "accounted r \<longleftrightarrow> list_all item_ok (jr_employee r) \<and> list_all item_ok (jr_employer r) \<and>
     cents (jr_tax_deduction r) \<and> cents (jr_pension_deduction r) \<and> cents (jr_net_pay r) \<and>
     jr_gross_pay r = jr_tax_deduction r + jr_pension_deduction r + sum_list (map li_amount (jr_employee r)) + jr_net_pay r"

definition totals_ok :: "line_item list \<Rightarrow> bool" where
  "totals_ok acc \<longleftrightarrow> distinct (map li_key acc) \<and> (\<forall>x\<in>set acc. 0 < li_amount x \<and> cents (li_amount x))"

lemma sum_bump:
  assumes "distinct (map li_key acc)" "\<exists>x\<in>set acc. li_key x = key"
  shows "sum_list (map (\<lambda>x. li_amount (if li_key x = key then x\<lparr>li_amount := li_amount x + d\<rparr> else x)) acc) = sum_list (map li_amount acc) + d"
  using assms
proof (induction acc)
  case Nil
  then show ?case by simp
next
  case (Cons a acc)
  show ?case
  proof (cases "li_key a = key")
    case True
    then have "\<forall>x\<in>set acc. li_key x \<noteq> key" using Cons.prems(1) by (metis distinct.simps(2) image_eqI list.simps(9) set_map)
    then have same: "map (\<lambda>x. li_amount (if li_key x = key then x\<lparr>li_amount := li_amount x + d\<rparr> else x)) acc = map li_amount acc"
      by (intro map_cong) simp_all
    show ?thesis unfolding list.map(2) sum_list.Cons same using True by simp
  next
    case False
    then show ?thesis using Cons by simp
  qed
qed

lemma add_item_ok:
  assumes "totals_ok acc" "item_ok i"
  shows "totals_ok (add_item i acc) \<and> sum_list (map li_amount (add_item i acc)) = sum_list (map li_amount acc) + li_amount i"
proof (cases "\<exists>x\<in>set acc. li_key x = trim (li_key i)")
  case True
  let ?f = "\<lambda>x. if li_key x = trim (li_key i) then x\<lparr>li_amount := li_amount x + li_amount i\<rparr> else x"
  have eq: "add_item i acc = map ?f acc" using True assms(2) by (simp add: add_item_def item_ok_def Let_def)
  have keys: "map li_key (map ?f acc) = map li_key acc" by simp
  have "\<forall>x\<in>set (map ?f acc). 0 < li_amount x \<and> cents (li_amount x)"
    using assms cents_arith(2) by (auto simp: totals_ok_def item_ok_def add_pos_pos)
  moreover have "sum_list (map li_amount (map ?f acc)) = sum_list (map li_amount acc) + li_amount i"
    using sum_bump[OF _ True] assms(1) by (simp add: totals_ok_def comp_def)
  ultimately show ?thesis using assms(1) unfolding eq totals_ok_def keys by blast
next
  case False
  then show ?thesis using assms by (auto simp: add_item_def item_ok_def totals_ok_def Let_def)
qed

lemma fold_items_ok:
  "totals_ok acc \<Longrightarrow> list_all item_ok is \<Longrightarrow>
    totals_ok (fold add_item is acc) \<and> sum_list (map li_amount (fold add_item is acc)) = sum_list (map li_amount acc) + sum_list (map li_amount is)"
proof (induction "is" arbitrary: acc)
  case Nil
  then show ?case by simp
next
  case (Cons i "is")
  then show ?case using add_item_ok[of acc i] by simp
qed

lemma totals_sum:
  assumes "\<forall>r\<in>set grp. list_all item_ok (field r)"
  shows "sum_list (map li_amount (statutoryTotals field grp)) = sum_list (map (\<lambda>r. sum_list (map li_amount (field r))) grp) \<and>
    (\<forall>x\<in>set (statutoryTotals field grp). cents (li_amount x))"
proof -
  let ?is = "concat (map field grp)"
  have "list_all item_ok ?is" using assms by (auto simp: list_all_iff)
  then have f: "totals_ok (fold add_item ?is [])" "sum_list (map li_amount (fold add_item ?is [])) = sum_list (map li_amount ?is)"
    using fold_items_ok[of "[]" ?is] by (simp_all add: totals_ok_def)
  then have "statutoryTotals field grp = fold add_item ?is []"
    unfolding statutoryTotals_def by (subst map_idI) (auto simp: totals_ok_def roundMoney_id filter_id_conv)
  moreover have "sum_list (map li_amount ?is) = sum_list (map (\<lambda>r. sum_list (map li_amount (field r))) grp)"
    by (induction grp) simp_all
  ultimately show ?thesis using f by (simp add: totals_ok_def)
qed

lemma lines_sum:
  assumes "\<forall>(code, d, c)\<in>set ps. cents d \<and> cents c"
  shows "sum_list (map jl_debit (concat (map (\<lambda>(code, debit, credit). let dr = roundMoney debit; cr = roundMoney credit
         in if dr \<noteq> 0 \<or> cr \<noteq> 0 then [\<lparr>jl_date = a, jl_period = p, jl_currency = b, jl_account_code = code, jl_debit = dr, jl_credit = cr, jl_source_records = n\<rparr>]
            else []) ps))) = sum_list (map (\<lambda>(_, d, _). d) ps)" (is "?d ps = _")
    and "sum_list (map jl_credit (concat (map (\<lambda>(code, debit, credit). let dr = roundMoney debit; cr = roundMoney credit
         in if dr \<noteq> 0 \<or> cr \<noteq> 0 then [\<lparr>jl_date = a, jl_period = p, jl_currency = b, jl_account_code = code, jl_debit = dr, jl_credit = cr, jl_source_records = n\<rparr>]
            else []) ps))) = sum_list (map (\<lambda>(_, _, c). c) ps)"
  using assms by (induction ps) (auto simp: roundMoney_id Let_def)

lemma group_balances:
  assumes "\<forall>r\<in>set grp. accounted r"
  shows "sum_list (map jl_debit (group_lines k grp)) = sum_list (map jl_credit (group_lines k grp))"
proof -
  obtain y m cur where k: "k = ((y, m), cur)" by (metis prod.exhaust)
  have emp: "\<forall>r\<in>set grp. list_all item_ok (jr_employee r)" "\<forall>r\<in>set grp. list_all item_ok (jr_employer r)"
    using assms by (auto simp: accounted_def)
  have item: "cents (sum_list (map li_amount (jr_employee r)))" if r: "r \<in> set grp" for r
    by (rule cents_arith(3)) (use emp r in \<open>auto simp: list_all_iff item_ok_def\<close>)
  have c: "\<forall>r\<in>set grp. cents (jr_tax_deduction r) \<and> cents (jr_pension_deduction r) \<and> cents (jr_net_pay r) \<and> cents (jr_gross_pay r)"
    using assms item by (auto simp: accounted_def intro!: cents_arith(2))
  then have sums: "sum_field f grp = sum_list (map f grp)" if "f \<in> {jr_tax_deduction, jr_pension_deduction, jr_net_pay, jr_gross_pay}" for f
    using that by (auto simp: sum_field_def intro!: roundMoney_id cents_arith(3))
  have "sum_list (map jr_gross_pay grp) = sum_list (map jr_tax_deduction grp) + sum_list (map jr_pension_deduction grp) +
      sum_list (map (\<lambda>r. sum_list (map li_amount (jr_employee r))) grp) + sum_list (map jr_net_pay grp)"
    using assms by (induction grp) (simp_all add: accounted_def)
  then have total: "sum_field jr_gross_pay grp = sum_field jr_tax_deduction grp + sum_field jr_pension_deduction grp +
      sum_list (map li_amount (statutoryTotals jr_employee grp)) + sum_field jr_net_pay grp"
    using totals_sum[OF emp(1)] by (simp add: sums)
  have er: "sum_list (map (\<lambda>(_, d, _). d) (concat (map (\<lambda>i. [(a i, li_amount i, 0), (b i, 0, li_amount i)]) is))) = sum_list (map li_amount is)"
    "sum_list (map (\<lambda>(_, _, c). c) (concat (map (\<lambda>i. [(a i, li_amount i, 0), (b i, 0, li_amount i)]) is))) = sum_list (map li_amount is)"
    for a b :: "line_item \<Rightarrow> string" and "is"
    by (induction "is") simp_all
  have ps: "\<forall>(code, d, c)\<in>set (postings grp). cents d \<and> cents c"
    using totals_sum[OF emp(1)] totals_sum[OF emp(2)] by (auto simp: postings_def sum_field_def roundMoney_is_cents cents_arith(1))
  have "sum_list (map (\<lambda>(_, d, _). d) (postings grp)) = sum_list (map (\<lambda>(_, _, c). c) (postings grp))"
    by (simp add: postings_def er total comp_def)
  then show ?thesis unfolding k group_lines_def prod.case lines_sum[OF ps] .
qed

subsection \<open>The journal balances\<close>

text \<open>C28: whatever is exported balances, per period and currency, to within one cent; and when
  every record accounts for its gross pay to the cent the export does not fail and balances exactly.\<close>

theorem journal_balances:
  "(\<forall>lines k. buildPayrollJournal collate records = Inr lines \<longrightarrow>
      \<bar>sum_list (map jl_debit (of_group k lines)) - sum_list (map jl_credit (of_group k lines))\<bar> \<le> 1 / 100) \<and>
   (list_all accounted records \<and> list_all (\<lambda>r. currency_ok (journal_currency (jr_currency r))) records \<longrightarrow>
      (\<exists>lines. buildPayrollJournal collate records = Inr lines \<and>
        (\<forall>k. sum_list (map jl_debit (of_group k lines)) = sum_list (map jl_credit (of_group k lines)))))"
proof (intro conjI allI impI)
  let ?g = "\<lambda>k. group_lines k (filter (\<lambda>r. group_key r = k) records)"
  have parts: "sum_list (map f (of_group k (sort_key (line_order collate) (concat (map ?g (group_keys records)))))) =
      (if k \<in> set (group_keys records) then sum_list (map f (?g k)) else 0)" for f :: "journal_line \<Rightarrow> rat" and k
    by (simp add: sum_of_group_sorted of_group_concat[OF group_keys_distinct])
  {
    fix lines k assume r: "buildPayrollJournal collate records = Inr lines"
    then have ok: "\<forall>k\<in>set (group_keys records). \<not> out_of_balance (?g k)"
      and lines: "lines = sort_key (line_order collate) (concat (map ?g (group_keys records)))"
      by (auto simp: buildPayrollJournal_def require_eq_Inr Let_def list_all_iff)
    show "\<bar>sum_list (map jl_debit (of_group k lines)) - sum_list (map jl_credit (of_group k lines))\<bar> \<le> 1 / 100"
    proof (cases "k \<in> set (group_keys records)")
      case True
      then have "\<not> out_of_balance (?g k)" using ok by blast
      then have "\<bar>sum_list (map jl_debit (?g k)) - sum_list (map jl_credit (?g k))\<bar> \<le> 1 / 100"
        using balance_exact[OF line_cents] by (simp add: not_less)
      then show ?thesis using True by (simp add: lines parts)
    next
      case False
      then show ?thesis by (simp add: lines parts)
    qed
  }
  assume a: "list_all accounted records \<and> list_all (\<lambda>r. currency_ok (journal_currency (jr_currency r))) records"
  have eq: "sum_list (map jl_debit (?g k)) = sum_list (map jl_credit (?g k))" for k
    by (rule group_balances) (use a in \<open>auto simp: list_all_iff\<close>)
  then have "\<not> out_of_balance (?g k)" for k by (simp add: balance_exact[OF line_cents])
  then have "buildPayrollJournal collate records = Inr (sort_key (line_order collate) (concat (map ?g (group_keys records))))"
    using a by (simp add: buildPayrollJournal_def require_eq_Inr Let_def list_all_iff)
  then show "\<exists>lines. buildPayrollJournal collate records = Inr lines \<and>
      (\<forall>k. sum_list (map jl_debit (of_group k lines)) = sum_list (map jl_credit (of_group k lines)))"
    using parts eq by auto
qed

definition ex_source :: "rat \<Rightarrow> rat \<Rightarrow> rat \<Rightarrow> journal_source" where
  "ex_source t p n = \<lparr>jr_month = 3, jr_year = 2026, jr_gross_pay = t + p + n + 5, jr_tax_deduction = t, jr_pension_deduction = p, jr_net_pay = n,
     jr_employee = [\<lparr>li_key = ''eobi'', li_label = ''EOBI'', li_amount = 5\<rparr>], jr_employer = [\<lparr>li_key = ''eobi'', li_label = ''EOBI'', li_amount = 9\<rparr>],
     jr_currency = Some ''pkr''\<rparr>"

theorem journal_balances_witness:
  "\<exists>lines. buildPayrollJournal (map of_char) [ex_source 10 5 80, ex_source 20 10 160] = Inr lines \<and>
     sum_list (map jl_debit (of_group ((2026, 3), ''PKR'') lines)) = sum_list (map jl_credit (of_group ((2026, 3), ''PKR'') lines))"
proof -
  have "list_all accounted [ex_source 10 5 80, ex_source 20 10 160]" by (simp add: accounted_def ex_source_def item_ok_def cents_def trim_def is_space_def)
  moreover have "list_all (\<lambda>r. currency_ok (journal_currency (jr_currency r))) [ex_source 10 5 80, ex_source 20 10 160]" by code_simp
  ultimately show ?thesis using journal_balances[of "map of_char" "[ex_source 10 5 80, ex_source 20 10 160]"] by blast
qed

text \<open>Gross pay, deductions and net pay are rounded to cents one by one when a record is stored, so a record
  need not account for its gross pay: with ten per cent of tax and of pension, 100.04 becomes 10.00 + 10.00 + 80.03.
  Two such records are two cents off, and the export fails.\<close>

definition ex_totals :: payroll_totals where
  "ex_totals = recalcPayrollTotals \<lparr>fg_regular_hours = 1, fg_overtime_hours = 0, fg_hourly_rate = 10004 / 100, fg_unpaid_deduction = 0,
     fg_manual_adjustment = 0, fg_base_pay = None, fg_overtime_pay = None\<rparr> 10 10"

definition stored_source :: journal_source where
  "stored_source = \<lparr>jr_month = 3, jr_year = 2026, jr_gross_pay = dec2 (gross_pay ex_totals), jr_tax_deduction = dec2 (tax_deduction ex_totals),
     jr_pension_deduction = dec2 (pension_deduction ex_totals), jr_net_pay = dec2 (net_pay ex_totals), jr_employee = [], jr_employer = [], jr_currency = None\<rparr>"

lemma stored_source_eq:
  "stored_source = \<lparr>jr_month = 3, jr_year = 2026, jr_gross_pay = 2501 / 25, jr_tax_deduction = 10, jr_pension_deduction = 10, jr_net_pay = 8003 / 100,
     jr_employee = [], jr_employer = [], jr_currency = None\<rparr>"
  by code_simp

lemma rounding_breaks_journal: "buildPayrollJournal collate [stored_source, stored_source] = Inl PlainError"
proof -
  let ?rs = "[stored_source, stored_source]" and ?k = "((2026, 3), ''USD'') :: (int \<times> int) \<times> string"
  have "journal_currency None = ''USD''" by code_simp
  then have key: "group_key stored_source = ?k" by (simp add: group_key_def stored_source_eq)
  have r: "roundMoney (5002 / 25) = 5002 / 25" "roundMoney 20 = 20" "roundMoney (8003 / 50) = 8003 / 50" "roundMoney 0 = 0"
    by (rule roundMoney_id, simp add: cents_def)+
  have "postings ?rs = [(''EXP-PAYROLL'', 5002 / 25, 0), (''LIAB-INCOME-TAX'', 0, 20), (''LIAB-PENSION'', 0, 20), (''LIAB-NET-PAY'', 0, 8003 / 50)]"
    by (simp add: postings_def sum_field_def statutoryTotals_def stored_source_eq r)
  then have "sum_list (map jl_debit (group_lines ?k ?rs)) = 5002 / 25 \<and> sum_list (map jl_credit (group_lines ?k ?rs)) = 10003 / 50"
    by (simp add: group_lines_def r)
  then have "out_of_balance (group_lines ?k ?rs)" by (simp add: balance_exact[OF line_cents])
  then show ?thesis by (simp add: buildPayrollJournal_def group_keys_def key require_def)
qed

end
