(* ===== verification/Compliance.thy ===== *)
theory Compliance
  imports ShiftTime "HOL-Library.List_Lexorder" "HOL-Library.Product_Lexorder"
begin

text \<open>
  The evaluation of a schedule against labour rules, \<^verbatim>\<open>src/src/services/compliance/evaluateSchedule.ts\<close>.

  Times of day are kept as strings and read by \<open>minutes\<close>.  A rule's parameters are the numbers the
  evaluation reads, \<open>None\<close> for one that is missing or not finite.  \<open>collate\<close> is the sort key of a string
  under \<open>localeCompare\<close>.  Messages are left out.
\<close>

subsection \<open>Definitions\<close>

record compliance_rule =
  cr_id :: id
  cr_code :: string
  cr_severity :: string
  cr_hours :: "rat option"
  cr_after_hours :: "rat option"
  cr_break_minutes :: "rat option"
  cr_effective_from :: "day option"
  cr_effective_to :: "day option"

record plan_break =
  pb_break_minutes :: int
  pb_after_minutes :: int
  pb_break_kind :: "string option"
  pb_break_start_time :: "string option"
  pb_is_paid :: bool
  pb_applies_days :: "int list"
  pb_exception_dates :: "day list"

record plan_shift =
  ps_id :: id
  ps_start_time :: string
  ps_end_time :: string
  ps_min_rest_hours :: rat
  ps_breaks :: "plan_break list"

record plan_assignment =
  pa_id :: id
  pa_user_id :: id
  pa_date :: day
  pa_shift :: plan_shift

record compliance_finding =
  cf_code :: string
  cf_severity :: string
  cf_user_id :: id
  cf_assignment_id :: id
  cf_date :: day
  cf_rule_id :: id
  cf_suffix :: id

text \<open>\<open>value.split(':').map(Number)\<close>; times of day are stored as \<open>HH:MM\<close>, and a text that is not a number
  counts as 0 here, where the code gets \<open>NaN\<close>.\<close>

definition minutes :: "string \<Rightarrow> rat" where
  "minutes s = hhmmToMins s"

definition wallDuration :: "string \<Rightarrow> string \<Rightarrow> rat" where
  "wallDuration s e = (let delta = minutes e - minutes s in if delta \<le> 0 then delta + 1440 else delta)"

definition breakApplies :: "plan_break \<Rightarrow> day \<Rightarrow> bool" where
  "breakApplies b date \<longleftrightarrow> date \<notin> set (pb_exception_dates b) \<and>
     (pb_applies_days b = [] \<or> (weekdayOf date + 6) mod 7 \<in> set (pb_applies_days b))"

definition js_mod :: "rat \<Rightarrow> rat \<Rightarrow> rat" where
  "js_mod x y = x - y * of_int (if 0 \<le> x / y then \<lfloor>x / y\<rfloor> else \<lceil>x / y\<rceil>)"

definition breakStartOffset :: "plan_break \<Rightarrow> plan_shift \<Rightarrow> rat" where
  "breakStartOffset b s =
     (case pb_break_start_time b of
        Some t \<Rightarrow> if pb_break_kind b = Some ''fixed'' \<and> t \<noteq> []
          then js_mod (minutes t - minutes (ps_start_time s) + 1440) 1440
          else of_int (pb_after_minutes b)
      | None \<Rightarrow> of_int (pb_after_minutes b))"

definition workDuration :: "plan_assignment \<Rightarrow> rat" where
  "workDuration a =
     max 0 (wallDuration (ps_start_time (pa_shift a)) (ps_end_time (pa_shift a)) -
       of_int (sum_list (map pb_break_minutes (filter (\<lambda>b. \<not> pb_is_paid b \<and> breakApplies b (pa_date a)) (ps_breaks (pa_shift a))))))"

definition findingSeverity :: "string \<Rightarrow> string" where
  "findingSeverity v = (if v = ''block'' then ''block'' else if v = ''info'' then ''info'' else ''warning'')"

definition ruleFor :: "compliance_rule list \<Rightarrow> string \<Rightarrow> day \<Rightarrow> compliance_rule option" where
  "ruleFor rules code date =
     find_first (\<lambda>r. cr_code r = code \<and> (case cr_effective_from r of None \<Rightarrow> True | Some f \<Rightarrow> f \<le> date) \<and>
       (case cr_effective_to r of None \<Rightarrow> True | Some t \<Rightarrow> date \<le> t)) rules"

definition finding :: "compliance_rule \<Rightarrow> plan_assignment \<Rightarrow> id \<Rightarrow> compliance_finding" where
  "finding r a suffix = \<lparr>cf_code = cr_code r, cf_severity = findingSeverity (cr_severity r), cf_user_id = pa_user_id a, cf_assignment_id = pa_id a,
     cf_date = pa_date a, cf_rule_id = cr_id r, cf_suffix = suffix\<rparr>"

definition over_limit :: "compliance_rule list \<Rightarrow> string \<Rightarrow> plan_assignment \<Rightarrow> rat \<Rightarrow> compliance_finding list" where
  "over_limit rules code a mins =
     (case ruleFor rules code (pa_date a) of None \<Rightarrow> []
      | Some r \<Rightarrow> (case cr_hours r of None \<Rightarrow> [] | Some limit \<Rightarrow> if limit * 60 < mins then [finding r a (pa_id a)] else []))"

definition break_findings :: "compliance_rule list \<Rightarrow> plan_assignment \<Rightarrow> compliance_finding list" where
  "break_findings rules a =
     (case ruleFor rules ''mandatory_break'' (pa_date a) of None \<Rightarrow> []
      | Some r \<Rightarrow>
          (case (cr_after_hours r, cr_break_minutes r) of
             (Some afterHours, Some required) \<Rightarrow>
               if afterHours * 60 < workDuration a \<and>
                  \<not> (\<exists>b\<in>set (ps_breaks (pa_shift a)). breakApplies b (pa_date a) \<and> breakStartOffset b (pa_shift a) \<le> afterHours * 60 \<and>
                       required \<le> of_int (pb_break_minutes b))
               then [finding r a (pa_id a)] else []
           | _ \<Rightarrow> []))"

definition shift_findings :: "compliance_rule list \<Rightarrow> day \<Rightarrow> day \<Rightarrow> plan_assignment \<Rightarrow> compliance_finding list" where
  "shift_findings rules monday sunday a =
     (if monday \<le> pa_date a \<and> pa_date a \<le> sunday
      then over_limit rules ''max_shift_hours'' a (workDuration a) @
        over_limit rules ''max_spread_over_hours'' a (wallDuration (ps_start_time (pa_shift a)) (ps_end_time (pa_shift a))) @ break_findings rules a
      else [])"

text \<open>The minutes of a week per employee, with the last assignment that was seen.\<close>

definition add_week :: "day \<Rightarrow> day \<Rightarrow> plan_assignment \<Rightarrow> (id \<times> rat \<times> plan_assignment) list \<Rightarrow> (id \<times> rat \<times> plan_assignment) list" where
  "add_week monday sunday a weekly =
     (if monday \<le> pa_date a \<and> pa_date a \<le> sunday
      then (if pa_user_id a \<in> fst ` set weekly
            then map (\<lambda>(u, m, l). if u = pa_user_id a then (u, m + workDuration a, a) else (u, m, l)) weekly
            else weekly @ [(pa_user_id a, workDuration a, a)])
      else weekly)"

definition weekly_findings :: "compliance_rule list \<Rightarrow> day \<Rightarrow> day \<Rightarrow> plan_assignment list \<Rightarrow> compliance_finding list" where
  "weekly_findings rules monday sunday assignments =
     (case ruleFor rules ''max_weekly_hours'' sunday of None \<Rightarrow> []
      | Some r \<Rightarrow>
          (case cr_hours r of None \<Rightarrow> []
           | Some limit \<Rightarrow> map (\<lambda>x. finding r (snd (snd x)) (fst x)) (filter (\<lambda>x. limit * 60 < fst (snd x)) (fold (add_week monday sunday) assignments []))))"

definition start_minute :: "plan_assignment \<Rightarrow> rat" where
  "start_minute a = of_int (pa_date a) * 1440 + minutes (ps_start_time (pa_shift a))"

definition end_minute :: "plan_assignment \<Rightarrow> rat" where
  "end_minute a = start_minute a + wallDuration (ps_start_time (pa_shift a)) (ps_end_time (pa_shift a))"

definition required_rest :: "compliance_rule list \<Rightarrow> plan_assignment \<Rightarrow> plan_assignment \<Rightarrow> rat" where
  "required_rest rules p n =
     max (max (ps_min_rest_hours (pa_shift p)) (ps_min_rest_hours (pa_shift n)))
       (case ruleFor rules ''min_rest_hours'' (pa_date n) of None \<Rightarrow> 0 | Some r \<Rightarrow> coalesce (cr_hours r) 0)"

definition touches_week :: "day \<Rightarrow> day \<Rightarrow> plan_assignment \<Rightarrow> plan_assignment \<Rightarrow> bool" where
  "touches_week monday sunday p n \<longleftrightarrow> monday - 1 \<le> pa_date p \<and> pa_date p \<le> sunday \<and> monday \<le> pa_date n \<and> pa_date n \<le> sunday + 1"

definition default_rest_rule :: compliance_rule where
  "default_rest_rule = \<lparr>cr_id = [], cr_code = ''insufficient_rest'', cr_severity = ''warn'', cr_hours = None, cr_after_hours = None,
     cr_break_minutes = None, cr_effective_from = None, cr_effective_to = None\<rparr>"

definition rest_finding :: "compliance_rule list \<Rightarrow> day \<Rightarrow> day \<Rightarrow> plan_assignment \<Rightarrow> plan_assignment \<Rightarrow> compliance_finding list" where
  "rest_finding rules monday sunday p n =
     (if pa_user_id p = pa_user_id n \<and> start_minute n - end_minute p < required_rest rules p n * 60 \<and> touches_week monday sunday p n
      then [finding (coalesce (ruleFor rules ''min_rest_hours'' (pa_date n)) default_rest_rule) n (pa_id n)] else [])"

fun rest_findings :: "compliance_rule list \<Rightarrow> day \<Rightarrow> day \<Rightarrow> plan_assignment list \<Rightarrow> compliance_finding list" where
  "rest_findings rules monday sunday (p # n # as) = rest_finding rules monday sunday p n @ rest_findings rules monday sunday (n # as)"
| "rest_findings rules monday sunday _ = []"

definition schedule_order :: "(string \<Rightarrow> nat list) \<Rightarrow> plan_assignment \<Rightarrow> nat list \<times> day \<times> rat" where
  "schedule_order collate a = (collate (pa_user_id a), pa_date a, minutes (ps_start_time (pa_shift a)))"

definition evaluateScheduleCompliance ::
    "(string \<Rightarrow> nat list) \<Rightarrow> plan_assignment list \<Rightarrow> compliance_rule list \<Rightarrow> day \<Rightarrow> day \<Rightarrow> compliance_finding list" where
  "evaluateScheduleCompliance collate assignments rules weekStart weekEnd =
     concat (map (shift_findings rules weekStart weekEnd) assignments) @
     weekly_findings rules weekStart weekEnd assignments @
     rest_findings rules weekStart weekEnd (sort_key (schedule_order collate) assignments)"

subsection \<open>Weekly totals\<close>

definition week_minutes :: "day \<Rightarrow> day \<Rightarrow> id \<Rightarrow> plan_assignment list \<Rightarrow> rat" where
  "week_minutes monday sunday u as = sum_list (map workDuration (filter (\<lambda>a. pa_user_id a = u \<and> monday \<le> pa_date a \<and> pa_date a \<le> sunday) as))"

definition week_users :: "day \<Rightarrow> day \<Rightarrow> plan_assignment list \<Rightarrow> id set" where
  "week_users monday sunday as = {pa_user_id a | a. a \<in> set as \<and> monday \<le> pa_date a \<and> pa_date a \<le> sunday}"

definition weekly_ok :: "day \<Rightarrow> day \<Rightarrow> plan_assignment list \<Rightarrow> (id \<times> rat \<times> plan_assignment) list \<Rightarrow> bool" where
  "weekly_ok monday sunday as w \<longleftrightarrow> fst ` set w = week_users monday sunday as \<and> distinct (map fst w) \<and>
     (\<forall>(u, m, l)\<in>set w. m = week_minutes monday sunday u as \<and> pa_user_id l = u)"

lemma week_minutes_snoc: "week_minutes monday sunday u (as @ [a]) =
    week_minutes monday sunday u as + (if pa_user_id a = u \<and> monday \<le> pa_date a \<and> pa_date a \<le> sunday then workDuration a else 0)"
  by (simp add: week_minutes_def)

lemma week_users_snoc: "week_users monday sunday (as @ [a]) =
    week_users monday sunday as \<union> (if monday \<le> pa_date a \<and> pa_date a \<le> sunday then {pa_user_id a} else {})"
  by (auto simp: week_users_def)

lemma week_minutes_none: "u \<notin> week_users monday sunday as \<Longrightarrow> week_minutes monday sunday u as = 0"
proof -
  assume "u \<notin> week_users monday sunday as"
  then have "filter (\<lambda>a. pa_user_id a = u \<and> monday \<le> pa_date a \<and> pa_date a \<le> sunday) as = []" by (auto simp: week_users_def filter_empty_conv)
  then show ?thesis by (simp add: week_minutes_def)
qed

lemma weekly_step:
  assumes "weekly_ok monday sunday as w"
  shows "weekly_ok monday sunday (as @ [a]) (add_week monday sunday a w)"
proof (cases "monday \<le> pa_date a \<and> pa_date a \<le> sunday")
  case False
  have "week_users monday sunday (as @ [a]) = week_users monday sunday as" unfolding week_users_snoc using False by auto
  moreover have "week_minutes monday sunday u (as @ [a]) = week_minutes monday sunday u as" for u unfolding week_minutes_snoc using False by auto
  moreover have "add_week monday sunday a w = w" using False by (auto simp: add_week_def)
  ultimately show ?thesis using assms by (simp add: weekly_ok_def)
next
  case True
  let ?u = "pa_user_id a"
  have users: "week_users monday sunday (as @ [a]) = insert ?u (week_users monday sunday as)" unfolding week_users_snoc using True by simp
  have mins: "week_minutes monday sunday v (as @ [a]) = week_minutes monday sunday v as + (if v = ?u then workDuration a else 0)" for v
    unfolding week_minutes_snoc using True by auto
  show ?thesis
  proof (cases "?u \<in> fst ` set w")
    case old: True
    let ?f = "\<lambda>(u, m, l). if u = ?u then (u, m + workDuration a, a) else (u, m, l)"
    have w: "add_week monday sunday a w = map ?f w" using True old by (simp add: add_week_def)
    have "fst (?f x) = fst x" for x by (cases x) auto
    then have "map fst (map ?f w) = map fst w" by (simp add: comp_def)
    then have keys: "fst ` set (map ?f w) = fst ` set w" "distinct (map fst (map ?f w)) \<longleftrightarrow> distinct (map fst w)" by (metis set_map, metis)
    have "\<forall>x\<in>set (map ?f w). case x of (v, m, l) \<Rightarrow> m = week_minutes monday sunday v (as @ [a]) \<and> pa_user_id l = v"
    proof
      fix x assume "x \<in> set (map ?f w)"
      then obtain v m l where y: "(v, m, l) \<in> set w" "x = ?f (v, m, l)" by auto
      then have "m = week_minutes monday sunday v as" "pa_user_id l = v" using assms by (auto simp: weekly_ok_def)
      then show "case x of (v, m, l) \<Rightarrow> m = week_minutes monday sunday v (as @ [a]) \<and> pa_user_id l = v" by (simp add: y(2) mins)
    qed
    then show ?thesis using assms old unfolding w weekly_ok_def keys users by auto
  next
    case new: False
    then have none: "week_minutes monday sunday ?u as = 0" using assms by (simp add: weekly_ok_def week_minutes_none)
    have w: "add_week monday sunday a w = w @ [(?u, workDuration a, a)]" using True new by (simp add: add_week_def)
    have "case x of (v, m, l) \<Rightarrow> m = week_minutes monday sunday v (as @ [a]) \<and> pa_user_id l = v" if x: "x \<in> set w" for x
    proof -
      obtain v m l where y: "x = (v, m, l)" by (metis prod.exhaust)
      then have "v \<noteq> ?u" using new x by force
      moreover have "m = week_minutes monday sunday v as" "pa_user_id l = v" using assms x y by (auto simp: weekly_ok_def)
      ultimately show ?thesis by (simp add: y mins)
    qed
    then show ?thesis using assms new by (auto simp: w weekly_ok_def users mins none)
  qed
qed

lemma weekly_total: "weekly_ok monday sunday as (fold (add_week monday sunday) as [])"
proof (induction as rule: rev_induct)
  case Nil
  then show ?case by (simp add: weekly_ok_def week_users_def)
next
  case (snoc a as)
  then show ?case using weekly_step by simp
qed

subsection \<open>Rest between shifts\<close>

definition time_ok :: "string \<Rightarrow> bool" where
  "time_ok t \<longleftrightarrow> 0 \<le> minutes t \<and> minutes t < 1440"

definition shift_ok :: "plan_shift \<Rightarrow> bool" where
  "shift_ok s \<longleftrightarrow> time_ok (ps_start_time s) \<and> time_ok (ps_end_time s) \<and> 0 \<le> ps_min_rest_hours s"

lemma wall_positive: "time_ok s \<Longrightarrow> time_ok e \<Longrightarrow> 0 < wallDuration s e \<and> wallDuration s e \<le> 1440"
  by (auto simp: wallDuration_def time_ok_def Let_def)

lemma rest_findings_adjacent:
  "rest_findings rules monday sunday xs = [] \<Longrightarrow> Suc k < length xs \<Longrightarrow> rest_finding rules monday sunday (xs ! k) (xs ! Suc k) = []"
proof (induction rules monday sunday xs arbitrary: k rule: rest_findings.induct)
  case (1 rules monday sunday p n as)
  then show ?case by (cases k) auto
qed simp_all

lemma rested:
  assumes "rest_finding rules monday sunday p n = []" "pa_user_id p = pa_user_id n" "touches_week monday sunday p n" "0 \<le> ps_min_rest_hours (pa_shift p)"
  shows "end_minute p + required_rest rules p n * 60 \<le> start_minute n \<and> end_minute p \<le> start_minute n"
proof -
  have "end_minute p + required_rest rules p n * 60 \<le> start_minute n"
    using assms(1-3) by (auto simp: rest_finding_def split: if_splits)
  moreover have "0 \<le> required_rest rules p n" using assms(4) by (auto simp: required_rest_def)
  ultimately show ?thesis by auto
qed

lemma chain_apart:
  assumes "i < j" "\<And>k. i \<le> k \<Longrightarrow> k < j \<Longrightarrow> end_minute (xs ! k) \<le> start_minute (xs ! Suc k)"
    and "\<And>k. i \<le> k \<Longrightarrow> k \<le> j \<Longrightarrow> start_minute (xs ! k) \<le> end_minute (xs ! k)"
  shows "end_minute (xs ! i) \<le> start_minute (xs ! j)"
  using assms
proof (induction j)
  case 0
  then show ?case by simp
next
  case (Suc j)
  show ?case
  proof (cases "i = j")
    case True
    then show ?thesis using Suc.prems(2)[of j] by simp
  next
    case False
    then have "end_minute (xs ! i) \<le> start_minute (xs ! j)" using Suc by simp
    also have "\<dots> \<le> end_minute (xs ! j)" using Suc.prems False by simp
    also have "\<dots> \<le> start_minute (xs ! Suc j)" using Suc.prems False by simp
    finally show ?thesis .
  qed
qed

lemma sorted_between:
  assumes "sorted (map f xs)" "i \<le> k" "k \<le> j" "j < length xs"
  shows "f (xs ! i) \<le> f (xs ! k) \<and> f (xs ! k) \<le> f (xs ! j)"
  using assms sorted_nth_mono[OF assms(1)] by simp

text \<open>In the sorted schedule everything between two shifts of one employee belongs to that employee and lies
  between their dates.\<close>

lemma between_same:
  assumes "inj collate" "sorted (map (schedule_order collate) xs)" "i \<le> k" "k \<le> j" "j < length xs" "pa_user_id (xs ! i) = pa_user_id (xs ! j)"
  shows "pa_user_id (xs ! k) = pa_user_id (xs ! i) \<and> pa_date (xs ! i) \<le> pa_date (xs ! k) \<and> pa_date (xs ! k) \<le> pa_date (xs ! j)"
proof -
  have le: "schedule_order collate (xs ! i) \<le> schedule_order collate (xs ! k)" "schedule_order collate (xs ! k) \<le> schedule_order collate (xs ! j)"
    using sorted_between[OF assms(2-5)] by simp_all
  then have "collate (pa_user_id (xs ! k)) = collate (pa_user_id (xs ! i))"
    using assms(6) by (auto simp: schedule_order_def less_eq_prod_def)
  then have u: "pa_user_id (xs ! k) = pa_user_id (xs ! i)" using assms(1) by (simp add: inj_eq)
  then show ?thesis using le assms(6) by (auto simp: schedule_order_def less_eq_prod_def)
qed

lemma no_findings_apart:
  assumes "inj collate" "sorted (map (schedule_order collate) xs)" "rest_findings rules monday sunday xs = []" "\<forall>a\<in>set xs. shift_ok (pa_shift a)"
    and ij: "i < j" "j < length xs" "pa_user_id (xs ! i) = pa_user_id (xs ! j)" "monday \<le> pa_date (xs ! i)" "pa_date (xs ! j) \<le> sunday"
  shows "end_minute (xs ! i) \<le> start_minute (xs ! j)"
proof (rule chain_apart[OF ij(1)])
  fix k assume k: "i \<le> k" "k < j"
  have a: "pa_user_id (xs ! k) = pa_user_id (xs ! i)" "monday \<le> pa_date (xs ! k)" "pa_date (xs ! k) \<le> sunday"
    using between_same[OF assms(1,2) k(1) _ ij(2,3)] k(2) ij(4,5) by auto
  have b: "pa_user_id (xs ! Suc k) = pa_user_id (xs ! i)" "monday \<le> pa_date (xs ! Suc k)" "pa_date (xs ! Suc k) \<le> sunday"
    using between_same[OF assms(1,2) _ _ ij(2,3), of "Suc k"] k ij(4,5) by auto
  have "touches_week monday sunday (xs ! k) (xs ! Suc k)" using a b by (simp add: touches_week_def)
  moreover have "0 \<le> ps_min_rest_hours (pa_shift (xs ! k))" using assms(4) k ij(2) by (simp add: shift_ok_def)
  ultimately show "end_minute (xs ! k) \<le> start_minute (xs ! Suc k)"
    using rested[OF rest_findings_adjacent[OF assms(3)]] a(1) b(1) k(2) ij(2) by auto
next
  fix k assume "i \<le> k" "k \<le> j"
  then have "shift_ok (pa_shift (xs ! k))" using assms(4) ij(2) by simp
  then show "start_minute (xs ! k) \<le> end_minute (xs ! k)"
    using wall_positive by (fastforce simp: end_minute_def shift_ok_def)
qed

lemma rule_code: "ruleFor rules code date = Some r \<Longrightarrow> cr_code r = code"
  by (auto simp: ruleFor_def dest: find_first_Some)

lemma rest_codes: "f \<in> set (rest_findings rules monday sunday xs) \<Longrightarrow> cf_code f \<in> {''min_rest_hours'', ''insufficient_rest''}"
proof (induction rules monday sunday xs rule: rest_findings.induct)
  case (1 rules monday sunday p n as)
  have "cr_code (coalesce (ruleFor rules ''min_rest_hours'' (pa_date n)) default_rest_rule) \<in> {''min_rest_hours'', ''insufficient_rest''}"
    using rule_code[of rules "''min_rest_hours''"] by (auto simp: coalesce_def default_rest_rule_def split: option.splits)
  then show ?case using 1 by (auto simp: rest_finding_def finding_def split: if_splits)
qed simp_all

lemma weekly_codes: "f \<in> set (weekly_findings rules monday sunday as) \<Longrightarrow> cf_code f = ''max_weekly_hours''"
  by (auto simp: weekly_findings_def finding_def rule_code split: option.splits if_splits)

lemma other_codes:
  "f \<in> set (shift_findings rules monday sunday a) \<Longrightarrow> cf_code f \<in> {''max_shift_hours'', ''max_spread_over_hours'', ''mandatory_break''}"
  by (auto simp: shift_findings_def over_limit_def break_findings_def finding_def rule_code split: option.splits if_splits)

text \<open>C29: an evaluation that reports no violated rest period guarantees that no two
  shifts of an employee in the week overlap; and the weekly limit is reported for exactly those
  employees whose working minutes in the week exceed it.\<close>

theorem schedule_findings_complete:
  assumes collate: "inj collate" and ids: "distinct (map pa_id as)" and shifts: "\<forall>a\<in>set as. shift_ok (pa_shift a)"
    and fs: "fs = evaluateScheduleCompliance collate as rules monday sunday"
  shows "((\<forall>f\<in>set fs. cf_code f \<notin> {''min_rest_hours'', ''insufficient_rest''}) \<longrightarrow>
      (\<forall>a\<in>set as. \<forall>b\<in>set as. a \<noteq> b \<and> pa_user_id a = pa_user_id b \<and> {pa_date a, pa_date b} \<subseteq> {monday..sunday} \<longrightarrow>
        end_minute a \<le> start_minute b \<or> end_minute b \<le> start_minute a)) \<and>
    (\<forall>r limit u. ruleFor rules ''max_weekly_hours'' sunday = Some r \<and> cr_hours r = Some limit \<longrightarrow>
        ((\<exists>f\<in>set fs. cf_code f = ''max_weekly_hours'' \<and> cf_user_id f = u) \<longleftrightarrow>
         u \<in> week_users monday sunday as \<and> limit * 60 < week_minutes monday sunday u as))"
proof (intro conjI impI allI ballI)
  let ?xs = "sort_key (schedule_order collate) as"
  {
    fix a b
    assume none: "\<forall>f\<in>set fs. cf_code f \<notin> {''min_rest_hours'', ''insufficient_rest''}" and ab: "a \<in> set as" "b \<in> set as"
      "a \<noteq> b \<and> pa_user_id a = pa_user_id b \<and> {pa_date a, pa_date b} \<subseteq> {monday..sunday}"
    have "f \<notin> set (rest_findings rules monday sunday ?xs)" for f using none rest_codes[of f rules monday sunday ?xs] by (auto simp: fs evaluateScheduleCompliance_def)
    then have rest: "rest_findings rules monday sunday ?xs = []" by (meson list.set_sel(1))
    obtain i j where ij: "i < length ?xs" "?xs ! i = a" "j < length ?xs" "?xs ! j = b" using ab(1,2) by (metis in_set_conv_nth set_sort)
    have ok: "\<forall>a\<in>set ?xs. shift_ok (pa_shift a)" using shifts by simp
    note apart = no_findings_apart[OF collate sorted_sort_key rest ok]
    show "end_minute a \<le> start_minute b \<or> end_minute b \<le> start_minute a"
    proof (cases "i < j")
      case True
      then show ?thesis using apart[OF True ij(3)] ij ab(3) by simp
    next
      case False
      then have ji: "j < i" using ij ab(3) by (metis linorder_neqE_nat)
      show ?thesis using apart[OF ji ij(1)] ij ab(3) by simp
    qed
  }
  fix r limit u assume r: "ruleFor rules ''max_weekly_hours'' sunday = Some r \<and> cr_hours r = Some limit"
  have "(\<exists>f\<in>set fs. cf_code f = ''max_weekly_hours'' \<and> cf_user_id f = u) \<longleftrightarrow> (\<exists>f\<in>set (weekly_findings rules monday sunday as). cf_user_id f = u)"
    using weekly_codes[of _ rules monday sunday as] other_codes[of _ rules monday sunday] rest_codes[of _ rules monday sunday ?xs]
    by (fastforce simp: fs evaluateScheduleCompliance_def)
  also have "\<dots> \<longleftrightarrow> (\<exists>x\<in>set (fold (add_week monday sunday) as []). limit * 60 < fst (snd x) \<and> pa_user_id (snd (snd x)) = u)"
    using r by (auto simp: weekly_findings_def finding_def Bex_def)
  also have "\<dots> \<longleftrightarrow> (\<exists>x\<in>set (fold (add_week monday sunday) as []). limit * 60 < week_minutes monday sunday (fst x) as \<and> fst x = u)"
    using weekly_total[of monday sunday as] by (intro bex_cong refl) (auto simp: weekly_ok_def)
  also have "\<dots> \<longleftrightarrow> u \<in> fst ` set (fold (add_week monday sunday) as []) \<and> limit * 60 < week_minutes monday sunday u as" by blast
  also have "\<dots> \<longleftrightarrow> u \<in> week_users monday sunday as \<and> limit * 60 < week_minutes monday sunday u as"
    using weekly_total[of monday sunday as] by (simp add: weekly_ok_def)
  finally show "(\<exists>f\<in>set fs. cf_code f = ''max_weekly_hours'' \<and> cf_user_id f = u) \<longleftrightarrow>
      u \<in> week_users monday sunday as \<and> limit * 60 < week_minutes monday sunday u as" .
qed

definition ex_plan :: "id \<Rightarrow> day \<Rightarrow> string \<Rightarrow> string \<Rightarrow> plan_assignment" where
  "ex_plan i d s e = \<lparr>pa_id = i, pa_user_id = ''u'', pa_date = d, pa_shift = \<lparr>ps_id = ''s'', ps_start_time = s, ps_end_time = e,
     ps_min_rest_hours = 8, ps_breaks = []\<rparr>\<rparr>"

definition ex_weekly_rule :: compliance_rule where
  "ex_weekly_rule = \<lparr>cr_id = ''r'', cr_code = ''max_weekly_hours'', cr_severity = ''block'', cr_hours = Some 10, cr_after_hours = None,
     cr_break_minutes = None, cr_effective_from = None, cr_effective_to = None\<rparr>"

theorem schedule_findings_complete_witness:
  "map cf_code (evaluateScheduleCompliance (map of_char) [ex_plan ''a'' 4 ''22:00'' ''06:00'', ex_plan ''b'' 5 ''14:00'' ''20:00''] [ex_weekly_rule] 4 10) =
     [''max_weekly_hours''] \<and>
   end_minute (ex_plan ''a'' 4 ''22:00'' ''06:00'') \<le> start_minute (ex_plan ''b'' 5 ''14:00'' ''20:00'')"
proof -
  let ?a = "ex_plan ''a'' 4 ''22:00'' ''06:00''" and ?b = "ex_plan ''b'' 5 ''14:00'' ''20:00''"
  have fs: "map cf_code (evaluateScheduleCompliance (map of_char) [?a, ?b] [ex_weekly_rule] 4 10) = [''max_weekly_hours'']" by code_simp
  have inj: "inj (map of_char :: string \<Rightarrow> nat list)" by (simp add: inj_of_char)
  have ok: "\<forall>a\<in>set [?a, ?b]. shift_ok (pa_shift a)" by code_simp
  have "\<not> end_minute ?b \<le> start_minute ?a" by code_simp
  moreover have "end_minute ?a \<le> start_minute ?b \<or> end_minute ?b \<le> start_minute ?a"
    using schedule_findings_complete[OF inj _ ok refl, of "[ex_weekly_rule]" 4 10] fs by (auto simp: ex_plan_def map_eq_Cons_conv)
  ultimately show ?thesis using fs by simp
qed

end
