(* ===== verification/Shifts.thy ===== *)
theory Shifts
  imports Access Compliance Leave
begin

text \<open>
  The tables of the shift planner and the endpoints that maintain shift templates and their breaks
  (\<^verbatim>\<open>src/src/routes/shifts.ts\<close>, first part).

  \<open>roster\<close> holds the tables that the endpoints of \<^verbatim>\<open>routes/shifts.ts\<close>, \<^verbatim>\<open>routes/shift-field-ops.ts\<close>
  and \<^verbatim>\<open>routes/shift-planning.ts\<close> read and write; the unique and foreign keys of
  \<^verbatim>\<open>prisma/schema.prisma\<close> are checks of the insertions and deletions.  A request body is a record of
  options, \<open>None\<close> for a field that is absent.  Permissions are checked by the guards of \<open>Access\<close>.
\<close>

subsection \<open>Tables\<close>

record shift_template =
  sh_id :: id
  sh_org_id :: id
  sh_name :: string
  sh_start_time :: string
  sh_end_time :: string
  sh_color :: string
  sh_active_days :: "int list"
  sh_is_published :: bool
  sh_is_org_wide :: bool
  sh_is_default :: bool
  sh_created_by :: "id option"
  sh_overtime_multiplier :: rat
  sh_min_rest_hours :: rat
  sh_late_tolerance_mins :: int
  sh_early_checkout_tolerance_mins :: int
  sh_auto_checkout :: bool
  sh_auto_checkout_buffer_mins :: int
  sh_overtime_enabled :: bool
  sh_overtime_requires_approval :: bool
  sh_extra_time_label :: string

record break_policy =
  bp_break_kind :: string
  bp_break_minutes :: int
  bp_after_minutes :: int
  bp_break_start_time :: "string option"
  bp_break_end_time :: "string option"
  bp_allowed_count_per_shift :: int
  bp_paid_within_limit :: bool
  bp_deduct_extra_time :: bool
  bp_allow_extra_breaks :: bool
  bp_applies_days :: "int list"
  bp_exception_dates :: "day list"
  bp_auto_start :: bool
  bp_reminder_after_mins :: int
  bp_deduct_if_skipped :: bool

record template_break =
  tb_id :: id
  tb_shift_id :: id
  tb_name :: string
  tb_is_paid :: bool
  tb_policy :: break_policy

record assignment =
  as_id :: id
  as_shift_id :: id
  as_user_id :: id
  as_location_id :: "id option"
  as_date :: day
  as_is_published :: bool
  as_ack_status :: string
  as_ack_due_at :: "instant option"
  as_acknowledged_at :: "instant option"
  as_ack_note :: "string option"

record availability =
  av_id :: id
  av_org_id :: id
  av_user_id :: id
  av_date :: "day option"
  av_weekday :: "int option"
  av_starts_on :: "day option"
  av_ends_on :: "day option"
  av_start_time :: "string option"
  av_end_time :: "string option"
  av_kind :: string
  av_status :: string
  av_note :: "string option"
  av_reviewed_by :: "id option"
  av_review_note :: "string option"

record coverage_rule =
  cv_org_id :: id
  cv_shift_id :: id
  cv_weekday :: int
  cv_required_count :: int
  cv_department :: string

record violation =
  vi_org_id :: id
  vi_rule_id :: "id option"
  vi_rule_code :: string
  vi_dedupe_key :: string
  vi_week_start :: day
  vi_assignment_id :: "id option"
  vi_user_id :: "id option"
  vi_severity :: string
  vi_status :: string
  vi_override_reason :: "string option"
  vi_override_by :: "id option"
  vi_override_at :: "instant option"
  vi_resolved_at :: "instant option"

record swap =
  sp_id :: id
  sp_requester_id :: id
  sp_target_id :: id
  sp_requester_assign_id :: id
  sp_target_assign_id :: id
  sp_status :: string
  sp_reason :: "string option"
  sp_manager_id :: "id option"
  sp_rejection_reason :: "string option"

record offer =
  of_id :: id
  of_org_id :: id
  of_shift_id :: id
  of_date :: day
  of_note :: "string option"
  of_status :: string
  of_expires_at :: instant
  of_created_by :: id
  of_claimed_by :: "id option"
  of_assignment_id :: "id option"

record checkpoint =
  ck_id :: id
  ck_org_id :: id
  ck_shift_id :: id
  ck_name :: string
  ck_instructions :: "string option"
  ck_sort_order :: int
  ck_required :: bool
  ck_minimum_interval_mins :: int
  ck_qr_token :: string
  ck_active :: bool

record checkpoint_scan =
  sn_checkpoint_id :: id
  sn_assignment_id :: id
  sn_user_id :: id
  sn_scanned_at :: instant
  sn_latitude :: "rat option"
  sn_longitude :: "rat option"
  sn_accuracy_m :: "rat option"

record labor_budget =
  lb_id :: id
  lb_org_id :: id
  lb_location_id :: "id option"
  lb_week_start :: day
  lb_department :: string
  lb_amount :: rat
  lb_currency :: string
  lb_updated_by :: id

record roster =
  ro_access :: access_db
  ro_departments :: "(id \<times> string) list"
  ro_shifts :: "shift_template list"
  ro_breaks :: "template_break list"
  ro_assignments :: "assignment list"
  ro_leaves :: "leave_request list"
  ro_availability :: "availability list"
  ro_coverage :: "coverage_rule list"
  ro_rules :: "(id \<times> compliance_rule) list"
  ro_violations :: "violation list"
  ro_swaps :: "swap list"
  ro_offers :: "offer list"
  ro_checkpoints :: "checkpoint list"
  ro_scans :: "checkpoint_scan list"
  ro_budgets :: "labor_budget list"
  ro_events :: "(string \<times> id option) list"
  ro_log :: "effect list"

record shift_caller =
  sc_user :: id
  sc_org :: id
  sc_permissions :: "string set"

definition scoped :: "shift_caller \<Rightarrow> string \<Rightarrow> roster \<Rightarrow> id list option" where
  "scoped c orgWide db = scopedEmployeeIds (sc_org c) (sc_user c) (sc_permissions c) orgWide (ro_access db)"

definition emit :: "effect list \<Rightarrow> roster \<Rightarrow> roster" where
  "emit es db = db\<lparr>ro_log := ro_log db @ es\<rparr>"

definition sched_event :: "string \<Rightarrow> id option \<Rightarrow> roster \<Rightarrow> roster" where
  "sched_event e i db = db\<lparr>ro_events := ro_events db @ [(e, i)]\<rparr>"

subsection \<open>Helpers\<close>

text \<open>\<open>None\<close> is \<open>NaN\<close>.\<close>

definition timeToMins :: "string \<Rightarrow> rat option" where
  "timeToMins t =
     (case map js_number (split_on (CHR '':'') t) of
        Some h # Some m # _ \<Rightarrow> Some (h * 60 + m) | _ \<Rightarrow> None)"

text \<open>\<open>parseDateOnly\<close>: the date parser of the JavaScript engine reads any day up to 31 of a month and carries
  the excess into the next month.\<close>

definition parseDateOnly_shifts :: "string \<Rightarrow> day option" where
  "parseDateOnly_shifts s =
     (case s of [y1, y2, y3, y4, h1, m1, m2, h2, d1, d2] \<Rightarrow>
        if list_all is_digit [y1, y2, y3, y4, m1, m2, d1, d2] \<and> h1 = CHR ''-'' \<and> h2 = CHR ''-''
        then (let y = int (dec_value [y1, y2, y3, y4]); m = int (dec_value [m1, m2]); d = int (dec_value [d1, d2])
              in if 1 \<le> m \<and> m \<le> 12 \<and> 1 \<le> d \<and> d \<le> 31 then Some (utc_day y (m - 1) d) else None)
        else None
      | _ \<Rightarrow> None)"

definition startOfCurrentWeek :: "instant \<Rightarrow> day" where
  "startOfCurrentWeek now = (let utc = day_of_instant now in utc - (weekdayOf utc + 6) mod 7)"

text \<open>Days of the week with Monday as 0, the convention of the schedule.\<close>

definition monday0 :: "day \<Rightarrow> int" where
  "monday0 d = (weekdayOf d + 6) mod 7"

subsection \<open>Break policies\<close>

record break_body =
  bb_name :: "string option"
  bb_is_paid :: "bool option"
  bb_break_kind :: "string option"
  bb_kind :: "string option"
  bb_start_time :: "string option"
  bb_end_time :: "string option"
  bb_break_minutes :: "int option"
  bb_duration_minutes :: "int option"
  bb_after_minutes :: "int option"
  bb_allowed_count_per_shift :: "int option"
  bb_paid_within_limit :: "bool option"
  bb_deduct_extra_time :: "bool option"
  bb_allow_extra_breaks :: "bool option"
  bb_applies_days :: "int list option"
  bb_exception_dates :: "day list option"
  bb_auto_start :: "bool option"
  bb_reminder_after_mins :: "int option"
  bb_deduct_if_skipped :: "bool option"

text \<open>The times of a fixed break: a missing or empty time is refused, and so is an end that is not after the
  start; a time that is not a number, or not a whole number of minutes, is refused by the database client.\<close>

definition fixed_times :: "string option \<Rightarrow> string option \<Rightarrow> string \<Rightarrow> (int \<times> int) result" where
  "fixed_times st en shiftStart =
     require (coalesce st [] \<noteq> [] \<and> coalesce en [] \<noteq> []) ValidationError
      (case (timeToMins (coalesce st []), timeToMins (coalesce en []), timeToMins shiftStart) of
         (Some s, Some e, Some sh) \<Rightarrow>
           require (0 < e - s) ValidationError
            (require (e - s = of_int \<lfloor>e - s\<rfloor> \<and> s - sh = of_int \<lfloor>s - sh\<rfloor>) PlainError (Inr (\<lfloor>e - s\<rfloor>, \<lfloor>s - sh\<rfloor>)))
       | _ \<Rightarrow> Inl PlainError)"

definition readBreakPolicy :: "break_body \<Rightarrow> string \<Rightarrow> break_policy option \<Rightarrow> break_policy result" where
  "readBreakPolicy body shiftStart existing =
     (let breakKind = coalesce (coalesce_opt (bb_break_kind body) (coalesce_opt (bb_kind body) (map_option bp_break_kind existing))) ''fixed'';
          given = coalesce (coalesce_opt (bb_break_minutes body) (coalesce_opt (bb_duration_minutes body) (map_option bp_break_minutes existing))) 0;
          st = coalesce_opt (bb_start_time body) (Option.bind existing bp_break_start_time);
          en = coalesce_opt (bb_end_time body) (Option.bind existing bp_break_end_time);
          policy = (\<lambda>mins after s e. \<lparr>bp_break_kind = breakKind, bp_break_minutes = mins, bp_after_minutes = after,
            bp_break_start_time = s, bp_break_end_time = e,
            bp_allowed_count_per_shift = coalesce (coalesce_opt (bb_allowed_count_per_shift body) (map_option bp_allowed_count_per_shift existing)) 1,
            bp_paid_within_limit = coalesce (coalesce_opt (bb_paid_within_limit body) (map_option bp_paid_within_limit existing)) True,
            bp_deduct_extra_time = coalesce (coalesce_opt (bb_deduct_extra_time body) (map_option bp_deduct_extra_time existing)) True,
            bp_allow_extra_breaks = coalesce (coalesce_opt (bb_allow_extra_breaks body) (map_option bp_allow_extra_breaks existing)) True,
            bp_applies_days = coalesce (coalesce_opt (bb_applies_days body) (map_option bp_applies_days existing)) [],
            bp_exception_dates = coalesce (coalesce_opt (bb_exception_dates body) (map_option bp_exception_dates existing)) [],
            bp_auto_start = (breakKind = ''fixed'' \<and> coalesce (bb_auto_start body) False),
            bp_reminder_after_mins = coalesce (bb_reminder_after_mins body) 30,
            bp_deduct_if_skipped = coalesce (bb_deduct_if_skipped body) True\<rparr>)
      in require (breakKind \<in> {''fixed'', ''flexible''}) ValidationError
       (if breakKind = ''fixed''
        then bind_result (fixed_times st en shiftStart) (\<lambda>(mins, after). Inr (policy mins after st en))
        else require (0 < given) ValidationError
          (Inr (policy given (coalesce (coalesce_opt (bb_after_minutes body) (map_option bp_after_minutes existing)) 0) None None))))"

definition shift_named :: "id \<Rightarrow> id \<Rightarrow> roster \<Rightarrow> shift_template option" where
  "shift_named orgId i db = find_first (\<lambda>s. sh_id s = i \<and> sh_org_id s = orgId) (ro_shifts db)"

definition create_break :: "shift_caller \<Rightarrow> id \<Rightarrow> id \<Rightarrow> break_body \<Rightarrow> roster \<Rightarrow> roster result" where
  "create_break c newId shiftId body db =
     require (coalesce (bb_name body) [] \<noteq> []) ValidationError
      (case shift_named (sc_org c) shiftId db of None \<Rightarrow> Inl NotFoundError
       | Some s \<Rightarrow>
           bind_result (readBreakPolicy body (sh_start_time s) None) (\<lambda>p.
             Inr (db\<lparr>ro_breaks := ro_breaks db @
               [\<lparr>tb_id = newId, tb_shift_id = sh_id s, tb_name = coalesce (bb_name body) [], tb_is_paid = coalesce (bb_is_paid body) False, tb_policy = p\<rparr>]\<rparr>)))"

text \<open>A break of the organisation with its shift.\<close>

definition break_named :: "id \<Rightarrow> id \<Rightarrow> roster \<Rightarrow> (template_break \<times> shift_template) option" where
  "break_named orgId i db =
     Option.bind (find_first (\<lambda>b. tb_id b = i \<and> shift_named orgId (tb_shift_id b) db \<noteq> None) (ro_breaks db))
       (\<lambda>b. map_option (Pair b) (shift_named orgId (tb_shift_id b) db))"

definition update_break :: "shift_caller \<Rightarrow> id \<Rightarrow> break_body \<Rightarrow> roster \<Rightarrow> roster result" where
  "update_break c breakId body db =
     (case break_named (sc_org c) breakId db of None \<Rightarrow> Inl NotFoundError
      | Some (b, s) \<Rightarrow>
          bind_result (readBreakPolicy body (sh_start_time s) (Some (tb_policy b))) (\<lambda>p.
            Inr (db\<lparr>ro_breaks := update_where (\<lambda>x. tb_id x = tb_id b)
              (\<lambda>x. x\<lparr>tb_name := coalesce (bb_name body) (tb_name x), tb_is_paid := coalesce (bb_is_paid body) (tb_is_paid x), tb_policy := p\<rparr>)
              (ro_breaks db)\<rparr>)))"

definition delete_break :: "shift_caller \<Rightarrow> id \<Rightarrow> roster \<Rightarrow> roster result" where
  "delete_break c breakId db =
     (case break_named (sc_org c) breakId db of None \<Rightarrow> Inl NotFoundError
      | Some (b, s) \<Rightarrow> Inr (db\<lparr>ro_breaks := filter (\<lambda>x. tb_id x \<noteq> tb_id b) (ro_breaks db)\<rparr>))"

subsection \<open>Shift templates\<close>

record shift_body =
  sb_name :: "string option"
  sb_start_time :: "string option"
  sb_end_time :: "string option"
  sb_color :: "string option"
  sb_active_days :: "int list option"
  sb_days_of_week :: "int list option"
  sb_overtime_multiplier :: "rat option"
  sb_min_rest_hours :: "rat option"
  sb_late_tolerance_mins :: "int option"
  sb_early_checkout_tolerance_mins :: "int option"
  sb_auto_checkout :: "bool option"
  sb_auto_checkout_buffer_mins :: "int option"
  sb_overtime_enabled :: "bool option"
  sb_overtime_requires_approval :: "bool option"
  sb_extra_time_label :: "string option"
  sb_is_org_wide :: "bool option"
  sb_is_default :: "bool option"

text \<open>The settings that are written only when they are given.\<close>

definition apply_settings :: "shift_body \<Rightarrow> shift_template \<Rightarrow> shift_template" where
  "apply_settings body s = s\<lparr>
     sh_overtime_multiplier := coalesce (sb_overtime_multiplier body) (sh_overtime_multiplier s),
     sh_min_rest_hours := coalesce (sb_min_rest_hours body) (sh_min_rest_hours s),
     sh_late_tolerance_mins := coalesce (sb_late_tolerance_mins body) (sh_late_tolerance_mins s),
     sh_early_checkout_tolerance_mins := coalesce (sb_early_checkout_tolerance_mins body) (sh_early_checkout_tolerance_mins s),
     sh_auto_checkout := coalesce (sb_auto_checkout body) (sh_auto_checkout s),
     sh_auto_checkout_buffer_mins := coalesce (sb_auto_checkout_buffer_mins body) (sh_auto_checkout_buffer_mins s),
     sh_overtime_enabled := coalesce (sb_overtime_enabled body) (sh_overtime_enabled s),
     sh_overtime_requires_approval := coalesce (sb_overtime_requires_approval body) (sh_overtime_requires_approval s),
     sh_extra_time_label := (case sb_extra_time_label body of None \<Rightarrow> sh_extra_time_label s | Some l \<Rightarrow> coalesce_str (Some l) ''Extra office time'')\<rparr>"

definition clear_org_wide :: "id \<Rightarrow> roster \<Rightarrow> roster" where
  "clear_org_wide orgId db = db\<lparr>ro_shifts := update_where (\<lambda>s. sh_org_id s = orgId \<and> sh_is_org_wide s) (\<lambda>s. s\<lparr>sh_is_org_wide := False\<rparr>) (ro_shifts db)\<rparr>"

definition clear_default :: "id \<Rightarrow> roster \<Rightarrow> roster" where
  "clear_default orgId db = db\<lparr>ro_shifts := update_where (\<lambda>s. sh_org_id s = orgId \<and> sh_is_default s) (\<lambda>s. s\<lparr>sh_is_default := False\<rparr>) (ro_shifts db)\<rparr>"

definition create_shift :: "shift_caller \<Rightarrow> id \<Rightarrow> shift_body \<Rightarrow> roster \<Rightarrow> roster result" where
  "create_shift c newId body db =
     (let orgWide = coalesce (sb_is_org_wide body) False; isDefault = coalesce (sb_is_default body) False; orgId = sc_org c;
          row = \<lparr>sh_id = newId, sh_org_id = orgId, sh_name = coalesce (sb_name body) [], sh_start_time = coalesce (sb_start_time body) [],
            sh_end_time = coalesce (sb_end_time body) [], sh_color = coalesce_str (sb_color body) ''#f15153'',
            sh_active_days = coalesce (coalesce_opt (sb_active_days body) (sb_days_of_week body)) [],
            sh_is_published = (orgWide \<or> isDefault), sh_is_org_wide = orgWide, sh_is_default = isDefault, sh_created_by = Some (sc_user c),
            sh_overtime_multiplier = 3 / 2, sh_min_rest_hours = 11, sh_late_tolerance_mins = 15, sh_early_checkout_tolerance_mins = 15,
            sh_auto_checkout = True, sh_auto_checkout_buffer_mins = 30, sh_overtime_enabled = False, sh_overtime_requires_approval = True,
            sh_extra_time_label = ''Extra office time''\<rparr>;
          db1 = (if orgWide then clear_org_wide orgId db else db);
          db2 = (if isDefault then clear_default orgId db1 else db1)
      in require (coalesce (sb_name body) [] \<noteq> [] \<and> coalesce (sb_start_time body) [] \<noteq> [] \<and> coalesce (sb_end_time body) [] \<noteq> []) ValidationError
       (require (newId \<notin> sh_id ` set (ro_shifts db)) ConflictError
         (Inr (db2\<lparr>ro_shifts := ro_shifts db2 @ [apply_settings body row]\<rparr>))))"

text \<open>The update decides from the row it has read whether the other templates lose the flag, and writes in a
  transaction of its own.\<close>

definition update_shift_plan :: "shift_caller \<Rightarrow> id \<Rightarrow> shift_body \<Rightarrow> roster \<Rightarrow> (bool \<times> bool) result" where
  "update_shift_plan c shiftId body db =
     (case shift_named (sc_org c) shiftId db of None \<Rightarrow> Inl NotFoundError
      | Some s \<Rightarrow> Inr (sb_is_default body = Some True \<and> \<not> sh_is_default s, sb_is_org_wide body = Some True \<and> \<not> sh_is_org_wide s))"

definition write_shift :: "bool \<Rightarrow> shift_body \<Rightarrow> shift_template \<Rightarrow> shift_template" where
  "write_shift promoted body s = apply_settings body (s\<lparr>
     sh_name := coalesce (sb_name body) (sh_name s),
     sh_start_time := coalesce (sb_start_time body) (sh_start_time s),
     sh_end_time := coalesce (sb_end_time body) (sh_end_time s),
     sh_color := coalesce (sb_color body) (sh_color s),
     sh_active_days := coalesce (coalesce_opt (sb_active_days body) (sb_days_of_week body)) (sh_active_days s),
     sh_is_org_wide := coalesce (sb_is_org_wide body) (sh_is_org_wide s),
     sh_is_default := coalesce (sb_is_default body) (sh_is_default s),
     sh_is_published := (promoted \<or> sh_is_published s)\<rparr>)"

definition update_shift_commit :: "shift_caller \<Rightarrow> id \<Rightarrow> shift_body \<Rightarrow> bool \<times> bool \<Rightarrow> roster \<Rightarrow> roster result" where
  "update_shift_commit c shiftId body turningOn db =
     (let db1 = (if fst turningOn then clear_default (sc_org c) db else db);
          db2 = (if snd turningOn then clear_org_wide (sc_org c) db1 else db1)
      in require (shiftId \<in> sh_id ` set (ro_shifts db)) NotFoundError
          (Inr (db2\<lparr>ro_shifts := update_where (\<lambda>s. sh_id s = shiftId) (write_shift (fst turningOn \<or> snd turningOn) body) (ro_shifts db2)\<rparr>)))"

definition update_shift :: "shift_caller \<Rightarrow> id \<Rightarrow> shift_body \<Rightarrow> roster \<Rightarrow> roster result" where
  "update_shift c shiftId body db = bind_result (update_shift_plan c shiftId body db) (\<lambda>t. update_shift_commit c shiftId body t db)"

definition set_default :: "shift_caller \<Rightarrow> id \<Rightarrow> roster \<Rightarrow> roster result" where
  "set_default c shiftId db =
     (case shift_named (sc_org c) shiftId db of None \<Rightarrow> Inl NotFoundError
      | Some _ \<Rightarrow> Inr (db\<lparr>ro_shifts :=
          update_where (\<lambda>s. sh_id s = shiftId) (\<lambda>s. s\<lparr>sh_is_default := True, sh_is_published := True\<rparr>)
            (update_where (\<lambda>s. sh_org_id s = sc_org c) (\<lambda>s. s\<lparr>sh_is_default := False\<rparr>) (ro_shifts db))\<rparr>))"

definition set_org_wide :: "shift_caller \<Rightarrow> id \<Rightarrow> bool \<Rightarrow> roster \<Rightarrow> roster result" where
  "set_org_wide c shiftId org_wide db =
     (case shift_named (sc_org c) shiftId db of None \<Rightarrow> Inl NotFoundError
      | Some _ \<Rightarrow> Inr (if org_wide
          then (let db1 = clear_org_wide (sc_org c) db
                in db1\<lparr>ro_shifts := update_where (\<lambda>s. sh_id s = shiftId) (\<lambda>s. s\<lparr>sh_is_org_wide := True, sh_is_published := True\<rparr>) (ro_shifts db1)\<rparr>)
          else db\<lparr>ro_shifts := update_where (\<lambda>s. sh_id s = shiftId) (\<lambda>s. s\<lparr>sh_is_org_wide := False\<rparr>) (ro_shifts db)\<rparr>))"

text \<open>Assignments keep a template from being deleted; breaks, coverage rules, checkpoints and offers go with it.\<close>

definition delete_shift :: "shift_caller \<Rightarrow> id \<Rightarrow> roster \<Rightarrow> roster result" where
  "delete_shift c shiftId db =
     (case shift_named (sc_org c) shiftId db of None \<Rightarrow> Inl NotFoundError
      | Some _ \<Rightarrow>
          require (\<not> (\<exists>a\<in>set (ro_assignments db). as_shift_id a = shiftId)) PlainError
           (Inr (db\<lparr>ro_shifts := filter (\<lambda>s. sh_id s \<noteq> shiftId) (ro_shifts db),
             ro_breaks := filter (\<lambda>b. tb_shift_id b \<noteq> shiftId) (ro_breaks db),
             ro_coverage := filter (\<lambda>r. cv_shift_id r \<noteq> shiftId) (ro_coverage db),
             ro_checkpoints := filter (\<lambda>k. ck_shift_id k \<noteq> shiftId) (ro_checkpoints db),
             ro_offers := filter (\<lambda>f. of_shift_id f \<noteq> shiftId) (ro_offers db)\<rparr>)))"

subsection \<open>Break policies are well formed\<close>

definition policy_ok :: "break_policy \<Rightarrow> bool" where
  "policy_ok p \<longleftrightarrow> 0 < bp_break_minutes p \<and>
     (if bp_break_kind p = ''fixed''
      then (\<exists>s e. bp_break_start_time p = Some s \<and> bp_break_end_time p = Some e \<and>
             (\<exists>a b. timeToMins s = Some a \<and> timeToMins e = Some b \<and> b - a = of_int (bp_break_minutes p)))
      else bp_break_kind p = ''flexible'' \<and> bp_break_start_time p = None \<and> bp_break_end_time p = None \<and> \<not> bp_auto_start p)"

lemma fixed_times_ok:
  assumes "fixed_times st en shiftStart = Inr (mins, after)"
  obtains s e a b where "st = Some s" "en = Some e" "timeToMins s = Some a" "timeToMins e = Some b" "0 < mins" "b - a = of_int mins"
proof -
  obtain s e where se: "st = Some s" "en = Some e" using assms by (cases st; cases en) (auto simp: fixed_times_def)
  obtain a b sh where ab: "timeToMins s = Some a" "timeToMins e = Some b" "timeToMins shiftStart = Some sh"
    using assms by (auto simp: fixed_times_def se split: option.splits)
  have eqs: "mins = \<lfloor>b - a\<rfloor>" "b - a = of_int \<lfloor>b - a\<rfloor>" "0 < b - a"
    using assms by (auto simp: fixed_times_def se ab)
  show ?thesis using that[OF se ab(1,2)] eqs by (metis of_int_0_less_iff)
qed

lemma readBreakPolicy_ok:
  assumes "readBreakPolicy body shiftStart existing = Inr p"
  shows "policy_ok p"
proof (cases "bp_break_kind p = ''fixed''")
  case True
  then obtain mins after st en where f: "fixed_times st en shiftStart = Inr (mins, after)" and p: "bp_break_minutes p = mins"
      "bp_break_start_time p = st" "bp_break_end_time p = en"
    using assms by (auto simp: readBreakPolicy_def Let_def split: if_splits)
  show ?thesis by (rule fixed_times_ok[OF f]) (use True p in \<open>auto simp: policy_ok_def\<close>)
next
  case False
  then show ?thesis using assms by (auto simp: readBreakPolicy_def Let_def policy_ok_def split: if_splits)
qed

text \<open>An update of a break that only renames it switches its automatic start off and resets its reminder and
  the deduction of a skipped break: these three are not taken from the stored break.\<close>

definition rename_only :: break_body where
  "rename_only = \<lparr>bb_name = Some ''Lunch'', bb_is_paid = None, bb_break_kind = None, bb_kind = None, bb_start_time = None, bb_end_time = None,
     bb_break_minutes = None, bb_duration_minutes = None, bb_after_minutes = None, bb_allowed_count_per_shift = None, bb_paid_within_limit = None,
     bb_deduct_extra_time = None, bb_allow_extra_breaks = None, bb_applies_days = None, bb_exception_dates = None, bb_auto_start = None,
     bb_reminder_after_mins = None, bb_deduct_if_skipped = None\<rparr>"

lemma rename_resets_break:
  assumes "readBreakPolicy rename_only shiftStart (Some q) = Inr p"
  shows "\<not> bp_auto_start p \<and> bp_reminder_after_mins p = 30 \<and> bp_deduct_if_skipped p"
  using assms by (auto simp: readBreakPolicy_def rename_only_def Let_def split: if_splits)

subsection \<open>One default and one organisation-wide template\<close>

datatype template_op =
    CreateShift id shift_body
  | UpdateShift id shift_body
  | SetDefault id
  | SetOrgWide id bool
  | DeleteShift id

fun template_act :: "shift_caller \<times> template_op \<Rightarrow> roster \<Rightarrow> roster result" where
  "template_act (c, CreateShift i b) db = create_shift c i b db"
| "template_act (c, UpdateShift i b) db = update_shift c i b db"
| "template_act (c, SetDefault i) db = set_default c i db"
| "template_act (c, SetOrgWide i w) db = set_org_wide c i w db"
| "template_act (c, DeleteShift i) db = delete_shift c i db"

definition sole :: "(shift_template \<Rightarrow> bool) \<Rightarrow> shift_template list \<Rightarrow> bool" where
  "sole p xs \<longleftrightarrow> (\<forall>x\<in>set xs. \<forall>y\<in>set xs. p x \<and> p y \<longrightarrow> sh_id x = sh_id y)"

definition default_of :: "id \<Rightarrow> shift_template \<Rightarrow> bool" where
  "default_of o' s \<longleftrightarrow> sh_org_id s = o' \<and> sh_is_default s"

definition wide_of :: "id \<Rightarrow> shift_template \<Rightarrow> bool" where
  "wide_of o' s \<longleftrightarrow> sh_org_id s = o' \<and> sh_is_org_wide s"

definition templates_ok :: "shift_template list \<Rightarrow> bool" where
  "templates_ok xs \<longleftrightarrow> distinct (map sh_id xs) \<and> (\<forall>o'. sole (default_of o') xs \<and> sole (wide_of o') xs) \<and>
     (\<forall>s\<in>set xs. sh_is_default s \<or> sh_is_org_wide s \<longrightarrow> sh_is_published s)"

lemma ids_kept: "(\<And>s. sh_id (f s) = sh_id s) \<Longrightarrow> map sh_id (update_where p f xs) = map sh_id xs"
  by (simp add: update_where_def)

lemma sole_kept:
  assumes "sole p xs" "\<And>s. sh_id (f s) = sh_id s" "\<And>s. s \<in> set xs \<Longrightarrow> q s \<Longrightarrow> p (f s) \<Longrightarrow> p s"
  shows "sole p (update_where q f xs)"
  using assms by (fastforce simp: sole_def update_where_def)

lemma sole_one:
  assumes "\<And>s. sh_id (f s) = sh_id s" "\<And>s. s \<in> set xs \<Longrightarrow> p s \<Longrightarrow> sh_id s = i"
  shows "sole p (update_where (\<lambda>s. sh_id s = i) f xs)"
  using assms by (fastforce simp: sole_def update_where_def)

lemma settings_flags [simp]:
  "sh_id (apply_settings b s) = sh_id s" "sh_org_id (apply_settings b s) = sh_org_id s" "sh_is_default (apply_settings b s) = sh_is_default s"
  "sh_is_org_wide (apply_settings b s) = sh_is_org_wide s" "sh_is_published (apply_settings b s) = sh_is_published s"
  by (simp_all add: apply_settings_def)

lemma cleared_shifts:
  "ro_shifts (clear_default o' db) = update_where (\<lambda>s. sh_org_id s = o' \<and> sh_is_default s) (\<lambda>s. s\<lparr>sh_is_default := False\<rparr>) (ro_shifts db)"
  "ro_shifts (clear_org_wide o' db) = update_where (\<lambda>s. sh_org_id s = o' \<and> sh_is_org_wide s) (\<lambda>s. s\<lparr>sh_is_org_wide := False\<rparr>) (ro_shifts db)"
  by (simp_all add: clear_default_def clear_org_wide_def)

lemma cleared_flags:
  "s \<in> set (ro_shifts (clear_default o' db)) \<Longrightarrow> sh_org_id s = o' \<Longrightarrow> \<not> sh_is_default s"
  "s \<in> set (ro_shifts (clear_org_wide o' db)) \<Longrightarrow> sh_org_id s = o' \<Longrightarrow> \<not> sh_is_org_wide s"
  unfolding cleared_shifts set_update_where by (elim UnE imageE; simp)+

text \<open>Writes that set no flag keep the invariant, and so does a write of one row that sets a flag which no other
  row of the organisation has.\<close>

definition keeps_flags :: "(shift_template \<Rightarrow> shift_template) \<Rightarrow> bool" where
  "keeps_flags f \<longleftrightarrow> (\<forall>s. sh_id (f s) = sh_id s \<and> sh_org_id (f s) = sh_org_id s \<and> (sh_is_published s \<longrightarrow> sh_is_published (f s)))"

definition lowers :: "shift_template list \<Rightarrow> (shift_template \<Rightarrow> shift_template) \<Rightarrow> id \<Rightarrow> (shift_template \<Rightarrow> bool) \<Rightarrow> bool" where
  "lowers xs f i p \<longleftrightarrow> (\<forall>s\<in>set xs. sh_id s = i \<and> p (f s) \<longrightarrow> p s) \<or> (\<forall>s\<in>set xs. p s \<longrightarrow> sh_id s = i)"

lemma lowers_other:
  assumes "\<And>s. s \<in> set xs \<Longrightarrow> sh_id s = i \<Longrightarrow> sh_org_id s = o1" "o2 \<noteq> o1" "\<And>s. sh_org_id (f s) = sh_org_id s" "\<And>s. p s \<Longrightarrow> sh_org_id s = o2"
  shows "lowers xs f i p"
  using assms unfolding lowers_def by metis

lemma lower_ok:
  assumes ok: "templates_ok xs" and f: "keeps_flags f"
    and down: "\<And>s. sh_is_default (f s) \<Longrightarrow> sh_is_default s" "\<And>s. sh_is_org_wide (f s) \<Longrightarrow> sh_is_org_wide s"
  shows "templates_ok (update_where q f xs)"
proof -
  have ids: "distinct (map sh_id (update_where q f xs))" using ok f by (simp add: ids_kept keeps_flags_def templates_ok_def)
  have d: "sole (default_of o') (update_where q f xs)" for o'
    using ok f down by (intro sole_kept) (auto simp: templates_ok_def keeps_flags_def default_of_def)
  have w: "sole (wide_of o') (update_where q f xs)" for o'
    using ok f down by (intro sole_kept) (auto simp: templates_ok_def keeps_flags_def wide_of_def)
  have "sh_is_published s" if s: "s \<in> set (update_where q f xs)" and flag: "sh_is_default s \<or> sh_is_org_wide s" for s
  proof -
    obtain t where t: "t \<in> set xs" "s = (if q t then f t else t)" using s by (auto simp: update_where_def)
    have "sh_is_default t \<or> sh_is_org_wide t" using t(2) flag down by (auto split: if_splits)
    then have "sh_is_published t" using ok t(1) by (auto simp: templates_ok_def)
    then show ?thesis using t(2) f by (simp add: keeps_flags_def)
  qed
  then show ?thesis using ids d w by (simp add: templates_ok_def)
qed

lemma cleared_ok: "templates_ok (ro_shifts db) \<Longrightarrow> templates_ok (ro_shifts (clear_default o' db))"
    "templates_ok (ro_shifts db) \<Longrightarrow> templates_ok (ro_shifts (clear_org_wide o' db))"
  unfolding cleared_shifts by (erule lower_ok; simp add: keeps_flags_def)+

lemma one_row_ok:
  assumes ok: "templates_ok xs" and f: "keeps_flags f"
    and d: "\<And>o'. lowers xs f i (default_of o')" and w: "\<And>o'. lowers xs f i (wide_of o')"
    and pub: "\<And>s. s \<in> set xs \<Longrightarrow> sh_id s = i \<Longrightarrow> sh_is_default (f s) \<or> sh_is_org_wide (f s) \<Longrightarrow> sh_is_published (f s)"
  shows "templates_ok (update_where (\<lambda>s. sh_id s = i) f xs)"
proof -
  have fid: "sh_id (f s) = sh_id s" for s using f by (simp add: keeps_flags_def)
  have ids: "distinct (map sh_id (update_where (\<lambda>s. sh_id s = i) f xs))" using ok fid by (simp add: ids_kept templates_ok_def)
  have sole: "sole p (update_where (\<lambda>s. sh_id s = i) f xs)" if "lowers xs f i p" "sole p xs" for p
    using that unfolding lowers_def
  proof (elim disjE)
    show "sole p (update_where (\<lambda>s. sh_id s = i) f xs)" if "\<forall>s\<in>set xs. sh_id s = i \<and> p (f s) \<longrightarrow> p s" "sole p xs"
      by (rule sole_kept[OF that(2) fid]) (use that(1) in blast)
    show "sole p (update_where (\<lambda>s. sh_id s = i) f xs)" if "\<forall>s\<in>set xs. p s \<longrightarrow> sh_id s = i" "sole p xs"
      by (rule sole_one[OF fid]) (use that(1) in blast)
  qed
  have "sh_is_published s" if s: "s \<in> set (update_where (\<lambda>s. sh_id s = i) f xs)" and flag: "sh_is_default s \<or> sh_is_org_wide s" for s
  proof -
    obtain t where t: "t \<in> set xs" "s = (if sh_id t = i then f t else t)" using s by (auto simp: update_where_def)
    show ?thesis
    proof (cases "sh_id t = i")
      case True
      then show ?thesis using pub[OF t(1) True] flag t(2) by simp
    next
      case False
      then show ?thesis using ok t flag by (auto simp: templates_ok_def)
    qed
  qed
  then show ?thesis using ids sole ok d w by (simp add: templates_ok_def)
qed

lemma sub_ok: "templates_ok xs \<Longrightarrow> templates_ok (filter p xs)"
  by (auto simp: templates_ok_def sole_def distinct_map_filter)

lemma append_ok:
  assumes ok: "templates_ok xs" and fresh: "sh_id r \<notin> sh_id ` set xs"
    and d: "sh_is_default r \<Longrightarrow> \<forall>s\<in>set xs. sh_org_id s = sh_org_id r \<longrightarrow> \<not> sh_is_default s"
    and w: "sh_is_org_wide r \<Longrightarrow> \<forall>s\<in>set xs. sh_org_id s = sh_org_id r \<longrightarrow> \<not> sh_is_org_wide s"
    and pub: "sh_is_default r \<or> sh_is_org_wide r \<Longrightarrow> sh_is_published r"
  shows "templates_ok (xs @ [r])"
proof -
  have one: "sole p (xs @ [r])" if "sole p xs" "p r \<Longrightarrow> \<forall>s\<in>set xs. \<not> p s" for p
  proof (cases "p r")
    case True
    then have "\<And>x. x \<in> set (xs @ [r]) \<Longrightarrow> p x \<Longrightarrow> x = r" using that(2) by auto
    then show ?thesis unfolding sole_def by blast
  next
    case False
    then have "\<And>x. x \<in> set (xs @ [r]) \<Longrightarrow> p x \<Longrightarrow> x \<in> set xs" by auto
    then show ?thesis using that(1) unfolding sole_def by blast
  qed
  have "sole (default_of o') xs" "sole (wide_of o') xs" for o' using ok by (simp_all add: templates_ok_def)
  moreover have "\<forall>s\<in>set xs. \<not> default_of o' s" if "default_of o' r" for o' using that d by (auto simp: default_of_def)
  moreover have "\<forall>s\<in>set xs. \<not> wide_of o' s" if "wide_of o' r" for o' using that w by (auto simp: wide_of_def)
  ultimately have sole: "sole (default_of o') (xs @ [r])" "sole (wide_of o') (xs @ [r])" for o' by (auto intro!: one)
  have "\<forall>s\<in>set (xs @ [r]). sh_is_default s \<or> sh_is_org_wide s \<longrightarrow> sh_is_published s" using ok pub by (simp add: templates_ok_def)
  moreover have "distinct (map sh_id (xs @ [r]))" using ok fresh by (simp add: templates_ok_def)
  ultimately show ?thesis using sole unfolding templates_ok_def by blast
qed

lemma cleared_ids [simp]: "sh_id ` set (ro_shifts (clear_default o' db)) = sh_id ` set (ro_shifts db)"
    "sh_id ` set (ro_shifts (clear_org_wide o' db)) = sh_id ` set (ro_shifts db)"
  unfolding cleared_shifts set_map[symmetric] by (subst ids_kept; simp)+

lemma named: "shift_named orgId i db = Some s \<Longrightarrow> s \<in> set (ro_shifts db) \<and> sh_id s = i \<and> sh_org_id s = orgId"
  unfolding shift_named_def by (drule find_first_Some) simp

lemma named_row: "templates_ok (ro_shifts db) \<Longrightarrow> shift_named orgId i db = Some s \<Longrightarrow> t \<in> set (ro_shifts db) \<Longrightarrow> sh_id t = i \<Longrightarrow> t = s"
  using named[of orgId i db s] by (auto simp: templates_ok_def dest: eq_key_imp_eq_value) (metis inj_on_def distinct_map)

lemma cleared_other: "t \<in> set (ro_shifts (clear_org_wide o' db)) \<Longrightarrow> \<exists>u\<in>set (ro_shifts db). sh_id u = sh_id t \<and> sh_org_id u = sh_org_id t \<and> sh_is_default u = sh_is_default t \<and> (sh_is_org_wide t \<longrightarrow> sh_is_org_wide u) \<and> sh_is_published u = sh_is_published t"
    "t \<in> set (ro_shifts (clear_default o' db)) \<Longrightarrow> \<exists>u\<in>set (ro_shifts db). sh_id u = sh_id t \<and> sh_org_id u = sh_org_id t \<and> (sh_is_default t \<longrightarrow> sh_is_default u) \<and> sh_is_org_wide u = sh_is_org_wide t \<and> sh_is_published u = sh_is_published t"
  unfolding cleared_shifts set_update_where by (elim UnE imageE; force)+

lemma create_ok: "templates_ok (ro_shifts db) \<Longrightarrow> create_shift c i b db = Inr db' \<Longrightarrow> templates_ok (ro_shifts db')"
proof -
  assume ok: "templates_ok (ro_shifts db)" and run: "create_shift c i b db = Inr db'"
  let ?w = "coalesce (sb_is_org_wide b) False" and ?d = "coalesce (sb_is_default b) False"
  let ?db1 = "if ?w then clear_org_wide (sc_org c) db else db"
  let ?db2 = "if ?d then clear_default (sc_org c) ?db1 else ?db1"
  obtain r where r: "ro_shifts db' = ro_shifts ?db2 @ [r]" "sh_id r = i" "sh_org_id r = sc_org c" "sh_is_default r = ?d" "sh_is_org_wide r = ?w"
      "sh_is_published r = (?w \<or> ?d)" and fresh: "i \<notin> sh_id ` set (ro_shifts db)"
    using run by (auto simp: create_shift_def Let_def)
  have ok2: "templates_ok (ro_shifts ?db2)" using ok by (simp add: cleared_ok)
  have fresh2: "sh_id r \<notin> sh_id ` set (ro_shifts ?db2)" using fresh r(2) by simp
  have w: "\<not> sh_is_org_wide s" if wide: "?w" and s: "s \<in> set (ro_shifts ?db2)" and org: "sh_org_id s = sc_org c" for s
  proof -
    obtain u where "u \<in> set (ro_shifts ?db1)" "sh_org_id u = sh_org_id s" "sh_is_org_wide u = sh_is_org_wide s"
      using s cleared_other(2)[of s "sc_org c" ?db1] by (cases ?d) auto
    then show ?thesis using cleared_flags(2)[of u "sc_org c" db] wide org by simp
  qed
  have d: "\<not> sh_is_default s" if "?d" "s \<in> set (ro_shifts ?db2)" "sh_org_id s = sc_org c" for s
    using that cleared_flags(1)[of s "sc_org c" ?db1] by simp
  show ?thesis unfolding r(1) by (rule append_ok[OF ok2 fresh2]) (use r w d in auto)
qed

lemma write_flags:
  "sh_id (write_shift p b s) = sh_id s" "sh_org_id (write_shift p b s) = sh_org_id s"
  "sh_is_default (write_shift p b s) = coalesce (sb_is_default b) (sh_is_default s)"
  "sh_is_org_wide (write_shift p b s) = coalesce (sb_is_org_wide b) (sh_is_org_wide s)"
  "sh_is_published (write_shift p b s) = (p \<or> sh_is_published s)"
  by (simp_all add: write_shift_def)

text \<open>The rows the commit writes over: those of the organisation have lost the flags that are being turned on.\<close>

lemma commit_rows:
  assumes "t \<in> set (ro_shifts (if w then clear_org_wide o' (if d then clear_default o' db else db) else (if d then clear_default o' db else db)))"
  obtains u where "u \<in> set (ro_shifts db)" "sh_id u = sh_id t" "sh_org_id u = sh_org_id t" "sh_is_default t \<Longrightarrow> sh_is_default u"
    "sh_is_org_wide t \<Longrightarrow> sh_is_org_wide u" "sh_is_published u = sh_is_published t" "\<not> d \<Longrightarrow> sh_is_default t = sh_is_default u" "\<not> w \<Longrightarrow> sh_is_org_wide t = sh_is_org_wide u"
    "d \<Longrightarrow> sh_org_id t = o' \<Longrightarrow> \<not> sh_is_default t" "w \<Longrightarrow> sh_org_id t = o' \<Longrightarrow> \<not> sh_is_org_wide t"
proof -
  let ?db1 = "if d then clear_default o' db else db"
  obtain v where v: "v \<in> set (ro_shifts ?db1)" "sh_id v = sh_id t" "sh_org_id v = sh_org_id t" "sh_is_default v = sh_is_default t"
      "sh_is_org_wide t \<Longrightarrow> sh_is_org_wide v" "sh_is_published v = sh_is_published t" "\<not> w \<Longrightarrow> sh_is_org_wide v = sh_is_org_wide t"
    using assms cleared_other(1)[of t o' ?db1] by (cases w) auto
  obtain u where u: "u \<in> set (ro_shifts db)" "sh_id u = sh_id v" "sh_org_id u = sh_org_id v" "sh_is_default v \<Longrightarrow> sh_is_default u"
      "sh_is_org_wide u = sh_is_org_wide v" "sh_is_published u = sh_is_published v" "\<not> d \<Longrightarrow> sh_is_default u = sh_is_default v"
    using v(1) cleared_other(2)[of v o' db] by (cases d) auto
  have c1: "d \<Longrightarrow> sh_org_id t = o' \<Longrightarrow> \<not> sh_is_default t" using v(1,3,4) cleared_flags(1)[of v o' db] by simp
  have c2: "w \<Longrightarrow> sh_org_id t = o' \<Longrightarrow> \<not> sh_is_org_wide t" using assms cleared_flags(2)[of t o' ?db1] by simp
  show ?thesis by (rule that[of u]) (use u v c1 c2 in auto)
qed

lemma commit_shifts:
  assumes "update_shift_commit c i b (d, w) db = Inr db'"
  shows "ro_shifts db' = update_where (\<lambda>s. sh_id s = i) (write_shift (d \<or> w) b)
    (ro_shifts (if w then clear_org_wide (sc_org c) (if d then clear_default (sc_org c) db else db) else (if d then clear_default (sc_org c) db else db)))"
  using assms by (auto simp: update_shift_commit_def Let_def)

lemma update_ok:
  assumes ok: "templates_ok (ro_shifts db)" and run: "update_shift c i b db = Inr db'"
  shows "templates_ok (ro_shifts db')"
proof -
  obtain s where s: "shift_named (sc_org c) i db = Some s" using run by (auto simp: update_shift_def update_shift_plan_def split: option.splits)
  let ?d = "sb_is_default b = Some True \<and> \<not> sh_is_default s" and ?w = "sb_is_org_wide b = Some True \<and> \<not> sh_is_org_wide s"
  let ?db2 = "if ?w then clear_org_wide (sc_org c) (if ?d then clear_default (sc_org c) db else db) else (if ?d then clear_default (sc_org c) db else db)"
  let ?f = "write_shift (?d \<or> ?w) b"
  have db': "ro_shifts db' = update_where (\<lambda>s. sh_id s = i) ?f (ro_shifts ?db2)"
    by (rule commit_shifts) (use run s in \<open>simp add: update_shift_def update_shift_plan_def\<close>)
  have ok2: "templates_ok (ro_shifts ?db2)" using ok by (simp add: cleared_ok)
  note flags = write_flags
  have mine: "sh_org_id t = sc_org c \<and> (\<not> ?d \<longrightarrow> sh_is_default t = sh_is_default s) \<and> (\<not> ?w \<longrightarrow> sh_is_org_wide t = sh_is_org_wide s) \<and>
      sh_is_published t = sh_is_published s" if t: "t \<in> set (ro_shifts ?db2)" "sh_id t = i" for t
    by (rule commit_rows[OF t(1)]) (use named_row[OF ok s] named[OF s] t(2) in metis)
  have none: "\<not> sh_is_default t" if "?d" "t \<in> set (ro_shifts ?db2)" "sh_org_id t = sc_org c" for t
    by (rule commit_rows[OF that(2)]) (use that in blast)
  have nonew: "\<not> sh_is_org_wide t" if "?w" "t \<in> set (ro_shifts ?db2)" "sh_org_id t = sc_org c" for t
    by (rule commit_rows[OF that(2)]) (use that in blast)
  have d: "lowers (ro_shifts ?db2) ?f i (default_of o')" for o'
  proof (cases "?d \<and> o' = sc_org c")
    case True
    then show ?thesis unfolding lowers_def default_of_def using none by blast
  next
    case False
    have "default_of o' t" if t: "t \<in> set (ro_shifts ?db2)" "sh_id t = i" "default_of o' (?f t)" for t
    proof -
      have "o' = sc_org c" using t mine[OF t(1,2)] by (simp add: default_of_def flags)
      then have nd: "\<not> ?d" using False by blast
      show ?thesis using t(3) mine[OF t(1,2)] nd by (cases "sb_is_default b") (auto simp: default_of_def flags)
    qed
    then show ?thesis unfolding lowers_def by blast
  qed
  have w: "lowers (ro_shifts ?db2) ?f i (wide_of o')" for o'
  proof (cases "?w \<and> o' = sc_org c")
    case True
    then show ?thesis unfolding lowers_def wide_of_def using nonew by blast
  next
    case False
    have "wide_of o' t" if t: "t \<in> set (ro_shifts ?db2)" "sh_id t = i" "wide_of o' (?f t)" for t
    proof -
      have "o' = sc_org c" using t mine[OF t(1,2)] by (simp add: wide_of_def flags)
      then have nw: "\<not> ?w" using False by blast
      show ?thesis using t(3) mine[OF t(1,2)] nw by (cases "sb_is_org_wide b") (auto simp: wide_of_def flags)
    qed
    then show ?thesis unfolding lowers_def by blast
  qed
  have pub: "sh_is_published (?f t)" if t: "t \<in> set (ro_shifts ?db2)" "sh_id t = i" "sh_is_default (?f t) \<or> sh_is_org_wide (?f t)" for t
  proof (cases "?d \<or> ?w")
    case True
    then show ?thesis by (simp add: flags)
  next
    case False
    then have "sh_is_default s \<or> sh_is_org_wide s" using t(3) mine[OF t(1,2)]
      by (cases "sb_is_default b"; cases "sb_is_org_wide b") (auto simp: flags)
    then show ?thesis using ok named[OF s] mine[OF t(1,2)] by (auto simp: flags templates_ok_def)
  qed
  have kf: "keeps_flags ?f" by (simp add: keeps_flags_def flags)
  show ?thesis unfolding db' by (rule one_row_ok[OF ok2 kf d w pub])
qed

lemma set_default_ok:
  assumes ok: "templates_ok (ro_shifts db)" and run: "set_default c i db = Inr db'"
  shows "templates_ok (ro_shifts db')"
proof -
  obtain s where s: "shift_named (sc_org c) i db = Some s" using run by (auto simp: set_default_def split: option.splits)
  let ?xs = "update_where (\<lambda>s. sh_org_id s = sc_org c) (\<lambda>s. s\<lparr>sh_is_default := False\<rparr>) (ro_shifts db)"
  let ?f = "\<lambda>s. s\<lparr>sh_is_default := True, sh_is_published := True\<rparr>"
  have ok2: "templates_ok ?xs" by (rule lower_ok[OF ok]) (simp_all add: keeps_flags_def)
  have none: "\<not> sh_is_default t" if "t \<in> set ?xs" "sh_org_id t = sc_org c" for t
    using that unfolding set_update_where by (elim UnE imageE; simp)
  have mine: "sh_org_id t = sc_org c" if t: "t \<in> set ?xs" "sh_id t = i" for t
  proof -
    obtain u where u: "u \<in> set (ro_shifts db)" "sh_id u = sh_id t" "sh_org_id u = sh_org_id t"
      using t(1) unfolding update_where_def set_map by (elim imageE) (auto split: if_splits)
    show ?thesis using named_row[OF ok s u(1)] named[OF s] u t by simp
  qed
  have d: "lowers ?xs ?f i (default_of o')" for o'
  proof (cases "o' = sc_org c")
    case True
    then show ?thesis unfolding lowers_def default_of_def using none by blast
  next
    case False
    show ?thesis by (rule lowers_other[OF mine False]) (simp_all add: default_of_def)
  qed
  have w: "lowers ?xs ?f i (wide_of o')" for o' unfolding lowers_def wide_of_def by simp
  have kf: "keeps_flags ?f" by (simp add: keeps_flags_def)
  have db': "ro_shifts db' = update_where (\<lambda>s. sh_id s = i) ?f ?xs" using run s by (auto simp: set_default_def)
  show ?thesis unfolding db' by (rule one_row_ok[OF ok2 kf d w]) simp
qed

lemma set_org_wide_ok:
  assumes ok: "templates_ok (ro_shifts db)" and run: "set_org_wide c i on db = Inr db'"
  shows "templates_ok (ro_shifts db')"
proof (cases on)
  case True
  obtain s where s: "shift_named (sc_org c) i db = Some s" using run by (auto simp: set_org_wide_def split: option.splits)
  let ?xs = "ro_shifts (clear_org_wide (sc_org c) db)"
  let ?f = "\<lambda>s. s\<lparr>sh_is_org_wide := True, sh_is_published := True\<rparr>"
  have mine: "sh_org_id t = sc_org c" if t: "t \<in> set ?xs" "sh_id t = i" for t
    using cleared_other(1)[OF t(1)] named_row[OF ok s] named[OF s] t(2) by metis
  have w: "lowers ?xs ?f i (wide_of o')" for o'
  proof (cases "o' = sc_org c")
    case True
    then show ?thesis unfolding lowers_def wide_of_def using cleared_flags(2)[of _ "sc_org c" db] by blast
  next
    case False
    show ?thesis by (rule lowers_other[OF mine False]) (simp_all add: wide_of_def)
  qed
  have d: "lowers ?xs ?f i (default_of o')" for o' unfolding lowers_def default_of_def by simp
  have kf: "keeps_flags ?f" by (simp add: keeps_flags_def)
  have db': "ro_shifts db' = update_where (\<lambda>s. sh_id s = i) ?f ?xs" using run s True by (auto simp: set_org_wide_def Let_def)
  show ?thesis unfolding db' by (rule one_row_ok[OF cleared_ok(2)[OF ok] kf d w]) simp
next
  case False
  then have db': "ro_shifts db' = update_where (\<lambda>s. sh_id s = i) (\<lambda>s. s\<lparr>sh_is_org_wide := False\<rparr>) (ro_shifts db)"
    using run by (auto simp: set_org_wide_def split: option.splits)
  show ?thesis unfolding db' by (rule lower_ok[OF ok]) (simp_all add: keeps_flags_def)
qed

lemma delete_ok: "templates_ok (ro_shifts db) \<Longrightarrow> delete_shift c i db = Inr db' \<Longrightarrow> templates_ok (ro_shifts db')"
proof -
  assume ok: "templates_ok (ro_shifts db)" and run: "delete_shift c i db = Inr db'"
  have "ro_shifts db' = filter (\<lambda>s. sh_id s \<noteq> i) (ro_shifts db)" using run by (auto simp: delete_shift_def split: option.splits)
  then show ?thesis using sub_ok[OF ok] by simp
qed

lemma template_act_ok: "templates_ok (ro_shifts db) \<Longrightarrow> template_act a db = Inr db' \<Longrightarrow> templates_ok (ro_shifts db')"
  by (cases "(a, db)" rule: template_act.cases; simp only: prod.inject template_act.simps)
    (metis create_ok, metis update_ok, metis set_default_ok, metis set_org_wide_ok, metis delete_ok)

lemma template_run_ok: "templates_ok (ro_shifts db) \<Longrightarrow> templates_ok (ro_shifts (snd (attempts template_act acts db)))"
  by (rule attempts_invariant[where P = "\<lambda>db. templates_ok (ro_shifts db)"]) (rule template_act_ok)

lemma sole_count: "templates_ok xs \<Longrightarrow> sole p xs \<Longrightarrow> length (filter p xs) \<le> 1"
proof -
  assume ok: "templates_ok xs" and one: "sole p xs"
  have "distinct (map sh_id (filter p xs))" using ok by (simp add: templates_ok_def distinct_map_filter)
  moreover have "length (map sh_id (filter p xs)) = card (set (map sh_id (filter p xs)))" using calculation by (metis distinct_card)
  moreover have "card (set (map sh_id (filter p xs))) \<le> 1"
    using one unfolding sole_def by (intro card_le_Suc0_iff_eq[THEN iffD2, simplified One_nat_def[symmetric]]) auto
  ultimately show ?thesis by simp
qed


subsection \<open>Examples\<close>

definition ex_template :: "id \<Rightarrow> bool \<Rightarrow> shift_template" where
  "ex_template i d = \<lparr>sh_id = i, sh_org_id = ''o'', sh_name = i, sh_start_time = ''09:00'', sh_end_time = ''17:00'', sh_color = ''red'',
     sh_active_days = [0, 1, 2, 3, 4], sh_is_published = d, sh_is_org_wide = False, sh_is_default = d, sh_created_by = None,
     sh_overtime_multiplier = 3 / 2, sh_min_rest_hours = 11, sh_late_tolerance_mins = 15, sh_early_checkout_tolerance_mins = 15,
     sh_auto_checkout = True, sh_auto_checkout_buffer_mins = 30, sh_overtime_enabled = False, sh_overtime_requires_approval = True,
     sh_extra_time_label = ''Extra''\<rparr>"

definition ex_body :: shift_body where
  "ex_body = \<lparr>sb_name = Some ''Day'', sb_start_time = Some ''09:00'', sb_end_time = Some ''17:00'', sb_color = None, sb_active_days = None,
     sb_days_of_week = None, sb_overtime_multiplier = None, sb_min_rest_hours = None, sb_late_tolerance_mins = None,
     sb_early_checkout_tolerance_mins = None, sb_auto_checkout = None, sb_auto_checkout_buffer_mins = None, sb_overtime_enabled = None,
     sb_overtime_requires_approval = None, sb_extra_time_label = None, sb_is_org_wide = None, sb_is_default = Some True\<rparr>"

definition ex_access :: access_db where
  "ex_access = \<lparr>ad_members = [], ad_user_roles = [], ad_roles = [], ad_grants = [], ad_platform_roles = [],
     ad_orgs = [], ad_plans = [], ad_locations = [], ad_managers = [], ad_api_keys = []\<rparr>"

definition ex_roster :: "shift_template list \<Rightarrow> roster" where
  "ex_roster ss = \<lparr>ro_access = ex_access, ro_departments = [], ro_shifts = ss, ro_breaks = [], ro_assignments = [], ro_leaves = [],
     ro_availability = [], ro_coverage = [], ro_rules = [], ro_violations = [], ro_swaps = [], ro_offers = [], ro_checkpoints = [],
     ro_scans = [], ro_budgets = [], ro_events = [], ro_log = []\<rparr>"

definition ex_caller :: shift_caller where
  "ex_caller = \<lparr>sc_user = ''m'', sc_org = ''o'', sc_permissions = {''shifts.manage''}\<rparr>"


text \<open>The update decides before its transaction whether the flag is turned on.  An edit of the default template
  that is overtaken by another template becoming the default leaves two defaults.\<close>

lemma stale_edit_two_defaults:
  "update_shift_plan ex_caller ''a'' ex_body (ex_roster [ex_template ''a'' True, ex_template ''b'' False]) = Inr (False, False) \<and>
   (case bind_result (set_default ex_caller ''b'' (ex_roster [ex_template ''a'' True, ex_template ''b'' False]))
        (update_shift_commit ex_caller ''a'' ex_body (False, False)) of
      Inr db \<Rightarrow> map sh_id (filter sh_is_default (ro_shifts db)) | Inl _ \<Rightarrow> []) = [''a'', ''b'']"
  by code_simp

end
