(* ===== verification/Roster.thy ===== *)
theory Roster
  imports Shifts
begin

text \<open>
  Shift assignments: \<^verbatim>\<open>src/src/routes/shifts.ts\<close> (assignments, bulk assignment, acknowledgement, swaps),
  \<^verbatim>\<open>src/src/services/shift-swap-request.ts\<close>, \<^verbatim>\<open>src/src/services/shiftAssignmentScope.ts\<close> and the copying of
  a week in \<^verbatim>\<open>src/src/routes/shift-planning.ts\<close>.

  A creation is a plan (what the handler reads and decides) and a commit on the state the database is in
  when the row is written: the unique key on employee and date is checked there.  Stored shift times have
  the form \<open>HH:MM\<close>, which the request schema guarantees.
\<close>

subsection \<open>Lookups\<close>

text \<open>\<open>shift: { org_id }\<close> in a \<open>where\<close>: the template of the assignment belongs to the organisation.\<close>

definition in_org :: "id \<Rightarrow> roster \<Rightarrow> assignment \<Rightarrow> bool" where
  "in_org orgId db a \<longleftrightarrow> (\<exists>s\<in>set (ro_shifts db). sh_id s = as_shift_id a \<and> sh_org_id s = orgId)"

definition assignment_named :: "id \<Rightarrow> id \<Rightarrow> roster \<Rightarrow> assignment option" where
  "assignment_named orgId i db = find_first (\<lambda>a. as_id a = i \<and> in_org orgId db a) (ro_assignments db)"

definition active_employee :: "id \<Rightarrow> id \<Rightarrow> roster \<Rightarrow> member option" where
  "active_employee orgId userId db = find_first (\<lambda>u. mb_id u = userId \<and> mb_org_id u = orgId \<and> mb_is_active u) (ad_members (ro_access db))"

definition has_leave_on :: "id \<Rightarrow> day \<Rightarrow> leave_request list \<Rightarrow> bool" where
  "has_leave_on userId date ls \<longleftrightarrow> (\<exists>l\<in>set ls. lr_user_id l = userId \<and> lr_status l = ''approved'' \<and> lr_start_date l \<le> date \<and> date \<le> lr_end_date l)"

definition off_day :: "shift_template \<Rightarrow> day \<Rightarrow> bool" where
  "off_day s date \<longleftrightarrow> sh_active_days s \<noteq> [] \<and> monday0 date \<notin> set (sh_active_days s)"

text \<open>The minutes of the clock that a shift covers: a shift that runs past midnight covers two ranges.\<close>

definition shift_ranges :: "string \<Rightarrow> string \<Rightarrow> (rat \<times> rat) list" where
  "shift_ranges s e =
     (let st = minutes s; en = (if minutes e \<le> st then minutes e + 1440 else minutes e)
      in if 1440 < en then [(st, 1440), (0, en - 1440)] else [(st, en)])"

definition ranges_meet :: "rat \<times> rat \<Rightarrow> rat \<times> rat \<Rightarrow> bool" where
  "ranges_meet r q \<longleftrightarrow> fst r < snd q \<and> fst q < snd r"

definition unavailable_on :: "id \<Rightarrow> id \<Rightarrow> day \<Rightarrow> availability \<Rightarrow> bool" where
  "unavailable_on orgId userId date r \<longleftrightarrow> av_org_id r = orgId \<and> av_user_id r = userId \<and> av_status r = ''approved'' \<and> av_kind r = ''unavailable'' \<and>
     (av_date r = Some date \<or>
      (av_weekday r = Some (monday0 date) \<and> (case av_starts_on r of None \<Rightarrow> True | Some d \<Rightarrow> d \<le> date) \<and>
       (case av_ends_on r of None \<Rightarrow> True | Some d \<Rightarrow> date \<le> d)))"

definition rule_times :: "availability \<Rightarrow> (string \<times> string) option" where
  "rule_times r = (if coalesce (av_start_time r) [] = [] \<or> coalesce (av_end_time r) [] = [] then None
     else Some (coalesce (av_start_time r) [], coalesce (av_end_time r) []))"

text \<open>A single assignment compares the rule's range as it is, a bulk assignment splits it at midnight.\<close>

definition time_blocked :: "shift_template \<Rightarrow> availability \<Rightarrow> bool" where
  "time_blocked s r \<longleftrightarrow> (case rule_times r of None \<Rightarrow> True
     | Some (a, b) \<Rightarrow> \<exists>q\<in>set (shift_ranges (sh_start_time s) (sh_end_time s)). ranges_meet q (minutes a, minutes b))"

definition split_range :: "rat \<Rightarrow> rat \<Rightarrow> (rat \<times> rat) list" where
  "split_range st en = (if st < en then [(st, en)] else [(st, 1440), (0, en)])"

definition time_blocked_split :: "shift_template \<Rightarrow> availability \<Rightarrow> bool" where
  "time_blocked_split s r \<longleftrightarrow> (case rule_times r of None \<Rightarrow> True
     | Some (a, b) \<Rightarrow> \<exists>p\<in>set (split_range (minutes a) (minutes b)). \<exists>q\<in>set (shift_ranges (sh_start_time s) (sh_end_time s)). ranges_meet p q)"

subsection \<open>Visible employees\<close>

definition intersectAssignmentEmployeeIds :: "id list option \<Rightarrow> id list option \<Rightarrow> id option \<Rightarrow> id list option" where
  "intersectAssignmentEmployeeIds scopedIds departmentIds employeeId =
     (let allowed0 = map_option remdups scopedIds;
          allowed1 = (case departmentIds of None \<Rightarrow> allowed0
            | Some ds \<Rightarrow> (case allowed0 of None \<Rightarrow> Some (remdups ds) | Some a \<Rightarrow> Some (filter (\<lambda>i. i \<in> set ds) a)))
      in if coalesce employeeId [] = [] then allowed1
         else (let e = coalesce employeeId [] in
           case allowed1 of None \<Rightarrow> Some [e] | Some a \<Rightarrow> Some (if e \<in> set a then [e] else [])))"

definition visible_assignments :: "shift_caller \<Rightarrow> day \<Rightarrow> day \<Rightarrow> string option \<Rightarrow> id option \<Rightarrow> roster \<Rightarrow> assignment list" where
  "visible_assignments c from to department employeeId db =
     (let departmentIds = (if coalesce department [] = [] then None
            else Some (map mb_id (filter (\<lambda>u. mb_org_id u = sc_org c \<and> mb_is_active u \<and> mb_deleted_at u = None \<and>
              (mb_id u, coalesce department []) \<in> set (ro_departments db)) (ad_members (ro_access db)))));
          ids = intersectAssignmentEmployeeIds (scoped c ''shifts.manage'' db) departmentIds employeeId
      in sort_key as_date (filter (\<lambda>a. from \<le> as_date a \<and> as_date a \<le> to \<and> in_org (sc_org c) db a \<and> isInEmployeeScope (as_user_id a) ids) (ro_assignments db)))"

subsection \<open>Creating, changing and removing assignments\<close>

definition slot :: "assignment \<Rightarrow> id \<times> day" where
  "slot a = (as_user_id a, as_date a)"

definition slots :: "roster \<Rightarrow> (id \<times> day) set" where
  "slots db = slot ` set (ro_assignments db)"

definition new_assignment :: "id \<Rightarrow> id \<Rightarrow> id \<Rightarrow> id option \<Rightarrow> day \<Rightarrow> bool \<Rightarrow> assignment" where
  "new_assignment i shiftId userId loc date published = \<lparr>as_id = i, as_shift_id = shiftId, as_user_id = userId, as_location_id = loc, as_date = date,
     as_is_published = published, as_ack_status = ''not_required'', as_ack_due_at = None, as_acknowledged_at = None, as_ack_note = None\<rparr>"

definition insert_assignment :: "assignment \<Rightarrow> roster \<Rightarrow> roster result" where
  "insert_assignment a db =
     require (slot a \<notin> slots db \<and> as_id a \<notin> as_id ` set (ro_assignments db)) ConflictError
      (Inr (db\<lparr>ro_assignments := ro_assignments db @ [a]\<rparr>))"

record assignment_warnings =
  aw_leave :: bool
  aw_off_day :: bool
  aw_availability :: bool

definition create_assignment_plan :: "shift_caller \<Rightarrow> id \<Rightarrow> id \<Rightarrow> id \<Rightarrow> string \<Rightarrow> roster \<Rightarrow> (assignment \<times> assignment_warnings) result" where
  "create_assignment_plan c newId user_id shift_id date db =
     require (user_id \<noteq> [] \<and> shift_id \<noteq> [] \<and> date \<noteq> []) ValidationError
      (case parseDateOnly_shifts date of None \<Rightarrow> Inl ValidationError
       | Some assignDate \<Rightarrow>
          (case active_employee (sc_org c) user_id db of None \<Rightarrow> Inl NotFoundError
           | Some user \<Rightarrow>
              (case shift_named (sc_org c) shift_id db of None \<Rightarrow> Inl NotFoundError
               | Some shift \<Rightarrow>
                  require (isInEmployeeScope (mb_id user) (scoped c ''shifts.manage'' db)) ForbiddenError
                   (require ((user_id, assignDate) \<notin> slots db) ValidationError
                     (Inr (new_assignment newId shift_id user_id (mb_primary_location_id user) assignDate False,
                       \<lparr>aw_leave = has_leave_on user_id assignDate (ro_leaves db), aw_off_day = off_day shift assignDate,
                        aw_availability = (\<exists>r\<in>set (ro_availability db). unavailable_on (sc_org c) user_id assignDate r \<and> time_blocked shift r)\<rparr>))))))"

definition create_assignment_commit :: "shift_caller \<Rightarrow> assignment \<Rightarrow> roster \<Rightarrow> roster result" where
  "create_assignment_commit c a db =
     bind_result (insert_assignment a db) (\<lambda>db1.
       Inr (emit [Notify (as_user_id a) ''shift_reminder'' (as_id a), OrgEvent ''shift_changed''] (sched_event ''assignment_created'' (Some (as_id a)) db1)))"

definition SHIFT_ACK_WINDOW_MS :: int where
  "SHIFT_ACK_WINDOW_MS = 24 * 60 * 60 * 1000"

definition ask_again :: "instant \<Rightarrow> assignment \<Rightarrow> assignment" where
  "ask_again now a = a\<lparr>as_ack_status := ''pending'', as_ack_due_at := Some (now + SHIFT_ACK_WINDOW_MS), as_acknowledged_at := None, as_ack_note := None\<rparr>"

definition new_date :: "assignment \<Rightarrow> string option \<Rightarrow> roster \<Rightarrow> day result" where
  "new_date a date db =
     (if coalesce date [] = [] then Inr (as_date a)
      else case parseDateOnly_shifts (coalesce date []) of None \<Rightarrow> Inl ValidationError
        | Some d \<Rightarrow> require (\<not> (\<exists>x\<in>set (ro_assignments db). slot x = (as_user_id a, d) \<and> as_id x \<noteq> as_id a)) ValidationError (Inr d))"

definition rewritten :: "instant \<Rightarrow> bool \<Rightarrow> id option \<Rightarrow> day \<Rightarrow> assignment \<Rightarrow> assignment" where
  "rewritten now published shift_id d x =
     (let y = x\<lparr>as_shift_id := (if coalesce shift_id [] = [] then as_shift_id x else coalesce shift_id []), as_date := d\<rparr>
      in if published then ask_again now y else y)"

definition update_assignment :: "shift_caller \<Rightarrow> instant \<Rightarrow> id \<Rightarrow> id option \<Rightarrow> string option \<Rightarrow> roster \<Rightarrow> roster result" where
  "update_assignment c now i shift_id date db =
     (case assignment_named (sc_org c) i db of None \<Rightarrow> Inl NotFoundError
      | Some a \<Rightarrow>
          require (isInEmployeeScope (as_user_id a) (scoped c ''shifts.manage'' db)) ForbiddenError
           (require (coalesce shift_id [] \<noteq> [] \<longrightarrow> shift_named (sc_org c) (coalesce shift_id []) db \<noteq> None) NotFoundError
             (bind_result (new_date a date db) (\<lambda>d.
                require (coalesce shift_id [] \<noteq> [] \<or> coalesce date [] \<noteq> []) ValidationError
                 (Inr (emit (OrgEvent ''shift_changed'' # (if as_is_published a then [Notify (as_user_id a) ''shift_reminder'' (as_id a)] else []))
                    (sched_event ''assignment_updated'' (Some (as_id a))
                      (db\<lparr>ro_assignments := update_where (\<lambda>x. as_id x = as_id a) (rewritten now (as_is_published a) shift_id d) (ro_assignments db)\<rparr>))))))))"

text \<open>A swap request keeps its two assignments from being deleted; scans go with the assignment, an offer
  loses its reference.\<close>

definition delete_assignment :: "shift_caller \<Rightarrow> id \<Rightarrow> roster \<Rightarrow> roster result" where
  "delete_assignment c i db =
     (case assignment_named (sc_org c) i db of None \<Rightarrow> Inl NotFoundError
      | Some a \<Rightarrow>
          require (\<not> (\<exists>w\<in>set (ro_swaps db). i \<in> {sp_requester_assign_id w, sp_target_assign_id w})) PlainError
           (Inr (emit [OrgEvent ''shift_changed''] (sched_event ''assignment_removed'' (Some i)
             (db\<lparr>ro_assignments := filter (\<lambda>x. as_id x \<noteq> i) (ro_assignments db),
               ro_scans := filter (\<lambda>n. sn_assignment_id n \<noteq> i) (ro_scans db),
               ro_offers := update_where (\<lambda>f. of_assignment_id f = Some i) (\<lambda>f. f\<lparr>of_assignment_id := None\<rparr>) (ro_offers db)\<rparr>)))))"

subsection \<open>Bulk assignment\<close>

type_synonym bulk_row = "id \<times> id \<times> day"

definition row_slot :: "bulk_row \<Rightarrow> id \<times> day" where
  "row_slot r = (fst r, snd (snd r))"

text \<open>The reason for which a row is refused, given the slots that are taken by stored assignments and by
  earlier rows of the request.\<close>

definition row_conflict :: "shift_caller \<Rightarrow> roster \<Rightarrow> (id \<times> day) set \<Rightarrow> bulk_row \<Rightarrow> string option" where
  "row_conflict c db taken r =
     (if active_employee (sc_org c) (fst r) db = None then Some ''user_not_found''
      else if \<not> isInEmployeeScope (fst r) (scoped c ''shifts.manage'' db) then Some ''employee_outside_managed_location''
      else if shift_named (sc_org c) (fst (snd r)) db = None then Some ''shift_not_found''
      else if row_slot r \<in> taken then Some ''already_assigned'' else None)"

fun bulk_scan :: "shift_caller \<Rightarrow> roster \<Rightarrow> (id \<times> day) set \<Rightarrow> bulk_row list \<Rightarrow> (bulk_row \<times> string option) list" where
  "bulk_scan c db taken [] = []"
| "bulk_scan c db taken (r # rs) =
     (case row_conflict c db taken r of
        Some e \<Rightarrow> (r, Some e) # bulk_scan c db taken rs
      | None \<Rightarrow> (r, None) # bulk_scan c db (insert (row_slot r) taken) rs)"

definition row_warnings :: "shift_caller \<Rightarrow> roster \<Rightarrow> bulk_row \<Rightarrow> (bulk_row \<times> string) list" where
  "row_warnings c db r =
     (let date = snd (snd r) in
      (if has_leave_on (fst r) date (ro_leaves db) then [(r, ''leave_overlap'')] else []) @
      (case shift_named (sc_org c) (fst (snd r)) db of None \<Rightarrow> []
       | Some s \<Rightarrow> (if off_day s date then [(r, ''off_day'')] else []) @
           (if \<exists>a\<in>set (ro_availability db). unavailable_on (sc_org c) (fst r) date a \<and> time_blocked_split s a then [(r, ''unavailable_time'')] else [])))"

record bulk_plan =
  pl_creatable :: "bulk_row list"
  pl_conflicts :: "(bulk_row \<times> string) list"
  pl_warnings :: "(bulk_row \<times> string) list"
  pl_location :: "id \<Rightarrow> id option"

fun parse_rows :: "(id \<times> id \<times> string) list \<Rightarrow> bulk_row list option" where
  "parse_rows [] = Some []"
| "parse_rows ((u, s, d) # rs) =
     (case (parseDateOnly_shifts d, parse_rows rs) of (Some date, Some rows) \<Rightarrow> Some ((u, s, date) # rows) | _ \<Rightarrow> None)"

definition bulk_plan_of :: "shift_caller \<Rightarrow> bulk_row list \<Rightarrow> roster \<Rightarrow> bulk_plan" where
  "bulk_plan_of c rows db =
     (let scanned = bulk_scan c db (slots db) rows; creatable = map fst (filter (\<lambda>x. snd x = None) scanned)
      in \<lparr>pl_creatable = creatable,
          pl_conflicts = concat (map (\<lambda>x. case snd x of None \<Rightarrow> [] | Some e \<Rightarrow> [(fst x, e)]) scanned),
          pl_warnings = concat (map (row_warnings c db) creatable),
          pl_location = (\<lambda>u. Option.bind (active_employee (sc_org c) u db) mb_primary_location_id)\<rparr>)"

text \<open>\<open>createMany\<close> with \<open>skipDuplicates\<close>: the rows whose slot is free when they are written.\<close>

fun insert_many :: "assignment list \<Rightarrow> roster \<Rightarrow> assignment list \<times> roster" where
  "insert_many [] db = ([], db)"
| "insert_many (a # as) db =
     (case insert_assignment a db of
        Inl _ \<Rightarrow> insert_many as db
      | Inr db1 \<Rightarrow> (case insert_many as db1 of (ins, db2) \<Rightarrow> (a # ins, db2)))"

record bulk_response =
  br_created :: nat
  br_would_create :: nat
  br_conflicts :: "(bulk_row \<times> string) list"
  br_warnings :: "(bulk_row \<times> string) list"

definition bulk_record :: "(bulk_row \<Rightarrow> id) \<Rightarrow> bulk_plan \<Rightarrow> bulk_row \<Rightarrow> assignment" where
  "bulk_record newId p r = new_assignment (newId r) (fst (snd r)) (fst r) (pl_location p (fst r)) (snd (snd r)) False"

definition row_key :: "assignment \<Rightarrow> bulk_row" where
  "row_key a = (as_user_id a, as_shift_id a, as_date a)"

definition bulk_commit :: "shift_caller \<Rightarrow> (bulk_row \<Rightarrow> id) \<Rightarrow> bool \<Rightarrow> bulk_plan \<Rightarrow> roster \<Rightarrow> bulk_response \<times> roster" where
  "bulk_commit c newId dry_run p db =
     (case (if dry_run then ([], db) else insert_many (map (bulk_record newId p) (pl_creatable p)) db) of (inserted, db1) \<Rightarrow>
        (let keys = map row_key inserted;
             created = filter (\<lambda>r. r \<in> set keys) (pl_creatable p);
             notes = map (\<lambda>u. Notify u ''shift_reminder'' []) (remdups (map fst created))
         in (\<lparr>br_created = length inserted, br_would_create = length (pl_creatable p),
              br_conflicts = pl_conflicts p @ (if dry_run then [] else map (\<lambda>r. (r, ''concurrent_assignment'')) (filter (\<lambda>r. r \<notin> set keys) (pl_creatable p))),
              br_warnings = pl_warnings p\<rparr>,
             if inserted = [] then db1 else emit (notes @ [OrgEvent ''shift_changed'']) (sched_event ''bulk_assignments_created'' None db1))))"

definition bulk_assign :: "shift_caller \<Rightarrow> (bulk_row \<Rightarrow> id) \<Rightarrow> bool \<Rightarrow> (id \<times> id \<times> string) list \<Rightarrow> roster \<Rightarrow> (bulk_response \<times> roster) result" where
  "bulk_assign c newId dry_run rows db =
     (case parse_rows rows of None \<Rightarrow> Inl ValidationError
      | Some rs \<Rightarrow> Inr (bulk_commit c newId dry_run (bulk_plan_of c rs db) db))"

subsection \<open>Copying a week\<close>

definition copy_candidates :: "shift_caller \<Rightarrow> (assignment \<Rightarrow> id) \<Rightarrow> day \<Rightarrow> day \<Rightarrow> roster \<Rightarrow> assignment list" where
  "copy_candidates c newId from to db =
     (let ids = scoped c ''shifts.manage'' db
      in map (\<lambda>a. new_assignment (newId a) (as_shift_id a) (as_user_id a) (as_location_id a) (as_date a + (to - from)) False)
          (filter (\<lambda>a. from \<le> as_date a \<and> as_date a \<le> from + 6 \<and> in_org (sc_org c) db a \<and> isInEmployeeScope (as_user_id a) ids) (ro_assignments db)))"

definition copy_week :: "shift_caller \<Rightarrow> (assignment \<Rightarrow> id) \<Rightarrow> string \<Rightarrow> string \<Rightarrow> roster \<Rightarrow> ((nat \<times> nat) \<times> roster) result" where
  "copy_week c newId from_week to_week db =
     (case (parse_iso_date from_week, parse_iso_date to_week) of
        (Some from, Some to) \<Rightarrow>
          require (weekdayOf from = 1 \<and> weekdayOf to = 1) ValidationError
           (require (from < to \<and> to \<le> from + 370) ValidationError
             (let candidates = copy_candidates c newId from to db;
                  copied = insert_many (filter (\<lambda>a. slot a \<notin> slots db) candidates) db
              in Inr ((length (fst copied), length candidates - length (fst copied)),
                   emit [OrgEvent ''shift_changed''] (sched_event ''week_copied'' None (snd copied)))))
      | _ \<Rightarrow> Inl ValidationError)"

subsection \<open>Acknowledgement\<close>

definition ack_timezone :: "(id \<Rightarrow> string option) \<Rightarrow> roster \<Rightarrow> assignment \<Rightarrow> string" where
  "ack_timezone loc_tz db a =
     (let home = Option.bind (find_first (\<lambda>u. mb_id u = as_user_id a) (ad_members (ro_access db))) mb_primary_location_id
      in coalesce (coalesce_opt (Option.bind (as_location_id a) loc_tz) (Option.bind home loc_tz)) ''UTC'')"

text \<open>The managers told of a conflict or a request for help: the scope of a manager is computed with a
  permission the manager holds.\<close>

definition visible_manager :: "shift_caller \<Rightarrow> roster \<Rightarrow> id \<Rightarrow> bool" where
  "visible_manager c db m \<longleftrightarrow>
     (let permissions = resolveUserPermissions m (sc_org c) (ro_access db);
          orgScope = (if ''shifts.manage'' \<in> permissions then Some ''shifts.manage''
            else if ''shifts.assign'' \<in> permissions then Some ''shifts.assign'' else None)
      in case orgScope of None \<Rightarrow> False
         | Some p \<Rightarrow> isInEmployeeScope (sc_user c) (scopedEmployeeIds (sc_org c) m permissions p (ro_access db)))"

definition clean_note :: "string option \<Rightarrow> string option" where
  "clean_note note = (if trim (coalesce note []) = [] then None else Some (trim (coalesce note [])))"

definition answered :: "instant \<Rightarrow> string \<Rightarrow> string option \<Rightarrow> assignment \<Rightarrow> assignment" where
  "answered now status note a = a\<lparr>as_ack_status := status, as_acknowledged_at := Some now, as_ack_note := note\<rparr>"

definition acknowledge :: "tzdb \<Rightarrow> (id \<Rightarrow> string option) \<Rightarrow> shift_caller \<Rightarrow> instant \<Rightarrow> id \<Rightarrow> string \<Rightarrow> string option \<Rightarrow> roster \<Rightarrow> roster result" where
  "acknowledge tz loc_tz c now i status note db =
     require (status \<in> {''acknowledged'', ''conflict'', ''help_requested''}) ValidationError
     (require (length (trim (coalesce note [])) \<le> 1000 \<and> (status = ''acknowledged'' \<or> 5 \<le> length (trim (coalesce note [])))) ValidationError
      (case find_first (\<lambda>a. as_id a = i \<and> as_user_id a = sc_user c \<and> in_org (sc_org c) db a) (ro_assignments db) of
         None \<Rightarrow> Inl NotFoundError
       | Some a \<Rightarrow>
          require (as_is_published a \<and> as_ack_status a \<noteq> ''not_required'') (AppError 409 ''SHIFT_NOT_PUBLISHED'')
           (require (dateOnlyInTz tz now (Some (ack_timezone loc_tz db a)) \<le> as_date a) (AppError 409 ''SHIFT_ACKNOWLEDGEMENT_EXPIRED'')
             (if as_ack_status a = status \<and> as_ack_note a = clean_note note then Inr db
              else (let db1 = sched_event ''assignment_acknowledgement'' (Some (as_id a))
                        (db\<lparr>ro_assignments := update_where (\<lambda>x. as_id x = as_id a)
                          (answered now status (clean_note note)) (ro_assignments db)\<rparr>);
                        candidates = filter (\<lambda>u. mb_org_id u = sc_org c \<and> mb_is_active u \<and> mb_deleted_at u = None \<and> mb_id u \<noteq> sc_user c) (ad_members (ro_access db));
                        notes = (if status = ''acknowledged'' then []
                          else map (\<lambda>m. Notify m ''shift_reminder'' (as_id a)) (filter (visible_manager c db) (map mb_id candidates)))
                    in Inr (emit (notes @ [OrgEvent ''shift_changed'']) db1))))))"

subsection \<open>Swaps\<close>

definition submitShiftSwap :: "id \<Rightarrow> id \<Rightarrow> id \<Rightarrow> id \<Rightarrow> id option \<Rightarrow> id option \<Rightarrow> string option \<Rightarrow> roster \<Rightarrow> roster result" where
  "submitShiftSwap newId userId orgId target_id requester_assign_id target_assign_id reason db =
     require (coalesce requester_assign_id [] \<noteq> [] \<and> coalesce target_assign_id [] \<noteq> []) ValidationError
      (let mine = find_first (\<lambda>a. as_id a = coalesce requester_assign_id [] \<and> as_user_id a = userId \<and> in_org orgId db a) (ro_assignments db);
           theirs = find_first (\<lambda>a. as_id a = coalesce target_assign_id [] \<and> as_user_id a = target_id \<and> in_org orgId db a) (ro_assignments db)
       in case (mine, theirs) of
            (Some m, Some t) \<Rightarrow>
              require (target_id \<noteq> userId) ValidationError
               (require (\<not> (\<exists>w\<in>set (ro_swaps db). sp_requester_assign_id w = as_id m \<or> sp_target_assign_id w = as_id t)) ConflictError
                 (Inr (emit [OrgEvent ''swap_changed''] (db\<lparr>ro_swaps := ro_swaps db @
                   [\<lparr>sp_id = newId, sp_requester_id = userId, sp_target_id = target_id, sp_requester_assign_id = as_id m, sp_target_assign_id = as_id t,
                     sp_status = ''pending'', sp_reason = reason, sp_manager_id = None, sp_rejection_reason = None\<rparr>]\<rparr>))))
          | _ \<Rightarrow> Inl ValidationError)"

definition swap_named :: "id \<Rightarrow> id \<Rightarrow> roster \<Rightarrow> swap option" where
  "swap_named orgId i db = find_first (\<lambda>w. sp_id w = i \<and>
     (\<exists>u\<in>set (ad_members (ro_access db)). mb_id u = sp_requester_id w \<and> mb_org_id u = orgId)) (ro_swaps db)"

definition assignment_row :: "id \<Rightarrow> roster \<Rightarrow> assignment option" where
  "assignment_row i db = find_first (\<lambda>a. as_id a = i) (ro_assignments db)"

definition set_shift :: "id \<Rightarrow> id \<Rightarrow> assignment list \<Rightarrow> assignment list" where
  "set_shift i s = update_where (\<lambda>a. as_id a = i) (\<lambda>a. a\<lparr>as_shift_id := s\<rparr>)"

definition approve_swap :: "shift_caller \<Rightarrow> id \<Rightarrow> roster \<Rightarrow> roster result" where
  "approve_swap c i db =
     (case swap_named (sc_org c) i db of None \<Rightarrow> Inl NotFoundError
      | Some w \<Rightarrow>
         (case (assignment_row (sp_requester_assign_id w) db, assignment_row (sp_target_assign_id w) db) of
            (Some ra, Some ta) \<Rightarrow>
              Inr (emit [OrgEvent ''swap_changed'']
                (db\<lparr>ro_assignments := set_shift (sp_target_assign_id w) (as_shift_id ra) (set_shift (sp_requester_assign_id w) (as_shift_id ta) (ro_assignments db)),
                  ro_swaps := update_where (\<lambda>x. sp_id x = sp_id w) (\<lambda>x. x\<lparr>sp_status := ''approved'', sp_manager_id := Some (sc_user c)\<rparr>) (ro_swaps db)\<rparr>))
          | _ \<Rightarrow> Inl PlainError))"

definition reject_swap :: "shift_caller \<Rightarrow> id \<Rightarrow> string option \<Rightarrow> roster \<Rightarrow> roster result" where
  "reject_swap c i reason db =
     require (coalesce reason [] \<noteq> []) ValidationError
      (case swap_named (sc_org c) i db of None \<Rightarrow> Inl NotFoundError
       | Some w \<Rightarrow> Inr (emit [OrgEvent ''swap_changed''] (db\<lparr>ro_swaps := update_where (\<lambda>x. sp_id x = sp_id w)
           (\<lambda>x. x\<lparr>sp_status := ''rejected'', sp_manager_id := Some (sc_user c), sp_rejection_reason := reason\<rparr>) (ro_swaps db)\<rparr>)))"

subsection \<open>A bulk request accounts for every row\<close>

lemma scan_rows: "map fst (bulk_scan c db taken rs) = rs"
  by (induction rs arbitrary: taken) (simp_all split: option.splits)

lemma scan_creatable:
  "distinct (map row_slot (map fst (filter (\<lambda>x. snd x = None) (bulk_scan c db taken rs)))) \<and>
   row_slot ` set (map fst (filter (\<lambda>x. snd x = None) (bulk_scan c db taken rs))) \<inter> taken = {}"
proof (induction rs arbitrary: taken)
  case (Cons r rs)
  show ?case
  proof (cases "row_conflict c db taken r")
    case None
    then have "row_slot r \<notin> taken" by (auto simp: row_conflict_def split: if_splits)
    then show ?thesis using None Cons.IH[of "insert (row_slot r) taken"] by auto
  next
    case (Some e)
    then show ?thesis using Cons.IH[of taken] by simp
  qed
qed simp

lemma scan_split: "length (filter (\<lambda>x. snd x = None) xs) + length (concat (map (\<lambda>x. case snd x of None \<Rightarrow> [] | Some e \<Rightarrow> [(fst x, e)]) xs)) = length xs"
  by (induction xs) (auto split: option.splits)

lemma insert_many_sub: "insert_many as db = (ins, db') \<Longrightarrow> set ins \<subseteq> set as \<and> ro_assignments db' = ro_assignments db @ ins"
proof (induction as arbitrary: db ins db')
  case (Cons a as)
  show ?case
  proof (cases "insert_assignment a db")
    case (Inl e)
    then show ?thesis using Cons.IH[of db ins db'] Cons.prems by auto
  next
    case (Inr db1)
    then obtain ins1 where run: "insert_many as db1 = (ins1, db')" and ins: "ins = a # ins1" using Cons.prems by (auto split: prod.splits)
    have "ro_assignments db1 = ro_assignments db @ [a]" using Inr by (auto simp: insert_assignment_def)
    then show ?thesis using Cons.IH[OF run] ins by auto
  qed
qed simp

lemma insert_many_filter:
  assumes "insert_many as db = (ins, db')" "distinct as"
  shows "ins = filter (\<lambda>a. a \<in> set ins) as"
  using assms
proof (induction as arbitrary: db ins db')
  case (Cons a as)
  show ?case
  proof (cases "insert_assignment a db")
    case (Inl e)
    then have run: "insert_many as db = (ins, db')" using Cons.prems(1) by simp
    then have "a \<notin> set ins" using insert_many_sub[OF run] Cons.prems(2) by auto
    then show ?thesis using Cons.IH[OF run] Cons.prems(2) by simp
  next
    case (Inr db1)
    then obtain ins1 where run: "insert_many as db1 = (ins1, db')" and ins: "ins = a # ins1" using Cons.prems(1) by (auto split: prod.splits)
    have "ins1 = filter (\<lambda>x. x \<in> set ins1) as" using Cons.IH[OF run] Cons.prems(2) by simp
    also have "\<dots> = filter (\<lambda>x. x \<in> set ins) as" by (rule filter_cong) (use Cons.prems(2) ins in auto)
    finally show ?thesis using ins by simp
  qed
qed simp

lemma row_key_record [simp]: "row_key (bulk_record newId p r) = r"
  by (simp add: row_key_def bulk_record_def new_assignment_def)

lemma slot_record [simp]: "slot (bulk_record newId p r) = row_slot r"
  by (simp add: slot_def row_slot_def bulk_record_def new_assignment_def)

lemma inserted_keys:
  assumes "insert_many (map (bulk_record newId p) rs) db = (ins, db')" "distinct rs"
  shows "map row_key ins = filter (\<lambda>r. r \<in> set (map row_key ins)) rs"
proof -
  let ?f = "bulk_record newId p"
  have inj: "inj ?f" by (rule inj_on_inverseI[of _ row_key]) simp
  have d: "distinct (map ?f rs)" using assms(2) inj by (simp add: distinct_map inj_on_subset[OF inj])
  have "ins = map ?f (filter (\<lambda>r. ?f r \<in> set ins) rs)" using insert_many_filter[OF assms(1) d] by (simp add: filter_map comp_def)
  then have keys: "map row_key ins = filter (\<lambda>r. ?f r \<in> set ins) rs" by (metis (no_types, lifting) map_map comp_def map_idI row_key_record)
  have "?f r \<in> set ins \<longleftrightarrow> r \<in> set (map row_key ins)" if "r \<in> set rs" for r
    using that unfolding keys by simp
  then show ?thesis unfolding keys by (intro filter_cong) simp_all
qed

lemma insert_many_all:
  assumes "distinct (map slot as)" "slot ` set as \<inter> slots db = {}" "distinct (map as_id as)" "as_id ` set as \<inter> as_id ` set (ro_assignments db) = {}"
  shows "fst (insert_many as db) = as"
  using assms
proof (induction as arbitrary: db)
  case (Cons a as)
  let ?db = "db\<lparr>ro_assignments := ro_assignments db @ [a]\<rparr>"
  have ins: "insert_assignment a db = Inr ?db" using Cons.prems by (auto simp: insert_assignment_def require_def)
  have "slot ` set as \<inter> slots ?db = {}" "as_id ` set as \<inter> as_id ` set (ro_assignments ?db) = {}"
    using Cons.prems by (auto simp: slots_def)
  then have "fst (insert_many as ?db) = as" using Cons.prems by (intro Cons.IH) simp_all
  then show ?case using ins by (cases "insert_many as ?db") simp
qed simp

lemma commit_accounts:
  assumes "distinct (pl_creatable p)"
  shows "br_created (fst (bulk_commit c newId False p db)) + length (br_conflicts (fst (bulk_commit c newId False p db))) =
    length (pl_creatable p) + length (pl_conflicts p)"
proof -
  obtain ins db1 where run: "insert_many (map (bulk_record newId p) (pl_creatable p)) db = (ins, db1)" by (cases "insert_many (map (bulk_record newId p) (pl_creatable p)) db")
  have "length ins = length (filter (\<lambda>r. r \<in> set (map row_key ins)) (pl_creatable p))"
    by (metis inserted_keys[OF run assms] length_map)
  moreover have "length (pl_creatable p) = length (filter (\<lambda>r. r \<in> set (map row_key ins)) (pl_creatable p)) + length (filter (\<lambda>r. r \<notin> set (map row_key ins)) (pl_creatable p))"
    by (rule sum_length_filter_compl[symmetric])
  ultimately show ?thesis using run by (simp add: bulk_commit_def Let_def)
qed

lemma plan_facts:
  assumes "p = bulk_plan_of c rs db"
  shows "distinct (map row_slot (pl_creatable p)) \<and> row_slot ` set (pl_creatable p) \<inter> slots db = {} \<and>
    length (pl_creatable p) + length (pl_conflicts p) = length rs"
proof -
  let ?x = "bulk_scan c db (slots db) rs"
  have "length ?x = length rs" using scan_rows by (metis length_map)
  then show ?thesis using scan_creatable[of c db "slots db" rs] scan_split[of ?x] by (simp add: assms bulk_plan_of_def Let_def)
qed


subsection \<open>Invariant of the roster\<close>

text \<open>Acknowledgement is asked for only on published assignments; an answer carries its time, and one that reports a
  conflict or asks for help carries a note.\<close>

definition ack_ok :: "assignment \<Rightarrow> bool" where
  "ack_ok a \<longleftrightarrow>
     (as_ack_status a = ''not_required'' \<and> as_ack_due_at a = None \<and> as_acknowledged_at a = None) \<or>
     (as_is_published a \<and> as_ack_due_at a \<noteq> None \<and>
       ((as_ack_status a = ''pending'' \<and> as_acknowledged_at a = None \<and> as_ack_note a = None) \<or>
        (as_acknowledged_at a \<noteq> None \<and> (as_ack_status a = ''acknowledged'' \<or>
          (as_ack_status a \<in> {''conflict'', ''help_requested''} \<and> as_ack_note a \<noteq> None)))))"

definition roster_ok :: "assignment list \<Rightarrow> bool" where
  "roster_ok as \<longleftrightarrow> distinct (map slot as) \<and> distinct (map as_id as) \<and> list_all ack_ok as"

lemma update_row_ok:
  assumes ok: "roster_ok as" and keep: "\<And>a. a \<in> set as \<Longrightarrow> q a \<Longrightarrow> as_id (f a) = as_id a \<and> slot (f a) = slot a \<and> ack_ok (f a)"
  shows "roster_ok (update_where q f as)"
proof -
  have "map slot (update_where q f as) = map slot as" "map as_id (update_where q f as) = map as_id as"
    using keep by (auto simp: update_where_def)
  moreover have "list_all ack_ok (update_where q f as)" using ok keep by (auto simp: roster_ok_def list_all_iff update_where_def)
  ultimately show ?thesis using ok by (simp add: roster_ok_def)
qed

lemma move_row_ok:
  assumes ok: "roster_ok as" and a: "a \<in> set as"
    and f: "\<And>x. as_id (f x) = as_id x" "slot (f a) = k" "ack_ok (f a)"
    and free: "\<And>x. x \<in> set as \<Longrightarrow> slot x = k \<Longrightarrow> as_id x = as_id a"
  shows "roster_ok (update_where (\<lambda>x. as_id x = as_id a) f as)"
proof -
  have one: "x = a" if "x \<in> set as" "as_id x = as_id a" for x using ok a that by (metis roster_ok_def distinct_map inj_onD)
  have eq: "update_where (\<lambda>x. as_id x = as_id a) f as = map (\<lambda>x. if x = a then f a else x) as"
    unfolding update_where_def by (intro map_cong) (use one in auto)
  have "distinct (map slot (map (\<lambda>x. if x = a then f a else x) as))"
    unfolding map_map distinct_map
  proof (intro conjI inj_onI)
    show "distinct as" using ok by (auto simp: roster_ok_def distinct_map)
    fix x y assume xy: "x \<in> set as" "y \<in> set as" "(slot \<circ> (\<lambda>x. if x = a then f a else x)) x = (slot \<circ> (\<lambda>x. if x = a then f a else x)) y"
    have inj: "inj_on slot (set as)" using ok by (simp add: roster_ok_def distinct_map)
    have neq: "slot z \<noteq> k" if "z \<in> set as" "z \<noteq> a" for z using free[OF that(1)] one[OF that(1)] that(2) by blast
    consider "x = a" "y = a" | "x = a" "y \<noteq> a" | "x \<noteq> a" "y = a" | "x \<noteq> a" "y \<noteq> a" by blast
    then show "x = y"
    proof cases
      case 2
      then show ?thesis using xy(3) neq[OF xy(2)] f(2) by simp
    next
      case 3
      then show ?thesis using xy(3) neq[OF xy(1)] f(2) by simp
    next
      case 4
      then show ?thesis using xy inj_onD[OF inj, of x y] by simp
    qed simp
  qed
  moreover have "map as_id (map (\<lambda>x. if x = a then f a else x) as) = map as_id as" using f(1) by auto
  moreover have "list_all ack_ok (map (\<lambda>x. if x = a then f a else x) as)" using ok f(3) by (auto simp: roster_ok_def list_all_iff)
  ultimately show ?thesis using ok unfolding eq roster_ok_def by metis
qed

lemma ask_again_ok: "as_is_published a \<Longrightarrow> ack_ok (ask_again now a)"
  by (simp add: ack_ok_def ask_again_def)

lemma moved_ok: "ack_ok (a\<lparr>as_shift_id := s, as_date := d\<rparr>) = ack_ok a"
  by (simp add: ack_ok_def)

lemma insert_ok: "roster_ok (ro_assignments db) \<Longrightarrow> ack_ok a \<Longrightarrow> insert_assignment a db = Inr db' \<Longrightarrow> roster_ok (ro_assignments db')"
  by (auto simp: insert_assignment_def roster_ok_def slots_def)

lemma new_ok: "ack_ok (new_assignment i s u l d p)"
  by (simp add: ack_ok_def new_assignment_def)

lemma insert_many_ok: "roster_ok (ro_assignments db) \<Longrightarrow> list_all ack_ok as \<Longrightarrow> roster_ok (ro_assignments (snd (insert_many as db)))"
proof (induction as arbitrary: db)
  case (Cons a as)
  show ?case
  proof (cases "insert_assignment a db")
    case (Inl e)
    then show ?thesis using Cons by simp
  next
    case (Inr db1)
    then have "roster_ok (ro_assignments db1)" using insert_ok[OF Cons.prems(1) _ Inr] Cons.prems(2) by simp
    then show ?thesis using Inr Cons.IH[of db1] Cons.prems(2) by (cases "insert_many as db1") simp
  qed
qed simp

text \<open>The operations on assignments, each with what it is given besides the state.\<close>

datatype roster_op =
    CreateAssignment id id id string
  | WriteAssignment assignment
  | ChangeAssignment instant id "id option" "string option"
  | BulkAssign "bulk_row \<Rightarrow> id" bool "(id \<times> id \<times> string) list"
  | WriteBulk "bulk_row \<Rightarrow> id" bulk_plan
  | CopyWeek "assignment \<Rightarrow> id" string string
  | RemoveAssignment id
  | Acknowledge instant id string "string option"
  | ApproveSwap id

fun roster_act :: "tzdb \<Rightarrow> (id \<Rightarrow> string option) \<Rightarrow> shift_caller \<times> roster_op \<Rightarrow> roster \<Rightarrow> roster result" where
  "roster_act tz lt (c, CreateAssignment i u s d) db = bind_result (create_assignment_plan c i u s d db) (\<lambda>x. create_assignment_commit c (fst x) db)"
| "roster_act tz lt (c, WriteAssignment a) db = (if as_ack_status a = ''not_required'' then create_assignment_commit c (new_assignment (as_id a) (as_shift_id a) (as_user_id a) (as_location_id a) (as_date a) False) db else Inl PlainError)"
| "roster_act tz lt (c, ChangeAssignment now i s d) db = update_assignment c now i s d db"
| "roster_act tz lt (c, BulkAssign newId dry rows) db = bind_result (bulk_assign c newId dry rows db) (\<lambda>x. Inr (snd x))"
| "roster_act tz lt (c, WriteBulk newId p) db = Inr (snd (bulk_commit c newId False p db))"
| "roster_act tz lt (c, CopyWeek newId f t) db = bind_result (copy_week c newId f t db) (\<lambda>x. Inr (snd x))"
| "roster_act tz lt (c, RemoveAssignment i) db = delete_assignment c i db"
| "roster_act tz lt (c, Acknowledge now i st n) db = acknowledge tz lt c now i st n db"
| "roster_act tz lt (c, ApproveSwap i) db = approve_swap c i db"

lemma emitted [simp]: "ro_assignments (emit es db) = ro_assignments db" "ro_assignments (sched_event e i db) = ro_assignments db"
  by (simp_all add: emit_def sched_event_def)

lemma commit_ok: "roster_ok (ro_assignments db) \<Longrightarrow> ack_ok a \<Longrightarrow> create_assignment_commit c a db = Inr db' \<Longrightarrow> roster_ok (ro_assignments db')"
  by (auto simp: create_assignment_commit_def dest: insert_ok)

lemma bulk_ok: "roster_ok (ro_assignments db) \<Longrightarrow> roster_ok (ro_assignments (snd (bulk_commit c newId dry p db)))"
proof -
  assume ok: "roster_ok (ro_assignments db)"
  have "list_all ack_ok (map (bulk_record newId p) rs)" for rs by (simp add: list_all_iff bulk_record_def new_ok)
  then have "roster_ok (ro_assignments (snd (insert_many (map (bulk_record newId p) (pl_creatable p)) db)))" by (rule insert_many_ok[OF ok])
  then show ?thesis using ok by (cases dry) (auto simp: bulk_commit_def Let_def split: prod.splits)
qed

lemma copy_ok:
  assumes "roster_ok (ro_assignments db)" "copy_week c newId f t db = Inr (n, db')"
  shows "roster_ok (ro_assignments db')"
proof -
  obtain d e where "ro_assignments db' = ro_assignments (snd (insert_many (filter (\<lambda>a. slot a \<notin> slots db) (copy_candidates c newId d e db)) db))"
    using assms(2) by (auto simp: copy_week_def Let_def split: option.splits)
  moreover have "list_all ack_ok (filter p (copy_candidates c newId d e db))" for p by (auto simp: copy_candidates_def Let_def list_all_iff new_ok)
  ultimately show ?thesis using insert_many_ok[OF assms(1)] by metis
qed

lemma change_ok:
  assumes ok: "roster_ok (ro_assignments db)" and run: "update_assignment c now i s d db = Inr db'"
  shows "roster_ok (ro_assignments db')"
proof -
  obtain a where a: "assignment_named (sc_org c) i db = Some a" using run by (cases "assignment_named (sc_org c) i db") (simp_all add: update_assignment_def)
  obtain d' where d: "new_date a d db = Inr d'" using run a by (cases "new_date a d db") (simp_all add: update_assignment_def)
  have db': "ro_assignments db' = update_where (\<lambda>x. as_id x = as_id a) (rewritten now (as_is_published a) s d') (ro_assignments db)"
    using run a d by (auto simp: update_assignment_def)
  have mem: "a \<in> set (ro_assignments db)" using a unfolding assignment_named_def by (blast dest: find_first_Some)
  have free: "d' = as_date a \<or> (\<forall>x\<in>set (ro_assignments db). slot x = (as_user_id a, d') \<longrightarrow> as_id x = as_id a)"
    using d by (auto simp: new_date_def split: if_splits option.splits)
  show ?thesis unfolding db'
  proof (rule move_row_ok[OF ok mem, where k = "(as_user_id a, d')"])
    show "ack_ok (rewritten now (as_is_published a) s d' a)"
      using ok mem by (simp add: rewritten_def ask_again_ok moved_ok roster_ok_def list_all_iff Let_def)
    show "as_id x = as_id a" if x: "x \<in> set (ro_assignments db)" "slot x = (as_user_id a, d')" for x
    proof (cases "d' = as_date a")
      case True
      then have "slot x = slot a" using x(2) by (simp add: slot_def)
      then show ?thesis using ok mem x(1) by (metis roster_ok_def distinct_map inj_onD)
    next
      case False
      then show ?thesis using free x by blast
    qed
  qed (simp_all add: rewritten_def ask_again_def slot_def Let_def)
qed

lemma acknowledge_ok:
  assumes ok: "roster_ok (ro_assignments db)" and run: "acknowledge tz lt c now i st n db = Inr db'"
  shows "roster_ok (ro_assignments db')"
proof -
  obtain a where a: "find_first (\<lambda>a. as_id a = i \<and> as_user_id a = sc_user c \<and> in_org (sc_org c) db a) (ro_assignments db) = Some a"
    using run by (auto simp: acknowledge_def split: option.splits)
  have mem: "a \<in> set (ro_assignments db)" using find_first_Some[OF a] by blast
  have st: "st \<in> {''acknowledged'', ''conflict'', ''help_requested''}" "st = ''acknowledged'' \<or> 5 \<le> length (trim (coalesce n []))"
      "as_is_published a" "as_ack_status a \<noteq> ''not_required''"
    using run a by (simp_all add: acknowledge_def)
  have rows: "ro_assignments db' \<in> {ro_assignments db, update_where (\<lambda>x. as_id x = as_id a) (answered now st (clean_note n)) (ro_assignments db)}"
    using run a by (cases "as_ack_status a = st \<and> as_ack_note a = clean_note n") (auto simp: acknowledge_def Let_def)
  have good: "ack_ok (answered now st (clean_note n) x)" if x: "x \<in> set (ro_assignments db)" "as_id x = as_id a" for x
  proof -
    have "x = a" using ok mem x by (metis roster_ok_def distinct_map inj_onD)
    moreover have "ack_ok a" using ok mem by (simp add: roster_ok_def list_all_iff)
    ultimately have pub: "as_is_published x" "as_ack_due_at x \<noteq> None" using st(3,4) unfolding ack_ok_def by blast+
    have "st = ''acknowledged'' \<or> clean_note n \<noteq> None" using st(2) by (auto simp: clean_note_def)
    then show ?thesis using st(1) pub by (auto simp: ack_ok_def answered_def)
  qed
  have "roster_ok (update_where (\<lambda>x. as_id x = as_id a) (answered now st (clean_note n)) (ro_assignments db))"
    by (rule update_row_ok[OF ok]) (use good in \<open>simp add: slot_def answered_def\<close>)
  then show ?thesis using rows ok by auto
qed

lemma set_shift_ok: "roster_ok as \<Longrightarrow> roster_ok (set_shift i s as)"
proof -
  assume ok: "roster_ok as"
  show ?thesis unfolding set_shift_def
    by (rule update_row_ok[OF ok]) (use ok in \<open>simp add: slot_def roster_ok_def list_all_iff ack_ok_def\<close>)
qed

lemma approve_ok: "roster_ok (ro_assignments db) \<Longrightarrow> approve_swap c i db = Inr db' \<Longrightarrow> roster_ok (ro_assignments db')"
  by (auto simp: approve_swap_def set_shift_ok split: option.splits)

lemma roster_filter_ok: "roster_ok as \<Longrightarrow> roster_ok (filter p as)"
  by (auto simp: roster_ok_def distinct_map_filter list_all_iff)

lemma remove_ok:
  assumes "roster_ok (ro_assignments db)" "delete_assignment c i db = Inr db'"
  shows "roster_ok (ro_assignments db')"
proof -
  have "ro_assignments db' = filter (\<lambda>x. as_id x \<noteq> i) (ro_assignments db)" using assms(2) by (auto simp: delete_assignment_def split: option.splits)
  then show ?thesis using roster_filter_ok[OF assms(1)] by simp
qed

lemma plan_ok: "create_assignment_plan c i u s d db = Inr (a, w) \<Longrightarrow> ack_ok a"
  by (auto simp: create_assignment_plan_def new_ok split: option.splits)

lemma roster_act_ok:
  assumes ok: "roster_ok (ro_assignments db)" and run: "roster_act tz lt (c, x) db = Inr db'"
  shows "roster_ok (ro_assignments db')"
proof (cases x)
  case (CreateAssignment i u s d)
  then obtain a w where a: "create_assignment_plan c i u s d db = Inr (a, w)" "create_assignment_commit c a db = Inr db'" using run by auto
  show ?thesis by (rule commit_ok[OF ok plan_ok[OF a(1)] a(2)])
next
  case (WriteAssignment a)
  then have "create_assignment_commit c (new_assignment (as_id a) (as_shift_id a) (as_user_id a) (as_location_id a) (as_date a) False) db = Inr db'"
    using run by (simp split: if_splits)
  then show ?thesis by (rule commit_ok[OF ok new_ok])
next
  case (BulkAssign newId dry rows)
  then obtain rs res where "bulk_commit c newId dry (bulk_plan_of c rs db) db = (res, db')" using run by (auto simp: bulk_assign_def split: option.splits)
  then show ?thesis using bulk_ok[OF ok] by (metis snd_conv)
next
  case (WriteBulk newId p)
  then show ?thesis using run bulk_ok[OF ok] by auto
next
  case (CopyWeek newId f t)
  then obtain n where "copy_week c newId f t db = Inr (n, db')" using run by auto
  then show ?thesis by (rule copy_ok[OF ok])
qed (use run change_ok[OF ok] remove_ok[OF ok] acknowledge_ok[OF ok] approve_ok[OF ok] in auto)

lemma roster_run_ok: "roster_ok (ro_assignments db) \<Longrightarrow> roster_ok (ro_assignments (snd (attempts (roster_act tz lt) acts db)))"
  by (rule attempts_invariant[where P = "\<lambda>db. roster_ok (ro_assignments db)"]) (metis roster_act_ok prod.exhaust_sel)

text \<open>C31: whatever sequence of assignment operations runs, with bulk and single insertions written
  after other requests have changed the roster, an employee has at most one shift per day, an
  acknowledgement is asked for or given only on published assignments, and a reported conflict or
  request for help carries its explanation.\<close>

theorem roster_day_invariant:
  assumes "roster_ok (ro_assignments db)" and "db' = snd (attempts (roster_act tz loc_tz) acts db)"
  shows "distinct (map (\<lambda>a. (as_user_id a, as_date a)) (ro_assignments db')) \<and>
    (\<forall>a\<in>set (ro_assignments db'). as_ack_status a \<noteq> ''not_required'' \<longrightarrow> as_is_published a \<and> as_ack_due_at a \<noteq> None) \<and>
    (\<forall>a\<in>set (ro_assignments db'). as_ack_status a \<in> {''conflict'', ''help_requested''} \<longrightarrow> as_ack_note a \<noteq> None \<and> as_acknowledged_at a \<noteq> None)"
proof -
  have ok: "roster_ok (ro_assignments db')" using assms roster_run_ok by simp
  then have "distinct (map slot (ro_assignments db'))" "\<forall>a\<in>set (ro_assignments db'). ack_ok a" by (simp_all add: roster_ok_def list_all_iff)
  then show ?thesis by (auto simp: slot_def[abs_def] ack_ok_def)
qed

subsection \<open>Examples and findings\<close>

definition ex_member :: "id \<Rightarrow> member" where
  "ex_member i = \<lparr>mb_id = i, mb_org_id = ''o'', mb_role = ''employee'', mb_name = i, mb_email = i, mb_is_active = True, mb_deleted_at = None,
     mb_manager_id = None, mb_primary_location_id = None\<rparr>"

definition ex_roster_day :: "assignment list \<Rightarrow> swap list \<Rightarrow> roster" where
  "ex_roster_day as ws = (ex_roster [ex_template ''a'' True, ex_template ''b'' False])\<lparr>
     ro_access := ex_access\<lparr>ad_members := [ex_member ''u'', ex_member ''v'']\<rparr>, ro_assignments := as, ro_swaps := ws\<rparr>"

definition utc_tz :: tzdb where
  "utc_tz = \<lparr>toZonedTime = (\<lambda>t z. t), fromZonedTime = (\<lambda>t z. t)\<rparr>"

definition ex_acts :: "(shift_caller \<times> roster_op) list" where
  "ex_acts = [(ex_caller, CreateAssignment ''1'' ''u'' ''a'' ''2026-03-02''), (ex_caller, CreateAssignment ''2'' ''u'' ''b'' ''2026-03-02''),
     (ex_caller, ChangeAssignment 0 ''1'' None (Some ''2026-03-03''))]"

theorem roster_day_invariant_witness:
  "map (\<lambda>a. (as_id a, as_date a)) (ro_assignments (snd (attempts (roster_act utc_tz (\<lambda>_. None)) ex_acts (ex_roster_day [] [])))) =
     [(''1'', 20515)] \<and>
   distinct (map (\<lambda>a. (as_user_id a, as_date a)) (ro_assignments (snd (attempts (roster_act utc_tz (\<lambda>_. None)) ex_acts (ex_roster_day [] [])))))"
proof
  show "map (\<lambda>a. (as_id a, as_date a)) (ro_assignments (snd (attempts (roster_act utc_tz (\<lambda>_. None)) ex_acts (ex_roster_day [] [])))) =
     [(''1'', 20515)]" by code_simp
  have "roster_ok (ro_assignments (ex_roster_day [] []))" by (simp add: ex_roster_day_def roster_ok_def)
  from roster_day_invariant[OF this refl]
  show "distinct (map (\<lambda>a. (as_user_id a, as_date a)) (ro_assignments (snd (attempts (roster_act utc_tz (\<lambda>_. None)) ex_acts (ex_roster_day [] [])))))" by blast
qed

definition ex_bulk_rows :: "(id \<times> id \<times> string) list" where
  "ex_bulk_rows = [(''u'', ''a'', ''2026-03-02''), (''u'', ''b'', ''2026-03-02''), (''x'', ''a'', ''2026-03-02''), (''v'', ''b'', ''2026-03-07'')]"

definition ex_ids :: "bulk_row \<Rightarrow> id" where
  "ex_ids r = fst r @ fst (snd r)"


text \<open>The date helper of these routes accepts 30 February and stores 2 March; the helpers of the other planner
  routes compare the date that was read with the text and refuse it.\<close>

lemma february_30_accepted: "parseDateOnly_shifts ''2026-02-30'' = parse_iso_date ''2026-03-02'' \<and> parse_iso_date ''2026-02-30'' = None"
  by code_simp

text \<open>A manager who may assign shifts but has nobody in scope cannot change an assignment but can delete it.\<close>

definition ex_assigner :: shift_caller where
  "ex_assigner = \<lparr>sc_user = ''m'', sc_org = ''o'', sc_permissions = {''shifts.assign''}\<rparr>"

lemma delete_outside_scope:
  "(case update_assignment ex_assigner 0 ''1'' (Some ''b'') None (ex_roster_day [new_assignment ''1'' ''a'' ''u'' None 20000 False] []) of
      Inl e \<Rightarrow> e = ForbiddenError | Inr _ \<Rightarrow> False) \<and>
   (case delete_assignment ex_assigner ''1'' (ex_roster_day [new_assignment ''1'' ''a'' ''u'' None 20000 False] []) of
      Inl _ \<Rightarrow> False | Inr db \<Rightarrow> ro_assignments db = [])"
  by code_simp

text \<open>The scope of the managers told of a conflict is no restriction: it is computed with a permission that
  makes it the whole organisation.\<close>

lemma visible_manager_iff:
  "visible_manager c db m \<longleftrightarrow>
     ''shifts.manage'' \<in> resolveUserPermissions m (sc_org c) (ro_access db) \<or> ''shifts.assign'' \<in> resolveUserPermissions m (sc_org c) (ro_access db)"
  by (simp add: visible_manager_def Let_def scopedEmployeeIds_def isInEmployeeScope_def)

text \<open>The swap route decides a request whatever its status: a second approval swaps the shifts back.\<close>

lemma find_set_shift:
  "find_first (\<lambda>a. as_id a = i) (set_shift j s as) = map_option (\<lambda>a. if as_id a = j then a\<lparr>as_shift_id := s\<rparr> else a) (find_first (\<lambda>a. as_id a = i) as)"
  unfolding set_shift_def by (induction as) auto

lemma set_shift_self: "(\<And>a. a \<in> set as \<Longrightarrow> as_id a = i \<Longrightarrow> as_shift_id a = s) \<Longrightarrow> set_shift i s as = as"
  unfolding set_shift_def update_where_def by (rule map_idI) auto

lemma set_shift_twice: "set_shift i s (set_shift i t as) = set_shift i s as"
  by (simp add: set_shift_def update_where_def)

lemma set_shift_commute: "i \<noteq> j \<Longrightarrow> set_shift i s (set_shift j t as) = set_shift j t (set_shift i s as)"
  by (simp add: set_shift_def update_where_def)

lemma swap_back:
  assumes ij: "i \<noteq> j" and ids: "distinct (map as_id as)" and a: "find_first (\<lambda>a. as_id a = i) as = Some ra" and b: "find_first (\<lambda>a. as_id a = j) as = Some ta"
  shows "set_shift j (as_shift_id ta) (set_shift i (as_shift_id ra) (set_shift j (as_shift_id ra) (set_shift i (as_shift_id ta) as))) = as"
proof -
  have ra: "a = ra" if "a \<in> set as" "as_id a = i" for a using find_first_Some[OF a] that ids by (metis distinct_map inj_onD)
  have ta: "a = ta" if "a \<in> set as" "as_id a = j" for a using find_first_Some[OF b] that ids by (metis distinct_map inj_onD)
  have "set_shift j (as_shift_id ta) (set_shift i (as_shift_id ra) (set_shift j (as_shift_id ra) (set_shift i (as_shift_id ta) as))) =
      set_shift j (as_shift_id ta) (set_shift i (as_shift_id ra) as)"
    using ij by (metis set_shift_commute set_shift_twice)
  also have "set_shift i (as_shift_id ra) as = as" by (rule set_shift_self) (use ra in auto)
  also have "set_shift j (as_shift_id ta) as = as" by (rule set_shift_self) (use ta in auto)
  finally show ?thesis .
qed

definition ex_swap :: "string \<Rightarrow> swap" where
  "ex_swap st = \<lparr>sp_id = ''w'', sp_requester_id = ''u'', sp_target_id = ''v'', sp_requester_assign_id = ''1'', sp_target_assign_id = ''2'',
     sp_status = st, sp_reason = None, sp_manager_id = None, sp_rejection_reason = None\<rparr>"

definition ex_swapped :: "string \<Rightarrow> roster" where
  "ex_swapped st = ex_roster_day [new_assignment ''1'' ''a'' ''u'' None 20000 True, new_assignment ''2'' ''b'' ''v'' None 20000 True] [ex_swap st]"

lemma approve_swap_twice:
  "(case bind_result (approve_swap ex_caller ''w'' (ex_swapped ''pending'')) (approve_swap ex_caller ''w'') of
      Inl _ \<Rightarrow> False | Inr db \<Rightarrow> ro_assignments db = ro_assignments (ex_swapped ''pending'') \<and> map sp_status (ro_swaps db) = [''approved'']) \<and>
   (case approve_swap ex_caller ''w'' (ex_swapped ''rejected'') of
      Inl _ \<Rightarrow> False | Inr db \<Rightarrow> map as_shift_id (ro_assignments db) = [''b'', ''a''])"
  by code_simp

end
