(* ===== verification/Publish.thy ===== *)
theory Publish
  imports Roster
begin

text \<open>
  Publication of a schedule: the warnings of the planner (\<^verbatim>\<open>src/src/services/scheduleIssues.ts\<close>) and
  \<^verbatim>\<open>POST /shifts/schedule/publish\<close> (\<^verbatim>\<open>src/src/routes/shifts.ts\<close>), which combines them with the findings of
  \<open>Compliance\<close>.  A blocked publication stores its findings and then throws, so the result is an optional
  error together with the new state.  Messages and the WhatsApp reminders are left out.
\<close>

subsection \<open>Schedule issues\<close>

definition plan_break_of :: "template_break \<Rightarrow> plan_break" where
  "plan_break_of b = \<lparr>pb_break_minutes = bp_break_minutes (tb_policy b), pb_after_minutes = bp_after_minutes (tb_policy b),
     pb_break_kind = Some (bp_break_kind (tb_policy b)), pb_break_start_time = bp_break_start_time (tb_policy b), pb_is_paid = tb_is_paid b,
     pb_applies_days = bp_applies_days (tb_policy b), pb_exception_dates = bp_exception_dates (tb_policy b)\<rparr>"

definition plan_of :: "roster \<Rightarrow> assignment \<Rightarrow> shift_template \<Rightarrow> plan_assignment" where
  "plan_of db a s = \<lparr>pa_id = as_id a, pa_user_id = as_user_id a, pa_date = as_date a,
     pa_shift = \<lparr>ps_id = sh_id s, ps_start_time = sh_start_time s, ps_end_time = sh_end_time s, ps_min_rest_hours = sh_min_rest_hours s,
       ps_breaks = map plan_break_of (filter (\<lambda>b. tb_shift_id b = sh_id s) (ro_breaks db))\<rparr>\<rparr>"

text \<open>The assignments of a range of days with their templates, limited to the employees in scope.\<close>

definition range_assignments :: "shift_caller \<Rightarrow> day \<Rightarrow> day \<Rightarrow> roster \<Rightarrow> (assignment \<times> shift_template) list" where
  "range_assignments c from to db =
     (let ids = scoped c ''shifts.manage'' db
      in concat (map (\<lambda>a. case shift_named (sc_org c) (as_shift_id a) db of None \<Rightarrow> [] | Some s \<Rightarrow> [(a, s)])
          (filter (\<lambda>a. from \<le> as_date a \<and> as_date a \<le> to \<and> isInEmployeeScope (as_user_id a) ids) (ro_assignments db))))"

definition rules_between :: "id \<Rightarrow> day \<Rightarrow> day \<Rightarrow> roster \<Rightarrow> compliance_rule list" where
  "rules_between orgId from to db =
     sort_key (\<lambda>r. - coalesce (cr_effective_from r) 0)
       (map snd (filter (\<lambda>x. fst x = orgId \<and> coalesce (cr_effective_from (snd x)) 0 \<le> to \<and>
          (case cr_effective_to (snd x) of None \<Rightarrow> True | Some t \<Rightarrow> from \<le> t)) (ro_rules db)))"

definition timeRangesOverlap :: "shift_template \<Rightarrow> availability \<Rightarrow> bool" where
  "timeRangesOverlap s r \<longleftrightarrow> (case rule_times r of None \<Rightarrow> True
     | Some (a, b) \<Rightarrow> \<exists>p\<in>set (split_range (minutes (sh_start_time s)) (minutes (sh_end_time s))). \<exists>q\<in>set (split_range (minutes a) (minutes b)). ranges_meet p q)"

definition shiftMinutes :: "plan_shift \<Rightarrow> rat" where
  "shiftMinutes s = max 0 (wallDuration (ps_start_time s) (ps_end_time s) - of_int (sum_list (map pb_break_minutes (filter (\<lambda>b. \<not> pb_is_paid b) (ps_breaks s)))))"

record schedule_issue =
  si_code :: string
  si_severity :: string
  si_assignment_id :: "id option"
  si_user_id :: "id option"
  si_date :: "day option"

definition assignment_issue :: "string \<Rightarrow> assignment \<Rightarrow> schedule_issue" where
  "assignment_issue code a = \<lparr>si_code = code, si_severity = ''warning'', si_assignment_id = Some (as_id a), si_user_id = Some (as_user_id a), si_date = Some (as_date a)\<rparr>"

definition issues_of :: "shift_caller \<Rightarrow> roster \<Rightarrow> assignment \<times> shift_template \<Rightarrow> schedule_issue list" where
  "issues_of c db x =
     (let a = fst x; s = snd x in
      (if \<exists>l\<in>set (ro_leaves db). lr_org_id l = sc_org c \<and> lr_user_id l = as_user_id a \<and> lr_status l = ''approved'' \<and> lr_start_date l \<le> as_date a \<and> as_date a \<le> lr_end_date l
       then [assignment_issue ''approved_leave'' a] else []) @
      (if \<exists>r\<in>set (ro_availability db). unavailable_on (sc_org c) (as_user_id a) (as_date a) r \<and> timeRangesOverlap s r
       then [assignment_issue ''unavailable'' a] else []) @
      (if off_day s (as_date a) then [assignment_issue ''off_day'' a] else []))"

definition weekly_reference :: "compliance_rule list \<Rightarrow> day \<Rightarrow> (id \<times> rat) list \<Rightarrow> schedule_issue list" where
  "weekly_reference rules to loads =
     (if \<exists>r\<in>set rules. cr_code r = ''max_weekly_hours'' \<and> coalesce (cr_effective_from r) 0 \<le> to \<and> (case cr_effective_to r of None \<Rightarrow> True | Some t \<Rightarrow> to \<le> t)
      then [] else map (\<lambda>x. \<lparr>si_code = ''weekly_hours_reference'', si_severity = ''warning'', si_assignment_id = None, si_user_id = Some (fst x), si_date = None\<rparr>)
        (filter (\<lambda>x. 48 * 60 < snd x) loads))"

definition coverage_issues :: "shift_caller \<Rightarrow> roster \<Rightarrow> (assignment \<times> shift_template) list \<Rightarrow> day \<Rightarrow> schedule_issue list" where
  "coverage_issues c db current date =
     concat (map (\<lambda>r.
        (let assigned = length (filter (\<lambda>x. as_shift_id (fst x) = cv_shift_id r \<and> as_date (fst x) = date \<and>
              (cv_department r = [] \<or> (as_user_id (fst x), cv_department r) \<in> set (ro_departments db))) current)
         in if int assigned < cv_required_count r
            then [\<lparr>si_code = ''understaffed'', si_severity = ''warning'', si_assignment_id = None, si_user_id = None, si_date = Some date\<rparr>] else []))
      (filter (\<lambda>r. cv_org_id r = sc_org c \<and> cv_weekday r = monday0 date) (ro_coverage db)))"

definition getScheduleIssues :: "(string \<Rightarrow> nat list) \<Rightarrow> shift_caller \<Rightarrow> day \<Rightarrow> roster \<Rightarrow> schedule_issue list" where
  "getScheduleIssues collate c from db =
     (let to = from + 6;
          assignments = sort_key (\<lambda>x. as_date (fst x)) (range_assignments c (from - 1) (to + 1) db);
          current = filter (\<lambda>x. from \<le> as_date (fst x) \<and> as_date (fst x) \<le> to) assignments;
          rules = rules_between (sc_org c) from to db;
          plans = map (\<lambda>x. plan_of db (fst x) (snd x)) assignments;
          loads = fold (\<lambda>x. add_total (as_user_id (fst x)) (shiftMinutes (pa_shift (plan_of db (fst x) (snd x))))) current []
      in concat (map (issues_of c db) current) @
         map (\<lambda>f. \<lparr>si_code = cf_code f, si_severity = cf_severity f, si_assignment_id = Some (cf_assignment_id f), si_user_id = Some (cf_user_id f), si_date = Some (cf_date f)\<rparr>)
           (evaluateScheduleCompliance collate plans rules from to) @
         weekly_reference rules to loads @
         concat (map (coverage_issues c db current) (map (\<lambda>i. from + i) [0, 1, 2, 3, 4, 5, 6])))"

subsection \<open>Publishing\<close>

record publish_finding =
  pf_code :: string
  pf_key :: string
  pf_rule_id :: "id option"
  pf_assignment_id :: "id option"
  pf_user_id :: "id option"
  pf_severity :: string

definition finding_key :: "day \<Rightarrow> compliance_finding \<Rightarrow> string" where
  "finding_key ws f = iso_date ws @ '':'' @ cf_code f @ '':'' @ cf_suffix f"

definition of_compliance :: "day \<Rightarrow> compliance_finding \<Rightarrow> publish_finding" where
  "of_compliance ws f = \<lparr>pf_code = cf_code f, pf_key = finding_key ws f, pf_rule_id = (if cf_rule_id f = [] then None else Some (cf_rule_id f)),
     pf_assignment_id = Some (cf_assignment_id f), pf_user_id = Some (cf_user_id f), pf_severity = cf_severity f\<rparr>"

definition of_issue :: "day \<Rightarrow> schedule_issue \<Rightarrow> publish_finding" where
  "of_issue ws i = \<lparr>pf_code = si_code i,
     pf_key = ''schedule:'' @ iso_date ws @ '':'' @ si_code i @ '':'' @
       coalesce (coalesce_opt (si_assignment_id i) (si_user_id i)) ''team'' @ '':'' @ (case si_date i of None \<Rightarrow> ''week'' | Some d \<Rightarrow> iso_date d),
     pf_rule_id = None, pf_assignment_id = si_assignment_id i, pf_user_id = si_user_id i, pf_severity = ''block''\<rparr>"

definition publish_findings :: "(string \<Rightarrow> nat list) \<Rightarrow> shift_caller \<Rightarrow> day \<Rightarrow> day \<Rightarrow> roster \<Rightarrow> publish_finding list" where
  "publish_findings collate c ws we db =
     map (of_compliance ws) (evaluateScheduleCompliance collate (map (\<lambda>x. plan_of db (fst x) (snd x)) (range_assignments c (ws - 1) (we + 1) db))
       (rules_between (sc_org c) ws we db) ws we) @
     map (of_issue ws) (filter (\<lambda>i. si_code i \<in> {''approved_leave'', ''unavailable''}) (getScheduleIssues collate c ws db))"

definition resolve_open :: "id \<Rightarrow> day \<Rightarrow> instant \<Rightarrow> violation list \<Rightarrow> violation list" where
  "resolve_open orgId ws now = update_where (\<lambda>v. vi_org_id v = orgId \<and> vi_week_start v = ws \<and> vi_status v = ''open'')
     (\<lambda>v. v\<lparr>vi_status := ''resolved'', vi_resolved_at := Some now\<rparr>)"

text \<open>The override of a finding: its reason, author and time, \<open>None\<close> when the finding is stored as open.  Only the
  blocked publication also rewrites the rule of a stored violation.\<close>

definition violation_row :: "id \<Rightarrow> day \<Rightarrow> publish_finding \<Rightarrow> violation" where
  "violation_row orgId ws f = \<lparr>vi_org_id = orgId, vi_rule_id = pf_rule_id f, vi_rule_code = pf_code f, vi_dedupe_key = pf_key f, vi_week_start = ws,
     vi_assignment_id = pf_assignment_id f, vi_user_id = pf_user_id f, vi_severity = pf_severity f, vi_status = ''open'',
     vi_override_reason = None, vi_override_by = None, vi_override_at = None, vi_resolved_at = None\<rparr>"

definition write_violation :: "bool \<Rightarrow> (string \<times> id \<times> instant) option \<Rightarrow> publish_finding \<Rightarrow> violation \<Rightarrow> violation" where
  "write_violation blocked overriding f v = v\<lparr>vi_rule_id := (if blocked then pf_rule_id f else vi_rule_id v), vi_severity := pf_severity f,
     vi_status := (if overriding = None then ''open'' else ''overridden''), vi_override_reason := map_option fst overriding,
     vi_override_by := map_option (fst \<circ> snd) overriding, vi_override_at := map_option (snd \<circ> snd) overriding, vi_resolved_at := None\<rparr>"

definition upsert_violation :: "id \<Rightarrow> day \<Rightarrow> bool \<Rightarrow> (string \<times> id \<times> instant) option \<Rightarrow> publish_finding \<Rightarrow> violation list \<Rightarrow> violation list" where
  "upsert_violation orgId ws blocked overriding f vs =
     (if \<exists>v\<in>set vs. vi_org_id v = orgId \<and> vi_dedupe_key v = pf_key f
      then update_where (\<lambda>v. vi_org_id v = orgId \<and> vi_dedupe_key v = pf_key f) (write_violation blocked overriding f) vs
      else vs @ [write_violation blocked overriding f (violation_row orgId ws f)])"

definition record_blocked :: "shift_caller \<Rightarrow> instant \<Rightarrow> day \<Rightarrow> publish_finding list \<Rightarrow> roster \<Rightarrow> roster" where
  "record_blocked c now ws fs db =
     sched_event ''schedule_publish_blocked'' None
       (db\<lparr>ro_violations := fold (upsert_violation (sc_org c) ws True None) fs (resolve_open (sc_org c) ws now (ro_violations db))\<rparr>)"

definition record_published :: "shift_caller \<Rightarrow> instant \<Rightarrow> day \<Rightarrow> string \<Rightarrow> publish_finding list \<Rightarrow> roster \<Rightarrow> roster" where
  "record_published c now ws reason fs db =
     db\<lparr>ro_violations := fold (\<lambda>f. upsert_violation (sc_org c) ws False
         (if pf_severity f = ''block'' then Some (reason, sc_user c, now) else None) f) fs (resolve_open (sc_org c) ws now (ro_violations db))\<rparr>"

definition to_publish :: "shift_caller \<Rightarrow> id list \<Rightarrow> day \<Rightarrow> day \<Rightarrow> roster \<Rightarrow> assignment \<Rightarrow> bool" where
  "to_publish c shiftIds ws we db a \<longleftrightarrow> as_shift_id a \<in> set shiftIds \<and> ws \<le> as_date a \<and> as_date a \<le> we \<and> in_org (sc_org c) db a \<and>
     isInEmployeeScope (as_user_id a) (scoped c ''shifts.manage'' db)"

definition publish_rows :: "shift_caller \<Rightarrow> instant \<Rightarrow> id list \<Rightarrow> day \<Rightarrow> day \<Rightarrow> roster \<Rightarrow> roster" where
  "publish_rows c now shiftIds ws we db =
     (let sel = to_publish c shiftIds ws we db in
      db\<lparr>ro_shifts := (if scoped c ''shifts.manage'' db = None
           then update_where (\<lambda>s. sh_id s \<in> set shiftIds \<and> sh_org_id s = sc_org c) (\<lambda>s. s\<lparr>sh_is_published := True\<rparr>) (ro_shifts db) else ro_shifts db),
         ro_assignments := update_where (\<lambda>a. sel a \<and> as_ack_status a = ''not_required'') (ask_again now)
           (update_where sel (\<lambda>a. a\<lparr>as_is_published := True\<rparr>) (ro_assignments db))\<rparr>)"

definition override_text :: "string option \<Rightarrow> string" where
  "override_text reason = take 1000 (trim (coalesce reason []))"

definition may_override :: "shift_caller \<Rightarrow> string option \<Rightarrow> bool" where
  "may_override c reason \<longleftrightarrow> ''compliance.override'' \<in> sc_permissions c \<and> 8 \<le> length (override_text reason)"

definition publish_week :: "(string \<Rightarrow> nat list) \<Rightarrow> shift_caller \<Rightarrow> instant \<Rightarrow> day \<Rightarrow> day \<Rightarrow> string option \<Rightarrow> roster \<Rightarrow> app_error option \<times> roster" where
  "publish_week collate c now ws we reason db =
     (let fs = publish_findings collate c ws we db; blocking = filter (\<lambda>f. pf_severity f = ''block'') fs;
          assignments = map fst (range_assignments c ws we db); shiftIds = remdups (map as_shift_id assignments);
          first = (\<lambda>u. case find_first (\<lambda>a. as_user_id a = u) assignments of None \<Rightarrow> [] | Some a \<Rightarrow> as_id a);
          notes = map (\<lambda>u. Notify u ''shift_reminder'' (first u)) (remdups (map as_user_id assignments))
      in if blocking \<noteq> [] \<and> \<not> may_override c reason
         then (Some (AppError 409 ''COMPLIANCE_BLOCK''), record_blocked c now ws fs db)
         else (None, emit (notes @ [OrgEvent ''shift_changed''])
           (sched_event ''schedule_published'' None
             (if shiftIds \<noteq> [] then publish_rows c now shiftIds ws we (record_published c now ws (override_text reason) fs db)
              else db\<lparr>ro_violations := resolve_open (sc_org c) ws now (ro_violations db)\<rparr>))))"

definition publish :: "(string \<Rightarrow> nat list) \<Rightarrow> shift_caller \<Rightarrow> instant \<Rightarrow> string \<Rightarrow> string \<Rightarrow> string option \<Rightarrow> roster \<Rightarrow> app_error option \<times> roster" where
  "publish collate c now from_date to_date reason db =
     (case (parseDateOnly_shifts from_date, parseDateOnly_shifts to_date) of
        (Some ws, Some we) \<Rightarrow> if 6 < we - ws then (Some ValidationError, db) else publish_week collate c now ws we reason db
      | _ \<Rightarrow> (Some ValidationError, db))"

subsection \<open>What a publication leaves behind\<close>

definition stored :: "id \<Rightarrow> string \<Rightarrow> (string \<times> id \<times> instant) option \<Rightarrow> violation list \<Rightarrow> bool" where
  "stored orgId k overriding vs \<longleftrightarrow> (\<exists>v\<in>set vs. vi_org_id v = orgId \<and> vi_dedupe_key v = k \<and> vi_resolved_at v = None \<and>
     vi_status v = (if overriding = None then ''open'' else ''overridden'') \<and>
     vi_override_reason v = map_option fst overriding \<and> vi_override_by v = map_option (fst \<circ> snd) overriding)"

lemma written_fields:
  "vi_org_id (write_violation b g f v) = vi_org_id v" "vi_dedupe_key (write_violation b g f v) = vi_dedupe_key v"
  "vi_org_id (violation_row orgId ws f) = orgId" "vi_dedupe_key (violation_row orgId ws f) = pf_key f"
  by (simp_all add: write_violation_def violation_row_def)

lemma written_stored: "w \<in> set vs \<Longrightarrow> w = write_violation b g f v \<Longrightarrow> vi_org_id v = orgId \<Longrightarrow> vi_dedupe_key v = k \<Longrightarrow> stored orgId k g vs"
  unfolding stored_def by (rule bexI[of _ w]) (auto simp: write_violation_def)

lemma upsert_stored: "stored orgId (pf_key f) g (upsert_violation orgId ws b g f vs)"
proof (cases "\<exists>v\<in>set vs. vi_org_id v = orgId \<and> vi_dedupe_key v = pf_key f")
  case True
  then obtain v where v: "v \<in> set vs" "vi_org_id v = orgId \<and> vi_dedupe_key v = pf_key f" by blast
  have "write_violation b g f v \<in> set (upsert_violation orgId ws b g f vs)"
    using update_where_row[OF v(1), of "\<lambda>v. vi_org_id v = orgId \<and> vi_dedupe_key v = pf_key f" "write_violation b g f"] v True
    by (simp add: upsert_violation_def)
  then show ?thesis by (rule written_stored[OF _ refl]) (use v(2) in auto)
next
  case False
  have "write_violation b g f (violation_row orgId ws f) \<in> set (upsert_violation orgId ws b g f vs)" unfolding upsert_violation_def if_not_P[OF False] by simp
  then show ?thesis by (rule written_stored[OF _ refl]) (simp_all add: written_fields)
qed

lemma upsert_keeps: "stored orgId k g vs \<Longrightarrow> pf_key f \<noteq> k \<Longrightarrow> stored orgId k g (upsert_violation orgId ws b h f vs)"
proof -
  assume st: "stored orgId k g vs" and key: "pf_key f \<noteq> k"
  have "v \<in> set (upsert_violation orgId ws b h f vs)" if "v \<in> set vs" "vi_dedupe_key v = k" for v
    using update_where_row[OF that(1), of "\<lambda>v. vi_org_id v = orgId \<and> vi_dedupe_key v = pf_key f" "write_violation b h f"] that key
    by (simp add: upsert_violation_def)
  then show ?thesis using st unfolding stored_def by blast
qed

lemma fold_stored:
  assumes "f \<in> set fs" "\<And>h. h \<in> set fs \<Longrightarrow> pf_key h = pf_key f \<Longrightarrow> g h = g f"
  shows "stored orgId (pf_key f) (g f) (fold (\<lambda>h. upsert_violation orgId ws b (g h) h) fs vs)"
  using assms
proof (induction fs rule: rev_induct)
  case (snoc h fs)
  show ?case
  proof (cases "pf_key h = pf_key f")
    case True
    then show ?thesis using upsert_stored[of orgId h "g h"] snoc.prems(2)[of h] by simp
  next
    case False
    then have f: "f \<in> set fs" using snoc.prems(1) by auto
    have "stored orgId (pf_key f) (g f) (fold (\<lambda>h. upsert_violation orgId ws b (g h) h) fs vs)"
      by (rule snoc.IH[OF f]) (rule snoc.prems(2), simp_all)
    then show ?thesis using upsert_keeps[OF _ False] by simp
  qed
qed simp

lemma publish_rows_row:
  assumes "a \<in> set (ro_assignments (publish_rows c now shiftIds ws we db))"
  shows "\<exists>b\<in>set (ro_assignments db). as_id b = as_id a \<and> slot b = slot a \<and> as_shift_id b = as_shift_id a \<and>
    (if to_publish c shiftIds ws we db b
     then as_is_published a \<and> as_ack_status a = (if as_ack_status b = ''not_required'' then ''pending'' else as_ack_status b)
     else a = b)"
proof -
  let ?sel = "to_publish c shiftIds ws we db"
  have sel: "?sel (a\<lparr>as_is_published := True\<rparr>) = ?sel a" for a by (simp add: to_publish_def in_org_def)
  obtain y where y: "y \<in> set (update_where ?sel (\<lambda>a. a\<lparr>as_is_published := True\<rparr>) (ro_assignments db))"
      "a = (if ?sel y \<and> as_ack_status y = ''not_required'' then ask_again now y else y)"
    using update_where_E[of a "\<lambda>a. ?sel a \<and> as_ack_status a = ''not_required''" "ask_again now"] assms by (auto simp: publish_rows_def Let_def)
  obtain b where b: "b \<in> set (ro_assignments db)" "y = (if ?sel b then b\<lparr>as_is_published := True\<rparr> else b)"
    using update_where_E[OF y(1)] by blast
  show ?thesis by (rule bexI[OF _ b(1)]) (simp add: y(2) b(2) sel ask_again_def slot_def)
qed

lemma publish_rows_published:
  assumes b: "b \<in> set (ro_assignments db)" "to_publish c shiftIds ws we db b" and ids: "distinct (map as_id (ro_assignments db))"
    and a: "a \<in> set (ro_assignments (publish_rows c now shiftIds ws we db))" "as_id a = as_id b"
  shows "as_is_published a \<and> as_ack_status a \<noteq> ''not_required''"
proof -
  obtain d where d: "d \<in> set (ro_assignments db)" "as_id d = as_id a"
      "if to_publish c shiftIds ws we db d then as_is_published a \<and> as_ack_status a = (if as_ack_status d = ''not_required'' then ''pending'' else as_ack_status d) else a = d"
    using publish_rows_row[OF a(1)] by blast
  have "d = b" using d(1,2) a(2) b(1) ids by (metis distinct_map inj_onD)
  then show ?thesis using d(3) b(2) by simp
qed

lemma record_simps:
  "ro_assignments (record_published c now ws reason fs db) = ro_assignments db" "ro_access (record_published c now ws reason fs db) = ro_access db"
  "ro_shifts (record_published c now ws reason fs db) = ro_shifts db"
  by (simp_all add: record_published_def)

lemma to_publish_record: "to_publish c ids ws we (record_published c now ws reason fs db) = to_publish c ids ws we db"
  by (rule ext) (simp add: to_publish_def in_org_def scoped_def record_simps)

lemma publish_rows_violations: "ro_violations (publish_rows c now ids ws we db) = ro_violations db"
  by (simp add: publish_rows_def Let_def)

lemma published_state:
  "ro_violations (emit es (sched_event e i db)) = ro_violations db" "ro_assignments (emit es (sched_event e i db)) = ro_assignments db"
  "ro_shifts (emit es (sched_event e i db)) = ro_shifts db"
  by (simp_all add: emit_def sched_event_def)

text \<open>The template ids of the week are those of the assignments in scope.\<close>

lemma week_shift_ids:
  assumes a: "a \<in> set (ro_assignments db)" "ws \<le> as_date a" "as_date a \<le> we" "in_org (sc_org c) db a" "isInEmployeeScope (as_user_id a) (scoped c ''shifts.manage'' db)"
  shows "to_publish c (remdups (map as_shift_id (map fst (range_assignments c ws we db)))) ws we db a"
proof -
  obtain s where s: "shift_named (sc_org c) (as_shift_id a) db = Some s"
    using a(4) by (cases "shift_named (sc_org c) (as_shift_id a) db") (auto simp: in_org_def shift_named_def find_first_None)
  have "(a, s) \<in> set (range_assignments c ws we db)" using a s by (auto simp: range_assignments_def Let_def intro!: bexI[of _ a])
  then have "as_shift_id a \<in> set (map as_shift_id (map fst (range_assignments c ws we db)))" by force
  then show ?thesis using a by (simp add: to_publish_def)
qed

text \<open>C30: a schedule whose evaluation, leave check or availability check finds a blocking conflict is
  published only by a caller who may override it and gives a reason of at least eight characters;
  otherwise no assignment and no template changes and every finding is kept as an open violation.  When
  it is published, every assignment of the week in the caller's scope is published and awaits or has the
  employee's answer, and every blocking finding is recorded as overridden by this caller.\<close>

theorem publish_guarded:
  assumes run: "publish_week collate c now ws we reason db = (r, db')" and ids: "distinct (map as_id (ro_assignments db))"
    and fs: "fs = publish_findings collate c ws we db"
  shows "(r \<noteq> None \<longrightarrow> ro_assignments db' = ro_assignments db \<and> ro_shifts db' = ro_shifts db \<and>
      (\<forall>f\<in>set fs. stored (sc_org c) (pf_key f) None (ro_violations db'))) \<and>
    (r = None \<longrightarrow> (\<forall>f\<in>set fs. pf_severity f = ''block'' \<longrightarrow> may_override c reason) \<and>
      (\<forall>b\<in>set (ro_assignments db). \<forall>a\<in>set (ro_assignments db'). ws \<le> as_date b \<and> as_date b \<le> we \<and> in_org (sc_org c) db b \<and>
         isInEmployeeScope (as_user_id b) (scoped c ''shifts.manage'' db) \<and> as_id a = as_id b \<longrightarrow>
         as_is_published a \<and> as_ack_status a \<noteq> ''not_required'') \<and>
      (range_assignments c ws we db \<noteq> [] \<and> distinct (map pf_key fs) \<longrightarrow>
        (\<forall>f\<in>set fs. pf_severity f = ''block'' \<longrightarrow> stored (sc_org c) (pf_key f) (Some (override_text reason, sc_user c, now)) (ro_violations db'))))"
proof (cases "filter (\<lambda>f. pf_severity f = ''block'') fs \<noteq> [] \<and> \<not> may_override c reason")
  case True
  then have db': "db' = record_blocked c now ws fs db" and r: "r \<noteq> None" using run by (auto simp: publish_week_def Let_def fs)
  have "stored (sc_org c) (pf_key f) None (ro_violations db')" if "f \<in> set fs" for f
    using fold_stored[OF that, of "\<lambda>_. None" "sc_org c" ws True] by (simp add: db' record_blocked_def sched_event_def)
  moreover have "ro_assignments db' = ro_assignments db" "ro_shifts db' = ro_shifts db" by (simp_all add: db' record_blocked_def sched_event_def)
  ultimately show ?thesis using r by blast
next
  case False
  let ?ids = "remdups (map as_shift_id (map fst (range_assignments c ws we db)))"
  let ?rec = "record_published c now ws (override_text reason) fs db"
  let ?db1 = "if ?ids \<noteq> [] then publish_rows c now ?ids ws we ?rec else db\<lparr>ro_violations := resolve_open (sc_org c) ws now (ro_violations db)\<rparr>"
  obtain es where db': "db' = emit es (sched_event ''schedule_published'' None ?db1)" and r: "r = None"
    using run unfolding publish_week_def Let_def fs[symmetric] if_not_P[OF False] prod.inject by blast
  have over: "may_override c reason" if "f \<in> set fs" "pf_severity f = ''block''" for f
    using False that by (auto simp: filter_empty_conv)
  have rows: "as_is_published a \<and> as_ack_status a \<noteq> ''not_required''"
    if "b \<in> set (ro_assignments db)" "a \<in> set (ro_assignments db')" and sel: "ws \<le> as_date b" "as_date b \<le> we" "in_org (sc_org c) db b"
      "isInEmployeeScope (as_user_id b) (scoped c ''shifts.manage'' db)" and same: "as_id a = as_id b" for a b
  proof -
    have tp: "to_publish c ?ids ws we db b" by (rule week_shift_ids[OF that(1) sel])
    then have ne: "?ids \<noteq> []" unfolding to_publish_def by (metis empty_iff empty_set)
    have a: "a \<in> set (ro_assignments (publish_rows c now ?ids ws we ?rec))" using that(2) unfolding db' published_state if_P[OF ne] .
    show ?thesis by (rule publish_rows_published[of b ?rec c ?ids ws we a now]) (use that(1) tp ids a same in \<open>simp_all only: record_simps to_publish_record\<close>)
  qed
  have viol: "stored (sc_org c) (pf_key f) (Some (override_text reason, sc_user c, now)) (ro_violations db')"
    if ne: "range_assignments c ws we db \<noteq> []" and d: "distinct (map pf_key fs)" and f: "f \<in> set fs" "pf_severity f = ''block''" for f
  proof -
    let ?g = "\<lambda>f. if pf_severity f = ''block'' then Some (override_text reason, sc_user c, now) else None"
    have "h = f" if "h \<in> set fs" "pf_key h = pf_key f" for h using d f(1) that by (metis distinct_map inj_onD)
    then have "stored (sc_org c) (pf_key f) (?g f) (fold (\<lambda>h. upsert_violation (sc_org c) ws False (?g h) h) fs (resolve_open (sc_org c) ws now (ro_violations db)))"
      by (intro fold_stored[OF f(1)]) auto
    moreover have "?ids \<noteq> []" using ne by simp
    ultimately show ?thesis using f(2) unfolding db' published_state by (simp add: publish_rows_violations record_published_def)
  qed
  show ?thesis using r over rows viol by blast
qed

lemma publish_keeps_ok:
  assumes ok: "roster_ok (ro_assignments db)"
  shows "roster_ok (ro_assignments (publish_rows c now shiftIds ws we db))"
proof -
  let ?sel = "to_publish c shiftIds ws we db"
  let ?ys = "update_where ?sel (\<lambda>a. a\<lparr>as_is_published := True\<rparr>) (ro_assignments db)"
  have sel: "?sel (a\<lparr>as_is_published := True\<rparr>) = ?sel a" for a by (simp add: to_publish_def in_org_def)
  have 1: "roster_ok ?ys"
    by (rule update_row_ok[OF ok]) (use ok in \<open>auto simp: slot_def roster_ok_def list_all_iff ack_ok_def\<close>)
  have pub: "as_is_published y" if y: "y \<in> set ?ys" "?sel y" for y
  proof -
    obtain x where x: "y = (if ?sel x then x\<lparr>as_is_published := True\<rparr> else x)" using update_where_E[OF y(1)] by blast
    then show ?thesis using y(2) by (cases "?sel x") simp_all
  qed
  have "roster_ok (update_where (\<lambda>a. ?sel a \<and> as_ack_status a = ''not_required'') (ask_again now) ?ys)"
    by (rule update_row_ok[OF 1]) (use pub in \<open>auto simp: slot_def ask_again_def ack_ok_def\<close>)
  then show ?thesis by (simp add: publish_rows_def Let_def)
qed

subsection \<open>Examples and findings\<close>

definition ex_leave :: "id \<Rightarrow> day \<Rightarrow> leave_request" where
  "ex_leave u d = \<lparr>lr_id = ''l'', lr_org_id = ''o'', lr_user_id = u, lr_location_id = None, lr_leave_type = ''annual'', lr_start_date = d, lr_end_date = d,
     lr_working_days = 1, lr_reason = None, lr_is_half_day = False, lr_half_day_period = None, lr_leave_start_time = None, lr_leave_end_time = None,
     lr_status = ''approved'', lr_reviewed_by = None, lr_reviewed_at = None, lr_rejection_reason = None, lr_created_at = 0\<rparr>"

definition ex_week :: roster where
  "ex_week = (ex_roster_day [new_assignment ''1'' ''a'' ''u'' None 20514 False] [])\<lparr>ro_leaves := [ex_leave ''u'' 20514]\<rparr>"

lemma publish_result:
  "fst (publish_week collate c now ws we reason db) =
     (if list_ex (\<lambda>f. pf_severity f = ''block'') (publish_findings collate c ws we db) \<and> \<not> may_override c reason
      then Some (AppError 409 ''COMPLIANCE_BLOCK'') else None)"
  unfolding publish_week_def Let_def list_ex_iff by (simp add: filter_empty_conv)

lemma not_overrider: "\<not> may_override ex_caller reason" "\<not> may_override ex_assigner reason"
  by (simp_all add: may_override_def ex_caller_def ex_assigner_def)

theorem publish_guarded_witness:
  "fst (publish_week (map of_char) ex_caller 0 20514 20520 (Some ''urgent work'') ex_week) = Some (AppError 409 ''COMPLIANCE_BLOCK'') \<and>
   ro_assignments (snd (publish_week (map of_char) ex_caller 0 20514 20520 (Some ''urgent work'') ex_week)) = ro_assignments ex_week \<and>
   list_all (\<lambda>f. stored ''o'' (pf_key f) None (ro_violations (snd (publish_week (map of_char) ex_caller 0 20514 20520 (Some ''urgent work'') ex_week))))
     (publish_findings (map of_char) ex_caller 20514 20520 ex_week) \<and>
   map (\<lambda>f. (pf_code f, pf_severity f)) (publish_findings (map of_char) ex_caller 20514 20520 ex_week) = [(''approved_leave'', ''block'')]"
proof -
  let ?run = "publish_week (map of_char) ex_caller 0 20514 20520 (Some ''urgent work'') ex_week"
  have c: "map (\<lambda>f. (pf_code f, pf_severity f)) (publish_findings (map of_char) ex_caller 20514 20520 ex_week) = [(''approved_leave'', ''block'')]" by code_simp
  have r: "fst ?run = Some (AppError 409 ''COMPLIANCE_BLOCK'')"
    using c unfolding publish_result by (auto simp: list_ex_iff not_overrider map_eq_Cons_conv)
  have ids: "distinct (map as_id (ro_assignments ex_week))" by (simp add: ex_week_def ex_roster_day_def)
  have org: "sc_org ex_caller = ''o''" by (simp add: ex_caller_def)
  from publish_guarded[OF prod.collapse[symmetric] ids refl, of "map of_char" ex_caller 0 20514 20520 "Some ''urgent work''"] r c
  show ?thesis by (simp add: list_all_iff org)
qed

text \<open>The leave and availability check always covers seven days from the first day: publishing Tuesday alone is
  blocked by a leave on Friday.\<close>

lemma publish_one_day_blocked:
  "fst (publish_week (map of_char) ex_caller 0 20515 20515 None
     ((ex_roster_day [new_assignment ''1'' ''a'' ''u'' None 20518 False] [])\<lparr>ro_leaves := [ex_leave ''u'' 20518]\<rparr>)) =
   Some (AppError 409 ''COMPLIANCE_BLOCK'')"
  unfolding publish_result by (simp add: not_overrider) code_simp

text \<open>Every publication first closes all open violations of the week, also those of employees outside the
  caller's scope, which it does not evaluate.\<close>

lemma scoped_publish_closes_others:
  assumes "publish_findings collate c ws we db = []" "v \<in> set (ro_violations db)"
    "vi_org_id v = sc_org c" "vi_week_start v = ws" "vi_status v = ''open''" "range_assignments c ws we db = []"
  shows "v\<lparr>vi_status := ''resolved'', vi_resolved_at := Some now\<rparr> \<in> set (ro_violations (snd (publish_week collate c now ws we reason db)))"
proof -
  have "ro_violations (snd (publish_week collate c now ws we reason db)) = resolve_open (sc_org c) ws now (ro_violations db)"
    by (simp add: publish_week_def Let_def assms(1,6) published_state)
  then show ?thesis
    using update_where_row[OF assms(2), of "\<lambda>v. vi_org_id v = sc_org c \<and> vi_week_start v = ws \<and> vi_status v = ''open''" "\<lambda>v. v\<lparr>vi_status := ''resolved'', vi_resolved_at := Some now\<rparr>"] assms(3-5)
    by (simp add: resolve_open_def)
qed

end
