(* ===== verification/FieldOps.thy ===== *)
theory FieldOps
  imports Roster
begin

text \<open>
  Emergency shifts and checkpoints, \<^verbatim>\<open>src/src/routes/shift-field-ops.ts\<close>.

  The handlers that read first and write later are split: \<open>claim_plan\<close> and \<open>cancel_plan\<close> decide on the
  offer they read, \<open>claim_commit\<close> and \<open>cancel_commit\<close> write on the state of that moment.  Fields of a
  request body that the code tests for their type are values of \<open>field\<close>.  The attendance row of the day is
  an argument of a scan, and so is the token of a new QR code.
\<close>

subsection \<open>Times\<close>

definition strict_mins :: "string \<Rightarrow> int option" where
  "strict_mins s =
     (case s of [h1, h2, c, m1, m2] \<Rightarrow>
        if list_all is_digit [h1, h2, m1, m2] \<and> c = CHR '':'' \<and> dec_value [h1, h2] \<le> 23 \<and> dec_value [m1, m2] \<le> 59
        then Some (int (dec_value [h1, h2]) * 60 + int (dec_value [m1, m2])) else None
      | _ \<Rightarrow> None)"

definition end_mins :: "int \<Rightarrow> int \<Rightarrow> int" where
  "end_mins s e = (if e \<le> s then e + 1440 else e)"

definition shiftInterval :: "day \<Rightarrow> string \<Rightarrow> string \<Rightarrow> (int \<times> int) option" where
  "shiftInterval date st en =
     (case (strict_mins st, strict_mins en) of
        (Some s, Some e) \<Rightarrow> Some (date * day_ms + s * 60000, date * day_ms + end_mins s e * 60000) | _ \<Rightarrow> None)"

definition overlaps :: "int \<Rightarrow> int \<Rightarrow> int \<Rightarrow> int \<Rightarrow> bool" where
  "overlaps startA endA startB endB \<longleftrightarrow> startA < endB \<and> startB < endA"

definition clock_ranges :: "int \<Rightarrow> int \<Rightarrow> (int \<times> int) list" where
  "clock_ranges s e = (let en = end_mins s e in if 1440 < en then [(s, 1440), (0, en - 1440)] else [(s, en)])"

text \<open>Whether a rule of unavailability touches the shift; \<open>None\<close> when a time is not of the form \<open>HH:MM\<close>, for which
  the code throws.\<close>

definition rule_blocks :: "(int \<times> int) list \<Rightarrow> availability \<Rightarrow> bool option" where
  "rule_blocks ranges r =
     (case rule_times r of None \<Rightarrow> Some True
      | Some (a, b) \<Rightarrow> (case (strict_mins a, strict_mins b) of
          (Some f, Some t) \<Rightarrow> Some (\<exists>q\<in>set ranges. overlaps (fst q) (snd q) f t) | _ \<Rightarrow> None))"

subsection \<open>Who can take an emergency shift\<close>

definition eligibleEmployees :: "id \<Rightarrow> id \<Rightarrow> day \<Rightarrow> roster \<Rightarrow> id list result" where
  "eligibleEmployees orgId shiftId date db =
     (case shift_named orgId shiftId db of None \<Rightarrow> Inl NotFoundError
      | Some s \<Rightarrow>
         (case (strict_mins (sh_start_time s), strict_mins (sh_end_time s)) of
            (Some st, Some en) \<Rightarrow>
              (let ranges = clock_ranges st en;
                   rules = filter (\<lambda>r. unavailable_on orgId (av_user_id r) date r) (ro_availability db);
                   users = filter (\<lambda>u. mb_org_id u = orgId \<and> mb_is_active u \<and> mb_deleted_at u = None) (ad_members (ro_access db))
               in require (\<forall>r\<in>set rules. rule_blocks ranges r \<noteq> None) ValidationError
                   (Inr (filter (\<lambda>u. \<not> (\<exists>a\<in>set (ro_assignments db). slot a = (u, date)) \<and> \<not> has_leave_on u date (ro_leaves db) \<and>
                        \<not> (\<exists>r\<in>set rules. av_user_id r = u \<and> rule_blocks ranges r = Some True)) (map mb_id users))))
          | _ \<Rightarrow> Inl ValidationError))"

subsection \<open>Offers\<close>

definition expire_offers :: "shift_caller \<Rightarrow> instant \<Rightarrow> roster \<Rightarrow> roster" where
  "expire_offers c now db = db\<lparr>ro_offers := update_where (\<lambda>f. of_org_id f = sc_org c \<and> of_status f = ''open'' \<and> of_expires_at f \<le> now)
     (\<lambda>f. f\<lparr>of_status := ''expired''\<rparr>) (ro_offers db)\<rparr>"

definition open_offer :: "shift_caller \<Rightarrow> instant \<Rightarrow> id \<Rightarrow> string field \<Rightarrow> string field \<Rightarrow> string field \<Rightarrow> int field \<Rightarrow> roster \<Rightarrow> roster result" where
  "open_offer c now newId shift_id date note expires_in db =
     (case (shift_id, date) of
        (Given sid, Given dt) \<Rightarrow>
          require (sid \<noteq> []) ValidationError
           (case parse_iso_date dt of None \<Rightarrow> Inl ValidationError
            | Some d \<Rightarrow>
               (let today = day_of_instant now; mins = (case expires_in of Given m \<Rightarrow> Some m | Bad \<Rightarrow> None | _ \<Rightarrow> Some 240);
                    text = (case note of Given n \<Rightarrow> Some (trim n) | _ \<Rightarrow> None)
                in require (today \<le> d) ValidationError
                 (require (d \<le> today + 90) ValidationError
                 (require (note \<noteq> Bad \<and> length (coalesce text []) \<le> 500) ValidationError
                 (require (\<exists>m. mins = Some m \<and> 5 \<le> m \<and> m \<le> 10080) ValidationError
                 (case shift_named (sc_org c) sid db of None \<Rightarrow> Inl NotFoundError
                  | Some s \<Rightarrow>
                     bind_result (eligibleEmployees (sc_org c) (sh_id s) d db) (\<lambda>recipients.
                      require (recipients \<noteq> []) ConflictError
                       (Inr (emit (map (\<lambda>u. Notify u ''emergency_shift_offer'' newId) recipients @ [OrgEvent ''shift_changed''])
                         (sched_event ''emergency_shift_opened'' (Some newId)
                           (db\<lparr>ro_offers := ro_offers db @ [\<lparr>of_id = newId, of_org_id = sc_org c, of_shift_id = sh_id s, of_date = d,
                              of_note = (if coalesce text [] = [] then None else text), of_status = ''open'',
                              of_expires_at = now + coalesce mins 0 * 60000, of_created_by = sc_user c, of_claimed_by = None, of_assignment_id = None\<rparr>]\<rparr>)))))))))))
      | _ \<Rightarrow> Inl ValidationError)"

definition offer_named :: "id \<Rightarrow> id \<Rightarrow> roster \<Rightarrow> offer option" where
  "offer_named orgId i db = find_first (\<lambda>f. of_id f = i \<and> of_org_id f = orgId) (ro_offers db)"

definition claim_plan :: "shift_caller \<Rightarrow> instant \<Rightarrow> id \<Rightarrow> roster \<Rightarrow> (offer \<times> shift_template) result" where
  "claim_plan c now i db =
     (case offer_named (sc_org c) i db of None \<Rightarrow> Inl NotFoundError
      | Some f \<Rightarrow>
         require (of_status f = ''open'' \<and> now < of_expires_at f) ConflictError
          (require (day_of_instant now \<le> of_date f) ConflictError
            (case find_first (\<lambda>s. sh_id s = of_shift_id f) (ro_shifts db) of None \<Rightarrow> Inl PlainError | Some s \<Rightarrow> Inr (f, s))))"

definition offer_claimable :: "shift_caller \<Rightarrow> instant \<Rightarrow> id \<Rightarrow> offer \<Rightarrow> bool" where
  "offer_claimable c now i f \<longleftrightarrow> of_id f = i \<and> of_org_id f = sc_org c \<and> of_status f = ''open'' \<and> now < of_expires_at f"

definition rest_violated :: "rat \<Rightarrow> int \<times> int \<Rightarrow> int \<times> int \<Rightarrow> bool" where
  "rest_violated rest new ex \<longleftrightarrow> overlaps (fst new) (snd new) (fst ex) (snd ex) \<or>
     (of_int (fst new - snd ex) < rest \<and> snd ex \<le> fst new) \<or> (of_int (fst ex - snd new) < rest \<and> snd new \<le> fst ex)"

text \<open>Checks are made one after the other: the first that conflicts, or whose times cannot be read, ends the claim.\<close>

fun no_conflict :: "bool option list \<Rightarrow> unit result" where
  "no_conflict [] = Inr ()"
| "no_conflict (None # xs) = Inl ValidationError"
| "no_conflict (Some True # xs) = Inl ConflictError"
| "no_conflict (Some False # xs) = no_conflict xs"

definition neighbor_conflict :: "offer \<Rightarrow> shift_template \<Rightarrow> int \<times> int \<Rightarrow> roster \<Rightarrow> assignment \<Rightarrow> bool option" where
  "neighbor_conflict f s new db a =
     (case find_first (\<lambda>t. sh_id t = as_shift_id a) (ro_shifts db) of None \<Rightarrow> None
      | Some t \<Rightarrow> (case shiftInterval (as_date a) (sh_start_time t) (sh_end_time t) of None \<Rightarrow> None
          | Some ex \<Rightarrow> Some (rest_violated (max (sh_min_rest_hours s) (sh_min_rest_hours t) * 3600000) new ex)))"

definition claim_checks :: "shift_caller \<Rightarrow> offer \<Rightarrow> shift_template \<Rightarrow> roster \<Rightarrow> member result" where
  "claim_checks c f s db =
     (case find_first (\<lambda>u. mb_id u = sc_user c \<and> mb_org_id u = sc_org c \<and> mb_is_active u \<and> mb_deleted_at u = None) (ad_members (ro_access db)) of
        None \<Rightarrow> Inl NotFoundError
      | Some u \<Rightarrow>
         require (\<not> (\<exists>a\<in>set (ro_assignments db). slot a = (sc_user c, of_date f))) ConflictError
          (require (\<not> has_leave_on (sc_user c) (of_date f) (ro_leaves db)) ConflictError
            (case (shiftInterval (of_date f) (sh_start_time s) (sh_end_time s), strict_mins (sh_start_time s), strict_mins (sh_end_time s)) of
               (Some new, Some st, Some en) \<Rightarrow>
                 (let blocked = map (rule_blocks (clock_ranges st en)) (filter (unavailable_on (sc_org c) (sc_user c) (of_date f)) (ro_availability db));
                      neighbors = map (neighbor_conflict f s new db) (filter (\<lambda>a. as_user_id a = sc_user c \<and> of_date f - 1 \<le> as_date a \<and> as_date a \<le> of_date f + 1) (ro_assignments db))
                  in bind_result (no_conflict blocked) (\<lambda>_. bind_result (no_conflict neighbors) (\<lambda>_. Inr u)))
             | _ \<Rightarrow> Inl ValidationError)))"

definition claim_commit :: "shift_caller \<Rightarrow> instant \<Rightarrow> id \<Rightarrow> offer \<times> shift_template \<Rightarrow> roster \<Rightarrow> roster result" where
  "claim_commit c now newId fs db =
     (let f = fst fs; i = of_id f in
      require (count_where (offer_claimable c now i) (ro_offers db) = 1) ConflictError
       (let db1 = db\<lparr>ro_offers := update_where (offer_claimable c now i) (\<lambda>x. x\<lparr>of_status := ''claimed'', of_claimed_by := Some (sc_user c)\<rparr>) (ro_offers db)\<rparr>
        in bind_result (claim_checks c f (snd fs) db1) (\<lambda>u.
           bind_result (insert_assignment (new_assignment newId (of_shift_id f) (sc_user c) (mb_primary_location_id u) (of_date f) True) db1) (\<lambda>db2.
             Inr (emit [Notify (sc_user c) ''emergency_shift_claimed'' newId, Notify (of_created_by f) ''emergency_shift_claimed'' newId, OrgEvent ''shift_changed'']
               (sched_event ''emergency_shift_claimed'' (Some i)
                 (db2\<lparr>ro_offers := update_where (\<lambda>x. of_id x = i) (\<lambda>x. x\<lparr>of_assignment_id := Some newId\<rparr>) (ro_offers db2)\<rparr>)))))))"

definition cancel_plan :: "shift_caller \<Rightarrow> id \<Rightarrow> roster \<Rightarrow> offer result" where
  "cancel_plan c i db =
     (case find_first (\<lambda>f. of_id f = i \<and> of_org_id f = sc_org c \<and> of_status f = ''open'') (ro_offers db) of None \<Rightarrow> Inl NotFoundError | Some f \<Rightarrow> Inr f)"

definition cancel_commit :: "offer \<Rightarrow> roster \<Rightarrow> roster" where
  "cancel_commit f db = emit [OrgEvent ''shift_changed''] (sched_event ''emergency_shift_cancelled'' (Some (of_id f))
     (db\<lparr>ro_offers := update_where (\<lambda>x. of_id x = of_id f) (\<lambda>x. x\<lparr>of_status := ''cancelled''\<rparr>) (ro_offers db)\<rparr>))"

subsection \<open>Checkpoints\<close>

record checkpoint_body =
  cb_name :: "string field"
  cb_instructions :: "string field"
  cb_sort_order :: "int field"
  cb_minimum_interval_mins :: "int field"
  cb_required :: "bool field"
  cb_active :: "bool field"

text \<open>\<open>Number(x)\<close> of a field: \<open>null\<close> counts as 0.\<close>

definition number_or :: "int \<Rightarrow> int field \<Rightarrow> int option" where
  "number_or d x = (case x of Absent \<Rightarrow> Some d | Null \<Rightarrow> Some 0 | Bad \<Rightarrow> None | Given n \<Rightarrow> Some n)"

definition name_ok :: "string \<Rightarrow> bool" where
  "name_ok n \<longleftrightarrow> trim n \<noteq> [] \<and> length (trim n) \<le> 100"

definition instructions_ok :: "string field \<Rightarrow> bool" where
  "instructions_ok x \<longleftrightarrow> (case x of Bad \<Rightarrow> False | Given t \<Rightarrow> length t \<le> 2000 | _ \<Rightarrow> True)"

definition trimmed_or_null :: "string field \<Rightarrow> string option" where
  "trimmed_or_null x = (case x of Given t \<Rightarrow> if trim t = [] then None else Some (trim t) | _ \<Rightarrow> None)"

definition order_ok :: "int option \<Rightarrow> bool" where
  "order_ok x \<longleftrightarrow> (\<exists>n. x = Some n \<and> 0 \<le> n)"

definition interval_ok :: "int option \<Rightarrow> bool" where
  "interval_ok x \<longleftrightarrow> (\<exists>n. x = Some n \<and> 0 \<le> n \<and> n \<le> 1440)"

definition create_checkpoint :: "shift_caller \<Rightarrow> id \<Rightarrow> string \<Rightarrow> id \<Rightarrow> checkpoint_body \<Rightarrow> roster \<Rightarrow> roster result" where
  "create_checkpoint c newId token shiftId b db =
     (let order = number_or 0 (cb_sort_order b); interval = number_or 0 (cb_minimum_interval_mins b) in
      case cb_name b of
        Given name \<Rightarrow>
          require (name_ok name) ValidationError (require (instructions_ok (cb_instructions b)) ValidationError
          (require (order_ok order) ValidationError (require (interval_ok interval) ValidationError
          (case shift_named (sc_org c) shiftId db of None \<Rightarrow> Inl NotFoundError
           | Some _ \<Rightarrow> require (token \<notin> ck_qr_token ` set (ro_checkpoints db)) ConflictError
              (Inr (emit [OrgEvent ''shift_changed''] (sched_event ''checkpoint_created'' (Some newId)
                (db\<lparr>ro_checkpoints := ro_checkpoints db @ [\<lparr>ck_id = newId, ck_org_id = sc_org c, ck_shift_id = shiftId, ck_name = trim name,
                   ck_instructions = trimmed_or_null (cb_instructions b), ck_sort_order = coalesce order 0, ck_required = (cb_required b \<noteq> Given False),
                   ck_minimum_interval_mins = coalesce interval 0, ck_qr_token = token, ck_active = (cb_active b \<noteq> Given False)\<rparr>]\<rparr>))))))))
      | _ \<Rightarrow> Inl ValidationError)"

definition checkpoint_named :: "id \<Rightarrow> id \<Rightarrow> id \<Rightarrow> roster \<Rightarrow> checkpoint option" where
  "checkpoint_named orgId shiftId i db = find_first (\<lambda>k. ck_id k = i \<and> ck_shift_id k = shiftId \<and> ck_org_id k = orgId) (ro_checkpoints db)"

definition flag_or :: "bool \<Rightarrow> bool field \<Rightarrow> bool" where
  "flag_or d x = (case x of Absent \<Rightarrow> d | Null \<Rightarrow> False | Bad \<Rightarrow> True | Given v \<Rightarrow> v)"

definition update_checkpoint :: "shift_caller \<Rightarrow> id \<Rightarrow> id \<Rightarrow> checkpoint_body \<Rightarrow> roster \<Rightarrow> roster result" where
  "update_checkpoint c shiftId i b db =
     (case checkpoint_named (sc_org c) shiftId i db of None \<Rightarrow> Inl NotFoundError
      | Some k \<Rightarrow>
         (let order = number_or (ck_sort_order k) (cb_sort_order b); interval = number_or (ck_minimum_interval_mins k) (cb_minimum_interval_mins b)
          in require (case cb_name b of Absent \<Rightarrow> True | Given n \<Rightarrow> name_ok n | _ \<Rightarrow> False) ValidationError
            (require (instructions_ok (cb_instructions b)) ValidationError
            (require (order_ok order \<and> interval_ok interval) ValidationError
             (Inr (emit [OrgEvent ''shift_changed''] (db\<lparr>ro_checkpoints := update_where (\<lambda>x. ck_id x = ck_id k)
               (\<lambda>x. x\<lparr>ck_name := (case cb_name b of Given n \<Rightarrow> trim n | _ \<Rightarrow> ck_name x),
                  ck_instructions := (if cb_instructions b = Absent then ck_instructions x else trimmed_or_null (cb_instructions b)),
                  ck_sort_order := coalesce order 0, ck_minimum_interval_mins := coalesce interval 0,
                  ck_required := flag_or (ck_required x) (cb_required b), ck_active := flag_or (ck_active x) (cb_active b)\<rparr>) (ro_checkpoints db)\<rparr>)))))))"

definition rotate_qr :: "shift_caller \<Rightarrow> string \<Rightarrow> id \<Rightarrow> id \<Rightarrow> roster \<Rightarrow> roster result" where
  "rotate_qr c token shiftId i db =
     (case checkpoint_named (sc_org c) shiftId i db of None \<Rightarrow> Inl NotFoundError
      | Some k \<Rightarrow> require (token \<notin> ck_qr_token ` set (ro_checkpoints db)) ConflictError
          (Inr (sched_event ''checkpoint_qr_rotated'' (Some (ck_id k)) (db\<lparr>ro_checkpoints := update_where (\<lambda>x. ck_id x = ck_id k) (\<lambda>x. x\<lparr>ck_qr_token := token\<rparr>) (ro_checkpoints db)\<rparr>))))"

definition delete_checkpoint :: "shift_caller \<Rightarrow> id \<Rightarrow> id \<Rightarrow> roster \<Rightarrow> roster result" where
  "delete_checkpoint c shiftId i db =
     (case checkpoint_named (sc_org c) shiftId i db of None \<Rightarrow> Inl NotFoundError
      | Some k \<Rightarrow> Inr (emit [OrgEvent ''shift_changed''] (sched_event ''checkpoint_deleted'' (Some (ck_id k))
          (db\<lparr>ro_checkpoints := filter (\<lambda>x. ck_id x \<noteq> ck_id k) (ro_checkpoints db),
              ro_scans := filter (\<lambda>n. sn_checkpoint_id n \<noteq> ck_id k) (ro_scans db)\<rparr>))))"

subsection \<open>Scans\<close>

definition CHECKPOINT_PREFIX :: string where
  "CHECKPOINT_PREFIX = ''attenda_checkpoint:''"

definition ascii_lower :: "char \<Rightarrow> char" where
  "ascii_lower ch = (let n = (of_char ch :: nat) in if 65 \<le> n \<and> n \<le> 90 then char_of (n + 32) else ch)"

definition scan_token :: "string \<Rightarrow> string" where
  "scan_token qr_code =
     (let raw = trim qr_code; n = length CHECKPOINT_PREFIX
      in if map ascii_lower (take n raw) = CHECKPOINT_PREFIX then drop n raw else raw)"

definition coordinate :: "rat field \<Rightarrow> rat option option" where
  "coordinate x = (case x of Given v \<Rightarrow> Some (Some v) | Bad \<Rightarrow> None | _ \<Rightarrow> Some None)"

definition in_bounds :: "rat \<Rightarrow> rat \<Rightarrow> rat option option \<Rightarrow> bool" where
  "in_bounds lo hi x \<longleftrightarrow> (case x of None \<Rightarrow> False | Some None \<Rightarrow> True | Some (Some v) \<Rightarrow> lo \<le> v \<and> v \<le> hi)"

record scan_body =
  sq_assignment_id :: string
  sq_qr_code :: string
  sq_latitude :: "rat field"
  sq_longitude :: "rat field"
  sq_accuracy_m :: "rat field"

definition scan_progress :: "id \<Rightarrow> id \<Rightarrow> roster \<Rightarrow> nat \<times> nat" where
  "scan_progress shiftId assignmentId db =
     (let active = filter (\<lambda>k. ck_shift_id k = shiftId \<and> ck_active k) (ro_checkpoints db)
      in (length (filter (\<lambda>k. ck_required k \<and> ck_id k \<in> sn_checkpoint_id ` set (filter (\<lambda>n. sn_assignment_id n = assignmentId) (ro_scans db))) active),
          length (filter ck_required active)))"

definition scan :: "shift_caller \<Rightarrow> instant \<Rightarrow> (instant option \<times> instant option) option \<Rightarrow> scan_body \<Rightarrow> roster \<Rightarrow> ((nat \<times> nat) \<times> roster) result" where
  "scan c now attendance b db =
     (let token = scan_token (sq_qr_code b); today = day_of_instant now in
      require (sq_assignment_id b \<noteq> [] \<and> token \<noteq> [] \<and> length token \<le> 64) ValidationError
      (case find_first (\<lambda>k. ck_qr_token k = token \<and> ck_org_id k = sc_org c \<and> ck_active k) (ro_checkpoints db) of None \<Rightarrow> Inl ValidationError
       | Some k \<Rightarrow>
          (case find_first (\<lambda>a. as_id a = sq_assignment_id b \<and> as_user_id a = sc_user c \<and> as_shift_id a = ck_shift_id k \<and> in_org (sc_org c) db a) (ro_assignments db) of
             None \<Rightarrow> Inl ConflictError
           | Some a \<Rightarrow>
              require (as_date a = today) ConflictError
              (require (\<exists>t. attendance = Some (Some t, None)) ConflictError
              (let last_scan = find_desc sn_scanned_at (\<lambda>n. sn_checkpoint_id n = ck_id k \<and> sn_assignment_id n = as_id a) (ro_scans db);
                   lat = coordinate (sq_latitude b); lon = coordinate (sq_longitude b); acc = coordinate (sq_accuracy_m b)
               in require (case last_scan of None \<Rightarrow> True | Some p \<Rightarrow> ck_minimum_interval_mins k \<le> 0 \<or> sn_scanned_at p + ck_minimum_interval_mins k * 60000 \<le> now) ConflictError
                 (require (in_bounds (-90) 90 lat) ValidationError (require (in_bounds (-180) 180 lon) ValidationError
                 (require (in_bounds 0 100000 acc) ValidationError
                  (let db1 = db\<lparr>ro_scans := ro_scans db @ [\<lparr>sn_checkpoint_id = ck_id k, sn_assignment_id = as_id a, sn_user_id = sc_user c, sn_scanned_at = now,
                         sn_latitude = coalesce lat None, sn_longitude = coalesce lon None, sn_accuracy_m = coalesce acc None\<rparr>]\<rparr>
                   in Inr (scan_progress (ck_shift_id k) (as_id a) db1, db1))))))))))"

subsection \<open>A claim is exclusive and leaves the required rest\<close>

lemma no_conflict_iff: "no_conflict xs = Inr u \<longleftrightarrow> (\<forall>x\<in>set xs. x = Some False)"
  by (induction xs rule: no_conflict.induct) auto

lemma strict_mins_bounds: "strict_mins s = Some m \<Longrightarrow> 0 \<le> m \<and> m \<le> 1439"
proof -
  assume "strict_mins s = Some m"
  then obtain h k :: nat where "h \<le> 23" "k \<le> 59" "m = int h * 60 + int k" by (auto simp: strict_mins_def split: list.splits if_splits)
  then show ?thesis by simp
qed

lemma shiftInterval_bounds:
  assumes "shiftInterval d st en = Some (s, e)"
  shows "d * day_ms \<le> s \<and> s < (d + 1) * day_ms \<and> s < e \<and> e < (d + 2) * day_ms"
proof -
  obtain a b where ab: "strict_mins st = Some a" "strict_mins en = Some b" "s = d * day_ms + a * 60000" "e = d * day_ms + end_mins a b * 60000"
    using assms by (auto simp: shiftInterval_def split: option.splits)
  have a: "0 \<le> a" "a \<le> 1439" and b: "0 \<le> b" "b \<le> 1439" using strict_mins_bounds ab(1,2) by blast+
  have e: "a < end_mins a b" "end_mins a b \<le> 2879" using a b by (auto simp: end_mins_def)
  then show ?thesis using a ab(3,4) by (simp add: day_ms_def distrib_right)
qed

lemma far_apart:
  assumes i: "shiftInterval d st en = Some (s, e)" and j: "shiftInterval d' st' en' = Some (s', e')" and far: "d + 2 \<le> d'"
  shows "e \<le> s'"
proof -
  have "e < (d + 2) * day_ms" using shiftInterval_bounds[OF i] by blast
  also have "\<dots> \<le> d' * day_ms" using far by (simp add: day_ms_def)
  also have "\<dots> \<le> s'" using shiftInterval_bounds[OF j] by blast
  finally show ?thesis by simp
qed

definition claim_act :: "id \<Rightarrow> shift_caller \<times> instant \<times> id \<times> offer \<times> shift_template \<Rightarrow> roster \<Rightarrow> roster result" where
  "claim_act i x db = (case x of (c, now, newId, f, s) \<Rightarrow>
     require (of_id f = i \<and> distinct (map of_id (ro_offers db))) PlainError (claim_commit c now newId (f, s) db))"

definition offered :: "id \<Rightarrow> roster \<Rightarrow> bool" where
  "offered i db \<longleftrightarrow> (\<exists>f\<in>set (ro_offers db). of_id f = i \<and> of_status f = ''open'')"

lemma claim_commit_rows:
  assumes "claim_commit c now newId (f, s) db = Inr db'"
  obtains u a where "count_where (offer_claimable c now (of_id f)) (ro_offers db) = 1"
    "claim_checks c f s (db\<lparr>ro_offers := update_where (offer_claimable c now (of_id f)) (\<lambda>x. x\<lparr>of_status := ''claimed'', of_claimed_by := Some (sc_user c)\<rparr>) (ro_offers db)\<rparr>) = Inr u"
    "a = new_assignment newId (of_shift_id f) (sc_user c) (mb_primary_location_id u) (of_date f) True" "slot a \<notin> slots db"
    "ro_assignments db' = ro_assignments db @ [a]"
    "ro_offers db' = update_where (\<lambda>x. of_id x = of_id f) (\<lambda>x. x\<lparr>of_assignment_id := Some newId\<rparr>)
       (update_where (offer_claimable c now (of_id f)) (\<lambda>x. x\<lparr>of_status := ''claimed'', of_claimed_by := Some (sc_user c)\<rparr>) (ro_offers db))"
  using assms by (auto simp: claim_commit_def Let_def insert_assignment_def slots_def emit_def sched_event_def)

lemma claim_act_consumes: "claim_act i x db = Inr db' \<Longrightarrow> offered i db \<and> \<not> offered i db'"
proof -
  assume run: "claim_act i x db = Inr db'"
  obtain c now newId f s where x: "x = (c, now, newId, f, s)" by (cases x)
  have i: "of_id f = i" "distinct (map of_id (ro_offers db))" "claim_commit c now newId (f, s) db = Inr db'" using run by (simp_all add: claim_act_def x)
  obtain u a where u: "count_where (offer_claimable c now i) (ro_offers db) = 1" and offers: "ro_offers db' = update_where (\<lambda>x. of_id x = i) (\<lambda>x. x\<lparr>of_assignment_id := Some newId\<rparr>)
       (update_where (offer_claimable c now i) (\<lambda>x. x\<lparr>of_status := ''claimed'', of_claimed_by := Some (sc_user c)\<rparr>) (ro_offers db))"
    by (rule claim_commit_rows[OF i(3)]) (simp add: i(1))
  obtain g where g: "g \<in> set (ro_offers db)" "offer_claimable c now i g" using u count_where_zero[of "offer_claimable c now i" "ro_offers db"] by auto
  have only: "offer_claimable c now i h" if "h \<in> set (ro_offers db)" "of_id h = i" for h
  proof -
    have "h = g" using that g i(2) by (metis offer_claimable_def distinct_map inj_onD)
    then show ?thesis using g(2) by simp
  qed
  have "of_status y \<noteq> ''open''" if y: "y \<in> set (ro_offers db')" "of_id y = i" for y
  proof -
    obtain z where z: "z \<in> set (update_where (offer_claimable c now i) (\<lambda>x. x\<lparr>of_status := ''claimed'', of_claimed_by := Some (sc_user c)\<rparr>) (ro_offers db))"
        "y = (if of_id z = i then z\<lparr>of_assignment_id := Some newId\<rparr> else z)" using update_where_E[OF y(1)[unfolded offers]] by blast
    obtain h where h: "h \<in> set (ro_offers db)" "z = (if offer_claimable c now i h then h\<lparr>of_status := ''claimed'', of_claimed_by := Some (sc_user c)\<rparr> else h)"
      using update_where_E[OF z(1)] by blast
    have "of_id h = i" using y(2) z(2) h(2) by (auto split: if_splits)
    then show ?thesis using only[OF h(1)] z(2) h(2) by (auto split: if_splits)
  qed
  then show ?thesis using g by (auto simp: offered_def offer_claimable_def)
qed

interpretation claims: single_shot "claim_act i" "offered i" for i
  by unfold_locales (rule claim_act_consumes)

text \<open>C35: a successful claim of an emergency shift gives it to the claimant alone (every later
  claim of the same offer is refused), the claimant is not on approved leave that day, and the new shift
  overlaps none of the claimant's other shifts and keeps the required rest to those of the neighbouring
  days.\<close>

theorem emergency_claim_safe:
  assumes run: "claim_act i (c, now, newId, f, s) db = Inr db'"
    and new: "shiftInterval (of_date f) (sh_start_time s) (sh_end_time s) = Some n"
    and b: "b \<in> set (ro_assignments db)" "as_user_id b = sc_user c"
    and t: "find_first (\<lambda>t. sh_id t = as_shift_id b) (ro_shifts db) = Some t" "shiftInterval (as_date b) (sh_start_time t) (sh_end_time t) = Some x"
  shows "fst (attempts (claim_act i) acts db') = 0 \<and> \<not> has_leave_on (sc_user c) (of_date f) (ro_leaves db) \<and>
    (\<exists>a. ro_assignments db' = ro_assignments db @ [a] \<and> as_id a = newId \<and> slot a = (sc_user c, of_date f) \<and> as_shift_id a = of_shift_id f) \<and>
    \<not> overlaps (fst n) (snd n) (fst x) (snd x) \<and>
    (\<bar>as_date b - of_date f\<bar> \<le> 1 \<longrightarrow> \<not> rest_violated (max (sh_min_rest_hours s) (sh_min_rest_hours t) * 3600000) n x)"
proof -
  have i: "of_id f = i" "claim_commit c now newId (f, s) db = Inr db'" using run by (simp_all add: claim_act_def)
  let ?db1 = "db\<lparr>ro_offers := update_where (offer_claimable c now i) (\<lambda>x. x\<lparr>of_status := ''claimed'', of_claimed_by := Some (sc_user c)\<rparr>) (ro_offers db)\<rparr>"
  obtain u a where checks: "claim_checks c f s ?db1 = Inr u" and a: "a = new_assignment newId (of_shift_id f) (sc_user c) (mb_primary_location_id u) (of_date f) True"
      "ro_assignments db' = ro_assignments db @ [a]"
    by (rule claim_commit_rows[OF i(2)]) (simp add: i(1))
  have none: "fst (attempts (claim_act i) acts db') = 0"
    using claims.blocked_attempts[of i db' acts] claim_act_consumes[OF run] by simp
  have leave: "\<not> has_leave_on (sc_user c) (of_date f) (ro_leaves db)"
    and neigh: "\<And>b. b \<in> set (ro_assignments db) \<Longrightarrow> as_user_id b = sc_user c \<Longrightarrow> of_date f - 1 \<le> as_date b \<Longrightarrow> as_date b \<le> of_date f + 1 \<Longrightarrow>
      neighbor_conflict f s n ?db1 b = Some False"
    using checks by (auto simp: claim_checks_def Let_def no_conflict_iff new split: option.splits)
  have near: "\<not> rest_violated (max (sh_min_rest_hours s) (sh_min_rest_hours t) * 3600000) n x" if "\<bar>as_date b - of_date f\<bar> \<le> 1"
    using neigh[OF b] that t by (simp add: neighbor_conflict_def)
  obtain n1 n2 where n: "n = (n1, n2)" by (cases n)
  obtain x1 x2 where x: "x = (x1, x2)" by (cases x)
  have "\<not> overlaps (fst n) (snd n) (fst x) (snd x)"
  proof (cases "\<bar>as_date b - of_date f\<bar> \<le> 1")
    case True
    then show ?thesis using near by (simp add: rest_violated_def)
  next
    case False
    then consider "of_date f + 2 \<le> as_date b" | "as_date b + 2 \<le> of_date f" by linarith
    then show ?thesis
    proof cases
      case 1
      then show ?thesis using far_apart[OF new[unfolded n] t(2)[unfolded x]] by (simp add: overlaps_def n x)
    next
      case 2
      then show ?thesis using far_apart[OF t(2)[unfolded x] new[unfolded n]] by (simp add: overlaps_def n x)
    qed
  qed
  then show ?thesis using none leave near a by (auto simp: new_assignment_def slot_def)
qed

definition ex_offer :: offer where
  "ex_offer = \<lparr>of_id = ''e'', of_org_id = ''o'', of_shift_id = ''a'', of_date = 20514, of_note = None, of_status = ''open'', of_expires_at = 100,
     of_created_by = ''m'', of_claimed_by = None, of_assignment_id = None\<rparr>"

definition ex_open :: "assignment list \<Rightarrow> roster" where
  "ex_open as = (ex_roster_day as [])\<lparr>ro_offers := [ex_offer]\<rparr>"

definition ex_employee :: shift_caller where
  "ex_employee = \<lparr>sc_user = ''u'', sc_org = ''o'', sc_permissions = {}\<rparr>"

definition ex_claimed :: roster where
  "ex_claimed = (case claim_act ''e'' (ex_employee, 0, ''n'', ex_offer, ex_template ''a'' True) (ex_open [new_assignment ''1'' ''b'' ''u'' None 20513 True]) of
     Inr db \<Rightarrow> db | Inl _ \<Rightarrow> ex_open [])"

theorem emergency_claim_safe_witness:
  "map as_id (ro_assignments ex_claimed) = [''1'', ''n''] \<and> fst (attempts (claim_act ''e'') [(ex_employee, 0, ''k'', ex_offer, ex_template ''a'' True)] ex_claimed) = 0 \<and>
   \<not> overlaps (20514 * day_ms + 540 * 60000) (20514 * day_ms + 1020 * 60000) (20513 * day_ms + 540 * 60000) (20513 * day_ms + 1020 * 60000)"
proof -
  let ?old = "new_assignment ''1'' ''b'' ''u'' None 20513 True"
  have ids: "map as_id (ro_assignments ex_claimed) = [''1'', ''n'']" by code_simp
  have run: "claim_act ''e'' (ex_employee, 0, ''n'', ex_offer, ex_template ''a'' True) (ex_open [?old]) = Inr ex_claimed"
    using ids by (auto simp: ex_claimed_def ex_open_def ex_roster_day_def split: sum.splits)
  have new: "shiftInterval (of_date ex_offer) (sh_start_time (ex_template ''a'' True)) (sh_end_time (ex_template ''a'' True)) =
      Some (20514 * day_ms + 540 * 60000, 20514 * day_ms + 1020 * 60000)" by code_simp
  have t: "find_first (\<lambda>t. sh_id t = as_shift_id ?old) (ro_shifts (ex_open [?old])) = Some (ex_template ''b'' False)"
    by (simp add: ex_open_def ex_roster_day_def ex_roster_def ex_template_def new_assignment_def)
  have old: "shiftInterval (as_date ?old) (sh_start_time (ex_template ''b'' False)) (sh_end_time (ex_template ''b'' False)) =
      Some (20513 * day_ms + 540 * 60000, 20513 * day_ms + 1020 * 60000)" by code_simp
  have b: "?old \<in> set (ro_assignments (ex_open [?old]))" "as_user_id ?old = sc_user ex_employee"
    by (simp_all add: ex_open_def ex_roster_day_def new_assignment_def ex_employee_def)
  from emergency_claim_safe[OF run new b t old, of "[(ex_employee, 0, ''k'', ex_offer, ex_template ''a'' True)]"] ids show ?thesis by simp
qed

subsection \<open>Findings\<close>

text \<open>A cancellation writes without looking at the status again: when a claim comes first, the offer ends cancelled
  although an employee was assigned through it.\<close>

lemma cancel_after_claim:
  "cancel_plan ex_caller ''e'' (ex_open []) = Inr ex_offer \<and>
   (case claim_act ''e'' (ex_employee, 0, ''n'', ex_offer, ex_template ''a'' True) (ex_open []) of
      Inr db \<Rightarrow> map of_status (ro_offers (cancel_commit ex_offer db)) = [''cancelled''] \<and> map as_id (ro_assignments (cancel_commit ex_offer db)) = [''n'']
    | Inl _ \<Rightarrow> False)"
  by code_simp

text \<open>The rest is checked against shifts of the neighbouring days only: a shift from 23:00 to 22:30 of the next day
  leaves 90 minutes before one that starts at midnight two days later.\<close>

lemma rest_not_checked_two_days_away:
  "(case claim_act ''e'' (ex_employee, 0, ''n'', ex_offer, (ex_template ''a'' True)\<lparr>sh_start_time := ''23:00'', sh_end_time := ''22:30''\<rparr>)
       ((ex_open [new_assignment ''1'' ''b'' ''u'' None 20516 True])\<lparr>ro_shifts := [(ex_template ''b'' True)\<lparr>sh_start_time := ''00:00''\<rparr>]\<rparr>) of
      Inr db \<Rightarrow> map as_id (ro_assignments db) = [''1'', ''n''] | Inl _ \<Rightarrow> False) \<and>
   rest_violated (11 * 3600000) (20514 * day_ms + 1380 * 60000, 20514 * day_ms + 2790 * 60000) (20516 * day_ms, 20516 * day_ms + 1020 * 60000)"
  by code_simp

text \<open>A scan takes the day of the clock in UTC, not that of the organisation: a scan on another UTC day than the date of
  the assignment is refused, also when it is made during the shift.\<close>

lemma scan_other_utc_day:
  assumes "scan c now att b db = Inr (p, db')"
  shows "\<exists>a\<in>set (ro_assignments db). as_id a = sq_assignment_id b \<and> as_user_id a = sc_user c \<and> as_date a = day_of_instant now"
proof -
  obtain k where k: "find_first (\<lambda>k. ck_qr_token k = scan_token (sq_qr_code b) \<and> ck_org_id k = sc_org c \<and> ck_active k) (ro_checkpoints db) = Some k"
    using assms by (auto simp: scan_def Let_def split: option.splits)
  obtain a where a: "find_first (\<lambda>a. as_id a = sq_assignment_id b \<and> as_user_id a = sc_user c \<and> as_shift_id a = ck_shift_id k \<and> in_org (sc_org c) db a) (ro_assignments db) = Some a"
      "as_date a = day_of_instant now"
    using assms by (auto simp: scan_def Let_def k split: option.splits)
  show ?thesis using find_first_Some[OF a(1)] a(2) by blast
qed

end
