(* ===== verification/Projects.thy ===== *)
theory Projects
  imports Access
begin

text \<open>
  Projects, their members and tasks: \<^verbatim>\<open>src/src/routes/projects.ts\<close> and
  \<^verbatim>\<open>src/src/services/projectGoalProgress.ts\<close>, without the attachments and the comments.

  A change of a task is a plan (what the handler reads and checks before its transaction) and a commit
  (the transaction, which locks the project while it looks for cycles among the dependencies).  Dates of a
  request body are values of \<open>field\<close>: \<open>Null\<close> for a falsy value, \<open>Bad\<close> for one that is no date.
\<close>

subsection \<open>Tables\<close>

record project_row =
  pj_id :: id
  pj_org_id :: id
  pj_owner_id :: id
  pj_name :: string
  pj_description :: "string option"
  pj_status :: string
  pj_status_options :: "string list"
  pj_priority :: string
  pj_budget_hours :: "rat option"
  pj_start_date :: "day option"
  pj_due_date :: "day option"

record project_task =
  pt_id :: id
  pt_project_id :: id
  pt_assignee_id :: "id option"
  pt_created_by :: id
  pt_title :: string
  pt_description :: "string option"
  pt_status :: string
  pt_priority :: string
  pt_due_date :: "day option"
  pt_start_date :: "day option"
  pt_parent_task_id :: "id option"
  pt_is_milestone :: bool
  pt_completed_at :: "instant option"
  pt_performance_goal_id :: "id option"

record performance_goal =
  pg_id :: id
  pg_user_id :: id
  pg_completion :: int

record project_db =
  pd_access :: access_db
  pd_projects :: "project_row list"
  pd_members :: "(id \<times> id \<times> string) list"
  pd_tasks :: "project_task list"
  pd_deps :: "(id \<times> id) list"
  pd_goals :: "performance_goal list"
  pd_log :: "effect list"

record project_caller =
  pc_user :: id
  pc_org :: id

definition logged :: "effect list \<Rightarrow> project_db \<Rightarrow> project_db" where
  "logged es db = db\<lparr>pd_log := pd_log db @ es\<rparr>"

definition project_named :: "id \<Rightarrow> id \<Rightarrow> project_db \<Rightarrow> project_row option" where
  "project_named orgId i db = find_first (\<lambda>p. pj_id p = i \<and> pj_org_id p = orgId) (pd_projects db)"

definition is_project_member :: "id \<Rightarrow> id \<Rightarrow> project_db \<Rightarrow> bool" where
  "is_project_member projectId userId db \<longleftrightarrow> (\<exists>m\<in>set (pd_members db). fst m = projectId \<and> fst (snd m) = userId)"

text \<open>\<open>project: { org_id }\<close> in a \<open>where\<close>: the project of the task belongs to the organisation.\<close>

definition task_named :: "id \<Rightarrow> id \<Rightarrow> project_db \<Rightarrow> project_task option" where
  "task_named orgId i db = find_first (\<lambda>t. pt_id t = i \<and> project_named orgId (pt_project_id t) db \<noteq> None) (pd_tasks db)"

definition task_in :: "id \<Rightarrow> id \<Rightarrow> project_db \<Rightarrow> bool" where
  "task_in projectId i db \<longleftrightarrow> (\<exists>t\<in>set (pd_tasks db). pt_id t = i \<and> pt_project_id t = projectId)"

definition permissions_of :: "project_caller \<Rightarrow> project_db \<Rightarrow> string set" where
  "permissions_of c db = resolveUserPermissions (pc_user c) (pc_org c) (pd_access db)"

definition canAccessProject :: "id \<Rightarrow> project_caller \<Rightarrow> project_db \<Rightarrow> bool" where
  "canAccessProject projectId c db \<longleftrightarrow> ''projects.manage'' \<in> permissions_of c db \<or> is_project_member projectId (pc_user c) db \<or>
     (\<exists>t\<in>set (pd_tasks db). pt_project_id t = projectId \<and> pt_assignee_id t = Some (pc_user c))"

definition PROJECT_STATUSES :: "string list" where
  "PROJECT_STATUSES = [''planning'', ''active'', ''on_hold'', ''completed'', ''cancelled'']"

definition PRIORITIES :: "string list" where
  "PRIORITIES = [''low'', ''medium'', ''high'', ''urgent'']"

definition trim_or_null :: "string option \<Rightarrow> string option" where
  "trim_or_null x = (if trim (coalesce x []) = [] then None else Some (trim (coalesce x [])))"

text \<open>\<open>parseDate\<close> of a field, and of a field that is written only when it is present.\<close>

definition date_or_null :: "day field \<Rightarrow> day option result" where
  "date_or_null x = (case x of Given d \<Rightarrow> Inr (Some d) | Bad \<Rightarrow> Inl ValidationError | _ \<Rightarrow> Inr None)"

definition date_or_old :: "day option \<Rightarrow> day field \<Rightarrow> day option result" where
  "date_or_old old x = (if x = Absent then Inr old else date_or_null x)"

definition budget_ok :: "rat field \<Rightarrow> bool" where
  "budget_ok x \<longleftrightarrow> (case x of Bad \<Rightarrow> False | Given h \<Rightarrow> 0 < h | _ \<Rightarrow> True)"

definition budget_of :: "rat option \<Rightarrow> rat field \<Rightarrow> rat option" where
  "budget_of old x = (case x of Absent \<Rightarrow> old | Given h \<Rightarrow> Some h | _ \<Rightarrow> None)"

subsection \<open>Projects and members\<close>

record project_body =
  jb_name :: "string option"
  jb_description :: "string option option"
  jb_status :: "string option"
  jb_priority :: "string option"
  jb_start_date :: "day field"
  jb_due_date :: "day field"
  jb_budget_hours :: "rat field"
  jb_member_ids :: "id list"
  jb_status_options :: "string list field"

definition create_project :: "project_caller \<Rightarrow> id \<Rightarrow> project_body \<Rightarrow> project_db \<Rightarrow> project_db result" where
  "create_project c newId b db =
     (let priority = coalesce (jb_priority b) ''medium''; uniqueMembers = remdups (pc_user c # jb_member_ids b) in
      require (trim (coalesce (jb_name b) []) \<noteq> []) ValidationError
      (require (priority \<in> set PRIORITIES) ValidationError
      (require (budget_ok (jb_budget_hours b)) ValidationError
      (require (count_where (\<lambda>u. mb_id u \<in> set uniqueMembers \<and> mb_org_id u = pc_org c \<and> mb_deleted_at u = None) (ad_members (pd_access db))
          = length uniqueMembers) ValidationError
      (bind_result (date_or_null (jb_start_date b)) (\<lambda>start. bind_result (date_or_null (jb_due_date b)) (\<lambda>due.
        Inr (logged [Audit ''project.create'' newId]
          (db\<lparr>pd_projects := pd_projects db @ [\<lparr>pj_id = newId, pj_org_id = pc_org c, pj_owner_id = pc_user c, pj_name = trim (coalesce (jb_name b) []),
               pj_description = trim_or_null (coalesce (jb_description b) None), pj_status = ''planning'',
               pj_status_options = [''todo'', ''in_progress'', ''blocked'', ''done''], pj_priority = priority,
               pj_budget_hours = budget_of None (jb_budget_hours b), pj_start_date = start, pj_due_date = due\<rparr>],
             pd_members := pd_members db @ map (\<lambda>u. (newId, u, if u = pc_user c then ''owner'' else ''member'')) uniqueMembers\<rparr>)))))))))"

definition status_name_ok :: "string \<Rightarrow> bool" where
  "status_name_ok s \<longleftrightarrow> (case s of [] \<Rightarrow> False
     | x # xs \<Rightarrow> is_lower x \<and> 1 \<le> length xs \<and> length xs \<le> 29 \<and> list_all (\<lambda>y. is_lower y \<or> is_digit y \<or> y = CHR ''_'') xs)"

definition status_options_ok :: "string list \<Rightarrow> bool" where
  "status_options_ok xs \<longleftrightarrow> 2 \<le> length xs \<and> length xs \<le> 12 \<and> ''todo'' \<in> set xs \<and> list_all status_name_ok xs \<and> distinct xs"

definition new_options :: "project_row \<Rightarrow> string list field \<Rightarrow> project_db \<Rightarrow> string list result" where
  "new_options p x db =
     (case x of Absent \<Rightarrow> Inr (pj_status_options p)
      | Given xs \<Rightarrow>
          require (status_options_ok xs) ValidationError
           (require (\<forall>t\<in>set (pd_tasks db). pt_project_id t = pj_id p \<longrightarrow> pt_status t \<in> set xs) ValidationError (Inr xs))
      | _ \<Rightarrow> Inl ValidationError)"

definition update_project :: "project_caller \<Rightarrow> id \<Rightarrow> project_body \<Rightarrow> project_db \<Rightarrow> project_db result" where
  "update_project c i b db =
     (case project_named (pc_org c) i db of None \<Rightarrow> Inl NotFoundError
      | Some p \<Rightarrow>
         (let status = coalesce (jb_status b) []; priority = coalesce (jb_priority b) [] in
          require (status = [] \<or> status \<in> set PROJECT_STATUSES) ValidationError
          (require (priority = [] \<or> priority \<in> set PRIORITIES) ValidationError
          (require (budget_ok (jb_budget_hours b)) ValidationError
          (bind_result (new_options p (jb_status_options b) db) (\<lambda>opts.
           bind_result (date_or_old (pj_start_date p) (jb_start_date b)) (\<lambda>start. bind_result (date_or_old (pj_due_date p) (jb_due_date b)) (\<lambda>due.
             Inr (logged [Audit ''project.update'' (pj_id p)]
               (db\<lparr>pd_projects := update_where (\<lambda>x. pj_id x = pj_id p)
                 (\<lambda>x. x\<lparr>pj_name := (case jb_name b of None \<Rightarrow> pj_name x | Some n \<Rightarrow> trim n),
                    pj_description := (case jb_description b of None \<Rightarrow> pj_description x | Some d \<Rightarrow> trim_or_null d),
                    pj_status := (if status = [] then pj_status x else status), pj_priority := (if priority = [] then pj_priority x else priority),
                    pj_start_date := start, pj_due_date := due, pj_budget_hours := budget_of (pj_budget_hours x) (jb_budget_hours b),
                    pj_status_options := opts\<rparr>) (pd_projects db)\<rparr>))))))))))"

definition add_member :: "project_caller \<Rightarrow> id \<Rightarrow> id \<Rightarrow> string option \<Rightarrow> project_db \<Rightarrow> project_db result" where
  "add_member c i userId role db =
     (case project_named (pc_org c) i db of None \<Rightarrow> Inl NotFoundError
      | Some p \<Rightarrow>
         require (\<exists>u\<in>set (ad_members (pd_access db)). mb_id u = userId \<and> mb_org_id u = pc_org c \<and> mb_deleted_at u = None) NotFoundError
          (let r = coalesce_str role ''member'' in
           Inr (logged [Audit ''project.member.add'' (pj_id p)]
             (db\<lparr>pd_members := (if is_project_member (pj_id p) userId db
                then update_where (\<lambda>m. fst m = pj_id p \<and> fst (snd m) = userId) (\<lambda>m. (pj_id p, userId, r)) (pd_members db)
                else pd_members db @ [(pj_id p, userId, r)])\<rparr>))))"

definition remove_member :: "project_caller \<Rightarrow> id \<Rightarrow> id \<Rightarrow> project_db \<Rightarrow> project_db result" where
  "remove_member c projectId userId db =
     (case project_named (pc_org c) projectId db of None \<Rightarrow> Inl NotFoundError
      | Some p \<Rightarrow>
         require (pj_owner_id p \<noteq> userId) ValidationError
         (require (is_project_member projectId userId db) NotFoundError
         (require (\<not> (\<exists>t\<in>set (pd_tasks db). pt_project_id t = projectId \<and> pt_assignee_id t = Some userId \<and> pt_status t \<noteq> ''done''))
            (AppError 409 ''PROJECT_MEMBER_HAS_OPEN_TASKS'')
           (Inr (logged [Audit ''project.member.remove'' projectId, OrgEvent ''project_changed'']
             (db\<lparr>pd_members := filter (\<lambda>m. \<not> (fst m = projectId \<and> fst (snd m) = userId)) (pd_members db)\<rparr>))))))"

subsection \<open>The search for cycles\<close>

text \<open>\<open>reachesTask\<close>: a depth-first search.  The set of visited tasks is shared by all calls that one search makes,
  so it is passed on and returned; \<open>reaches\<close> is \<open>some\<close> over a list of tasks.\<close>

definition next_tasks :: "(id \<times> id) list \<Rightarrow> id \<Rightarrow> id list" where
  "next_tasks edges n = map snd (filter (\<lambda>e. fst e = n) edges)"

lemma set_next_tasks [simp]: "x \<in> set (next_tasks edges n) \<longleftrightarrow> (n, x) \<in> set edges"
  by (force simp: next_tasks_def)

function reaches :: "(id \<times> id) list \<Rightarrow> id \<Rightarrow> id list \<Rightarrow> id list \<Rightarrow> bool \<times> id list" where
  "reaches edges t [] visited = (False, visited)"
| "reaches edges t (n # ns) visited =
     (if n = t then (True, visited)
      else if n \<in> set visited then reaches edges t ns visited
      else (let r = reaches edges t (next_tasks edges n) (n # visited)
            in if fst r then r else reaches edges t ns (snd r)))"
  by pat_completeness auto

lemma reaches_keeps_visited:
  "reaches_dom (edges, t, ns, visited) \<Longrightarrow> set visited \<subseteq> set (snd (reaches edges t ns visited))"
proof (induction edges t ns visited rule: reaches.pinduct)
  case (1 edges t visited)
  then show ?case by (simp add: reaches.psimps)
next
  case (2 edges t n ns visited)
  let ?r = "reaches edges t (next_tasks edges n) (n # visited)"
  show ?case
  proof (cases "n = t \<or> n \<in> set visited")
    case True
    then show ?thesis using 2(1,2) by (auto simp: reaches.psimps)
  next
    case False
    then have r: "set (n # visited) \<subseteq> set (snd ?r)" using 2(3) by blast
    moreover have "\<not> fst ?r \<Longrightarrow> set (snd ?r) \<subseteq> set (snd (reaches edges t ns (snd ?r)))" using 2(4)[OF _ _ refl] False by blast
    ultimately show ?thesis using 2(1) False by (auto simp: reaches.psimps Let_def)
  qed
qed

termination reaches
proof (relation "measures [\<lambda>(edges, t, ns, visited). card (fst ` set edges - set visited), \<lambda>(edges, t, ns, visited). length ns]", goal_cases)
  case (3 edges t n ns visited)
  show ?case
  proof (cases "n \<in> fst ` set edges")
    case True
    then have "fst ` set edges - set (n # visited) \<subset> fst ` set edges - set visited" using 3 by auto
    then have "card (fst ` set edges - set (n # visited)) < card (fst ` set edges - set visited)" by (intro psubset_card_mono) auto
    then show ?thesis by simp
  next
    case False
    then have "next_tasks edges n = []" by (force simp: next_tasks_def filter_empty_conv)
    moreover have "fst ` set edges - set (n # visited) = fst ` set edges - set visited" using False by auto
    ultimately show ?thesis by simp
  qed
next
  case (4 edges t n ns visited x)
  then have "set visited \<subseteq> set (snd x)" using reaches_keeps_visited[of edges t "next_tasks edges n" "n # visited"] by auto
  then have "card (fst ` set edges - set (snd x)) \<le> card (fst ` set edges - set visited)" by (intro card_mono) auto
  then show ?case by (cases "card (fst ` set edges - set (snd x)) = card (fst ` set edges - set visited)") auto
qed simp_all

definition reachesTask :: "(id \<times> id) list \<Rightarrow> id \<Rightarrow> id \<Rightarrow> bool" where
  "reachesTask edges t d = fst (reaches edges t [d] [])"

declare reaches.simps(2) [simp del]

lemma visited_grows: "set visited \<subseteq> set (snd (reaches edges t ns visited))"
proof (induction edges t ns visited rule: reaches.induct)
  case (2 edges t n ns visited)
  show ?case using 2(1) 2(2) 2(3)[OF _ _ refl] by (cases "n = t \<or> n \<in> set visited") (auto simp: reaches.simps(2)[of edges t n] Let_def)
qed simp

lemma visited_once:
  "distinct visited \<Longrightarrow> distinct (snd (reaches edges t ns visited)) \<and>
     set (snd (reaches edges t ns visited)) \<subseteq> set visited \<union> set ns \<union> snd ` set edges"
proof (induction edges t ns visited rule: reaches.induct)
  case (2 edges t n ns visited)
  have next_in: "set (next_tasks edges n) \<subseteq> snd ` set edges" by (auto simp: next_tasks_def)
  let ?r = "reaches edges t (next_tasks edges n) (n # visited)"
  show ?case
  proof (cases "n = t \<or> n \<in> set visited")
    case True
    then show ?thesis using 2 by (cases "n = t") (auto simp: reaches.simps(2))
  next
    case False
    then have r: "distinct (snd ?r)" "set (snd ?r) \<subseteq> insert n (set visited) \<union> snd ` set edges" using 2(2,4) next_in by auto
    show ?thesis
    proof (cases "fst ?r")
      case True
      then show ?thesis using r False by (auto simp: reaches.simps(2)[of edges t n] Let_def)
    next
      case f: False
      have "distinct (snd (reaches edges t ns (snd ?r))) \<and> set (snd (reaches edges t ns (snd ?r))) \<subseteq> set (snd ?r) \<union> set ns \<union> snd ` set edges"
        using 2(3)[OF _ _ refl f r(1)] False by blast
      moreover have "snd (reaches edges t (n # ns) visited) = snd (reaches edges t ns (snd ?r))" using False f by (simp add: reaches.simps(2)[of edges t n] Let_def)
      ultimately show ?thesis using r(2) by auto
    qed
  qed
qed simp

lemma reaches_sound: "fst (reaches edges t ns visited) \<Longrightarrow> \<exists>n\<in>set ns. (n, t) \<in> (set edges)\<^sup>*"
proof (induction edges t ns visited rule: reaches.induct)
  case (2 edges t n ns visited)
  let ?r = "reaches edges t (next_tasks edges n) (n # visited)"
  show ?case
  proof (cases "n = t \<or> n \<in> set visited")
    case True
    then show ?thesis using 2(1,4) by (auto simp: reaches.simps(2)[of edges t n] split: if_splits)
  next
    case False
    show ?thesis
    proof (cases "fst ?r")
      case True
      then obtain m where "(n, m) \<in> set edges" "(m, t) \<in> (set edges)\<^sup>*" using 2(2) False by auto
      then show ?thesis by (auto intro: converse_rtrancl_into_rtrancl)
    next
      case f: False
      then have "fst (reaches edges t ns (snd ?r))" using 2(4) False by (simp add: reaches.simps(2)[of edges t n] Let_def)
      then show ?thesis using 2(3)[OF _ _ refl f] False by auto
    qed
  qed
qed simp

lemma reaches_closed:
  "\<not> fst (reaches edges t ns visited) \<Longrightarrow> set ns \<subseteq> set (snd (reaches edges t ns visited)) \<and>
     (\<forall>x\<in>set (snd (reaches edges t ns visited)) - set visited. x \<noteq> t \<and> set (next_tasks edges x) \<subseteq> set (snd (reaches edges t ns visited)))"
proof (induction edges t ns visited rule: reaches.induct)
  case (2 edges t n ns visited)
  let ?r = "reaches edges t (next_tasks edges n) (n # visited)"
  have nt: "n \<noteq> t" using 2(4) by (auto simp: reaches.simps(2)[of edges t n])
  show ?case
  proof (cases "n \<in> set visited")
    case True
    then have eq: "reaches edges t (n # ns) visited = reaches edges t ns visited" using nt by (simp add: reaches.simps(2)[of edges t n])
    show ?thesis using 2(1)[OF nt True] 2(4) visited_grows[of visited edges t ns] True unfolding eq by auto
  next
    case False
    have f: "\<not> fst ?r" using 2(4) nt False by (auto simp: reaches.simps(2)[of edges t n] Let_def split: if_splits)
    then have eq: "reaches edges t (n # ns) visited = reaches edges t ns (snd ?r)" using nt False by (simp add: reaches.simps(2)[of edges t n] Let_def)
    let ?s = "reaches edges t ns (snd ?r)"
    have r: "set (next_tasks edges n) \<subseteq> set (snd ?r)" "\<And>x. x \<in> set (snd ?r) - set (n # visited) \<Longrightarrow> x \<noteq> t \<and> set (next_tasks edges x) \<subseteq> set (snd ?r)"
      using 2(2)[OF nt False f] by blast+
    have s: "set ns \<subseteq> set (snd ?s)" "\<And>x. x \<in> set (snd ?s) - set (snd ?r) \<Longrightarrow> x \<noteq> t \<and> set (next_tasks edges x) \<subseteq> set (snd ?s)"
      using 2(3)[OF nt False refl f] 2(4) unfolding eq by blast+
    have grow: "set (snd ?r) \<subseteq> set (snd ?s)" "n \<in> set (snd ?r)" using visited_grows[of "snd ?r" edges t ns] visited_grows[of "n # visited" edges t "next_tasks edges n"] by auto
    have "x \<noteq> t \<and> set (next_tasks edges x) \<subseteq> set (snd ?s)" if x: "x \<in> set (snd ?s) - set visited" for x
    proof (cases "x \<in> set (snd ?r)")
      case False
      then show ?thesis using s(2) x by blast
    next
      case True
      then show ?thesis using r grow nt x by (cases "x = n") auto
    qed
    then show ?thesis unfolding eq using s(1) grow by auto
  qed
qed simp

lemma reachesTask_iff: "reachesTask edges t d \<longleftrightarrow> (d, t) \<in> (set edges)\<^sup>*"
proof
  assume "reachesTask edges t d"
  then show "(d, t) \<in> (set edges)\<^sup>*" using reaches_sound[of edges t "[d]" "[]"] by (simp add: reachesTask_def)
next
  assume path: "(d, t) \<in> (set edges)\<^sup>*"
  show "reachesTask edges t d"
  proof (rule ccontr)
    assume "\<not> reachesTask edges t d"
    then have f: "\<not> fst (reaches edges t [d] [])" by (simp add: reachesTask_def)
    let ?v = "set (snd (reaches edges t [d] []))"
    have v: "d \<in> ?v" "\<And>x. x \<in> ?v \<Longrightarrow> x \<noteq> t \<and> set (next_tasks edges x) \<subseteq> ?v" using reaches_closed[OF f] by auto
    have "y \<in> ?v" if "(d, y) \<in> (set edges)\<^sup>*" for y
      using that
    proof induction
      case base
      show ?case by (rule v(1))
    next
      case (step y z)
      then have "z \<in> set (next_tasks edges y)" by simp
      then show ?case using v(2)[OF step.IH] by blast
    qed
    then show False using v(2) path by blast
  qed
qed

text \<open>C39: on every graph of dependencies, cyclic ones included, the recursive search comes to
  an end: it enters each task at most once, so at most as many tasks as there are; and its answer is
  whether the task can be reached.\<close>

theorem cycle_search_terminates:
  "distinct (snd (reaches edges t [d] [])) \<and> length (snd (reaches edges t [d] [])) \<le> card (insert d (snd ` set edges)) \<and>
   (reachesTask edges t d \<longleftrightarrow> (d, t) \<in> (set edges)\<^sup>*)"
proof -
  let ?v = "snd (reaches edges t [d] [])"
  have v: "distinct ?v" "set ?v \<subseteq> insert d (snd ` set edges)" using visited_once[of "[]" edges t "[d]"] by auto
  then have "length ?v \<le> card (insert d (snd ` set edges))" by (metis card_mono distinct_card finite_imageI finite_insert finite_set)
  then show ?thesis using v(1) reachesTask_iff by blast
qed

subsection \<open>Progress of a goal\<close>

definition org_user :: "id \<Rightarrow> id \<Rightarrow> project_db \<Rightarrow> bool" where
  "org_user orgId userId db \<longleftrightarrow> (\<exists>u\<in>set (ad_members (pd_access db)). mb_id u = userId \<and> mb_org_id u = orgId)"

definition goal_named :: "id \<Rightarrow> id \<Rightarrow> project_db \<Rightarrow> performance_goal option" where
  "goal_named orgId i db = find_first (\<lambda>g. pg_id g = i \<and> org_user orgId (pg_user_id g) db) (pd_goals db)"

definition linked_tasks :: "id \<Rightarrow> id \<Rightarrow> project_db \<Rightarrow> project_task list" where
  "linked_tasks orgId goalId db = filter (\<lambda>t. pt_performance_goal_id t = Some goalId \<and> project_named orgId (pt_project_id t) db \<noteq> None) (pd_tasks db)"

definition goal_completion :: "project_task list \<Rightarrow> int" where
  "goal_completion ts = (if ts = [] then 0
     else js_round (of_nat (count_where (\<lambda>t. pt_status t = ''done'') ts) * 100 / of_nat (length ts)))"

definition refreshProjectGoalProgress :: "id \<Rightarrow> id \<Rightarrow> project_db \<Rightarrow> project_db" where
  "refreshProjectGoalProgress goalId orgId db =
     (case goal_named orgId goalId db of None \<Rightarrow> db
      | Some g \<Rightarrow> db\<lparr>pd_goals := update_where (\<lambda>x. pg_id x = pg_id g \<and> org_user orgId (pg_user_id x) db)
          (\<lambda>x. x\<lparr>pg_completion := goal_completion (linked_tasks orgId (pg_id g) db)\<rparr>) (pd_goals db)\<rparr>)"

subsection \<open>Tasks\<close>

record task_body =
  kb_title :: "string option"
  kb_description :: "string option option"
  kb_status :: "string option"
  kb_priority :: "string option"
  kb_assignee_id :: "id option option"
  kb_start_date :: "day field"
  kb_due_date :: "day field"
  kb_performance_goal_id :: "id option"
  kb_parent_task_id :: "id option"
  kb_depends_on_ids :: "id list field"
  kb_is_milestone :: "bool option"

text \<open>An id that counts as absent when it is empty (a falsy string).\<close>

definition id_or_null :: "id option \<Rightarrow> id option" where
  "id_or_null x = (if coalesce x [] = [] then None else x)"

definition deps_in :: "id \<Rightarrow> id list \<Rightarrow> project_db \<Rightarrow> bool" where
  "deps_in projectId ds db \<longleftrightarrow> count_where (\<lambda>t. pt_id t \<in> set ds \<and> pt_project_id t = projectId) (pd_tasks db) = length ds"

definition create_task_plan :: "project_caller \<Rightarrow> id \<Rightarrow> id \<Rightarrow> task_body \<Rightarrow> project_db \<Rightarrow> (project_task \<times> id list) result" where
  "create_task_plan c newId i b db =
     (case project_named (pc_org c) i db of None \<Rightarrow> Inl NotFoundError
      | Some p \<Rightarrow>
         (let assignee = id_or_null (coalesce (kb_assignee_id b) None); goal = id_or_null (kb_performance_goal_id b); parent = id_or_null (kb_parent_task_id b);
              priority = coalesce (kb_priority b) ''medium'' in
          require (trim (coalesce (kb_title b) []) \<noteq> []) ValidationError
          (require (priority \<in> set PRIORITIES) ValidationError
          (require (case assignee of None \<Rightarrow> True | Some a \<Rightarrow> is_project_member (pj_id p) a db) ValidationError
          (require (case goal of None \<Rightarrow> True | Some g \<Rightarrow> (case goal_named (pc_org c) g db of None \<Rightarrow> False | Some row \<Rightarrow> assignee = None \<or> assignee = Some (pg_user_id row))) ValidationError
          (require (case parent of None \<Rightarrow> True | Some q \<Rightarrow> task_in (pj_id p) q db) NotFoundError
          (require (kb_depends_on_ids b \<notin> {Null, Bad}) ValidationError
          (let ds = (case kb_depends_on_ids b of Given xs \<Rightarrow> remdups xs | _ \<Rightarrow> []) in
           require (ds = [] \<or> deps_in (pj_id p) ds db) ValidationError
           (bind_result (date_or_null (kb_start_date b)) (\<lambda>start. bind_result (date_or_null (kb_due_date b)) (\<lambda>due.
             Inr (\<lparr>pt_id = newId, pt_project_id = pj_id p, pt_assignee_id = assignee, pt_created_by = pc_user c, pt_title = trim (coalesce (kb_title b) []),
               pt_description = trim_or_null (coalesce (kb_description b) None), pt_status = ''todo'', pt_priority = priority, pt_due_date = due,
               pt_start_date = start, pt_parent_task_id = parent, pt_is_milestone = coalesce (kb_is_milestone b) False, pt_completed_at = None,
               pt_performance_goal_id = goal\<rparr>, ds))))))))))))"

definition task_events :: "id \<Rightarrow> id option \<Rightarrow> id \<Rightarrow> effect list" where
  "task_events actor assignee i = (case assignee of None \<Rightarrow> [] | Some a \<Rightarrow> if a = actor then [] else [Notify a ''project_task_assigned'' i])"

definition create_task_commit :: "project_caller \<Rightarrow> project_task \<times> id list \<Rightarrow> project_db \<Rightarrow> project_db result" where
  "create_task_commit c x db =
     (let t = fst x in
      require (pt_id t \<notin> pt_id ` set (pd_tasks db)) ConflictError
       (Inr (logged ([Audit ''project.task.create'' (pt_id t)] @ task_events (pc_user c) (pt_assignee_id t) (pt_id t) @ [OrgEvent ''project_changed''])
         (db\<lparr>pd_tasks := pd_tasks db @ [t], pd_deps := pd_deps db @ map (Pair (pt_id t)) (snd x)\<rparr>))))"

record task_change =
  tg_task :: project_task
  tg_manage :: bool
  tg_deps :: "id list option"
  tg_start_date :: "day option option"
  tg_due_date :: "day option option"

definition date_change :: "bool \<Rightarrow> day field \<Rightarrow> day option option result" where
  "date_change canManage x = (if canManage \<and> x \<noteq> Absent then bind_result (date_or_null x) (\<lambda>d. Inr (Some d)) else Inr None)"

definition new_deps :: "bool \<Rightarrow> project_task \<Rightarrow> id list field \<Rightarrow> project_db \<Rightarrow> id list option result" where
  "new_deps canManage t x db =
     (if canManage then
       (case x of Absent \<Rightarrow> Inr None
        | Given ds \<Rightarrow> require (pt_id t \<notin> set ds) ValidationError
            (require (ds = [] \<or> deps_in (pt_project_id t) (remdups ds) db) ValidationError (Inr (Some (remdups ds))))
        | _ \<Rightarrow> Inl ValidationError)
      else Inr None)"

definition update_task_plan :: "project_caller \<Rightarrow> id \<Rightarrow> task_body \<Rightarrow> project_db \<Rightarrow> task_change result" where
  "update_task_plan c i b db =
     (case task_named (pc_org c) i db of None \<Rightarrow> Inl NotFoundError
      | Some t \<Rightarrow>
         (let canManage = (''projects.tasks.manage'' \<in> permissions_of c db); status = coalesce (kb_status b) []; priority = coalesce (kb_priority b) [];
              options = (case project_named (pc_org c) (pt_project_id t) db of None \<Rightarrow> [] | Some p \<Rightarrow> pj_status_options p) in
          require (canManage \<or> pt_assignee_id t = Some (pc_user c)) NotFoundError
          (require (status = [] \<or> status \<in> set options) ValidationError
          (require (priority = [] \<or> priority \<in> set PRIORITIES) ValidationError
          (bind_result (new_deps canManage t (kb_depends_on_ids b) db) (\<lambda>ds.
           require (canManage \<longrightarrow> (case id_or_null (coalesce (kb_assignee_id b) None) of None \<Rightarrow> True | Some a \<Rightarrow> is_project_member (pt_project_id t) a db)) ValidationError
           (bind_result (date_change canManage (kb_start_date b)) (\<lambda>start. bind_result (date_change canManage (kb_due_date b)) (\<lambda>due.
             Inr \<lparr>tg_task = t, tg_manage = canManage, tg_deps = ds, tg_start_date = start, tg_due_date = due\<rparr>)))))))))"

definition written_task :: "instant \<Rightarrow> task_change \<Rightarrow> task_body \<Rightarrow> project_task \<Rightarrow> project_task" where
  "written_task now g b x =
     (let status = coalesce (kb_status b) []; priority = coalesce (kb_priority b) [];
          y = (if status = [] then x else x\<lparr>pt_status := status, pt_completed_at := (if status = ''done'' then Some now else None)\<rparr>)
      in if tg_manage g
         then y\<lparr>pt_title := (case kb_title b of None \<Rightarrow> pt_title y | Some s \<Rightarrow> trim s),
             pt_description := (case kb_description b of None \<Rightarrow> pt_description y | Some d \<Rightarrow> trim_or_null d),
             pt_priority := (if priority = [] then pt_priority y else priority),
             pt_assignee_id := (case kb_assignee_id b of None \<Rightarrow> pt_assignee_id y | Some a \<Rightarrow> id_or_null a),
             pt_start_date := coalesce (tg_start_date g) (pt_start_date y), pt_due_date := coalesce (tg_due_date g) (pt_due_date y),
             pt_is_milestone := coalesce (kb_is_milestone b) (pt_is_milestone y)\<rparr>
         else y)"

text \<open>The edges among which the transaction looks for a way back to the task.\<close>

definition other_edges :: "project_task \<Rightarrow> project_db \<Rightarrow> (id \<times> id) list" where
  "other_edges t db = filter (\<lambda>e. task_in (pt_project_id t) (fst e) db \<and> fst e \<noteq> pt_id t) (pd_deps db)"

definition closes_cycle :: "project_task \<Rightarrow> id list option \<Rightarrow> project_db \<Rightarrow> bool" where
  "closes_cycle t ds db \<longleftrightarrow> (case ds of None \<Rightarrow> False | Some xs \<Rightarrow> list_ex (reachesTask (other_edges t db) (pt_id t)) xs)"

definition replaced_deps :: "project_task \<Rightarrow> id list option \<Rightarrow> (id \<times> id) list \<Rightarrow> (id \<times> id) list" where
  "replaced_deps t ds es = (case ds of None \<Rightarrow> es | Some xs \<Rightarrow> filter (\<lambda>e. fst e \<noteq> pt_id t) es @ map (Pair (pt_id t)) xs)"

text \<open>\<open>Object.keys(updateData).length > 0\<close>: only then is the change audited.\<close>

definition has_changes :: "task_change \<Rightarrow> task_body \<Rightarrow> bool" where
  "has_changes g b \<longleftrightarrow> coalesce (kb_status b) [] \<noteq> [] \<or>
     (tg_manage g \<and> (kb_title b \<noteq> None \<or> kb_description b \<noteq> None \<or> coalesce (kb_priority b) [] \<noteq> [] \<or> kb_assignee_id b \<noteq> None \<or>
        kb_start_date b \<noteq> Absent \<or> kb_due_date b \<noteq> Absent \<or> kb_is_milestone b \<noteq> None \<or> tg_deps g \<noteq> None))"

definition update_task_commit :: "project_caller \<Rightarrow> instant \<Rightarrow> task_change \<Rightarrow> task_body \<Rightarrow> project_db \<Rightarrow> project_db result" where
  "update_task_commit c now g b db =
     (let t = tg_task g; status = coalesce (kb_status b) []; assignee = id_or_null (coalesce (kb_assignee_id b) None) in
      require (\<not> closes_cycle t (tg_deps g) db) ValidationError
      (require (pt_id t \<in> pt_id ` set (pd_tasks db)) PlainError
       (let db1 = db\<lparr>pd_tasks := update_where (\<lambda>x. pt_id x = pt_id t) (written_task now g b) (pd_tasks db),
                     pd_deps := replaced_deps t (tg_deps g) (pd_deps db)\<rparr>;
            goal = (case find_first (\<lambda>x. pt_id x = pt_id t) (pd_tasks db1) of None \<Rightarrow> None | Some x \<Rightarrow> id_or_null (pt_performance_goal_id x));
            db2 = (case goal of None \<Rightarrow> db1 | Some gid \<Rightarrow> refreshProjectGoalProgress gid (pc_org c) db1);
            told = (if tg_manage g \<and> assignee \<noteq> pt_assignee_id t then task_events (pc_user c) assignee (pt_id t) else []);
            changed = (case pt_assignee_id t of None \<Rightarrow> [] | Some a \<Rightarrow>
              if status \<noteq> [] \<and> status \<noteq> pt_status t \<and> a \<noteq> pc_user c then [Notify a ''project_task_updated'' (pt_id t)] else [])
        in Inr (logged ((if has_changes g b then [Audit ''project.task.update'' (pt_id t)] else []) @ told @ changed @ [OrgEvent ''project_changed'']) db2))))"

subsection \<open>Dependencies stay free of cycles\<close>

text \<open>The states the handlers leave: task ids are unique, a task depends on tasks of its own project, and never,
  directly or through others, on itself.\<close>

definition project_of :: "id \<Rightarrow> project_db \<Rightarrow> id option" where
  "project_of i db = map_option pt_project_id (find_first (\<lambda>t. pt_id t = i) (pd_tasks db))"

definition deps_ok :: "project_db \<Rightarrow> bool" where
  "deps_ok db \<longleftrightarrow> distinct (map pt_id (pd_tasks db)) \<and>
     (\<forall>e\<in>set (pd_deps db). project_of (fst e) db \<noteq> None \<and> project_of (snd e) db = project_of (fst e) db) \<and>
     acyclic (set (pd_deps db))"

lemma cut_path: "(d, t) \<in> (E \<union> {t} \<times> D)\<^sup>* \<Longrightarrow> (d, t) \<in> E\<^sup>*"
proof (induction rule: converse_rtrancl_induct)
  case (step x y)
  then show ?case by (cases "x = t") (auto intro: converse_rtrancl_into_rtrancl)
qed simp

lemma acyclic_star:
  assumes "finite D" and "acyclic E" and "\<And>d. d \<in> D \<Longrightarrow> (d, t) \<notin> E\<^sup>*"
  shows "acyclic (E \<union> {t} \<times> D)"
  using assms
proof (induction D rule: finite_induct)
  case (insert d D)
  have "(d, t) \<notin> (E \<union> {t} \<times> D)\<^sup>*" using cut_path[of d t E D] insert.prems(2) by blast
  moreover have "E \<union> {t} \<times> insert d D = insert (t, d) (E \<union> {t} \<times> D)" by auto
  ultimately show ?case using insert by (simp only: acyclic_insert) blast
qed simp

lemma star_cycle: "d \<in> D \<Longrightarrow> (d, t) \<in> E\<^sup>* \<Longrightarrow> \<not> acyclic (E \<union> {t} \<times> D)"
proof -
  assume d: "d \<in> D" and path: "(d, t) \<in> E\<^sup>*"
  have "(d, t) \<in> (E \<union> {t} \<times> D)\<^sup>*" using path rtrancl_mono[of E "E \<union> {t} \<times> D"] by blast
  then have "(t, t) \<in> (E \<union> {t} \<times> D)\<^sup>+" using d by (intro rtrancl_into_trancl2) auto
  then show ?thesis by (auto simp: acyclic_def)
qed

text \<open>Paths within a project use edges of the project only, so the search sees all that matter.\<close>

lemma project_path:
  assumes same: "\<And>x y. (x, y) \<in> E \<Longrightarrow> proj y = proj x" and path: "(d, t) \<in> E\<^sup>*"
  shows "(d, t) \<in> {e \<in> E. proj (fst e) = proj t}\<^sup>*"
proof -
  have "proj d = proj t \<and> (d, t) \<in> {e \<in> E. proj (fst e) = proj t}\<^sup>*"
    using path
  proof (induction rule: converse_rtrancl_induct)
    case (step x y)
    then show ?case using same[OF step.hyps(1)] by (auto intro: converse_rtrancl_into_rtrancl)
  qed simp
  then show ?thesis by blast
qed

lemma task_in_iff: "distinct (map pt_id (pd_tasks db)) \<Longrightarrow> task_in p i db \<longleftrightarrow> project_of i db = Some p"
proof -
  assume d: "distinct (map pt_id (pd_tasks db))"
  show ?thesis
  proof (cases "find_first (\<lambda>t. pt_id t = i) (pd_tasks db)")
    case None
    then have "\<forall>t\<in>set (pd_tasks db). pt_id t \<noteq> i" by (simp add: find_first_def find_None_iff)
    then show ?thesis using None by (auto simp: task_in_def project_of_def)
  next
    case (Some t)
    then have t: "t \<in> set (pd_tasks db)" "pt_id t = i" by (auto simp: find_first_def find_Some_iff)
    have "u = t" if "u \<in> set (pd_tasks db)" "pt_id u = i" for u using that t d by (metis distinct_map inj_onD)
    then have "task_in p i db \<longleftrightarrow> pt_project_id t = p" using t unfolding task_in_def by blast
    then show ?thesis using Some by (simp add: project_of_def)
  qed
qed

lemma replaced_set: "set (replaced_deps t (Some ds) es) = {e \<in> set es. fst e \<noteq> pt_id t} \<union> {pt_id t} \<times> set ds"
  by (auto simp: replaced_deps_def)

lemma closes_cycle_iff:
  assumes ok: "deps_ok db" and t: "project_of (pt_id t) db = Some (pt_project_id t)"
  shows "closes_cycle t (Some ds) db \<longleftrightarrow> (\<exists>d\<in>set ds. (d, pt_id t) \<in> {e \<in> set (pd_deps db). fst e \<noteq> pt_id t}\<^sup>*)"
proof -
  let ?E = "{e \<in> set (pd_deps db). fst e \<noteq> pt_id t}"
  have other: "set (other_edges t db) = {e \<in> ?E. project_of (fst e) db = project_of (pt_id t) db}"
    using ok t by (auto simp: other_edges_def task_in_iff deps_ok_def)
  have same: "\<And>x y. (x, y) \<in> ?E \<Longrightarrow> project_of y db = project_of x db" using ok by (auto simp: deps_ok_def)
  have "(d, pt_id t) \<in> (set (other_edges t db))\<^sup>* \<longleftrightarrow> (d, pt_id t) \<in> ?E\<^sup>*" for d
    unfolding other using project_path[of ?E "\<lambda>i. project_of i db", OF same] rtrancl_mono[of "{e \<in> ?E. project_of (fst e) db = project_of (pt_id t) db}" ?E] by blast
  then show ?thesis by (simp add: closes_cycle_def list_ex_iff reachesTask_iff)
qed

lemma closes_cycle_exact:
  assumes ok: "deps_ok db" and t: "project_of (pt_id t) db = Some (pt_project_id t)"
  shows "closes_cycle t (Some ds) db \<longleftrightarrow> \<not> acyclic (set (replaced_deps t (Some ds) (pd_deps db)))"
proof -
  let ?E = "{e \<in> set (pd_deps db). fst e \<noteq> pt_id t}"
  have "acyclic ?E" using ok by (auto simp: deps_ok_def intro: acyclic_subset)
  then show ?thesis unfolding closes_cycle_iff[OF assms] replaced_set using acyclic_star[of "set ds" ?E "pt_id t"] star_cycle[of _ "set ds" "pt_id t" ?E] by blast
qed

text \<open>C36: a change of the dependencies of a task is refused when, and only when, the new graph
  would have a cycle, although the search is made for one new dependency at a time and only sees the
  edges of one project.\<close>

theorem dependency_check_exact:
  assumes "deps_ok db" and "project_of (pt_id (tg_task g)) db = Some (pt_project_id (tg_task g))" and "tg_deps g = Some ds"
  shows "update_task_commit c now g b db = Inl ValidationError \<longleftrightarrow>
    \<not> acyclic ({e \<in> set (pd_deps db). fst e \<noteq> pt_id (tg_task g)} \<union> {pt_id (tg_task g)} \<times> set ds)"
  using closes_cycle_exact[OF assms(1,2), of ds]
  by (auto simp: update_task_commit_def assms(3) require_def Let_def ValidationError_def replaced_set)

datatype project_op =
    CreateProject id project_body
  | UpdateProject id project_body
  | AddMember id id "string option"
  | RemoveMember id id
  | CreateTask project_task "id list"
  | UpdateTask instant task_change task_body

text \<open>The tasks that a plan names exist when its commit runs, since tasks are neither deleted nor moved.\<close>

fun project_act :: "project_caller \<times> project_op \<Rightarrow> project_db \<Rightarrow> project_db result" where
  "project_act (c, CreateProject i b) db = create_project c i b db"
| "project_act (c, UpdateProject i b) db = update_project c i b db"
| "project_act (c, AddMember i u r) db = add_member c i u r db"
| "project_act (c, RemoveMember i u) db = remove_member c i u db"
| "project_act (c, CreateTask t ds) db =
     require (\<forall>d\<in>set ds. task_in (pt_project_id t) d db) PlainError (create_task_commit c (t, ds) db)"
| "project_act (c, UpdateTask now g b) db =
     require (task_in (pt_project_id (tg_task g)) (pt_id (tg_task g)) db \<and>
       (\<forall>d\<in>set (coalesce (tg_deps g) []). task_in (pt_project_id (tg_task g)) d db)) PlainError (update_task_commit c now g b db)"

lemma deps_in_task_in:
  assumes ids: "distinct (map pt_id (pd_tasks db))" and ds: "deps_in p (remdups ds) db" and d: "d \<in> set ds"
  shows "task_in p d db"
proof -
  let ?ts = "filter (\<lambda>t. pt_id t \<in> set ds \<and> pt_project_id t = p) (pd_tasks db)"
  have "distinct (map pt_id ?ts)" using ids by (rule distinct_map_filter)
  then have "card (set (map pt_id ?ts)) = length (map pt_id ?ts)" by (rule distinct_card)
  then have "card (pt_id ` set ?ts) = length ?ts" by (simp only: set_map length_map)
  also have "\<dots> = card (set ds)" using ds by (simp add: deps_in_def count_where_def length_remdups_card_conv)
  finally have "pt_id ` set ?ts = set ds" by (intro card_subset_eq) auto
  then have "d \<in> pt_id ` set ?ts" using d by simp
  then show ?thesis by (auto simp: task_in_def)
qed

lemma planned_deps_exist:
  assumes ids: "distinct (map pt_id (pd_tasks db))" and plan: "update_task_plan c i b db = Inr g"
  shows "task_in (pt_project_id (tg_task g)) (pt_id (tg_task g)) db \<and> (\<forall>d\<in>set (coalesce (tg_deps g) []). task_in (pt_project_id (tg_task g)) d db)"
proof -
  have "task_named (pc_org c) i db \<noteq> None"
  proof
    assume "task_named (pc_org c) i db = None"
    then show False using plan by (simp add: update_task_plan_def)
  qed
  then obtain t where t: "task_named (pc_org c) i db = Some t" by blast
  obtain canManage ds start due where "new_deps canManage t (kb_depends_on_ids b) db = Inr ds"
      "g = \<lparr>tg_task = t, tg_manage = canManage, tg_deps = ds, tg_start_date = start, tg_due_date = due\<rparr>"
    using plan unfolding update_task_plan_def t option.case Let_def require_eq_Inr bind_result_eq_Inr sum.inject
    by (elim exE conjE) (rule that, assumption, erule sym)
  then have g: "tg_task g = t" "new_deps canManage t (kb_depends_on_ids b) db = Inr (tg_deps g)" by simp_all
  have "task_in (pt_project_id t) (pt_id t) db" using t by (auto simp: task_named_def find_first_def find_Some_iff task_in_def)
  moreover have "task_in (pt_project_id t) d db" if "d \<in> set (coalesce (tg_deps g) [])" for d
    using g(2) that deps_in_task_in[OF ids] by (cases "tg_deps g") (auto simp: new_deps_def split: if_splits field.splits)
  ultimately show ?thesis by (simp add: g(1))
qed

lemma deps_ok_cong: "pd_tasks db' = pd_tasks db \<Longrightarrow> pd_deps db' = pd_deps db \<Longrightarrow> deps_ok db' \<longleftrightarrow> deps_ok db"
  by (simp add: deps_ok_def project_of_def)

lemma keeps_graph:
  "create_project c i pb db = Inr db' \<Longrightarrow> pd_tasks db' = pd_tasks db \<and> pd_deps db' = pd_deps db"
  "update_project c i pb db = Inr db' \<Longrightarrow> pd_tasks db' = pd_tasks db \<and> pd_deps db' = pd_deps db"
  "add_member c i u r db = Inr db' \<Longrightarrow> pd_tasks db' = pd_tasks db \<and> pd_deps db' = pd_deps db"
  "remove_member c i u db = Inr db' \<Longrightarrow> pd_tasks db' = pd_tasks db \<and> pd_deps db' = pd_deps db"
  by (auto simp: create_project_def update_project_def add_member_def remove_member_def logged_def Let_def split: option.splits)

lemma refresh_graph [simp]:
  "pd_tasks (refreshProjectGoalProgress g o' db) = pd_tasks db" "pd_deps (refreshProjectGoalProgress g o' db) = pd_deps db"
  by (simp_all add: refreshProjectGoalProgress_def split: option.split)

lemma create_task_rows:
  assumes "create_task_commit c (t, ds) db = Inr db'"
  shows "pt_id t \<notin> pt_id ` set (pd_tasks db) \<and> pd_tasks db' = pd_tasks db @ [t] \<and> pd_deps db' = pd_deps db @ map (Pair (pt_id t)) ds"
  using assms by (auto simp: create_task_commit_def Let_def logged_def)

lemma update_task_rows:
  assumes "update_task_commit c now g b db = Inr db'"
  shows "\<not> closes_cycle (tg_task g) (tg_deps g) db \<and>
    pd_tasks db' = update_where (\<lambda>x. pt_id x = pt_id (tg_task g)) (written_task now g b) (pd_tasks db) \<and>
    pd_deps db' = replaced_deps (tg_task g) (tg_deps g) (pd_deps db)"
  using assms by (auto simp: update_task_commit_def Let_def logged_def split: option.splits)

lemma written_keys [simp]: "pt_id (written_task now g b x) = pt_id x" "pt_project_id (written_task now g b x) = pt_project_id x"
  by (simp_all add: written_task_def Let_def)

lemma project_of_update:
  assumes "pd_tasks db' = update_where p f (pd_tasks db)" and "\<And>x. pt_id (f x) = pt_id x" and "\<And>x. pt_project_id (f x) = pt_project_id x"
  shows "project_of i db' = project_of i db"
proof -
  have "map_option pt_project_id (find (\<lambda>t. pt_id t = i) (update_where p f xs)) = map_option pt_project_id (find (\<lambda>t. pt_id t = i) xs)" for xs
    by (induction xs) (auto simp: update_where_def assms(2,3))
  then show ?thesis by (simp add: project_of_def find_first_def assms(1))
qed

lemma project_of_append:
  "pd_tasks db' = pd_tasks db @ [t] \<Longrightarrow> project_of i db' = (case project_of i db of None \<Rightarrow> if pt_id t = i then Some (pt_project_id t) else None | Some p \<Rightarrow> Some p)"
proof -
  assume rows: "pd_tasks db' = pd_tasks db @ [t]"
  have "find (\<lambda>x. pt_id x = i) (xs @ [t]) = (case find (\<lambda>x. pt_id x = i) xs of None \<Rightarrow> if pt_id t = i then Some t else None | Some x \<Rightarrow> Some x)" for xs
    by (induction xs) auto
  then show ?thesis by (auto simp: project_of_def find_first_def rows split: option.split)
qed

lemma create_task_ok:
  assumes ok: "deps_ok db" and ds: "\<forall>d\<in>set ds. task_in (pt_project_id t) d db" and run: "create_task_commit c (t, ds) db = Inr db'"
  shows "deps_ok db'"
proof -
  note rows = create_task_rows[OF run]
  have ids: "distinct (map pt_id (pd_tasks db))" using ok by (simp add: deps_ok_def)
  have new: "project_of (pt_id t) db = None" using rows by (force simp: project_of_def find_first_def find_None_iff image_iff)
  note po = project_of_append[of db' db t]
  have po_old: "project_of i db' = project_of i db" if "project_of i db \<noteq> None" for i using po[of i] rows that by auto
  have po_new: "project_of (pt_id t) db' = Some (pt_project_id t)" using po[of "pt_id t"] rows new by simp
  have d: "project_of d db = Some (pt_project_id t)" if "d \<in> set ds" for d using ds that task_in_iff[OF ids] by blast
  have into: "snd e \<noteq> pt_id t" if "e \<in> set (pd_deps db)" for e using ok that new by (fastforce simp: deps_ok_def)
  have away: "(x, pt_id t) \<notin> (set (pd_deps db))\<^sup>*" if "x \<in> set ds" for x
  proof
    assume "(x, pt_id t) \<in> (set (pd_deps db))\<^sup>*"
    then show False
    proof (cases rule: rtranclE)
      case base
      then show False using d[OF that] new by simp
    next
      case (step y)
      then show False using into by force
    qed
  qed
  have "acyclic (set (pd_deps db) \<union> {pt_id t} \<times> set ds)" by (rule acyclic_star) (use ok away in \<open>auto simp: deps_ok_def\<close>)
  moreover have "set (pd_deps db') = set (pd_deps db) \<union> {pt_id t} \<times> set ds" using rows by auto
  moreover have "project_of (fst e) db' \<noteq> None \<and> project_of (snd e) db' = project_of (fst e) db'" if e: "e \<in> set (pd_deps db')" for e
  proof (cases "e \<in> set (pd_deps db)")
    case True
    then have "project_of (fst e) db \<noteq> None" "project_of (snd e) db = project_of (fst e) db" using ok by (auto simp: deps_ok_def)
    then show ?thesis using po_old by metis
  next
    case False
    then obtain x where "e = (pt_id t, x)" "x \<in> set ds" using e rows by auto
    then show ?thesis using po_new po_old[of x] d[of x] by simp
  qed
  ultimately show ?thesis using rows ids by (simp add: deps_ok_def)
qed

lemma update_task_ok:
  assumes ok: "deps_ok db" and run: "update_task_commit c now g b db = Inr db'"
    and t: "task_in (pt_project_id (tg_task g)) (pt_id (tg_task g)) db"
    and ds: "\<forall>d\<in>set (coalesce (tg_deps g) []). task_in (pt_project_id (tg_task g)) d db"
  shows "deps_ok db'"
proof -
  note rows = update_task_rows[OF run]
  have ids: "distinct (map pt_id (pd_tasks db))" using ok by (simp add: deps_ok_def)
  have po: "project_of i db' = project_of i db" for i by (rule project_of_update[OF rows[THEN conjunct2, THEN conjunct1]]) simp_all
  have t': "project_of (pt_id (tg_task g)) db = Some (pt_project_id (tg_task g))" using t task_in_iff[OF ids] by blast
  have ids': "distinct (map pt_id (pd_tasks db'))"
  proof -
    have "map pt_id (pd_tasks db') = map pt_id (pd_tasks db)" using rows by (simp add: update_where_def)
    then show ?thesis using ids by simp
  qed
  show ?thesis
  proof (cases "tg_deps g")
    case None
    then show ?thesis using ok rows po ids' by (simp add: deps_ok_def replaced_deps_def)
  next
    case (Some xs)
    have "acyclic (set (pd_deps db'))" using closes_cycle_exact[OF ok t', of xs] rows Some by simp
    moreover have "project_of d db = Some (pt_project_id (tg_task g))" if "d \<in> set xs" for d using ds Some that task_in_iff[OF ids] by simp
    ultimately show ?thesis using ok rows po ids' t' Some by (auto simp: deps_ok_def replaced_set)
  qed
qed

lemma project_act_ok: "deps_ok db \<Longrightarrow> project_act (c, op) db = Inr db' \<Longrightarrow> deps_ok db'"
proof (cases op)
  case (CreateTask t ds)
  moreover assume "deps_ok db" "project_act (c, op) db = Inr db'"
  ultimately show ?thesis using create_task_ok[of db ds t c db'] by simp
next
  case (UpdateTask now g b)
  moreover assume "deps_ok db" "project_act (c, op) db = Inr db'"
  ultimately show ?thesis using update_task_ok[of db c now g b db'] by simp
qed (use keeps_graph deps_ok_cong[of db' db] in simp_all)

text \<open>C32: whatever sequence of project and task operations runs, no task ever depends on itself,
  directly or through other tasks, and dependencies stay within one project.\<close>

theorem dependency_graph_acyclic:
  assumes "deps_ok db" and "db' = snd (attempts project_act acts db)"
  shows "(i, i) \<notin> (set (pd_deps db'))\<^sup>+ \<and> list_all (\<lambda>e. project_of (fst e) db' = project_of (snd e) db' \<and> project_of (fst e) db' \<noteq> None) (pd_deps db')"
proof -
  have "deps_ok db'" unfolding assms(2) by (rule attempts_invariant[where P = deps_ok, OF _ assms(1)]) (metis project_act_ok prod.exhaust_sel)
  then show ?thesis by (auto simp: deps_ok_def acyclic_def list_all_iff)
qed

subsection \<open>Progress follows the tasks\<close>

text \<open>A change of a task leaves the goal linked to it with the share of its tasks that are done, in whole percents.\<close>

lemma goal_refreshed:
  assumes "g \<in> set (pd_goals (refreshProjectGoalProgress i orgId db))" and "pg_id g = i" and "org_user orgId (pg_user_id g) db"
  shows "pg_completion g = goal_completion (linked_tasks orgId i db)"
proof -
  obtain h where h: "h \<in> set (pd_goals db)" "pg_id h = i" "org_user orgId (pg_user_id h) db"
    using assms by (auto simp: refreshProjectGoalProgress_def update_where_def split: option.splits if_splits)
  then obtain r where r: "goal_named orgId i db = Some r"
    by (cases "goal_named orgId i db") (auto simp: goal_named_def find_first_def find_None_iff)
  then have "pg_id r = i" by (auto simp: goal_named_def find_first_def find_Some_iff)
  then show ?thesis using assms r by (auto simp: refreshProjectGoalProgress_def update_where_def)
qed

lemma goal_completion_bounds: "0 \<le> goal_completion ts \<and> goal_completion ts \<le> 100"
proof (cases "ts = []")
  case False
  let ?n = "count_where (\<lambda>t. pt_status t = ''done'') ts" and ?m = "length ts"
  have m: "0 < ?m" "?n \<le> ?m" using False by (simp_all add: count_where_def)
  have "(of_nat ?n * 100 / of_nat ?m :: rat) \<le> 100" using m by (simp add: divide_le_eq)
  moreover have "0 \<le> (of_nat ?n * 100 / of_nat ?m :: rat)" by simp
  ultimately show ?thesis using False by (simp add: goal_completion_def js_round_def)
qed (simp add: goal_completion_def)

subsection \<open>Examples\<close>

definition ex_project :: project_row where
  "ex_project = \<lparr>pj_id = ''p'', pj_org_id = ''o'', pj_owner_id = ''m'', pj_name = ''P'', pj_description = None, pj_status = ''active'',
     pj_status_options = [''todo'', ''done''], pj_priority = ''medium'', pj_budget_hours = None, pj_start_date = None, pj_due_date = None\<rparr>"

definition ex_task :: "id \<Rightarrow> string \<Rightarrow> project_task" where
  "ex_task i status = \<lparr>pt_id = i, pt_project_id = ''p'', pt_assignee_id = Some ''e'', pt_created_by = ''m'', pt_title = i, pt_description = None,
     pt_status = status, pt_priority = ''medium'', pt_due_date = None, pt_start_date = None, pt_parent_task_id = None, pt_is_milestone = False,
     pt_completed_at = None, pt_performance_goal_id = Some ''g''\<rparr>"

definition ex_person :: "id \<Rightarrow> member" where
  "ex_person i = \<lparr>mb_id = i, mb_org_id = ''o'', mb_role = ''employee'', mb_name = i, mb_email = i, mb_is_active = True, mb_deleted_at = None,
     mb_manager_id = None, mb_primary_location_id = None\<rparr>"

definition ex_projects :: "project_task list \<Rightarrow> (id \<times> id) list \<Rightarrow> project_db" where
  "ex_projects ts es = \<lparr>pd_access = \<lparr>ad_members = [ex_person ''m'', ex_person ''e''], ad_user_roles = [], ad_roles = [], ad_grants = [], ad_platform_roles = [],
       ad_orgs = [], ad_plans = [], ad_locations = [], ad_managers = [], ad_api_keys = []\<rparr>,
     pd_projects = [ex_project], pd_members = [(''p'', ''m'', ''owner''), (''p'', ''e'', ''member'')], pd_tasks = ts, pd_deps = es,
     pd_goals = [\<lparr>pg_id = ''g'', pg_user_id = ''e'', pg_completion = 100\<rparr>], pd_log = []\<rparr>"

definition ex_lead :: project_caller where
  "ex_lead = \<lparr>pc_user = ''m'', pc_org = ''o''\<rparr>"

definition empty_task_body :: task_body where
  "empty_task_body = \<lparr>kb_title = None, kb_description = None, kb_status = None, kb_priority = None, kb_assignee_id = None, kb_start_date = Absent,
     kb_due_date = Absent, kb_performance_goal_id = None, kb_parent_task_id = None, kb_depends_on_ids = Absent, kb_is_milestone = None\<rparr>"

definition depend_on :: "id \<Rightarrow> id list \<Rightarrow> task_change" where
  "depend_on i ds = \<lparr>tg_task = ex_task i ''todo'', tg_manage = True, tg_deps = Some ds, tg_start_date = None, tg_due_date = None\<rparr>"

text \<open>Three tasks in a row: the first cannot wait for the last, the last can also wait for the first.\<close>

definition ex_chain :: project_db where
  "ex_chain = ex_projects [ex_task ''a'' ''todo'', ex_task ''b'' ''todo'', ex_task ''c'' ''todo''] [(''c'', ''b''), (''b'', ''a'')]"

lemma ex_chain_ok: "deps_ok ex_chain"
proof -
  have "acyclic {(''c'', ''b''), (''b'', ''a'')}" by (simp add: acyclic_insert rtrancl_insert) (simp add: acyclic_def)
  then show ?thesis by (simp add: deps_ok_def ex_chain_def ex_projects_def ex_task_def project_of_def find_first_def)
qed

theorem dependency_check_exact_witness:
  "update_task_commit ex_lead 0 (depend_on ''a'' [''c'']) empty_task_body ex_chain = Inl ValidationError \<and>
   \<not> acyclic ({e \<in> set (pd_deps ex_chain). fst e \<noteq> ''a''} \<union> {''a''} \<times> set [''c''])"
proof -
  have "update_task_commit ex_lead 0 (depend_on ''a'' [''c'']) empty_task_body ex_chain = Inl ValidationError" by code_simp
  moreover have "project_of (pt_id (tg_task (depend_on ''a'' [''c'']))) ex_chain = Some (pt_project_id (tg_task (depend_on ''a'' [''c''])))" by code_simp
  ultimately show ?thesis using dependency_check_exact[OF ex_chain_ok, of "depend_on ''a'' [''c'']" "[''c'']" ex_lead 0 empty_task_body]
    by (simp add: depend_on_def ex_task_def)
qed

theorem dependency_graph_acyclic_witness:
  "pd_deps (snd (attempts project_act [(ex_lead, UpdateTask 0 (depend_on ''a'' [''c'']) empty_task_body),
      (ex_lead, UpdateTask 0 (depend_on ''c'' [''b'', ''a'']) empty_task_body)] ex_chain)) = [(''b'', ''a''), (''c'', ''b''), (''c'', ''a'')] \<and>
   (''c'', ''c'') \<notin> (set (pd_deps (snd (attempts project_act [(ex_lead, UpdateTask 0 (depend_on ''a'' [''c'']) empty_task_body),
      (ex_lead, UpdateTask 0 (depend_on ''c'' [''b'', ''a'']) empty_task_body)] ex_chain))))\<^sup>+"
proof
  let ?acts = "[(ex_lead, UpdateTask 0 (depend_on ''a'' [''c'']) empty_task_body), (ex_lead, UpdateTask 0 (depend_on ''c'' [''b'', ''a'']) empty_task_body)]"
  show "pd_deps (snd (attempts project_act ?acts ex_chain)) = [(''b'', ''a''), (''c'', ''b''), (''c'', ''a'')]" by code_simp
  show "(''c'', ''c'') \<notin> (set (pd_deps (snd (attempts project_act ?acts ex_chain))))\<^sup>+"
    using dependency_graph_acyclic[OF ex_chain_ok refl, where acts = ?acts and i = "''c''"] by blast
qed

text \<open>Adding a task to a goal does not recompute the goal: it stays complete although a task is open.\<close>

lemma new_task_keeps_goal_complete:
  "(case create_task_commit ex_lead (ex_task ''b'' ''todo'', []) (ex_projects [ex_task ''a'' ''done''] []) of
      Inr db \<Rightarrow> (map pg_completion (pd_goals db), goal_completion (linked_tasks ''o'' ''g'' db)) | Inl _ \<Rightarrow> ([], 0)) = ([100], 50)"
  by code_simp

text \<open>Rounding to whole percents reports a goal as complete while one of two hundred tasks is open.\<close>

lemma goal_complete_too_early: "goal_completion (replicate 199 (ex_task ''a'' ''done'') @ [ex_task ''b'' ''todo'']) = 100"
  by (simp add: goal_completion_def count_where_def ex_task_def js_round_def filter_replicate)

end
