(* ===== verification/TimeTracking.thy ===== *)
theory TimeTracking
  imports Projects ShiftTime Approvals "HOL-Library.Multiset"
begin

text \<open>
  Time entries and timesheets, \<^verbatim>\<open>src/src/routes/time-tracking.ts\<close>.

  Starting a timer, creating and editing an entry and submitting a week are plans (what the handler reads
  before its transaction) and commits.  A transaction takes the advisory lock of the employee, so commits of
  one employee do not overlap; plans are made on any earlier state.  Attendance rows, the zones of the
  locations and parsed request times are arguments; the review of a timesheet is that of \<open>Approvals\<close>.
\<close>

subsection \<open>Tables\<close>

record time_log =
  tl_id :: id
  tl_org_id :: id
  tl_user_id :: id
  tl_project_id :: "id option"
  tl_task_id :: "id option"
  tl_attendance_id :: "id option"
  tl_started_at :: instant
  tl_ended_at :: "instant option"
  tl_minutes :: int
  tl_source :: string
  tl_billable :: bool
  tl_status :: string
  tl_description :: "string option"

record work_row =
  wr_id :: id
  wr_org_id :: id
  wr_user_id :: id
  wr_date :: day
  wr_net_hours_worked :: "rat option"
  wr_hours_worked :: "rat option"

record time_db =
  tk_projects :: project_db
  tk_entries :: "time_log list"
  tk_sheets :: "timesheet list"
  tk_attendance :: "work_row list"
  tk_log :: "effect list"

definition recorded :: "effect list \<Rightarrow> time_db \<Rightarrow> time_db" where
  "recorded es db = db\<lparr>tk_log := tk_log db @ es\<rparr>"

definition own_entry :: "id \<Rightarrow> id \<Rightarrow> time_log \<Rightarrow> bool" where
  "own_entry orgId userId e \<longleftrightarrow> tl_org_id e = orgId \<and> tl_user_id e = userId"

text \<open>\<open>intervalOverlapWhere\<close>: an entry without an end runs on.\<close>

definition before_end :: "instant \<Rightarrow> instant option \<Rightarrow> bool" where
  "before_end t e \<longleftrightarrow> (case e of None \<Rightarrow> True | Some x \<Rightarrow> t < x)"

definition interval_overlap :: "id \<Rightarrow> id \<Rightarrow> instant \<Rightarrow> instant \<Rightarrow> id option \<Rightarrow> time_log \<Rightarrow> bool" where
  "interval_overlap orgId userId start end exceptId e \<longleftrightarrow> own_entry orgId userId e \<and> exceptId \<noteq> Some (tl_id e) \<and>
     tl_started_at e < end \<and> before_end start (tl_ended_at e)"

subsection \<open>Zones, attendance and projects\<close>

definition home_zone :: "(id \<Rightarrow> string option) \<Rightarrow> id \<Rightarrow> id \<Rightarrow> time_db \<Rightarrow> string option option" where
  "home_zone loc_tz orgId userId db =
     map_option (\<lambda>u. coalesce_opt (Option.bind (mb_primary_location_id u) loc_tz)
         (Option.bind (find_first (\<lambda>o'. og_id o' = mb_org_id u) (ad_orgs (pd_access (tk_projects db)))) og_timezone))
       (find_first (\<lambda>u. mb_id u = userId \<and> mb_org_id u = orgId) (ad_members (pd_access (tk_projects db))))"

definition workTimezone :: "(id \<Rightarrow> string option) \<Rightarrow> id \<Rightarrow> id \<Rightarrow> time_db \<Rightarrow> string result" where
  "workTimezone loc_tz orgId userId db =
     (case home_zone loc_tz orgId userId db of None \<Rightarrow> Inl NotFoundError | Some z \<Rightarrow> Inr (coalesce z ''UTC''))"

definition attendanceForWorkDate :: "tzdb \<Rightarrow> (id \<Rightarrow> string option) \<Rightarrow> id \<Rightarrow> id \<Rightarrow> instant \<Rightarrow> time_db \<Rightarrow> id option" where
  "attendanceForWorkDate tz loc_tz orgId userId at' db =
     (case home_zone loc_tz orgId userId db of None \<Rightarrow> None
      | Some z \<Rightarrow> map_option wr_id (find_first (\<lambda>r. wr_org_id r = orgId \<and> wr_user_id r = userId \<and> wr_date r = dateOnlyInTz tz at' z) (tk_attendance db)))"

definition validateProjectTask :: "project_caller \<Rightarrow> id option \<Rightarrow> id option \<Rightarrow> project_db \<Rightarrow> unit result" where
  "validateProjectTask c projectId taskId db =
     (if projectId = None \<and> taskId = None then Inr ()
      else (let task = Option.bind taskId (\<lambda>i. task_named (pc_org c) i db) in
        require (taskId \<noteq> None \<longrightarrow> task \<noteq> None) NotFoundError
         (case coalesce_opt (map_option pt_project_id task) projectId of None \<Rightarrow> Inl ValidationError
          | Some p \<Rightarrow>
              require (project_named (pc_org c) p db \<noteq> None) NotFoundError
               (require (''projects.manage'' \<in> permissions_of c db \<or> is_project_member p (pc_user c) db \<or>
                  Option.bind task pt_assignee_id = Some (pc_user c)) NotFoundError (Inr ())))))"

subsection \<open>Timers\<close>

record entry_body =
  eb_project_id :: "id option option"
  eb_task_id :: "id option option"
  eb_billable :: "bool option"
  eb_description :: "string option"
  eb_started_at :: "instant field"
  eb_ended_at :: "instant field"

definition given_id :: "id option option \<Rightarrow> id option" where
  "given_id x = id_or_null (coalesce x None)"

definition description_of :: "string option \<Rightarrow> string option" where
  "description_of d = map_option (take 500) (id_or_null d)"

definition new_entry :: "project_caller \<Rightarrow> id \<Rightarrow> entry_body \<Rightarrow> id option \<Rightarrow> instant \<Rightarrow> instant option \<Rightarrow> int \<Rightarrow> string \<Rightarrow> time_log" where
  "new_entry c newId b attendance start end minutes source =
     \<lparr>tl_id = newId, tl_org_id = pc_org c, tl_user_id = pc_user c, tl_project_id = given_id (eb_project_id b), tl_task_id = given_id (eb_task_id b),
      tl_attendance_id = attendance, tl_started_at = start, tl_ended_at = end, tl_minutes = minutes, tl_source = source,
      tl_billable = coalesce (eb_billable b) False, tl_status = ''draft'', tl_description = description_of (eb_description b)\<rparr>"

text \<open>The handler reads the clock twice, \<open>now\<close> for the check and \<open>started\<close> for the row.\<close>

definition timer_start_plan :: "tzdb \<Rightarrow> (id \<Rightarrow> string option) \<Rightarrow> project_caller \<Rightarrow> id \<Rightarrow> instant \<Rightarrow> instant \<Rightarrow> entry_body \<Rightarrow> time_db \<Rightarrow> (instant \<times> time_log) result" where
  "timer_start_plan tz loc_tz c newId now started b db =
     bind_result (validateProjectTask c (given_id (eb_project_id b)) (given_id (eb_task_id b)) (tk_projects db)) (\<lambda>_.
       Inr (now, new_entry c newId b (attendanceForWorkDate tz loc_tz (pc_org c) (pc_user c) started db) started None 0 ''timer''))"

definition blocks_start :: "project_caller \<Rightarrow> instant \<Rightarrow> time_log \<Rightarrow> bool" where
  "blocks_start c now e \<longleftrightarrow> own_entry (pc_org c) (pc_user c) e \<and>
     ((tl_started_at e \<le> now \<and> before_end now (tl_ended_at e)) \<or> now < tl_started_at e)"

definition timer_start_commit :: "project_caller \<Rightarrow> instant \<times> time_log \<Rightarrow> time_db \<Rightarrow> time_db result" where
  "timer_start_commit c x db =
     (case find_first (blocks_start c (fst x)) (tk_entries db) of
        Some e \<Rightarrow> Inl (if tl_ended_at e = None then AppError 409 ''TIMER_ALREADY_RUNNING'' else ValidationError)
      | None \<Rightarrow>
          require (\<not> (\<exists>e\<in>set (tk_entries db). own_entry (pc_org c) (pc_user c) e \<and> tl_ended_at e = None)) (AppError 409 ''TIMER_ALREADY_RUNNING'')
           (Inr (recorded [Audit ''time.timer.start'' (tl_id (snd x))] (db\<lparr>tk_entries := tk_entries db @ [snd x]\<rparr>))))"

definition timer_minutes :: "instant \<Rightarrow> instant \<Rightarrow> int" where
  "timer_minutes start end = js_round (of_int (end - start) / 60000)"

definition timer_stop :: "tzdb \<Rightarrow> (id \<Rightarrow> string option) \<Rightarrow> project_caller \<Rightarrow> instant \<Rightarrow> time_db \<Rightarrow> time_db result" where
  "timer_stop tz loc_tz c now db =
     (case find_first (\<lambda>e. own_entry (pc_org c) (pc_user c) e \<and> tl_ended_at e = None) (tk_entries db) of None \<Rightarrow> Inl NotFoundError
      | Some e \<Rightarrow>
         (let sel = (\<lambda>x. tl_id x = tl_id e \<and> own_entry (pc_org c) (pc_user c) x \<and> tl_ended_at x = None \<and> tl_status x = ''draft'') in
          require (count_where sel (tk_entries db) \<noteq> 0) (AppError 409 ''TIMER_ALREADY_STOPPED'')
           (Inr (recorded [Audit ''time.timer.stop'' (tl_id e)]
             (db\<lparr>tk_entries := update_where sel
                (\<lambda>x. x\<lparr>tl_ended_at := Some now, tl_minutes := max 1 (timer_minutes (tl_started_at e) now),
                   tl_attendance_id := coalesce_opt (attendanceForWorkDate tz loc_tz (pc_org c) (pc_user c) (tl_started_at e) db) (tl_attendance_id e)\<rparr>)
                (tk_entries db)\<rparr>)))))"

text \<open>A checkout stops a running timer of the employee (\<open>Attendance.stop_timer\<close>).\<close>

definition checkout_stops :: "id \<Rightarrow> id \<Rightarrow> instant \<Rightarrow> id \<Rightarrow> time_db \<Rightarrow> time_db" where
  "checkout_stops orgId userId at' attendanceId db =
     (case find_desc tl_started_at (\<lambda>e. own_entry orgId userId e \<and> tl_ended_at e = None \<and> tl_status e = ''draft'') (tk_entries db) of None \<Rightarrow> db
      | Some e \<Rightarrow> db\<lparr>tk_entries := update_where (\<lambda>x. tl_id x = tl_id e \<and> tl_ended_at x = None \<and> tl_status x = ''draft'')
          (\<lambda>x. x\<lparr>tl_ended_at := Some at', tl_minutes := max 1 (timer_minutes (tl_started_at e) at'), tl_attendance_id := Some attendanceId\<rparr>) (tk_entries db)\<rparr>)"

subsection \<open>Manual entries\<close>

definition entry_create_plan :: "tzdb \<Rightarrow> (id \<Rightarrow> string option) \<Rightarrow> project_caller \<Rightarrow> id \<Rightarrow> entry_body \<Rightarrow> time_db \<Rightarrow> time_log result" where
  "entry_create_plan tz loc_tz c newId b db =
     (case (eb_started_at b, eb_ended_at b) of
        (Given start, Given end) \<Rightarrow>
          require (start < end) ValidationError
          (require (timer_minutes start end \<le> 24 * 60) ValidationError
          (bind_result (validateProjectTask c (given_id (eb_project_id b)) (given_id (eb_task_id b)) (tk_projects db)) (\<lambda>_.
            Inr (new_entry c newId b (attendanceForWorkDate tz loc_tz (pc_org c) (pc_user c) start db) start (Some end) (timer_minutes start end) ''manual''))))
      | _ \<Rightarrow> Inl ValidationError)"

definition entry_create_commit :: "project_caller \<Rightarrow> time_log \<Rightarrow> time_db \<Rightarrow> time_db result" where
  "entry_create_commit c e db =
     require (\<not> (\<exists>x\<in>set (tk_entries db). interval_overlap (pc_org c) (pc_user c) (tl_started_at e) (coalesce (tl_ended_at e) 0) None x)) ValidationError
      (Inr (recorded [Audit ''time.entry.create'' (tl_id e)] (db\<lparr>tk_entries := tk_entries db @ [e]\<rparr>)))"

definition editable :: "time_log \<Rightarrow> bool" where
  "editable e \<longleftrightarrow> tl_status e \<in> {''draft'', ''rejected''} \<and> tl_ended_at e \<noteq> None"

definition time_or_old :: "instant \<Rightarrow> instant field \<Rightarrow> instant result" where
  "time_or_old old x = (case x of Absent \<Rightarrow> Inr old | Given t \<Rightarrow> Inr t | _ \<Rightarrow> Inl ValidationError)"

record entry_edit =
  ee_entry :: id
  ee_start :: instant
  ee_end :: instant
  ee_project_id :: "id option"
  ee_task_id :: "id option"
  ee_attendance_id :: "id option"

definition entry_edit_plan :: "tzdb \<Rightarrow> (id \<Rightarrow> string option) \<Rightarrow> project_caller \<Rightarrow> id \<Rightarrow> entry_body \<Rightarrow> time_db \<Rightarrow> entry_edit result" where
  "entry_edit_plan tz loc_tz c i b db =
     (case find_first (\<lambda>e. tl_id e = i \<and> own_entry (pc_org c) (pc_user c) e) (tk_entries db) of None \<Rightarrow> Inl NotFoundError
      | Some e \<Rightarrow>
         require (editable e) ValidationError
         (bind_result (time_or_old (tl_started_at e) (eb_started_at b)) (\<lambda>start. bind_result (time_or_old (coalesce (tl_ended_at e) 0) (eb_ended_at b)) (\<lambda>end.
           let projectId = (case eb_project_id b of None \<Rightarrow> tl_project_id e | Some p \<Rightarrow> id_or_null p);
               taskId = (case eb_task_id b of None \<Rightarrow> tl_task_id e | Some t \<Rightarrow> id_or_null t)
           in require (start < end) ValidationError
             (require (end - start \<le> 24 * 60 * 60 * 1000) ValidationError
             (bind_result (validateProjectTask c projectId taskId (tk_projects db)) (\<lambda>_.
               Inr \<lparr>ee_entry = tl_id e, ee_start = start, ee_end = end, ee_project_id = projectId, ee_task_id = taskId,
                 ee_attendance_id = attendanceForWorkDate tz loc_tz (pc_org c) (pc_user c) start db\<rparr>)))))))"

definition edited :: "entry_edit \<Rightarrow> entry_body \<Rightarrow> time_log \<Rightarrow> time_log" where
  "edited g b x = x\<lparr>tl_status := ''draft'', tl_started_at := ee_start g, tl_ended_at := Some (ee_end g), tl_minutes := timer_minutes (ee_start g) (ee_end g),
     tl_project_id := ee_project_id g, tl_task_id := ee_task_id g, tl_attendance_id := ee_attendance_id g,
     tl_description := (case eb_description b of None \<Rightarrow> tl_description x | Some d \<Rightarrow> Some (take 500 d)),
     tl_billable := coalesce (eb_billable b) (tl_billable x)\<rparr>"

definition entry_edit_commit :: "project_caller \<Rightarrow> entry_edit \<Rightarrow> entry_body \<Rightarrow> time_db \<Rightarrow> time_db result" where
  "entry_edit_commit c g b db =
     (let sel = (\<lambda>x. tl_id x = ee_entry g \<and> own_entry (pc_org c) (pc_user c) x \<and> editable x) in
      require (\<not> (\<exists>x\<in>set (tk_entries db). interval_overlap (pc_org c) (pc_user c) (ee_start g) (ee_end g) (Some (ee_entry g)) x)) ValidationError
      (require (count_where sel (tk_entries db) \<noteq> 0) (AppError 409 ''TIME_ENTRY_CONFLICT'')
        (Inr (recorded [Audit ''time.entry.update'' (ee_entry g)] (db\<lparr>tk_entries := update_where sel (edited g b) (tk_entries db)\<rparr>)))))"

subsection \<open>Timesheets\<close>

definition in_week :: "local_week \<Rightarrow> time_log \<Rightarrow> bool" where
  "in_week w e \<longleftrightarrow> startInstant w \<le> tl_started_at e \<and> tl_started_at e < endInstant w"

definition own_sheet :: "id \<Rightarrow> id \<Rightarrow> day \<Rightarrow> timesheet \<Rightarrow> bool" where
  "own_sheet orgId userId weekStart s \<longleftrightarrow> ts_org_id s = orgId \<and> ts_user_id s = userId \<and> ts_week_start s = weekStart"

definition sheet_week :: "tzdb \<Rightarrow> (string \<Rightarrow> bool) \<Rightarrow> (id \<Rightarrow> string option) \<Rightarrow> project_caller \<Rightarrow> instant \<Rightarrow> string option \<Rightarrow> time_db \<Rightarrow> local_week result" where
  "sheet_week tz zone_ok loc_tz c now week_start db =
     bind_result (workTimezone loc_tz (pc_org c) (pc_user c) db) (\<lambda>timezone.
       localWeekRange tz zone_ok (coalesce week_start (iso_date (currentLocalWeekStart tz now timezone) @ ''T00:00:00.000Z'')) timezone)"

definition submit_commit :: "project_caller \<Rightarrow> instant \<Rightarrow> id \<Rightarrow> local_week \<Rightarrow> time_db \<Rightarrow> time_db result" where
  "submit_commit c now newId w db =
     (let mine = own_entry (pc_org c) (pc_user c); sheet = own_sheet (pc_org c) (pc_user c) (startDate w);
          existing = find_first sheet (tk_sheets db); status = (case existing of None \<Rightarrow> [] | Some s \<Rightarrow> ts_status s);
          sel = (\<lambda>e. mine e \<and> in_week w e \<and> editable e) in
      require (\<not> (\<exists>e\<in>set (tk_entries db). mine e \<and> tl_ended_at e = None \<and> in_week w e)) ValidationError
      (require (status \<notin> {''approved'', ''locked''}) ValidationError
      (require (status \<noteq> ''submitted'') (AppError 409 ''TIMESHEET_ALREADY_SUBMITTED'')
      (require (count_where sel (tk_entries db) \<noteq> 0) ValidationError
        (Inr (recorded [Audit ''timesheet.submit'' (case existing of None \<Rightarrow> newId | Some s \<Rightarrow> ts_id s), OrgEvent ''timesheet_changed'']
          (db\<lparr>tk_entries := update_where sel (\<lambda>e. e\<lparr>tl_status := ''submitted''\<rparr>) (tk_entries db),
              tk_sheets := (if existing = None
                then tk_sheets db @ [\<lparr>ts_id = newId, ts_org_id = pc_org c, ts_user_id = pc_user c, ts_week_start = startDate w, ts_status = ''submitted'',
                  ts_submitted_at = now, ts_reviewed_by = None, ts_review_note = None\<rparr>]
                else update_where sheet (\<lambda>s. s\<lparr>ts_status := ''submitted'', ts_submitted_at := now, ts_reviewed_by := None, ts_review_note := None\<rparr>) (tk_sheets db))\<rparr>)))))))"

text \<open>The people told of a submission: those who hold \<open>time.approve\<close> among the role holders, the employees with a
  grant and the manager.\<close>

definition notifyTimesheetApprovers :: "project_caller \<Rightarrow> id \<Rightarrow> time_db \<Rightarrow> effect list" where
  "notifyTimesheetApprovers c sheetId db =
     (let a = pd_access (tk_projects db);
          active = (\<lambda>i. \<exists>u\<in>set (ad_members a). mb_id u = i \<and> mb_is_active u \<and> mb_deleted_at u = None);
          holders = map fst (filter (\<lambda>x. active (fst x) \<and> (\<exists>u\<in>set (ad_members a). mb_id u = fst x \<and> mb_org_id u = pc_org c) \<and>
            (\<exists>r\<in>set (ad_roles a). or_id r = snd x \<and> ''time.approve'' \<in> set (or_permissions r))) (ad_user_roles a));
          allowed = map gr_user_id (filter (\<lambda>g. gr_org_id g = pc_org c \<and> gr_permission_key g = ''time.approve'' \<and> gr_effect g = ''allow'' \<and> active (gr_user_id g)) (ad_grants a));
          manager = (case Option.bind (find_first (\<lambda>u. mb_id u = pc_user c \<and> mb_org_id u = pc_org c) (ad_members a)) mb_manager_id of None \<Rightarrow> [] | Some m \<Rightarrow> [m]);
          candidates = filter (\<lambda>i. i \<noteq> pc_user c) (remdups (holders @ allowed @ manager))
      in map (\<lambda>i. Notify i ''timesheet_submitted'' sheetId) (filter (\<lambda>i. ''time.approve'' \<in> resolveUserPermissions i (pc_org c) a) candidates))"

definition submit_timesheet :: "tzdb \<Rightarrow> (string \<Rightarrow> bool) \<Rightarrow> (id \<Rightarrow> string option) \<Rightarrow> project_caller \<Rightarrow> instant \<Rightarrow> id \<Rightarrow> string option \<Rightarrow> time_db \<Rightarrow> time_db result" where
  "submit_timesheet tz zone_ok loc_tz c now newId week_start db =
     bind_result (sheet_week tz zone_ok loc_tz c now week_start db) (\<lambda>w.
     bind_result (submit_commit c now newId w db) (\<lambda>db1.
       let i = (case find_first (own_sheet (pc_org c) (pc_user c) (startDate w)) (tk_sheets db1) of None \<Rightarrow> newId | Some s \<Rightarrow> ts_id s)
       in Inr (recorded (notifyTimesheetApprovers c i db1) db1)))"

text \<open>The transaction of a review, for the week that the reviewer's handler computed; \<open>review_is_approvals\<close> below
  relates it to the review of the approval inbox.\<close>

definition review_commit :: "id \<Rightarrow> id \<Rightarrow> bool \<Rightarrow> string option \<Rightarrow> id \<Rightarrow> local_week \<Rightarrow> time_db \<Rightarrow> time_db result" where
  "review_commit orgId reviewer approve note i w db =
     (case find_first (\<lambda>s. ts_id s = i \<and> ts_org_id s = orgId \<and> ts_status s = ''submitted'') (tk_sheets db) of None \<Rightarrow> Inl NotFoundError
      | Some s \<Rightarrow>
         (let target = (if approve then ''locked'' else ''rejected'') in
          Inr (db\<lparr>tk_sheets := update_where (\<lambda>x. ts_id x = i \<and> ts_org_id x = orgId \<and> ts_status x = ''submitted'')
                (\<lambda>x. x\<lparr>ts_status := target, ts_reviewed_by := Some reviewer, ts_review_note := note\<rparr>) (tk_sheets db),
              tk_entries := update_where (\<lambda>e. own_entry orgId (ts_user_id s) e \<and> in_week w e \<and> tl_status e = ''submitted'') (\<lambda>e. e\<lparr>tl_status := target\<rparr>) (tk_entries db)\<rparr>)))"

subsection \<open>The week and the project report\<close>

definition attended_minutes :: "work_row \<Rightarrow> int" where
  "attended_minutes r = js_round (or_zero (coalesce_opt (wr_net_hours_worked r) (wr_hours_worked r)) * 60)"

definition logged_by_day :: "tzdb \<Rightarrow> string \<Rightarrow> time_log list \<Rightarrow> (day \<times> int) list" where
  "logged_by_day tz timezone es = fold (\<lambda>e. add_total (dateOnlyInTz tz (tl_started_at e) (Some timezone)) (tl_minutes e)) es []"

text \<open>Days on which more time is logged than attended, with both.\<close>

definition allocation_warnings :: "work_row list \<Rightarrow> (day \<times> int) list \<Rightarrow> (day \<times> int \<times> int) list" where
  "allocation_warnings rows day_totals =
     (let attended = (\<lambda>d. case find_first (\<lambda>r. wr_date r = d) (rev rows) of None \<Rightarrow> 0 | Some r \<Rightarrow> attended_minutes r)
      in map (\<lambda>x. (fst x, snd x, attended (fst x))) (filter (\<lambda>x. attended (fst x) < snd x) day_totals))"

record project_summary =
  re_employees :: "(id \<times> int \<times> int \<times> rat option \<times> bool) list"
  re_days :: "(day \<times> int \<times> nat) list"
  re_total_minutes :: int
  re_budget_burn_minutes :: int
  re_warnings :: "id list"

definition total_of :: "'k \<Rightarrow> ('k \<times> int) list \<Rightarrow> int" where
  "total_of k m = coalesce (map_of m k) 0"

definition counted :: "time_log \<Rightarrow> bool" where
  "counted e \<longleftrightarrow> tl_ended_at e \<noteq> None \<and> tl_status e \<in> {''submitted'', ''approved'', ''locked''}"

definition toFixed1 :: "rat \<Rightarrow> rat" where
  "toFixed1 x = of_int (js_round (x * 10)) / 10"

definition report_of :: "id \<Rightarrow> time_log list \<Rightarrow> work_row list \<Rightarrow> int \<Rightarrow> project_summary" where
  "report_of projectId entries attendance burn =
     (let minutesByEmployee = fold (\<lambda>e. add_total (tl_user_id e) (tl_minutes e)) entries [];
          attendanceByEmployee = fold (\<lambda>r. add_total (wr_user_id r) (attended_minutes r)) attendance [];
          byDay = fold (\<lambda>e. add_total (day_of_instant (tl_started_at e)) (tl_minutes e)) entries [];
          employees = map (\<lambda>u. let p = total_of u minutesByEmployee; a = total_of u attendanceByEmployee
              in (u, p, a, if 0 < a then Some (toFixed1 (of_int (p * 100) / of_int a)) else None, a < p \<and> 0 < a))
            (remdups (map fst minutesByEmployee @ map fst attendanceByEmployee))
      in \<lparr>re_employees = employees,
          re_days = map (\<lambda>x. (fst x, snd x, length (remdups (map tl_user_id (filter (\<lambda>e. day_of_instant (tl_started_at e) = fst x) entries))))) (sort_key fst byDay),
          re_total_minutes = sum_list (map tl_minutes entries), re_budget_burn_minutes = burn,
          re_warnings = map fst (filter (\<lambda>x. snd (snd (snd (snd x)))) employees)\<rparr>)"

definition project_report :: "project_caller \<Rightarrow> instant \<Rightarrow> id \<Rightarrow> instant \<Rightarrow> instant \<Rightarrow> time_db \<Rightarrow> project_summary result" where
  "project_report c now projectId from to_inclusive db =
     (let p = tk_projects db; to = (day_of_instant to_inclusive + 1) * day_ms - 1 in
      require (project_named (pc_org c) projectId p \<noteq> None) NotFoundError
      (require (canAccessProject projectId c p) NotFoundError
      (require (from \<le> to_inclusive) ValidationError
      (require (to - from \<le> 366 * 24 * 60 * 60000) ValidationError
       (let mine = (\<lambda>e. tl_org_id e = pc_org c \<and> tl_project_id e = Some projectId \<and> counted e);
            entries = take 5001 (sort_key tl_started_at (filter (\<lambda>e. mine e \<and> from \<le> tl_started_at e \<and> tl_started_at e \<le> to) (tk_entries db)));
            userIds = map tl_user_id entries;
            attendance = filter (\<lambda>r. wr_org_id r = pc_org c \<and> wr_user_id r \<in> set userIds \<and> day_of_instant from \<le> wr_date r \<and> wr_date r \<le> day_of_instant to) (tk_attendance db)
        in require (length entries \<le> 5000) ValidationError
          (Inr (report_of projectId entries attendance (sum_list (map tl_minutes (filter mine (tk_entries db)))))))))))"

subsection \<open>Time is counted once\<close>

definition meets :: "time_log \<Rightarrow> time_log \<Rightarrow> bool" where
  "meets e f \<longleftrightarrow> before_end (tl_started_at e) (tl_ended_at f) \<and> before_end (tl_started_at f) (tl_ended_at e)"

definition covers :: "time_log \<Rightarrow> instant \<Rightarrow> bool" where
  "covers e t \<longleftrightarrow> tl_started_at e \<le> t \<and> before_end t (tl_ended_at e)"

definition same_owner :: "time_log \<Rightarrow> time_log \<Rightarrow> bool" where
  "same_owner e f \<longleftrightarrow> tl_org_id e = tl_org_id f \<and> tl_user_id e = tl_user_id f"

definition entries_ok :: "time_log list \<Rightarrow> bool" where
  "entries_ok es \<longleftrightarrow> distinct (map tl_id es) \<and> (\<forall>e\<in>set es. \<forall>f\<in>set es. same_owner e f \<and> tl_id e \<noteq> tl_id f \<longrightarrow> \<not> meets e f)"

lemma meets_sym: "meets e f \<longleftrightarrow> meets f e"
  by (auto simp: meets_def)

lemma covers_meets: "covers e t \<Longrightarrow> covers f t \<Longrightarrow> meets e f"
  by (auto simp: covers_def meets_def before_end_def split: option.splits)

lemma open_meets: "tl_ended_at e = None \<Longrightarrow> tl_ended_at f = None \<Longrightarrow> meets e f"
  by (simp add: meets_def before_end_def)

text \<open>A row may shrink, keep its interval, or move to a place that no other row of its owner meets.\<close>

definition shrinks :: "time_log \<Rightarrow> time_log \<Rightarrow> bool" where
  "shrinks e e' \<longleftrightarrow> tl_id e' = tl_id e \<and> same_owner e' e \<and> tl_started_at e' = tl_started_at e \<and> (tl_ended_at e' = tl_ended_at e \<or> tl_ended_at e = None)"

lemma shrunk_meets: "shrinks e e' \<Longrightarrow> shrinks f f' \<Longrightarrow> meets e' f' \<Longrightarrow> meets e f"
  by (auto simp: shrinks_def meets_def before_end_def split: option.splits)

lemma shrinks_refl [simp]: "shrinks e e"
  by (simp add: shrinks_def same_owner_def)

lemma shrink_ok:
  assumes ok: "entries_ok es" and f: "\<And>x. x \<in> set es \<Longrightarrow> p x \<Longrightarrow> shrinks x (f x)"
  shows "entries_ok (update_where p f es)"
proof -
  define g where "g = (\<lambda>x. if p x then f x else x)"
  have g: "shrinks x (g x)" if "x \<in> set es" for x using f that by (simp add: g_def)
  have ids: "map tl_id (map g es) = map tl_id es" using g by (auto simp: shrinks_def)
  have apart: "\<not> meets (g x) (g y)" if xy: "x \<in> set es" "y \<in> set es" "same_owner (g x) (g y)" "tl_id (g x) \<noteq> tl_id (g y)" for x y
  proof -
    have "same_owner x y" "tl_id x \<noteq> tl_id y" using xy(3,4) g[OF xy(1)] g[OF xy(2)] by (simp_all add: shrinks_def same_owner_def)
    then have "\<not> meets x y" using ok xy(1,2) by (simp add: entries_ok_def)
    then show ?thesis using shrunk_meets[OF g[OF xy(1)] g[OF xy(2)]] by blast
  qed
  have "entries_ok (map g es)" unfolding entries_ok_def
  proof (intro conjI ballI impI)
    show "distinct (map tl_id (map g es))" unfolding ids using ok by (simp add: entries_ok_def)
    fix x y
    assume "x \<in> set (map g es)" "y \<in> set (map g es)" "same_owner x y \<and> tl_id x \<noteq> tl_id y"
    then show "\<not> meets x y" using apart unfolding set_map by (elim imageE) blast
  qed
  then show ?thesis by (simp add: update_where_def g_def)
qed

lemma add_entry_ok:
  assumes ok: "entries_ok es" and new: "tl_id e \<notin> tl_id ` set es" "\<And>x. x \<in> set es \<Longrightarrow> same_owner x e \<Longrightarrow> \<not> meets x e"
  shows "entries_ok (es @ [e])"
  using assms by (auto simp: entries_ok_def meets_sym same_owner_def)

lemma move_ok:
  assumes ok: "entries_ok es" and f: "\<And>x. tl_id (f x) = tl_id x" "\<And>x. same_owner (f x) x"
    and one: "\<And>x. p x \<Longrightarrow> tl_id x = i" and away: "\<And>x y. x \<in> set es \<Longrightarrow> p x \<Longrightarrow> y \<in> set es \<Longrightarrow> same_owner y x \<Longrightarrow> tl_id y \<noteq> i \<Longrightarrow> \<not> meets y (f x)"
  shows "entries_ok (update_where p f es)"
proof -
  have ids: "map tl_id (update_where p f es) = map tl_id es" by (simp add: update_where_def f(1))
  have "\<not> meets x y" if x: "x \<in> set (update_where p f es)" and y: "y \<in> set (update_where p f es)" and o': "same_owner x y" and ne: "tl_id x \<noteq> tl_id y" for x y
  proof -
    obtain x0 where x0: "x0 \<in> set es" "x = (if p x0 then f x0 else x0)" using x by (auto simp: update_where_def)
    obtain y0 where y0: "y0 \<in> set es" "y = (if p y0 then f y0 else y0)" using y by (auto simp: update_where_def)
    have k: "tl_id x0 = tl_id x" "tl_id y0 = tl_id y" "same_owner x0 x" "same_owner y0 y" using x0 y0 f by (auto simp: same_owner_def)
    have s: "same_owner x0 y0" and s': "same_owner y0 x0" using k(3,4) o' by (simp_all add: same_owner_def)
    have "\<not> (p x0 \<and> p y0)"
    proof
      assume "p x0 \<and> p y0"
      then have "tl_id x0 = i" "tl_id y0 = i" using one by blast+
      then show False using k(1,2) ne by simp
    qed
    then consider "p x0" "\<not> p y0" | "\<not> p x0" "p y0" | "\<not> p x0" "\<not> p y0" by blast
    then show ?thesis
    proof cases
      case 1
      then have "tl_id x0 = i" by (simp only: one)
      then have "tl_id y0 \<noteq> i" using k(1,2) ne by simp
      then have "\<not> meets y0 (f x0)" using away[OF x0(1) 1(1) y0(1)] s' by blast
      then show ?thesis using x0(2) y0(2) 1 meets_sym[of "f x0" y0] by simp
    next
      case 2
      then have "tl_id y0 = i" by (simp only: one)
      then have "tl_id x0 \<noteq> i" using k(1,2) ne by simp
      then have "\<not> meets x0 (f y0)" using away[OF y0(1) 2(2) x0(1)] s by blast
      then show ?thesis using x0(2) y0(2) 2 by simp
    next
      case 3
      then show ?thesis using ok x0 y0 o' ne by (simp add: entries_ok_def)
    qed
  qed
  then show ?thesis using ok ids by (simp add: entries_ok_def)
qed

text \<open>The commits, with what their plans guarantee: a started timer is open and begins at or after the checked
  instant, a manual entry and an edit end after they begin; ids are fresh.\<close>

datatype time_op =
    StartTimer instant time_log
  | StopTimer instant
  | CheckoutStop instant id
  | CreateEntry time_log
  | EditEntry entry_edit entry_body
  | SubmitWeek instant id local_week
  | ReviewSheet bool "string option" id local_week

definition fresh_own :: "project_caller \<Rightarrow> time_log \<Rightarrow> time_db \<Rightarrow> bool" where
  "fresh_own c e db \<longleftrightarrow> own_entry (pc_org c) (pc_user c) e \<and> tl_status e = ''draft'' \<and> tl_id e \<notin> tl_id ` set (tk_entries db)"

fun time_act :: "tzdb \<Rightarrow> (id \<Rightarrow> string option) \<Rightarrow> project_caller \<times> time_op \<Rightarrow> time_db \<Rightarrow> time_db result" where
  "time_act tz lt (c, StartTimer now e) db =
     require (fresh_own c e db \<and> now \<le> tl_started_at e \<and> tl_ended_at e = None) PlainError (timer_start_commit c (now, e) db)"
| "time_act tz lt (c, StopTimer now) db = timer_stop tz lt c now db"
| "time_act tz lt (c, CheckoutStop at' i) db = Inr (checkout_stops (pc_org c) (pc_user c) at' i db)"
| "time_act tz lt (c, CreateEntry e) db =
     require (fresh_own c e db \<and> (case tl_ended_at e of None \<Rightarrow> False | Some t \<Rightarrow> tl_started_at e < t)) PlainError (entry_create_commit c e db)"
| "time_act tz lt (c, EditEntry g b) db = require (ee_start g < ee_end g) PlainError (entry_edit_commit c g b db)"
| "time_act tz lt (c, SubmitWeek now i w) db = require (i \<notin> ts_id ` set (tk_sheets db)) PlainError (submit_commit c now i w db)"
| "time_act tz lt (c, ReviewSheet approve note i w) db = review_commit (pc_org c) (pc_user c) approve note i w db"

lemma start_ok:
  assumes ok: "entries_ok (tk_entries db)" and e: "fresh_own c e db" "now \<le> tl_started_at e" "tl_ended_at e = None"
    and run: "timer_start_commit c (now, e) db = Inr db'"
  shows "entries_ok (tk_entries db')"
proof -
  have none: "find_first (blocks_start c now) (tk_entries db) = None" and db': "tk_entries db' = tk_entries db @ [e]"
    using run by (auto simp: timer_start_commit_def recorded_def split: option.splits)
  have "\<not> meets x e" if "x \<in> set (tk_entries db)" "same_owner x e" for x
  proof -
    have "\<not> blocks_start c now x" using none that(1) by (auto simp: find_first_def find_None_iff)
    then have "\<not> before_end now (tl_ended_at x)" using that(2) e(1) by (auto simp: blocks_start_def same_owner_def fresh_own_def own_entry_def)
    then show ?thesis using e(2) by (auto simp: meets_def before_end_def split: option.splits)
  qed
  then show ?thesis unfolding db' by (intro add_entry_ok[OF ok]) (use e in \<open>auto simp: fresh_own_def\<close>)
qed

lemma create_ok':
  assumes ok: "entries_ok (tk_entries db)" and e: "fresh_own c e db" "tl_ended_at e = Some t" and run: "entry_create_commit c e db = Inr db'"
  shows "entries_ok (tk_entries db')"
proof -
  have free: "\<not> interval_overlap (pc_org c) (pc_user c) (tl_started_at e) t None x" if "x \<in> set (tk_entries db)" for x
    using run that e by (auto simp: entry_create_commit_def)
  have db': "tk_entries db' = tk_entries db @ [e]" using run by (auto simp: entry_create_commit_def recorded_def)
  have "\<not> meets x e" if "x \<in> set (tk_entries db)" "same_owner x e" for x
    using free[OF that(1)] that(2) e by (auto simp: interval_overlap_def meets_def before_end_def fresh_own_def own_entry_def same_owner_def split: option.splits)
  then show ?thesis unfolding db' by (intro add_entry_ok[OF ok]) (use e in \<open>auto simp: fresh_own_def\<close>)
qed

lemma edit_ok:
  assumes ok: "entries_ok (tk_entries db)" and run: "entry_edit_commit c g b db = Inr db'"
  shows "entries_ok (tk_entries db')"
proof -
  let ?p = "\<lambda>x. tl_id x = ee_entry g \<and> own_entry (pc_org c) (pc_user c) x \<and> editable x"
  have free: "\<not> interval_overlap (pc_org c) (pc_user c) (ee_start g) (ee_end g) (Some (ee_entry g)) x" if "x \<in> set (tk_entries db)" for x
    using run that by (auto simp: entry_edit_commit_def Let_def)
  have db': "tk_entries db' = update_where ?p (edited g b) (tk_entries db)" using run by (auto simp: entry_edit_commit_def recorded_def Let_def)
  show ?thesis unfolding db'
  proof (rule move_ok[OF ok, where i = "ee_entry g"])
    fix x y
    assume "?p x" "y \<in> set (tk_entries db)" "same_owner y x" "tl_id y \<noteq> ee_entry g"
    then show "\<not> meets y (edited g b x)" using free[of y]
      by (auto simp: interval_overlap_def meets_def before_end_def own_entry_def same_owner_def edited_def split: option.splits)
  qed (simp_all add: edited_def same_owner_def)
qed

lemma status_shrinks [simp]: "shrinks x (x\<lparr>tl_status := s\<rparr>)"
  by (simp add: shrinks_def same_owner_def)

lemma stopped_shrinks [simp]: "tl_ended_at x = None \<Longrightarrow> shrinks x (x\<lparr>tl_ended_at := e, tl_minutes := m, tl_attendance_id := a\<rparr>)"
  by (simp add: shrinks_def same_owner_def)

lemma time_act_ok: "entries_ok (tk_entries db) \<Longrightarrow> time_act tz lt (c, op) db = Inr db' \<Longrightarrow> entries_ok (tk_entries db')"
proof (cases op)
  case (StopTimer now)
  moreover assume "entries_ok (tk_entries db)" "time_act tz lt (c, op) db = Inr db'"
  ultimately show ?thesis by (auto simp: timer_stop_def recorded_def Let_def split: option.splits intro!: shrink_ok)
next
  case (CheckoutStop t i)
  moreover assume "entries_ok (tk_entries db)" "time_act tz lt (c, op) db = Inr db'"
  ultimately show ?thesis by (auto simp: checkout_stops_def split: option.splits intro!: shrink_ok)
next
  case (SubmitWeek now i w)
  moreover assume "entries_ok (tk_entries db)" "time_act tz lt (c, op) db = Inr db'"
  ultimately show ?thesis by (auto simp: submit_commit_def recorded_def Let_def intro!: shrink_ok)
next
  case (ReviewSheet a n i w)
  moreover assume "entries_ok (tk_entries db)" "time_act tz lt (c, op) db = Inr db'"
  ultimately show ?thesis by (auto simp: review_commit_def Let_def split: option.splits intro!: shrink_ok)
qed (auto intro: start_ok create_ok' edit_ok split: option.splits)

text \<open>C33: whatever timers are started and stopped, by their owner or by a checkout, and whatever
  entries are created, edited, submitted and reviewed, with every commit decided on an older state, no
  instant is counted by two entries of an employee, and an employee has at most one running timer.\<close>

theorem time_entries_disjoint:
  assumes "entries_ok (tk_entries db)" and "db' = snd (attempts (time_act tz loc_tz) acts db)"
    and "e \<in> set (tk_entries db')" and "f \<in> set (tk_entries db')" and "same_owner e f"
  shows "(covers e t \<and> covers f t \<longrightarrow> e = f) \<and> (tl_ended_at e = None \<and> tl_ended_at f = None \<longrightarrow> e = f)"
proof -
  have "entries_ok (tk_entries db')" unfolding assms(2)
    by (rule attempts_invariant[where P = "\<lambda>db. entries_ok (tk_entries db)", OF _ assms(1)]) (metis time_act_ok prod.exhaust_sel)
  then have "meets e f \<Longrightarrow> e = f" using assms(3-5) unfolding entries_ok_def by (metis distinct_map inj_onD)
  then show ?thesis using covers_meets open_meets by blast
qed

subsection \<open>Approved time is final\<close>

definition sheet_key :: "timesheet \<Rightarrow> id \<times> id \<times> day" where
  "sheet_key s = (ts_org_id s, ts_user_id s, ts_week_start s)"

lemma own_sheet_key: "own_sheet o' u w s \<longleftrightarrow> sheet_key s = (o', u, w)"
  by (auto simp: own_sheet_def sheet_key_def)

lemma kept_row: "x \<in> set xs \<Longrightarrow> \<not> p x \<Longrightarrow> x \<in> set (update_where p f xs)"
  by (force simp: update_where_def)

lemma locked_kept:
  "e \<in> set (tk_entries db) \<Longrightarrow> tl_status e = ''locked'' \<Longrightarrow> time_act tz lt (c, op) db = Inr db' \<Longrightarrow> e \<in> set (tk_entries db')"
  by (cases op) (auto simp: timer_start_commit_def timer_stop_def checkout_stops_def entry_create_commit_def entry_edit_commit_def
      submit_commit_def review_commit_def recorded_def Let_def editable_def split: option.splits intro!: kept_row)

lemma sheets_change:
  assumes "time_act tz lt (c, op) db = Inr db'"
  shows "tk_sheets db' = tk_sheets db \<or>
    (\<exists>s. tk_sheets db' = tk_sheets db @ [s] \<and> sheet_key s \<notin> sheet_key ` set (tk_sheets db)) \<or>
    (\<exists>p f. tk_sheets db' = update_where p f (tk_sheets db) \<and> (\<forall>s. sheet_key (f s) = sheet_key s) \<and>
       (\<forall>s\<in>set (tk_sheets db). distinct (map sheet_key (tk_sheets db)) \<and> p s \<longrightarrow> ts_status s \<noteq> ''locked''))"
proof (cases op)
  case (SubmitWeek now i w)
  let ?own = "own_sheet (pc_org c) (pc_user c) (startDate w)"
  show ?thesis
  proof (cases "find_first ?own (tk_sheets db)")
    case None
    then have "sheet_key x \<noteq> (pc_org c, pc_user c, startDate w)" if "x \<in> set (tk_sheets db)" for x
      using that by (auto simp: find_first_def find_None_iff own_sheet_key)
    moreover obtain row where "tk_sheets db' = tk_sheets db @ [row]" "sheet_key row = (pc_org c, pc_user c, startDate w)"
      using assms SubmitWeek None by (auto simp: submit_commit_def recorded_def Let_def sheet_key_def)
    ultimately show ?thesis by (metis imageE)
  next
    case (Some s)
    then have s: "s \<in> set (tk_sheets db)" "?own s" by (auto simp: find_first_def find_Some_iff)
    let ?f = "\<lambda>s. s\<lparr>ts_status := ''submitted'', ts_submitted_at := now, ts_reviewed_by := None, ts_review_note := None\<rparr>"
    have rows: "tk_sheets db' = update_where ?own ?f (tk_sheets db)" and st: "ts_status s \<noteq> ''locked''"
      using assms SubmitWeek Some by (auto simp: submit_commit_def recorded_def Let_def)
    have "ts_status x \<noteq> ''locked''" if "x \<in> set (tk_sheets db)" "distinct (map sheet_key (tk_sheets db))" "?own x" for x
    proof -
      have "x = s" using that s by (metis distinct_map inj_onD own_sheet_key)
      then show ?thesis using st by simp
    qed
    moreover have "sheet_key (?f x) = sheet_key x" for x by (simp add: sheet_key_def)
    ultimately show ?thesis using rows by blast
  qed
next
  case (ReviewSheet a n i w)
  then obtain p t where p: "tk_sheets db' = update_where p (\<lambda>x. x\<lparr>ts_status := t, ts_reviewed_by := Some (pc_user c), ts_review_note := n\<rparr>) (tk_sheets db)"
      "\<And>s. p s \<Longrightarrow> ts_status s = ''submitted''"
    using assms by (auto simp: review_commit_def Let_def split: option.splits)
  have "sheet_key (x\<lparr>ts_status := t, ts_reviewed_by := Some (pc_user c), ts_review_note := n\<rparr>) = sheet_key x" for x by (simp add: sheet_key_def)
  moreover have "ts_status s \<noteq> ''locked''" if "p s" for s using p(2)[OF that] by simp
  ultimately show ?thesis using p(1) by blast
qed (use assms in \<open>auto simp: timer_start_commit_def timer_stop_def checkout_stops_def entry_create_commit_def entry_edit_commit_def recorded_def Let_def split: option.splits\<close>)

lemma sheets_step:
  assumes ok: "distinct (map sheet_key (tk_sheets db))" and run: "time_act tz lt (c, op) db = Inr db'"
  shows "distinct (map sheet_key (tk_sheets db')) \<and> (\<forall>s\<in>set (tk_sheets db). ts_status s = ''locked'' \<longrightarrow> s \<in> set (tk_sheets db'))"
  using sheets_change[OF run]
proof (elim disjE exE conjE)
  fix p f
  assume f: "tk_sheets db' = update_where p f (tk_sheets db)" "\<forall>s. sheet_key (f s) = sheet_key s"
    and locked: "\<forall>s\<in>set (tk_sheets db). distinct (map sheet_key (tk_sheets db)) \<and> p s \<longrightarrow> ts_status s \<noteq> ''locked''"
  have "map sheet_key (tk_sheets db') = map sheet_key (tk_sheets db)" using f by (simp add: update_where_def)
  moreover have "s \<in> set (tk_sheets db')" if "s \<in> set (tk_sheets db)" "ts_status s = ''locked''" for s
    unfolding f(1) by (rule kept_row) (use that locked ok in blast)+
  ultimately show ?thesis using ok by simp
qed (use ok in auto)


text \<open>The review of a timesheet through the approval inbox is \<open>review_commit\<close> on these tables.\<close>

definition entry_view :: "time_log \<Rightarrow> time_entry" where
  "entry_view e = \<lparr>te_org_id = tl_org_id e, te_user_id = tl_user_id e, te_started_at = tl_started_at e, te_status = tl_status e\<rparr>"

lemma review_is_approvals:
  assumes run: "review_timesheet tz zone_ok ltz d i a = Inr a'" and sheets: "ap_timesheets a = tk_sheets db" and entries: "ap_entries a = map entry_view (tk_entries db)"
  shows "\<exists>w db'. review_commit (de_org d) (de_user d) (de_action d = Approve) (review_text d) i w db = Inr db' \<and>
    ap_timesheets a' = tk_sheets db' \<and> ap_entries a' = map entry_view (tk_entries db')"
proof -
  obtain s where s: "find_first (\<lambda>r. ts_id r = i \<and> ts_org_id r = de_org d \<and> ts_status r = ''submitted'') (tk_sheets db) = Some s"
    using run sheets by (auto simp: review_timesheet_def split: option.splits)
  let ?t = "if de_action d = Approve then ''locked'' else ''rejected''"
  obtain w where week: "localWeekRange tz zone_ok (iso_date (ts_week_start s) @ ''T00:00:00.000Z'')
      (coalesce (coalesce_opt (ltz (ts_user_id s)) (org_timezone (de_org d) a)) ''UTC'') = Inr w"
    using run s sheets by (auto simp: review_timesheet_def)
  have w: "ap_timesheets a' = update_where (\<lambda>x. ts_id x = i \<and> ts_org_id x = de_org d \<and> ts_status x = ''submitted'')
        (\<lambda>x. x\<lparr>ts_status := ?t, ts_reviewed_by := Some (de_user d), ts_review_note := review_text d\<rparr>) (tk_sheets db)"
      "ap_entries a' = update_where (\<lambda>e. te_org_id e = de_org d \<and> te_user_id e = ts_user_id s \<and> startInstant w \<le> te_started_at e \<and>
          te_started_at e < endInstant w \<and> te_status e = ''submitted'') (\<lambda>e. e\<lparr>te_status := ?t\<rparr>) (ap_entries a)"
    using run s sheets week by (auto simp: review_timesheet_def Let_def claim_pending_def effects_def split: if_splits)
  have "ap_entries a' = map entry_view (update_where (\<lambda>e. own_entry (de_org d) (ts_user_id s) e \<and> in_week w e \<and> tl_status e = ''submitted'') (\<lambda>e. e\<lparr>tl_status := ?t\<rparr>) (tk_entries db))"
    unfolding w(2) entries by (simp add: update_where_def entry_view_def own_entry_def in_week_def)
  then show ?thesis using w(1) s by (intro exI[of _ w]) (simp add: review_commit_def Let_def)
qed

subsection \<open>A project report adds up\<close>

lemma total_of_add [simp]: "total_of k (add_total l v m) = total_of k m + (if l = k then v else 0)"
  by (induction m) (auto simp: total_of_def)

lemma totals_fold: "total_of k (fold (\<lambda>e. add_total (f e) (g e)) xs m) = total_of k m + sum_list (map g (filter (\<lambda>e. f e = k) xs))"
  by (induction xs arbitrary: m) simp_all

lemma sum_add: "sum_list (map snd (add_total k (v::int) m)) = sum_list (map snd m) + v"
  by (induction m) auto

lemma sum_fold: "sum_list (map snd (fold (\<lambda>e. add_total (f e) (g e :: int)) xs m)) = sum_list (map snd m) + sum_list (map g xs)"
  by (induction xs arbitrary: m) (simp_all add: sum_add)

lemma set_keys_add: "set (map fst (add_total k v m)) = insert k (set (map fst m))"
proof (induction m)
  case (Cons x m)
  show ?case using Cons.IH by (cases x) (simp add: insert_commute)
qed simp

lemma keys_add: "distinct (map fst m) \<Longrightarrow> distinct (map fst (add_total k v m))"
proof (induction m)
  case (Cons x m)
  then show ?case using set_keys_add[of k v m] by (cases x) auto
qed simp

lemma keys_fold: "distinct (map fst m) \<Longrightarrow> distinct (map fst (fold (\<lambda>e. add_total (f e) (g e)) xs m))"
  by (induction xs arbitrary: m) (simp_all add: keys_add)

lemma sum_totals: "distinct (map fst m) \<Longrightarrow> set (map fst m) \<subseteq> set ks \<Longrightarrow> distinct ks \<Longrightarrow> sum_list (map (\<lambda>k. total_of k m) ks) = sum_list (map snd m)"
proof (induction m)
  case Nil
  show ?case by (induction ks) (simp_all add: total_of_def)
next
  case (Cons x m)
  obtain k v where x: "x = (k, v)" by (cases x)
  have "total_of j (x # m) = total_of j m + (if j = k then v else 0)" if "j \<in> set ks" for j
    using Cons.prems(1) by (auto simp: x total_of_def map_of_eq_None_iff[THEN iffD2])
  then have "sum_list (map (\<lambda>j. total_of j (x # m)) ks) = sum_list (map (\<lambda>j. total_of j m + (if j = k then v else 0)) ks)"
    by (intro arg_cong[of _ _ sum_list] map_cong refl) blast
  also have "\<dots> = sum_list (map (\<lambda>j. total_of j m) ks) + sum_list (map (\<lambda>j. if j = k then v else 0) ks)" by (simp add: sum_list_addf)
  also have "sum_list (map (\<lambda>j. if j = k then v else 0) ks) = v"
    using Cons.prems(2,3) by (simp add: x sum_list_distinct_conv_sum_set)
  finally show ?case using Cons by (simp add: x)
qed

lemma sum_sorted: "sum_list (map g (sort_key f xs)) = sum_list (map (g :: 'a \<Rightarrow> int) xs)"
  by (metis mset_map mset_sort sum_mset_sum_list)

text \<open>The minutes of a project report add up, by employee and by day, to its total, and each
  employee is shown with the minutes of their own entries and attendance; an employee is flagged exactly
  when they logged more than they attended.\<close>

theorem project_report_totals:
  "sum_list (map (\<lambda>x. fst (snd x)) (re_employees (report_of i entries att burn))) = re_total_minutes (report_of i entries att burn) \<and>
   sum_list (map (\<lambda>x. fst (snd x)) (re_days (report_of i entries att burn))) = re_total_minutes (report_of i entries att burn) \<and>
   list_all (\<lambda>(u, p, a, q, w). p = sum_list (map tl_minutes (filter (\<lambda>e. tl_user_id e = u) entries)) \<and>
       a = sum_list (map attended_minutes (filter (\<lambda>r. wr_user_id r = u) att)) \<and>
       (u \<in> set (re_warnings (report_of i entries att burn))) = (0 < a \<and> a < p)) (re_employees (report_of i entries att burn))"
proof -
  let ?m = "fold (\<lambda>e. add_total (tl_user_id e) (tl_minutes e)) entries []"
  let ?a = "fold (\<lambda>r. add_total (wr_user_id r) (attended_minutes r)) att []"
  let ?d = "fold (\<lambda>e. add_total (day_of_instant (tl_started_at e)) (tl_minutes e)) entries []"
  let ?ks = "remdups (map fst ?m @ map fst ?a)"
  have t: "total_of k [] = 0" for k :: "'k" by (simp add: total_of_def)
  have "sum_list (map (\<lambda>x. fst (snd x)) (re_employees (report_of i entries att burn))) = sum_list (map (\<lambda>u. total_of u ?m) ?ks)"
    by (simp add: report_of_def Let_def comp_def)
  also have "\<dots> = sum_list (map snd ?m)" by (rule sum_totals) (auto intro: keys_fold)
  finally have 1: "sum_list (map (\<lambda>x. fst (snd x)) (re_employees (report_of i entries att burn))) = re_total_minutes (report_of i entries att burn)"
    by (simp add: sum_fold report_of_def Let_def)
  have "sum_list (map (\<lambda>x. fst (snd x)) (re_days (report_of i entries att burn))) = sum_list (map snd (sort_key fst ?d))"
    by (simp add: report_of_def Let_def comp_def)
  then have 2: "sum_list (map (\<lambda>x. fst (snd x)) (re_days (report_of i entries att burn))) = re_total_minutes (report_of i entries att burn)"
    by (simp add: sum_sorted sum_fold report_of_def Let_def)
  have p: "total_of u ?m = sum_list (map tl_minutes (filter (\<lambda>e. tl_user_id e = u) entries))"
    and a: "total_of u ?a = sum_list (map attended_minutes (filter (\<lambda>r. wr_user_id r = u) att))" for u by (simp_all add: totals_fold t)
  have "re_warnings (report_of i entries att burn) = filter (\<lambda>u. total_of u ?a < total_of u ?m \<and> 0 < total_of u ?a) ?ks"
    by (simp add: report_of_def Let_def filter_map comp_def)
  then have w: "u \<in> set (re_warnings (report_of i entries att burn)) \<longleftrightarrow> u \<in> set ?ks \<and> total_of u ?a < total_of u ?m \<and> 0 < total_of u ?a" for u
    by simp
  have emp: "re_employees (report_of i entries att burn) = map (\<lambda>u. (u, total_of u ?m, total_of u ?a,
      if 0 < total_of u ?a then Some (toFixed1 (of_int (total_of u ?m * 100) / of_int (total_of u ?a))) else None, total_of u ?a < total_of u ?m \<and> 0 < total_of u ?a)) ?ks"
    by (simp add: report_of_def Let_def)
  have 3: "list_all (\<lambda>(u, p, a, q, w). p = sum_list (map tl_minutes (filter (\<lambda>e. tl_user_id e = u) entries)) \<and>
       a = sum_list (map attended_minutes (filter (\<lambda>r. wr_user_id r = u) att)) \<and>
       (u \<in> set (re_warnings (report_of i entries att burn))) = (0 < a \<and> a < p)) (re_employees (report_of i entries att burn))"
    unfolding emp w list_all_iff by (auto simp: p a)
  show ?thesis using 1 2 3 by blast
qed

subsection \<open>Examples and findings\<close>

definition ex_entry :: "id \<Rightarrow> instant \<Rightarrow> instant option \<Rightarrow> string \<Rightarrow> time_log" where
  "ex_entry i s e status = \<lparr>tl_id = i, tl_org_id = ''o'', tl_user_id = ''e'', tl_project_id = None, tl_task_id = None, tl_attendance_id = None,
     tl_started_at = s, tl_ended_at = e, tl_minutes = 60, tl_source = ''manual'', tl_billable = False, tl_status = status, tl_description = None\<rparr>"

definition ex_sheet :: timesheet where
  "ex_sheet = \<lparr>ts_id = ''s'', ts_org_id = ''o'', ts_user_id = ''e'', ts_week_start = 4, ts_status = ''locked'', ts_submitted_at = 0,
     ts_reviewed_by = Some ''m'', ts_review_note = None\<rparr>"

definition ex_time_db :: "time_log list \<Rightarrow> timesheet list \<Rightarrow> time_db" where
  "ex_time_db es ss = \<lparr>tk_projects = ex_projects [ex_task ''a'' ''todo''] [], tk_entries = es, tk_sheets = ss, tk_attendance = [], tk_log = []\<rparr>"

definition ex_worker :: project_caller where
  "ex_worker = \<lparr>pc_user = ''e'', pc_org = ''o''\<rparr>"

definition utc_zone :: tzdb where
  "utc_zone = \<lparr>toZonedTime = (\<lambda>t z. t), fromZonedTime = (\<lambda>t z. t)\<rparr>"

definition ex_week_of :: local_week where
  "ex_week_of = \<lparr>startDate = 4, endDate = 11, startInstant = 345600000, endInstant = 950400000\<rparr>"

definition ex_time_acts :: "(project_caller \<times> time_op) list" where
  "ex_time_acts = [(ex_worker, StartTimer 7200000 (ex_entry ''t'' 7200000 None ''draft'')), (ex_worker, CreateEntry (ex_entry ''x'' 7000000 (Some 7300000) ''draft'')),
     (ex_worker, StopTimer 9000000), (ex_worker, CreateEntry (ex_entry ''y'' 9000000 (Some 9900000) ''draft''))]"

theorem time_entries_disjoint_witness:
  "map tl_id (tk_entries (snd (attempts (time_act utc_zone Map.empty) ex_time_acts (ex_time_db [] [])))) = [''t'', ''y''] \<and>
   \<not> (covers (ex_entry ''y'' 9000000 (Some 9900000) ''draft'') 9000000 \<and>
      covers (hd (tk_entries (snd (attempts (time_act utc_zone Map.empty) ex_time_acts (ex_time_db [] []))))) 9000000)"
proof -
  let ?db = "snd (attempts (time_act utc_zone Map.empty) ex_time_acts (ex_time_db [] []))"
  have ids: "map tl_id (tk_entries ?db) = [''t'', ''y'']" by code_simp
  have y: "nth (tk_entries ?db) 1 = ex_entry ''y'' 9000000 (Some 9900000) ''draft''" by code_simp
  have o': "same_owner (ex_entry ''y'' 9000000 (Some 9900000) ''draft'') (hd (tk_entries ?db))" by code_simp
  have len: "length (tk_entries ?db) = 2" using arg_cong[OF ids, of length] by simp
  then have mem: "ex_entry ''y'' 9000000 (Some 9900000) ''draft'' \<in> set (tk_entries ?db)" "hd (tk_entries ?db) \<in> set (tk_entries ?db)"
    using y nth_mem[of 1 "tk_entries ?db"] by (auto intro!: hd_in_set)
  have t: "tl_id (hd (tk_entries ?db)) = ''t''" by code_simp
  have ne: "ex_entry ''y'' 9000000 (Some 9900000) ''draft'' \<noteq> hd (tk_entries ?db)"
  proof
    assume "ex_entry ''y'' 9000000 (Some 9900000) ''draft'' = hd (tk_entries ?db)"
    from arg_cong[OF this, of tl_id] show False unfolding t by (simp add: ex_entry_def)
  qed
  have "entries_ok (tk_entries (ex_time_db [] []))" by (simp add: entries_ok_def ex_time_db_def)
  from time_entries_disjoint[OF this refl mem o', where t = 9000000] show ?thesis using ids ne by blast
qed

text \<open>An entry added to an approved week is accepted, and can then never be submitted.\<close>

definition ex_locked :: time_db where
  "ex_locked = ex_time_db [ex_entry ''l'' 345600000 (Some 349200000) ''locked''] [ex_sheet]"

definition ex_late_acts :: "(project_caller \<times> time_op) list" where
  "ex_late_acts = [(ex_worker, CreateEntry (ex_entry ''x'' 350000000 (Some 353600000) ''draft'')), (ex_worker, SubmitWeek 360000000 ''n'' ex_week_of)]"

lemma late_entry_stranded:
  "attempts (time_act utc_zone Map.empty) ex_late_acts ex_locked =
     (1, ex_locked\<lparr>tk_entries := tk_entries ex_locked @ [ex_entry ''x'' 350000000 (Some 353600000) ''draft''], tk_log := [Audit ''time.entry.create'' ''x'']\<rparr>)"
  by code_simp


text \<open>Given a task, only the project of the task is checked: the entry is stored under whatever other project the
  request names, here one of another organisation.\<close>

lemma foreign_project_accepted:
  "timer_start_plan utc_zone Map.empty ex_worker ''t'' 0 0
     \<lparr>eb_project_id = Some (Some ''other''), eb_task_id = Some (Some ''a''), eb_billable = None, eb_description = None, eb_started_at = Absent, eb_ended_at = Absent\<rparr>
     (ex_time_db [] []) = Inr (0, (ex_entry ''t'' 0 None ''draft'')\<lparr>tl_project_id := Some ''other'', tl_task_id := Some ''a'', tl_minutes := 0, tl_source := ''timer''\<rparr>)"
  by code_simp

text \<open>Creation bounds the rounded minutes, an edit the exact duration: an entry of a few seconds more than a day is
  accepted and cannot be edited any more.\<close>

lemma day_long_entry_not_editable:
  "(case entry_create_plan utc_zone Map.empty ex_worker ''x''
      \<lparr>eb_project_id = None, eb_task_id = None, eb_billable = None, eb_description = None, eb_started_at = Given 0, eb_ended_at = Given 86420000\<rparr> (ex_time_db [] []) of
      Inl _ \<Rightarrow> None
    | Inr e \<Rightarrow> Some (tl_minutes e, entry_edit_plan utc_zone Map.empty ex_worker ''x''
        \<lparr>eb_project_id = None, eb_task_id = None, eb_billable = None, eb_description = Some ''note'', eb_started_at = Absent, eb_ended_at = Absent\<rparr> (ex_time_db [e] []))) =
   Some (1440, Inl ValidationError)"
  by code_simp

end
