(* ===== verification/LeaveRoutes.thy ===== *)
theory LeaveRoutes
  imports Approvals
begin

text \<open>
  The handlers of \<^verbatim>\<open>src/src/routes/leave.ts\<close> and \<^verbatim>\<open>src/src/routes/overtime.ts\<close> that write, beside the approval
  inbox, and the submissions of \<^verbatim>\<open>src/src/services/overtime-request.ts\<close> and
  \<^verbatim>\<open>src/src/services/attendance-correction-request.ts\<close>; the balances that \<^verbatim>\<open>src/src/routes/users.ts\<close> opens for a
  new employee and the cancellation of \<^verbatim>\<open>src/src/services/ai/agent.ts\<close>.

  A handler is a plan (its reads and checks) and a commit (its transaction, or its update); other handlers
  can run in between, so a commit gets what the plan read as an argument.  E-mails and WhatsApp messages
  are left out.  Rows of \<open>leave_balances\<close> are named by their key, so the audit of an adjustment names the
  employee.
\<close>

subsection \<open>Leave requests\<close>

definition cancel_leave_plan :: "id \<Rightarrow> id \<Rightarrow> approval_db \<Rightarrow> unit result" where
  "cancel_leave_plan userId i db =
     (case find_first (\<lambda>r. lr_id r = i \<and> lr_user_id r = userId) (lv_requests (ap_leave db)) of
        None \<Rightarrow> Inl NotFoundError
      | Some r \<Rightarrow> require (lr_status r = ''pending'') ValidationError (Inr ()))"

definition with_requests :: "leave_request list \<Rightarrow> approval_db \<Rightarrow> approval_db" where
  "with_requests rows db = db\<lparr>ap_leave := (ap_leave db)\<lparr>lv_requests := rows\<rparr>\<rparr>"

text \<open>The update names the request by its id alone; of a missing row it throws.\<close>

definition cancel_leave_commit :: "id \<Rightarrow> approval_db \<Rightarrow> approval_db result" where
  "cancel_leave_commit i db =
     require (i \<in> lr_id ` set (lv_requests (ap_leave db))) PlainError
      (Inr (with_requests (update_where (\<lambda>r. lr_id r = i) (\<lambda>r. r\<lparr>lr_status := ''cancelled''\<rparr>) (lv_requests (ap_leave db))) db))"

text \<open>The cancellation through the assistant is conditional on the status.\<close>

definition cancel_by_assistant :: "id \<Rightarrow> id \<Rightarrow> id \<Rightarrow> approval_db \<Rightarrow> approval_db result" where
  "cancel_by_assistant userId orgId i db =
     bind_result (claim_pending (\<lambda>r. lr_id r = i \<and> lr_user_id r = userId \<and> lr_org_id r = orgId \<and> lr_status r = ''pending'')
        (\<lambda>r. r\<lparr>lr_status := ''cancelled''\<rparr>) (lv_requests (ap_leave db)))
      (\<lambda>rows. Inr ((with_requests rows db)\<lparr>ap_log := [OrgEvent ''leave_changed'', Audit ''leave_request.cancel.ai'' i] @ ap_log db\<rparr>))"

definition reports_to :: "decision \<Rightarrow> id \<Rightarrow> approval_db \<Rightarrow> bool" where
  "reports_to d userId db \<longleftrightarrow>
     (\<exists>u\<in>set (ad_members (ap_access db)). mb_id u = userId \<and> mb_org_id u = de_org d \<and> mb_manager_id u = Some (de_user d))"

definition route_review_plan :: "decision \<Rightarrow> id \<Rightarrow> approval_db \<Rightarrow> leave_request result" where
  "route_review_plan d i db =
     require (''leave.approve'' \<in> viewer_permissions d db) ForbiddenError
      (case find_first (pending_leave d i) (lv_requests (ap_leave db)) of
         None \<Rightarrow> Inl NotFoundError
       | Some r \<Rightarrow> require (''leave.view_all'' \<in> viewer_permissions d db \<or> reports_to d (lr_user_id r) db) ForbiddenError (Inr r))"

definition route_holidays :: "leave_request \<Rightarrow> approval_db \<Rightarrow> day set" where
  "route_holidays r db = holidaySetForRange (lr_org_id r) (lr_start_date r) (lr_end_date r) (lr_location_id r) (lv_holidays (ap_leave db))"

definition told :: "decision \<Rightarrow> id \<Rightarrow> id \<Rightarrow> approval_db \<Rightarrow> approval_db" where
  "told d userId i db = db\<lparr>ap_log := [OrgEvent ''leave_changed'', Notify userId (''leave_'' @ decided d) i] @ ap_log db\<rparr>"

definition charge_usage :: "leave_request \<Rightarrow> leave_db \<Rightarrow> leave_db" where
  "charge_usage r = balance_update (''usage'', lr_id r) (same_balance (lr_user_id r) (lr_leave_type r) (yearOf (lr_start_date r)))
     (\<lambda>b. b\<lparr>lb_used_days := lb_used_days b + lr_working_days r\<rparr>)"

definition route_approve_commit :: "(day \<Rightarrow> id) \<Rightarrow> decision \<Rightarrow> leave_request \<Rightarrow> day set \<Rightarrow> approval_db \<Rightarrow> approval_db result" where
  "route_approve_commit uuid d r holidays db =
     bind_result (claim_pending (pending_leave d (lr_id r))
        (\<lambda>x. x\<lparr>lr_status := ''approved'', lr_reviewed_by := Some (de_user d), lr_reviewed_at := Some (de_now d)\<rparr>) (lv_requests (ap_leave db)))
      (\<lambda>rows. Inr (told d (lr_user_id r) (lr_id r)
         (db\<lparr>ap_leave := charge_usage r ((ap_leave db)\<lparr>lv_requests := rows\<rparr>),
             ap_attendance := mark_leave_days uuid holidays None r (ap_attendance db)\<rparr>)))"

definition route_reject_commit :: "decision \<Rightarrow> leave_request \<Rightarrow> approval_db \<Rightarrow> approval_db result" where
  "route_reject_commit d r db =
     require (lr_id r \<in> lr_id ` set (lv_requests (ap_leave db))) PlainError
      (Inr (told d (lr_user_id r) (lr_id r)
        (with_requests (update_where (\<lambda>x. lr_id x = lr_id r)
           (\<lambda>x. x\<lparr>lr_status := ''rejected'', lr_reviewed_by := Some (de_user d), lr_reviewed_at := Some (de_now d), lr_rejection_reason := Some (de_reason d)\<rparr>)
           (lv_requests (ap_leave db))) db)))"

definition route_reject_plan :: "decision \<Rightarrow> id \<Rightarrow> approval_db \<Rightarrow> leave_request result" where
  "route_reject_plan d i db =
     require (''leave.approve'' \<in> viewer_permissions d db) ForbiddenError (require (de_reason d \<noteq> []) ValidationError (route_review_plan d i db))"

subsection \<open>Leave balances\<close>

record adjust_body =
  aj_leave_type :: string
  aj_adjustment :: "rat field"
  aj_reason :: string

text \<open>\<open>year\<close> is the calendar year of the server's clock; a null adjustment counts as zero.\<close>

definition adjust_balance :: "decision \<Rightarrow> int \<Rightarrow> id \<Rightarrow> adjust_body \<Rightarrow> approval_db \<Rightarrow> approval_db result" where
  "adjust_balance d year userId b db =
     (let mine = (\<lambda>x. same_balance userId (aj_leave_type b) year x \<and> lb_org_id x = de_org d);
          adj = (case aj_adjustment b of Given q \<Rightarrow> q | _ \<Rightarrow> 0) in
      require (''leave.balance.manage'' \<in> viewer_permissions d db) ForbiddenError
      (require (aj_leave_type b \<noteq> [] \<and> aj_adjustment b \<noteq> Absent \<and> aj_reason b \<noteq> []) ValidationError
      (require (aj_adjustment b \<noteq> Bad) ValidationError
      (require (\<exists>u\<in>set (ad_members (ap_access db)). mb_id u = userId \<and> mb_org_id u = de_org d) NotFoundError
      (require (\<exists>x\<in>set (lv_balances (ap_leave db)). mine x) NotFoundError
        (Inr (db\<lparr>ap_leave := balance_update (''adjustment'', []) mine (\<lambda>x. x\<lparr>lb_total_days := lb_total_days x + adj\<rparr>) (ap_leave db),
                 ap_log := Audit ''leave.balance.update'' userId # ap_log db\<rparr>)))))))"

definition DEFAULT_BALANCES :: "(string \<times> rat) list" where
  "DEFAULT_BALANCES = [(''annual'', 20), (''sick'', 10), (''wfh'', 5), (''unpaid'', 0)]"

definition open_balance :: "id \<Rightarrow> id \<Rightarrow> int \<Rightarrow> string \<times> rat \<Rightarrow> leave_db \<Rightarrow> leave_db" where
  "open_balance userId orgId year x db =
     (if \<exists>b\<in>set (lv_balances db). same_balance userId (fst x) year b then db
      else balance_insert (''opening_balance'', []) \<lparr>lb_user_id = userId, lb_org_id = orgId, lb_leave_type = fst x, lb_year = year,
        lb_total_days = snd x, lb_used_days = 0\<rparr> db)"

definition open_balances :: "id \<Rightarrow> id \<Rightarrow> int \<Rightarrow> approval_db \<Rightarrow> approval_db" where
  "open_balances userId orgId year db = db\<lparr>ap_leave := fold (open_balance userId orgId year) DEFAULT_BALANCES (ap_leave db)\<rparr>"

subsection \<open>Overtime and corrections\<close>

text \<open>\<open>shift_flags\<close> gives, for an attendance record with a shift, whether the shift counts overtime and whether it needs approval.\<close>

definition overtime_submit_plan :: "(id \<Rightarrow> (bool \<times> bool) option) \<Rightarrow> id \<Rightarrow> id \<Rightarrow> id \<Rightarrow> approval_db \<Rightarrow> int result" where
  "overtime_submit_plan shift_flags userId orgId attendanceId db =
     (case find_first (\<lambda>a. at_id a = attendanceId \<and> at_user_id a = userId \<and> at_org_id a = orgId) (ap_attendance db) of
        None \<Rightarrow> Inl NotFoundError
      | Some a \<Rightarrow>
         require (shift_flags attendanceId = Some (True, True) \<and> 0 < coalesce (at_extra_office_minutes a) 0) ValidationError
         (require (\<not> (\<exists>r\<in>set (ap_overtime db). ot_attendance_id r = attendanceId \<and> ot_status r \<in> {''pending'', ''approved''})) ValidationError
           (Inr (coalesce (at_extra_office_minutes a) 0))))"

definition overtime_submit_commit :: "instant \<Rightarrow> id \<Rightarrow> id \<Rightarrow> id \<Rightarrow> id \<Rightarrow> int \<Rightarrow> approval_db \<Rightarrow> approval_db" where
  "overtime_submit_commit now newId userId orgId attendanceId minutes db =
     db\<lparr>ap_overtime := (if \<exists>r\<in>set (ap_overtime db). ot_attendance_id r = attendanceId
          then update_where (\<lambda>r. ot_attendance_id r = attendanceId)
            (\<lambda>r. r\<lparr>ot_requested_minutes := minutes, ot_status := ''pending'', ot_reviewed_by := None, ot_rejection_reason := None\<rparr>) (ap_overtime db)
          else ap_overtime db @ [\<lparr>ot_id = newId, ot_org_id = orgId, ot_user_id = userId, ot_attendance_id = attendanceId,
            ot_requested_minutes = minutes, ot_status = ''pending'', ot_reviewed_by = None, ot_rejection_reason = None, ot_created_at = now\<rparr>]),
        ap_log := OrgEvent ''overtime_changed'' # ap_log db\<rparr>"

definition overtime_review_plan :: "decision \<Rightarrow> id \<Rightarrow> approval_db \<Rightarrow> overtime_request result" where
  "overtime_review_plan d i db =
     require (''overtime.manage'' \<in> viewer_permissions d db) ForbiddenError
     (require (de_action d = Reject \<longrightarrow> de_reason d \<noteq> []) ValidationError
      (case find_first (\<lambda>r. ot_id r = i \<and> ot_org_id r = de_org d) (ap_overtime db) of
         None \<Rightarrow> Inl NotFoundError
       | Some r \<Rightarrow> require (ot_status r = ''pending'') ValidationError (Inr r)))"

text \<open>The minutes that remain are computed from the attendance record that the plan read.\<close>

definition remaining_extra :: "overtime_request \<Rightarrow> approval_db \<Rightarrow> int" where
  "remaining_extra r db =
     max 0 (coalesce (Option.bind (find_first (\<lambda>a. at_id a = ot_attendance_id r) (ap_attendance db)) at_extra_office_minutes) 0 - ot_requested_minutes r)"

definition overtime_approve_commit :: "decision \<Rightarrow> overtime_request \<Rightarrow> int \<Rightarrow> approval_db \<Rightarrow> approval_db result" where
  "overtime_approve_commit d r remaining db =
     require (ot_attendance_id r \<in> at_id ` set (ap_attendance db) \<and> ot_id r \<in> ot_id ` set (ap_overtime db)) PlainError
      (Inr (db\<lparr>ap_attendance := update_where (\<lambda>a. at_id a = ot_attendance_id r)
            (\<lambda>a. a\<lparr>at_overtime_hours := Some (toFixed2 (of_int (ot_requested_minutes r) / 60)), at_extra_office_minutes := Some remaining\<rparr>) (ap_attendance db),
          ap_overtime := update_where (\<lambda>x. ot_id x = ot_id r) (\<lambda>x. x\<lparr>ot_status := ''approved'', ot_reviewed_by := Some (de_user d)\<rparr>) (ap_overtime db),
          ap_log := OrgEvent ''overtime_changed'' # ap_log db\<rparr>))"

definition overtime_reject_commit :: "decision \<Rightarrow> overtime_request \<Rightarrow> approval_db \<Rightarrow> approval_db result" where
  "overtime_reject_commit d r db =
     require (ot_id r \<in> ot_id ` set (ap_overtime db)) PlainError
      (Inr (db\<lparr>ap_overtime := update_where (\<lambda>x. ot_id x = ot_id r)
            (\<lambda>x. x\<lparr>ot_status := ''rejected'', ot_reviewed_by := Some (de_user d), ot_rejection_reason := Some (de_reason d)\<rparr>) (ap_overtime db),
          ap_log := OrgEvent ''overtime_changed'' # ap_log db\<rparr>))"

record correction_input =
  ci_date :: "day option"
  ci_check_in :: "instant field"
  ci_check_out :: "instant field"
  ci_reason :: string

definition given :: "'a field \<Rightarrow> 'a option" where
  "given x = (case x of Given t \<Rightarrow> Some t | _ \<Rightarrow> None)"

text \<open>The times of the body are parsed, \<open>Bad\<close> and \<open>None\<close> are the invalid ones.  The new row is built from the reads; the
  insert itself cannot fail.\<close>

definition submitAttendanceCorrection :: "instant \<Rightarrow> id \<Rightarrow> id \<Rightarrow> id \<Rightarrow> correction_input \<Rightarrow> approval_db \<Rightarrow> approval_db result" where
  "submitAttendanceCorrection now newId userId orgId inp db =
     (case ci_date inp of None \<Rightarrow> Inl ValidationError
      | Some day \<Rightarrow>
         (let checkIn = given (ci_check_in inp); checkOut = given (ci_check_out inp);
              manager = Option.bind (find_first (\<lambda>u. mb_id u = userId \<and> mb_org_id u = orgId) (ad_members (ap_access db))) mb_manager_id in
          require (ci_check_in inp \<noteq> Bad \<and> ci_check_out inp \<noteq> Bad \<and> day * day_ms \<le> now \<and> (checkIn \<noteq> None \<or> checkOut \<noteq> None) \<and>
              (case (checkIn, checkOut) of (Some i, Some o') \<Rightarrow> i < o' | _ \<Rightarrow> True)) ValidationError
          (require (\<not> (\<exists>r\<in>set (ap_corrections db). co_user_id r = userId \<and> co_org_id r = orgId \<and> co_date r = day \<and> co_status r = ''pending'')) ValidationError
            (Inr (db\<lparr>ap_corrections := ap_corrections db @ [\<lparr>co_id = newId, co_org_id = orgId, co_user_id = userId, co_date = day,
                  co_attendance_id = map_option at_id (find_first (\<lambda>a. at_user_id a = userId \<and> at_date a = day) (ap_attendance db)),
                  co_requested_check_in = checkIn, co_requested_check_out = checkOut, co_reason = ci_reason inp, co_status = ''pending'',
                  co_reviewed_by = None, co_review_note = None, co_created_at = now\<rparr>],
                ap_log := OrgEvent ''attendance_changed'' # (case manager of None \<Rightarrow> [] | Some m \<Rightarrow> [Notify m ''correction_request'' newId]) @ ap_log db\<rparr>)))))"

subsection \<open>All that moves the books of leave\<close>

text \<open>The submission, the accrual and the inbox run as they are modelled; of the routes the commits, with what
  their plans read: a request with the terms of a stored one.\<close>

definition same_terms :: "leave_request \<Rightarrow> leave_request \<Rightarrow> bool" where
  "same_terms x r \<longleftrightarrow> lr_id x = lr_id r \<and> lr_org_id x = lr_org_id r \<and> lr_user_id x = lr_user_id r \<and> lr_leave_type x = lr_leave_type r \<and>
     lr_start_date x = lr_start_date r \<and> lr_end_date x = lr_end_date r \<and> lr_working_days x = lr_working_days r"

inductive leave_step :: "approval_db \<Rightarrow> approval_db \<Rightarrow> bool" where
  accrual: "runMonthlyAccrual tz now ids (ap_leave db) = (n, (l, t, s)) \<Longrightarrow> leave_step db (db\<lparr>ap_leave := l\<rparr>)"
| submit: "rid \<notin> lr_id ` set (lv_requests (ap_leave db)) \<Longrightarrow> submitLeaveRequest tz now rid u org inp (ap_leave db) = Inr (r, l) \<Longrightarrow>
    leave_step db (db\<lparr>ap_leave := l\<rparr>)"
| inbox: "reviewApproval env type i d db = Inr db' \<Longrightarrow> leave_step db db'"
| cancel: "cancel_leave_commit i db = Inr db' \<Longrightarrow> leave_step db db'"
| assistant: "cancel_by_assistant u org i db = Inr db' \<Longrightarrow> leave_step db db'"
| approve: "x \<in> set (lv_requests (ap_leave db)) \<Longrightarrow> same_terms x r \<Longrightarrow> route_approve_commit uuid d r holidays db = Inr db' \<Longrightarrow> leave_step db db'"
| reject: "route_reject_commit d r db = Inr db' \<Longrightarrow> leave_step db db'"
| adjust: "adjust_balance d year u b db = Inr db' \<Longrightarrow> leave_step db db'"
| employee: "leave_step db (open_balances u org year db)"

inductive_cases leave_stepE: "leave_step db db'"

subsection \<open>The ledger adds up under all of them\<close>

lemma with_requests_leave [simp]: "ap_leave (with_requests rows db) = (ap_leave db)\<lparr>lv_requests := rows\<rparr>"
  by (simp add: with_requests_def)

lemma told_leave [simp]: "ap_leave (told d u i db) = ap_leave db"
  by (simp add: told_def)

lemma requests_match [simp]: "books_match (l\<lparr>lv_requests := rs\<rparr>) = books_match l"
  by (simp add: books_match_def)

lemma charge_match: "books_match l \<Longrightarrow> books_match (charge_usage r l)"
  unfolding charge_usage_def by (rule balance_update_match) (simp_all add: of_balance_def)

lemma open_match: "books_match l \<Longrightarrow> books_match (fold (open_balance u org year) xs l)"
  by (induction xs arbitrary: l) (simp_all add: open_balance_def balance_insert_match)

lemma leave_step_match: "leave_step db db' \<Longrightarrow> books_match (ap_leave db) \<Longrightarrow> books_match (ap_leave db')"
proof (induction rule: leave_step.induct)
  case (accrual tz now ids db n l t s)
  then show ?case using accrual_match by simp
next
  case (submit rid db tz now u org inp r l)
  then show ?case using submit_match by simp
next
  case (inbox env type i d db db')
  then show ?case using review_match by blast
next
  case (adjust d year u b db db')
  then show ?case by (auto simp: adjust_balance_def Let_def of_balance_def intro!: balance_update_match)
next
  case (employee db u org year)
  then show ?case by (simp add: open_balances_def open_match)
next
  case (approve x db r uuid d holidays db')
  then show ?case by (auto simp: route_approve_commit_def intro!: charge_match)
qed (auto simp: cancel_leave_commit_def cancel_by_assistant_def route_reject_commit_def)

text \<open>C9: after any sequence of accrual runs, submissions, decisions through the inbox and
  through the routes, cancellations, adjustments and new employees, the append-only ledger of each
  employee, leave type and year still adds up to the balance row, both in total and in used days.\<close>

theorem ledger_matches_balances:
  assumes "leave_step\<^sup>*\<^sup>* db db'" "books_match (ap_leave db)"
  shows "sum_list (map lb_total_days (filter (of_balance k) (lv_balances (ap_leave db')))) =
      sum_list (map le_total_delta (filter (of_entry k) (lv_ledger (ap_leave db')))) \<and>
    sum_list (map lb_used_days (filter (of_balance k) (lv_balances (ap_leave db')))) =
      sum_list (map le_used_delta (filter (of_entry k) (lv_ledger (ap_leave db'))))"
proof -
  have "books_match (ap_leave db')" using assms by (induction rule: rtranclp_induct) (auto dest: leave_step_match)
  then show ?thesis unfolding books_match_def by blast
qed

subsection \<open>A leave is charged once\<close>

definition charges :: "id \<Rightarrow> leave_db \<Rightarrow> ledger_entry list" where
  "charges i l = filter (\<lambda>e. le_reason e = ''usage'' \<and> le_ref_id e = i) (lv_ledger l)"

definition balance_key :: "leave_balance \<Rightarrow> id \<times> string \<times> int" where
  "balance_key b = (lb_user_id b, lb_leave_type b, lb_year b)"

definition charge_of :: "leave_request \<Rightarrow> ledger_entry \<Rightarrow> bool" where
  "charge_of r e \<longleftrightarrow> lr_id r = le_ref_id e \<and> lr_status r \<noteq> ''pending'' \<and> le_user_id e = lr_user_id r \<and> le_leave_type e = lr_leave_type r \<and>
     le_year e = yearOf (lr_start_date r) \<and> le_used_delta e = lr_working_days r \<and> le_total_delta e = 0"

text \<open>Ids and balance keys are unique, as the database keeps them; a request is charged at most once, and what is
  charged belongs to a request that is no longer pending, with its terms.\<close>

definition charged_ok :: "leave_db \<Rightarrow> bool" where
  "charged_ok l \<longleftrightarrow> distinct (map lr_id (lv_requests l)) \<and> distinct (map balance_key (lv_balances l)) \<and>
     (\<forall>i. length (charges i l) \<le> 1) \<and> (\<forall>i. \<forall>e\<in>set (charges i l). \<exists>r\<in>set (lv_requests l). charge_of r e)"

text \<open>Requests keep their terms, and what was decided does not become pending.\<close>

definition evolves :: "leave_request list \<Rightarrow> leave_request list \<Rightarrow> bool" where
  "evolves rs rs' \<longleftrightarrow> (\<forall>r\<in>set rs. \<exists>r'\<in>set rs'. same_terms r' r \<and> (lr_status r \<noteq> ''pending'' \<longrightarrow> lr_status r' \<noteq> ''pending''))"

lemma evolves_refl [simp]: "evolves rs rs"
  by (auto simp: evolves_def same_terms_def)

lemma evolves_cons [simp]: "evolves rs (r # rs)"
  by (auto simp: evolves_def same_terms_def)

lemma evolves_update:
  assumes "\<And>x. same_terms (f x) x" and "\<And>x. lr_status (f x) \<noteq> ''pending''"
  shows "evolves rs (update_where p f rs)"
  unfolding evolves_def
proof
  fix r
  assume r: "r \<in> set rs"
  show "\<exists>r'\<in>set (update_where p f rs). same_terms r' r \<and> (lr_status r \<noteq> ''pending'' \<longrightarrow> lr_status r' \<noteq> ''pending'')"
  proof (intro bexI)
    show "(if p r then f r else r) \<in> set (update_where p f rs)" using r by (auto simp: update_where_def)
  qed (use assms in \<open>auto simp: same_terms_def\<close>)
qed

lemma ids_update: "(\<And>x. lr_id (f x) = lr_id x) \<Longrightarrow> map lr_id (update_where p f rs) = map lr_id rs"
  by (simp add: update_where_def)

lemma charge_of_evolves: "same_terms r' r \<Longrightarrow> lr_status r' \<noteq> ''pending'' \<Longrightarrow> charge_of r e \<Longrightarrow> charge_of r' e"
  by (simp add: charge_of_def same_terms_def)

lemma evolved_ok:
  assumes ok: "charged_ok l" and ids: "distinct (map lr_id (lv_requests l'))" and keys: "distinct (map balance_key (lv_balances l'))"
    and same: "\<And>i. charges i l' = charges i l" and ev: "evolves (lv_requests l) (lv_requests l')"
  shows "charged_ok l'"
  unfolding charged_ok_def
proof (intro conjI allI ballI)
  show "length (charges i l') \<le> 1" for i using ok same by (simp add: charged_ok_def)
  fix i e
  assume "e \<in> set (charges i l')"
  then obtain r where r: "r \<in> set (lv_requests l)" "charge_of r e" using ok unfolding same charged_ok_def by blast
  then obtain r' where r': "r' \<in> set (lv_requests l')" "same_terms r' r" "lr_status r \<noteq> ''pending'' \<longrightarrow> lr_status r' \<noteq> ''pending''"
    using ev unfolding evolves_def by blast
  moreover have "lr_status r' \<noteq> ''pending''" using r' r(2) by (simp add: charge_of_def)
  ultimately show "\<exists>r\<in>set (lv_requests l'). charge_of r e" using charge_of_evolves r(2) by blast
qed (use ids keys in simp_all)

lemma update_requests_ok:
  assumes ok: "charged_ok l" and f: "\<And>x. same_terms (f x) x" "\<And>x. lr_status (f x) \<noteq> ''pending''"
  shows "charged_ok (l\<lparr>lv_requests := update_where p f (lv_requests l)\<rparr>)"
proof (rule evolved_ok[OF ok])
  have "lr_id (f x) = lr_id x" for x using f(1)[of x] by (simp add: same_terms_def)
  then have "map lr_id (update_where p f (lv_requests l)) = map lr_id (lv_requests l)" by (rule ids_update)
  then show "distinct (map lr_id (lv_requests (l\<lparr>lv_requests := update_where p f (lv_requests l)\<rparr>)))" using ok by (simp add: charged_ok_def)
  show "distinct (map balance_key (lv_balances (l\<lparr>lv_requests := update_where p f (lv_requests l)\<rparr>)))" using ok by (simp add: charged_ok_def)
qed (simp_all add: charges_def evolves_update f)

text \<open>Writes to the balances for another reason than a leave do not charge one.\<close>

lemma quiet_delta: "fst ctx \<noteq> ''usage'' \<Longrightarrow> filter (\<lambda>e. le_reason e = ''usage'' \<and> le_ref_id e = i) (balance_delta ctx b c) = []"
  by (simp add: balance_delta_def Let_def trigger_entry_def)

lemma quiet_update:
  assumes "fst ctx \<noteq> ''usage''"
  shows "charges i (balance_update ctx p f l) = charges i l"
proof -
  have "filter (\<lambda>e. le_reason e = ''usage'' \<and> le_ref_id e = i) (concat (map (\<lambda>b. balance_delta ctx b (f b)) bs)) = []" for bs
    by (induction bs) (simp_all add: quiet_delta[OF assms])
  then show ?thesis by (simp add: charges_def balance_update_def)
qed

lemma quiet_insert: "fst ctx \<noteq> ''usage'' \<Longrightarrow> charges i (balance_insert ctx b l) = charges i l"
  by (simp add: charges_def balance_insert_def trigger_entry_def)

lemma book_requests: "lv_requests (balance_update ctx p f l) = lv_requests l" "lv_requests (balance_insert ctx b l) = lv_requests l"
  by (simp_all add: balance_update_def balance_insert_def)

lemma keys_update: "(\<And>b. balance_key (f b) = balance_key b) \<Longrightarrow> map balance_key (update_where p f bs) = map balance_key bs"
  by (simp add: update_where_def)

lemma quiet_update_ok:
  assumes ok: "charged_ok l" and "fst ctx \<noteq> ''usage''" and f: "\<And>b. balance_key (f b) = balance_key b"
  shows "charged_ok (balance_update ctx p f l)"
proof (rule evolved_ok[OF ok])
  show "distinct (map balance_key (lv_balances (balance_update ctx p f l)))" using ok keys_update[of f p, OF f] by (simp add: balance_update_def charged_ok_def)
  show "distinct (map lr_id (lv_requests (balance_update ctx p f l)))" using ok by (simp add: balance_update_def charged_ok_def)
qed (use assms(2) in \<open>simp_all add: quiet_update book_requests\<close>)

lemma quiet_insert_ok:
  assumes ok: "charged_ok l" and "fst ctx \<noteq> ''usage''" and "balance_key b \<notin> balance_key ` set (lv_balances l)"
  shows "charged_ok (balance_insert ctx b l)"
proof (rule evolved_ok[OF ok])
  show "distinct (map balance_key (lv_balances (balance_insert ctx b l)))" using ok assms(3) by (simp add: balance_insert_def charged_ok_def)
  show "distinct (map lr_id (lv_requests (balance_insert ctx b l)))" using ok by (simp add: balance_insert_def charged_ok_def)
qed (use assms(2) in \<open>simp_all add: quiet_insert book_requests\<close>)

lemma grants_ok [simp]: "charged_ok (l\<lparr>lv_grants := g\<rparr>) = charged_ok l"
  by (simp add: charged_ok_def charges_def)

lemma no_such_balance: "find_first (same_balance u t y) bs = None \<longleftrightarrow> (u, t, y) \<notin> balance_key ` set bs"
  by (auto simp: find_first_def find_None_iff same_balance_def balance_key_def)

lemma accrue_one_ok:
  assumes one: "accrue_one i l = Some l'" and ok: "charged_ok l"
  shows "charged_ok l'"
proof (cases "find_first (same_balance (ai_user_id i) (ai_type i) (ai_year i)) (lv_balances l)")
  case (Some b)
  then show ?thesis using one ok by (auto simp: accrue_one_def Let_def balance_key_def split: if_splits intro!: quiet_update_ok)
next
  case None
  then have k: "(ai_user_id i, ai_type i, ai_year i) \<notin> balance_key ` set (lv_balances l)" by (simp add: no_such_balance)
  let ?ctx = "(''accrual'', ai_org_id i @ '':'' @ ai_user_id i @ '':'' @ take 7 (iso_date (civil_day (ai_year i) (ai_month i) 1)) @ '':'' @ ai_type i)"
  have nk: "item_key i \<notin> grant_key ` set (lv_grants l)"
  proof
    assume "item_key i \<in> grant_key ` set (lv_grants l)"
    then show False using one by (simp add: accrue_one_def)
  qed
  note eq = one[unfolded accrue_one_def if_not_P[OF nk] Let_def None option.case option.inject]
  obtain n g where l': "l' = balance_insert ?ctx \<lparr>lb_user_id = ai_user_id i, lb_org_id = ai_org_id i, lb_leave_type = ai_type i,
      lb_year = ai_year i, lb_total_days = n, lb_used_days = 0\<rparr> (l\<lparr>lv_grants := g\<rparr>)"
    by (rule that) (rule eq[symmetric])
  then show ?thesis using ok k unfolding l' by (intro quiet_insert_ok) (simp_all add: balance_key_def)
qed

lemma same_books_ok: "same_books a b \<Longrightarrow> charged_ok a \<Longrightarrow> charged_ok b"
  by (simp add: charged_ok_def charges_def same_books_def)

lemma accrual_ok: "charged_ok l \<Longrightarrow> runMonthlyAccrual tz now ids l = (n, (l', t, s)) \<Longrightarrow> charged_ok l'"
  by (rule accrual_invariant[where P = charged_ok, OF accrue_one_ok same_books_ok])

text \<open>The charge of an approval: the request was pending, so nothing is charged for it yet, and at most one
  balance has its key.\<close>

definition charge_entries :: "leave_request \<Rightarrow> leave_balance list \<Rightarrow> ledger_entry list" where
  "charge_entries r bs = concat (map (\<lambda>b. balance_delta (''usage'', lr_id r) b (b\<lparr>lb_used_days := lb_used_days b + lr_working_days r\<rparr>))
      (filter (same_balance (lr_user_id r) (lr_leave_type r) (yearOf (lr_start_date r))) bs))"

lemma one_charge:
  assumes "distinct (map balance_key bs)" and es: "es = charge_entries r bs"
  shows "length es \<le> 1 \<and> (\<forall>e\<in>set es. le_reason e = ''usage'' \<and> le_ref_id e = lr_id r \<and> le_user_id e = lr_user_id r \<and> le_leave_type e = lr_leave_type r \<and>
     le_year e = yearOf (lr_start_date r) \<and> le_used_delta e = lr_working_days r \<and> le_total_delta e = 0)"
proof
  let ?p = "same_balance (lr_user_id r) (lr_leave_type r) (yearOf (lr_start_date r))"
  have p: "?p b \<longleftrightarrow> balance_key b = (lr_user_id r, lr_leave_type r, yearOf (lr_start_date r))" for b by (simp add: same_balance_def balance_key_def)
  have "length (filter ?p bs) \<le> 1" using assms(1)
  proof (induction bs)
    case (Cons b bs)
    have "filter ?p bs = []" if "?p b" using Cons.prems that unfolding p by (auto simp: filter_empty_conv image_iff)
    then show ?case using Cons by (cases "?p b") simp_all
  qed simp
  then consider "filter ?p bs = []" | b where "filter ?p bs = [b]" by (cases "filter ?p bs") auto
  then show "length es \<le> 1" by cases (simp_all add: es charge_entries_def balance_delta_def Let_def)
  show "\<forall>e\<in>set es. le_reason e = ''usage'' \<and> le_ref_id e = lr_id r \<and> le_user_id e = lr_user_id r \<and> le_leave_type e = lr_leave_type r \<and>
     le_year e = yearOf (lr_start_date r) \<and> le_used_delta e = lr_working_days r \<and> le_total_delta e = 0"
    by (auto simp: es charge_entries_def balance_delta_def Let_def trigger_entry_def same_balance_def split: if_splits)
qed

lemma charge_ok:
  assumes ok: "charged_ok l" and x: "x \<in> set (lv_requests l)" "same_terms x r" and pend: "y \<in> set (lv_requests l)" "pending_leave d (lr_id r) y"
    and f: "\<And>x. same_terms (f x) x" "\<And>x. lr_status (f x) \<noteq> ''pending''"
  shows "charged_ok (charge_usage r (l\<lparr>lv_requests := update_where (pending_leave d (lr_id r)) f (lv_requests l)\<rparr>))" (is "charged_ok ?l'")
proof -
  let ?es = "charge_entries r (lv_balances l)"
  let ?m = "l\<lparr>lv_requests := update_where (pending_leave d (lr_id r)) f (lv_requests l)\<rparr>"
  have m: "charged_ok ?m" by (rule update_requests_ok[OF ok f])
  have keys: "distinct (map balance_key (lv_balances l))" and rids: "distinct (map lr_id (lv_requests l))" using ok by (simp_all add: charged_ok_def)
  note es = one_charge[OF keys refl, of r]
  have "lr_id y = lr_id r" "lr_status y = ''pending''" using pend(2) by (simp_all add: pending_leave_def)
  then have xy: "x = y" using x pend(1) rids by (metis distinct_map inj_onD same_terms_def)
  have none: "charges (lr_id r) l = []"
  proof (rule ccontr)
    assume "charges (lr_id r) l \<noteq> []"
    then obtain e where e: "e \<in> set (charges (lr_id r) l)" by (meson list.set_sel(1))
    then obtain z where "z \<in> set (lv_requests l)" "charge_of z e" using ok unfolding charged_ok_def by blast
    moreover have "le_ref_id e = lr_id r" using e by (simp add: charges_def)
    ultimately have "z = y" "lr_status z \<noteq> ''pending''" using pend \<open>lr_id y = lr_id r\<close> rids unfolding charge_of_def by (metis distinct_map inj_onD)+
    then show False using pend(2) by (simp add: pending_leave_def)
  qed
  have row: "f y \<in> set (lv_requests ?m)" using pend by (force simp: update_where_def)
  have new: "charge_of (f y) e" if "e \<in> set ?es" for e
    using es that x(2) xy f[of y] by (simp add: charge_of_def same_terms_def)
  have ledger: "lv_ledger ?l' = ?es @ lv_ledger l" by (simp add: charge_usage_def balance_update_def charge_entries_def)
  have ch: "charges i ?l' = (if i = lr_id r then ?es else charges i l)" for i
  proof -
    have "filter (\<lambda>e. le_reason e = ''usage'' \<and> le_ref_id e = i) ?es = (if i = lr_id r then ?es else [])" using es by (auto simp: filter_id_conv filter_empty_conv)
    then show ?thesis using none by (simp add: charges_def ledger)
  qed
  show ?thesis unfolding charged_ok_def
  proof (intro conjI allI ballI)
    show "distinct (map lr_id (lv_requests ?l'))" using m by (simp add: charge_usage_def book_requests charged_ok_def)
    show "distinct (map balance_key (lv_balances ?l'))"
      using keys keys_update[of "\<lambda>b. b\<lparr>lb_used_days := lb_used_days b + lr_working_days r\<rparr>"] by (simp add: charge_usage_def balance_update_def balance_key_def)
    show "length (charges i ?l') \<le> 1" for i using ch[of i] es ok by (simp add: charged_ok_def)
    fix i e
    assume e: "e \<in> set (charges i ?l')"
    show "\<exists>z\<in>set (lv_requests ?l'). charge_of z e"
    proof (cases "i = lr_id r")
      case True
      then show ?thesis using e ch[of i] new row by (auto simp: charge_usage_def book_requests)
    next
      case False
      then have "e \<in> set (charges i l)" using e ch[of i] by simp
      then have "e \<in> set (charges i ?m)" by (simp add: charges_def)
      then show ?thesis using m by (auto simp: charged_ok_def charge_usage_def book_requests)
    qed
  qed
qed

lemma submit_charged:
  assumes "rid \<notin> lr_id ` set (lv_requests l)" and "submitLeaveRequest tz now rid u org inp l = Inr (r, l')" and ok: "charged_ok l"
  shows "charged_ok l'"
proof -
  note s = submit_keeps_books[OF assms(2)]
  show ?thesis
  proof (rule evolved_ok[OF ok])
    show "distinct (map lr_id (lv_requests l'))" using s ok assms(1) by (auto simp: charged_ok_def)
    show "distinct (map balance_key (lv_balances l'))" using s ok by (simp add: charged_ok_def)
    show "evolves (lv_requests l) (lv_requests l')" using s by auto
  qed (use s in \<open>simp add: charges_def\<close>)
qed

lemma review_leave_charged:
  assumes run: "review_leave uuid d i db = Inr db'" and ok: "charged_ok (ap_leave db)"
  shows "charged_ok (ap_leave db')"
proof -
  obtain r where r: "find_first (\<lambda>r. lr_id r = i \<and> lr_org_id r = de_org d) (lv_requests (ap_leave db)) = Some r"
    using run by (auto simp: review_leave_def split: option.splits)
  then have row: "r \<in> set (lv_requests (ap_leave db))" "lr_id r = i" by (auto simp: find_first_def find_Some_iff)
  show ?thesis
  proof (cases "de_action d = Approve")
    case True
    let ?f = "\<lambda>x. x\<lparr>lr_status := ''approved'', lr_reviewed_by := Some (de_user d), lr_reviewed_at := Some (de_now d)\<rparr>"
    have "(\<exists>y\<in>set (lv_requests (ap_leave db)). pending_leave d i y) \<and>
        ap_leave db' = charge_usage r ((ap_leave db)\<lparr>lv_requests := update_where (pending_leave d i) ?f (lv_requests (ap_leave db))\<rparr>)"
      using run r row True by (auto simp: review_leave_def approve_leave_def Let_def charge_usage_def claim_pending_Inr)
    then show ?thesis using charge_ok[OF ok row(1) _ _ _, of r _ d ?f] row(2) by (auto simp: same_terms_def)
  next
    case False
    let ?f = "\<lambda>x. x\<lparr>lr_status := ''rejected'', lr_reviewed_by := Some (de_user d), lr_reviewed_at := Some (de_now d), lr_rejection_reason := Some (de_reason d)\<rparr>"
    have "ap_leave db' = (ap_leave db)\<lparr>lv_requests := update_where (pending_leave d i) ?f (lv_requests (ap_leave db))\<rparr>"
      using run r False by (auto simp: review_leave_def reject_leave_def claim_pending_Inr)
    moreover have "charged_ok ((ap_leave db)\<lparr>lv_requests := update_where (pending_leave d i) ?f (lv_requests (ap_leave db))\<rparr>)"
      by (rule update_requests_ok[OF ok]) (simp_all add: same_terms_def)
    ultimately show ?thesis by simp
  qed
qed

lemma review_charged: "reviewApproval env type i d db = Inr db' \<Longrightarrow> charged_ok (ap_leave db) \<Longrightarrow> charged_ok (ap_leave db')"
  by (cases type) (auto simp: reviewApproval_def Let_def dest: review_leave_charged review_others_leave)

lemma open_charged: "charged_ok l \<Longrightarrow> charged_ok (fold (open_balance u org year) xs l)"
proof (induction xs arbitrary: l)
  case (Cons x xs)
  have "charged_ok (open_balance u org year x l)"
  proof (cases "\<exists>b\<in>set (lv_balances l). same_balance u (fst x) year b")
    case False
    then have "(u, fst x, year) \<notin> balance_key ` set (lv_balances l)" by (auto simp: same_balance_def balance_key_def)
    then show ?thesis using Cons.prems False by (auto simp: open_balance_def balance_key_def intro!: quiet_insert_ok)
  qed (use Cons.prems in \<open>simp add: open_balance_def\<close>)
  then show ?case using Cons.IH by simp
qed simp

lemma leave_step_charged: "leave_step db db' \<Longrightarrow> charged_ok (ap_leave db) \<Longrightarrow> charged_ok (ap_leave db')"
proof (induction rule: leave_step.induct)
  case (accrual tz now ids db n l t s)
  then show ?case using accrual_ok by simp
next
  case (submit rid db tz now u org inp r l)
  then show ?case using submit_charged by simp
next
  case (inbox env type i d db db')
  then show ?case using review_charged by blast
next
  case (approve x db r uuid d holidays db')
  let ?f = "\<lambda>x. x\<lparr>lr_status := ''approved'', lr_reviewed_by := Some (de_user d), lr_reviewed_at := Some (de_now d)\<rparr>"
  have "(\<exists>y\<in>set (lv_requests (ap_leave db)). pending_leave d (lr_id r) y) \<and>
      ap_leave db' = charge_usage r ((ap_leave db)\<lparr>lv_requests := update_where (pending_leave d (lr_id r)) ?f (lv_requests (ap_leave db))\<rparr>)"
    using approve(3) by (auto simp: route_approve_commit_def claim_pending_Inr)
  then show ?case using charge_ok[OF approve(4,1,2), of _ d ?f] by (auto simp: same_terms_def)
next
  case (cancel i db db')
  then show ?case by (auto simp: cancel_leave_commit_def same_terms_def intro!: update_requests_ok)
next
  case (assistant u org i db db')
  then show ?case by (auto simp: cancel_by_assistant_def claim_pending_Inr same_terms_def intro!: update_requests_ok)
next
  case (reject d r db db')
  then show ?case by (auto simp: route_reject_commit_def same_terms_def intro!: update_requests_ok)
next
  case (adjust d year u b db db')
  then show ?case by (auto simp: adjust_balance_def Let_def balance_key_def intro!: quiet_update_ok)
next
  case (employee db u org year)
  then show ?case by (simp add: open_balances_def open_charged)
qed

text \<open>C13: however decisions through the inbox, decisions through the routes, cancellations,
  adjustments, accrual runs and new employees interleave, a leave request is charged to the balance at
  most once, in the year and type of the request, with its working days, and only after it was decided.\<close>

theorem leave_charged_once:
  assumes "leave_step\<^sup>*\<^sup>* db db'" and "charged_ok (ap_leave db)"
  shows "length (charges i (ap_leave db')) \<le> 1 \<and>
    list_all (\<lambda>e. list_ex (\<lambda>r. lr_id r = i \<and> lr_status r \<noteq> ''pending'' \<and> le_user_id e = lr_user_id r \<and> le_leave_type e = lr_leave_type r \<and>
        le_year e = yearOf (lr_start_date r) \<and> le_used_delta e = lr_working_days r \<and> le_total_delta e = 0) (lv_requests (ap_leave db')))
      (charges i (ap_leave db'))"
proof -
  have ok: "charged_ok (ap_leave db')" using assms by (induction rule: rtranclp_induct) (auto dest: leave_step_charged)
  moreover have "le_ref_id e = i" if "e \<in> set (charges i (ap_leave db'))" for e using that by (simp add: charges_def)
  ultimately show ?thesis unfolding charged_ok_def charge_of_def list_all_iff list_ex_iff by blast
qed

subsection \<open>One decision of a leave\<close>

datatype leave_decision = Inbox decision | Route "day \<Rightarrow> id" decision leave_request "day set"

fun decide_leave :: "review_env \<Rightarrow> id \<Rightarrow> id \<Rightarrow> leave_decision \<Rightarrow> approval_db \<Rightarrow> approval_db result" where
  "decide_leave env i org (Inbox d) db = reviewApproval env LeaveT i (d\<lparr>de_org := org\<rparr>) db"
| "decide_leave env i org (Route uuid d r holidays) db =
     require (lr_id r = i) PlainError (route_approve_commit uuid (d\<lparr>de_org := org\<rparr>) r holidays db)"

lemma route_approve_consumes:
  assumes "route_approve_commit uuid d r holidays db = Inr db'"
  shows "undecided LeaveT (lr_id r) (de_org d) db \<and> \<not> undecided LeaveT (lr_id r) (de_org d) db'"
proof -
  let ?f = "\<lambda>x. x\<lparr>lr_status := ''approved'', lr_reviewed_by := Some (de_user d), lr_reviewed_at := Some (de_now d)\<rparr>"
  obtain rows where claim: "claim_pending (pending_leave d (lr_id r)) ?f (lv_requests (ap_leave db)) = Inr rows"
    and db': "lv_requests (ap_leave db') = rows"
    using assms by (auto simp: route_approve_commit_def charge_usage_def book_requests)
  show ?thesis using claim_consumes[OF claim] db' by (simp add: pending_leave_def)
qed

interpretation either: single_shot "decide_leave env i org" "undecided LeaveT i org" for env i org
proof
  fix a db db'
  assume run: "decide_leave env i org a db = Inr db'"
  show "undecided LeaveT i org db \<and> \<not> undecided LeaveT i org db'"
  proof (cases a)
    case (Inbox d)
    then show ?thesis using run reviewApproval_consumes[of env LeaveT i "d\<lparr>de_org := org\<rparr>" db db'] by simp
  next
    case (Route uuid d r holidays)
    then show ?thesis using run route_approve_consumes[of uuid "d\<lparr>de_org := org\<rparr>" r holidays db db'] by auto
  qed
qed

text \<open>A request approved through the one way cannot be approved through the other.\<close>

lemma leave_decided_once: "fst (attempts (decide_leave env i org) ds db) \<le> 1"
  by (rule either.at_most_one)

subsection \<open>Examples and findings\<close>

definition lr_leave :: leave_db where
  "lr_leave = lv_db0\<lparr>lv_requests := [ap_request],
     lv_balances := [\<lparr>lb_user_id = ''v'', lb_org_id = ''o'', lb_leave_type = ''annual'', lb_year = 1970, lb_total_days = 20, lb_used_days = 0\<rparr>],
     lv_ledger := [\<lparr>le_user_id = ''v'', le_org_id = ''o'', le_leave_type = ''annual'', le_year = 1970, le_total_delta = 20,
       le_used_delta = 0, le_reason = ''opening_balance'', le_ref_id = []\<rparr>]\<rparr>"

definition lr_db :: approval_db where
  "lr_db = ap_db0\<lparr>ap_leave := lr_leave, ap_overtime := [\<lparr>ot_id = ''t1'', ot_org_id = ''o'', ot_user_id = ''v'', ot_attendance_id = ''a'',
       ot_requested_minutes = 90, ot_status = ''pending'', ot_reviewed_by = None, ot_rejection_reason = None, ot_created_at = 0\<rparr>],
     ap_attendance := [\<lparr>at_id = ''a'', at_user_id = ''v'', at_org_id = ''o'', at_location_id = None, at_date = 2, at_check_in_at = None, at_check_out_at = None,
       at_hours_worked = None, at_overtime_hours = None, at_extra_office_minutes = Some 90, at_check_in_type = ''qr'', at_status = ''present'',
       at_is_overridden = False, at_override_by = None, at_override_reason = None\<rparr>]\<rparr>"

lemma lr_db_ok: "charged_ok (ap_leave lr_db)" "books_match (ap_leave lr_db)"
  by (simp_all add: charged_ok_def charges_def books_match_def lr_db_def lr_leave_def lv_db0_def of_balance_def of_entry_def)

definition lr_approved :: "approval_db option" where
  "lr_approved = (case route_approve_commit (ev_uuid ap_env) ap_decision ap_request (route_holidays ap_request lr_db) lr_db of Inl _ \<Rightarrow> None | Inr db \<Rightarrow> Some db)"

definition lr_cancelled :: "approval_db option" where
  "lr_cancelled = Option.bind lr_approved (\<lambda>db. case cancel_leave_commit ''l1'' db of Inl _ \<Rightarrow> None | Inr db' \<Rightarrow> Some db')"

lemma lr_cancelled_steps:
  assumes "lr_cancelled = Some db'"
  shows "leave_step\<^sup>*\<^sup>* lr_db db'"
proof -
  obtain db1 where a: "lr_approved = Some db1" and c: "cancel_leave_commit ''l1'' db1 = Inr db'"
    using assms by (auto simp: lr_cancelled_def split: Option.bind_splits sum.splits)
  have "ap_request \<in> set (lv_requests (ap_leave lr_db))" "same_terms ap_request ap_request" by (simp_all add: lr_db_def lr_leave_def same_terms_def)
  moreover have "route_approve_commit (ev_uuid ap_env) ap_decision ap_request (route_holidays ap_request lr_db) lr_db = Inr db1"
    using a by (simp add: lr_approved_def split: sum.splits)
  ultimately have "leave_step lr_db db1" by (rule leave_step.approve)
  then show ?thesis using leave_step.cancel[OF c] by (meson rtranclp.rtrancl_into_rtrancl rtranclp.rtrancl_refl)
qed

text \<open>A request that is approved while its cancellation is under way ends up cancelled, but the days stay charged and
  marked as leave; so it is with a rejection.\<close>

lemma cancel_after_approval:
  "cancel_leave_plan ''v'' ''l1'' lr_db = Inr () \<and>
   map_option (\<lambda>db. (map lr_status (lv_requests (ap_leave db)), map lb_used_days (lv_balances (ap_leave db)),
     length (filter (\<lambda>a. at_status a = ''leave'') (ap_attendance db)))) lr_cancelled = Some ([''cancelled''], [6], 6)"
  by code_simp

lemma reject_after_approval:
  "route_reject_plan (ap_decision\<lparr>de_reason := ''no cover''\<rparr>) ''l1'' lr_db = Inr ap_request \<and>
   map_option (\<lambda>db. case route_reject_commit (ap_decision\<lparr>de_action := Reject, de_reason := ''no cover''\<rparr>) ap_request db of Inl _ \<Rightarrow> ([], [])
     | Inr db' \<Rightarrow> (map lr_status (lv_requests (ap_leave db')), map lb_used_days (lv_balances (ap_leave db')))) lr_approved = Some ([''rejected''], [6])"
  by code_simp

theorem leave_charged_once_witness:
  "\<exists>db'. lr_cancelled = Some db' \<and> map le_used_delta (charges ''l1'' (ap_leave db')) = [6] \<and> length (charges ''l1'' (ap_leave db')) \<le> 1"
proof -
  have v: "map_option (\<lambda>db. map le_used_delta (charges ''l1'' (ap_leave db))) lr_cancelled = Some [6]" by code_simp
  then obtain db' where db': "lr_cancelled = Some db'" and v': "map le_used_delta (charges ''l1'' (ap_leave db')) = [6]" by auto
  show ?thesis using leave_charged_once[OF lr_cancelled_steps[OF db'] lr_db_ok(1), of "''l1''", THEN conjunct1] db' v' by (intro exI conjI)
qed

theorem ledger_matches_balances_witness:
  "\<exists>db'. lr_cancelled = Some db' \<and>
     sum_list (map lb_used_days (filter (of_balance (''v'', ''annual'', 1970)) (lv_balances (ap_leave db')))) = 6 \<and>
     sum_list (map le_used_delta (filter (of_entry (''v'', ''annual'', 1970)) (lv_ledger (ap_leave db')))) = 6"
proof -
  have v: "map_option (\<lambda>db. sum_list (map lb_used_days (filter (of_balance (''v'', ''annual'', 1970)) (lv_balances (ap_leave db))))) lr_cancelled = Some 6" by code_simp
  then obtain db' where db': "lr_cancelled = Some db'"
    and v': "sum_list (map lb_used_days (filter (of_balance (''v'', ''annual'', 1970)) (lv_balances (ap_leave db')))) = 6" by auto
  show ?thesis using ledger_matches_balances[OF lr_cancelled_steps[OF db'] lr_db_ok(2), of "(''v'', ''annual'', 1970)"] db' v' by auto
qed

text \<open>The inbox refuses a leave over scheduled shifts, the route approves it.\<close>

lemma route_ignores_roster:
  "(let db = lr_db\<lparr>ap_assignments := [\<lparr>sa_id = ''s'', sa_user_id = ''v'', sa_shift_id = ''x'', sa_date = 5\<rparr>]\<rparr> in
     (reviewApproval ap_env LeaveT ''l1'' ap_decision db, route_review_plan ap_decision ''l1'' db,
      case route_approve_commit (ev_uuid ap_env) ap_decision ap_request {} db of Inl _ \<Rightarrow> [] | Inr db' \<Rightarrow> map lr_status (lv_requests (ap_leave db')))) =
   (Inl ValidationError, Inr ap_request, [''approved''])"
  by code_simp

definition overtime_lead :: decision where
  "overtime_lead = ap_decision\<lparr>de_reason := ''no budget''\<rparr>"

definition lr_overtime :: "approval_db option" where
  "lr_overtime = (case overtime_approve_commit overtime_lead (hd (ap_overtime lr_db)) (remaining_extra (hd (ap_overtime lr_db)) lr_db) lr_db of Inl _ \<Rightarrow> None | Inr db \<Rightarrow> Some db)"

text \<open>A rejection that was checked before an approval overwrites it and leaves the hours on the record.\<close>

lemma overtime_rejected_but_booked:
  "map_option (\<lambda>db. case overtime_reject_commit overtime_lead (hd (ap_overtime lr_db)) db of Inl _ \<Rightarrow> ([], [])
     | Inr db' \<Rightarrow> (map ot_status (ap_overtime db'), map at_overtime_hours (ap_attendance db'))) lr_overtime = Some ([''rejected''], [Some (3 / 2)])"
  by code_simp

text \<open>A submission that was checked before another one was approved reopens the approved request.\<close>

lemma overtime_resubmission_reopens:
  "(let db = lr_db\<lparr>ap_overtime := []\<rparr>; flags = (\<lambda>_. Some (True, True)) in
     (overtime_submit_plan flags ''v'' ''o'' ''a'' db,
      map_option (\<lambda>db'. map ot_status (ap_overtime (overtime_submit_commit 1 ''t2'' ''v'' ''o'' ''a'' 90 db'))) lr_overtime)) = (Inr 90, Some [''pending''])"
  by code_simp

end
