(* ===== verification/Spec2Isabelle.thy ===== *)
theory Spec2Isabelle
  imports Prelude Calendar ShiftTime PayrollMath PayRates PayrollRun PayrollLifecycle PayrollRules Sessions Access Delivery Idempotency Leave Approvals Breaks Network
    Json QrCode Devices Geofence AttendanceBase Attendance CheckIn AttendanceJobs AttendanceInv AttendanceProps AttendanceSync
    Coordination JobSchedules Journal Compliance Shifts Roster Publish FieldOps Projects TimeTracking LeaveRoutes
begin

text \<open>
  A verification development of the Attenda API, a multi-tenant attendance, leave and payroll
  service (TypeScript, Express, Prisma on PostgreSQL, Redis).

  \<^bold>\<open>The program.\<close> HTTP handlers under \<^verbatim>\<open>src/src/routes\<close> check the caller with the guards of
  \<^verbatim>\<open>middleware/auth.ts\<close>, may be wrapped in the idempotency middleware, and read and write the tables
  of \<^verbatim>\<open>prisma/schema.prisma\<close>, partly through \<^verbatim>\<open>src/src/services\<close>.  Background jobs publish the
  transactional outbox, deliver webhooks, accrue leave and purge.  Time is handled in the zone of
  the organisation or location by the helpers of \<^verbatim>\<open>src/src/utils\<close>.

  \<^bold>\<open>How it is modelled.\<close> A table is a list of records, a handler a function from the tables it touches
  to an error (\<open>Inl\<close>, with status and code) or the new tables; a thrown error rolls the transaction
  back, so the caller keeps the old state.  Where the code awaits between statements that are not in
  one transaction and another request can interleave, the parts are separate steps of an inductive
  relation (\<open>payroll_step\<close>, \<open>session_step\<close>, \<open>idem_step\<close>, \<open>queue_run\<close>, \<open>leave_step\<close>,
  \<open>device_run\<close>, \<open>day_step\<close>, \<open>lease_step\<close>), or actions of a sequence that \<open>attempts\<close> runs, skipping the
  refused ones (\<open>template_act\<close>, \<open>roster_act\<close>, \<open>project_act\<close>, \<open>time_act\<close>).  The clock, fresh ids,
  the time zone database, JWT, HMAC, SHA-256, AES-GCM, HTTP requests and the state of Redis are
  arguments.  Money, hours and percentages are exact rationals with the code's rounding written
  out; binary floating point is not modelled.  Message texts are left out; that a notification, an
  audit row or an organisation event is emitted is kept.

  \<^bold>\<open>The theories.\<close>
  \<^item> \<open>Prelude\<close>: error values (\<^verbatim>\<open>utils/response.ts\<close>), the JavaScript numbers and strings the code uses,
    table operations, and the locale \<open>single_shot\<close>, the contract of a conditional update that succeeds
    at most once.  \<open>Calendar\<close>: the proleptic Gregorian calendar behind \<open>Date\<close> and ISO date keys.
  \<^item> \<open>ShiftTime\<close>: \<^verbatim>\<open>utils/shift.ts\<close>, \<^verbatim>\<open>utils/localWeek.ts\<close>, \<^verbatim>\<open>utils/attendanceClock.ts\<close>,
    \<^verbatim>\<open>utils/offlineAttendanceEvent.ts\<close>: lateness around midnight, scheduled windows, local weeks, and
    the bounds on the time an offline event may claim.
  \<^item> \<open>PayrollMath\<close>, \<open>PayRates\<close>, \<open>PayrollRun\<close>, \<open>PayrollLifecycle\<close>, \<open>PayrollRules\<close>: \<^verbatim>\<open>utils/payroll.ts\<close>,
    \<^verbatim>\<open>services/statutoryPayroll.ts\<close>, \<^verbatim>\<open>services/payRates.ts\<close>, \<^verbatim>\<open>routes/payroll.ts\<close>, \<^verbatim>\<open>routes/expenses.ts\<close>.
    The locale \<open>dated_register\<close> (registers of effective-dated rows) is interpreted for pay rates and for
    statutory parameter sets.  Shown: four eyes and immutability of processed pay in every reachable
    state, unambiguous rates and parameter sets, arithmetic of gross, tax and net pay, the stale-input
    guard, and single reimbursement of a claim.
  \<^item> \<open>Sessions\<close>: \<^verbatim>\<open>services/refreshTokens.ts\<close> under arbitrary interleaving.  \<open>Access\<close>:
    \<^verbatim>\<open>services/authorization.ts\<close>, \<^verbatim>\<open>services/locationScope.ts\<close>, \<^verbatim>\<open>middleware/auth.ts\<close>.  Shown: a token is
    rotated once, reuse revokes the family, revoked sessions are refused, the meaning of role, allow
    and deny, and least privilege of API keys.
  \<^item> \<open>Delivery\<close>: \<^verbatim>\<open>services/outbox.ts\<close>, \<^verbatim>\<open>services/webhookDelivery.ts\<close>; the locale \<open>retry_queue\<close> is interpreted
    for both queues.  Shown: exclusive claims and fenced settlements, a batch refines the row-by-row
    specification, the bound on attempts, and that hourly runs empty the outbox.
  \<^item> \<open>Idempotency\<close>: \<^verbatim>\<open>middleware/idempotency.ts\<close>, \<^verbatim>\<open>utils/idempotencyResponse.ts\<close>.  Shown: a handler is
    started again for a key only after the earlier start was refused or expired, and replays give the
    first answer back, sealed or not.
  \<^item> \<open>Leave\<close>: \<^verbatim>\<open>services/holidays.ts\<close>, \<^verbatim>\<open>services/leaveAccrual.ts\<close>, \<^verbatim>\<open>services/leaveLedger.ts\<close> with the
    database trigger, \<^verbatim>\<open>services/leave-request.ts\<close>.  \<open>Approvals\<close>: \<^verbatim>\<open>services/approval-workflows.ts\<close>; the
    locale \<open>single_shot\<close> is interpreted for all eight kinds of requests.  \<open>LeaveRoutes\<close>: the writing
    handlers of \<^verbatim>\<open>routes/leave.ts\<close> and \<^verbatim>\<open>routes/overtime.ts\<close> beside the inbox, and the submissions of overtime
    and corrections; \<open>leave_step\<close> interleaves all that touches the books of leave.  Shown: the working-day
    count, repeatable accrual runs, decisions taken once and only by reviewers in scope, the attendance
    days an approved leave marks, that the ledger adds up to the balances and that a leave is charged at
    most once.
  \<^item> \<open>Breaks\<close>: \<^verbatim>\<open>utils/attendance.ts\<close>; settling a checkout is consistent and repeatable.  \<open>Network\<close>: the
    CIDR matching of \<^verbatim>\<open>utils/auth.ts\<close> on 32-bit words.  \<open>Json\<close>: JSON values.  \<open>QrCode\<close>:
    \<^verbatim>\<open>services/qrcode.ts\<close>, the codes that are accepted.
  \<^item> \<open>Devices\<close>: \<^verbatim>\<open>routes/attendance-devices.ts\<close> and the device proof of a check-in; challenges are accepted
    once and a verified proof covers the request.  \<open>Geofence\<close>: \<^verbatim>\<open>utils/attendanceSecurity.ts\<close> over the
    reals; parsed policies are well formed, the distance is the great-circle distance, and inside and
    outside are reported only when the stated accuracy allows no other answer.
  \<^item> \<open>AttendanceBase\<close>, \<open>Attendance\<close>, \<open>CheckIn\<close>: the writing endpoints of \<^verbatim>\<open>routes/attendance.ts\<close>, each split
    into the part that reads and decides (a plan) and the transaction that re-checks and writes (a
    commit), so that other requests can run in between; \<open>AttendanceJobs\<close>: the attendance jobs of
    \<^verbatim>\<open>jobs/scheduler.ts\<close>.  \<open>AttendanceInv\<close>: the invariant of an attendance day under all interleavings
    (\<open>day_step\<close>).  \<open>AttendanceProps\<close>: one checkout per record, with figures that match the stored
    breaks (an interpretation of \<open>single_shot\<close>), lateness, overnight shifts, and lemmas that exhibit
    the behaviours listed as findings.

  \<^item> \<open>AttendanceSync\<close>: the offline queue of \<^verbatim>\<open>routes/attendance.ts\<close>; events of a device are executed in
    their order, and none after one that failed.
  \<^item> \<open>Coordination\<close>, \<open>JobSchedules\<close>: \<^verbatim>\<open>utils/redisLease.ts\<close>, \<^verbatim>\<open>services/payrollCoordination.ts\<close>,
    \<^verbatim>\<open>services/schedulerState.ts\<close>, \<^verbatim>\<open>services/orgJobSchedules.ts\<close>, \<^verbatim>\<open>utils/schedulerCandidates.ts\<close>: leases
    exclude each other, notification markers are given out once, a completed job is due later.
  \<^item> \<open>Journal\<close>: \<^verbatim>\<open>services/payrollJournal.ts\<close>, the grouping of payroll records into journal lines; debits
    and credits balance in every period and currency.
  \<^item> \<open>Compliance\<close>: \<^verbatim>\<open>services/compliance\<close>, the evaluation of a schedule; what a schedule without findings
    guarantees.
  \<^item> \<open>Shifts\<close>, \<open>Roster\<close>, \<open>Publish\<close>, \<open>FieldOps\<close>: \<^verbatim>\<open>routes/shifts.ts\<close>, the copying of a week in
    \<^verbatim>\<open>routes/shift-planning.ts\<close>, \<^verbatim>\<open>services/scheduleIssues.ts\<close>, \<^verbatim>\<open>routes/shift-field-ops.ts\<close>.  Shown: one
    default and one organisation-wide template, one shift per employee and day under every sequence of
    assignment operations, the accounting of bulk requests, publication only past its blocking
    findings or with a recorded override, and claims of emergency shifts that fit the claimant's other
    shifts and succeed once (an interpretation of \<open>single_shot\<close>).
  \<^item> \<open>Projects\<close>: \<^verbatim>\<open>routes/projects.ts\<close> without attachments and comments and
    \<^verbatim>\<open>services/projectGoalProgress.ts\<close>; the search for cycles ends, refuses exactly the dependencies that
    would close a cycle, and so the dependencies of tasks stay acyclic.
  \<^item> \<open>TimeTracking\<close>: \<^verbatim>\<open>routes/time-tracking.ts\<close> and the timer that a checkout stops; no instant is counted
    twice for an employee, approved time is final, and the totals of a project report agree.

  \<^bold>\<open>Loops and bounds.\<close> No model uses fuel.  Loops over rows are folds, loops over days and JSON values are
  recursive functions with a measure; the search for cycles among tasks terminates because the tasks
  with edges that it has not visited decrease, and, when they do not, the list of tasks still to try.
  The numeric limits (eight attempts, five and ten minute
  leases, 24 hours of retention, 256 KiB responses) are the constants of the code.

  \<^bold>\<open>Not modelled.\<close> User and organisation administration, login, onboarding and offboarding, the
  maintenance of availability rules, holidays, overtime rules and compliance rules, the lateness policy, and the jobs of
  the scheduler that remind, report and detect absences; of the modelled routes the read-only endpoints,
  unless they write.  These rest on the same guards and tables.
  Messaging transports, the AI assistant, reports and exports, process start-up and the
  declarative input schemas hold no logic that a model would show more of than the code does; where
  a model relies on what a schema guarantees, it says so.
\<close>

end
